(* ===== verification/Prelude.thy ===== *)
theory Prelude
  imports Main "HOL-Library.Word"
begin

text \<open>
  What every component shares: bytes and strings as Go has them, the parts of the packages
  \<open>strings\<close>, \<open>strconv\<close> and \<open>unicode/utf8\<close> the sources call, signed 64-bit addition, and the
  generic lemmas on lists the component proofs use.  A Go string is a byte sequence, so a
  \<open>string\<close> of the model is a list of \<open>char\<close> (one \<open>char\<close> per byte) and a \<open>[]byte\<close> is a list of
  \<open>8 word\<close>; \<open>bytes_of\<close> and \<open>string_of\<close> are the two conversions.
\<close>

unbundle bit_operations_syntax

named_theorems go_simps \<open>defining equations of the modelled standard library functions\<close>

type_synonym byte = "8 word"
type_synonym bytes = "8 word list"

subsection \<open>Bytes and strings\<close>

definition byte_of_char :: "char \<Rightarrow> byte" where
  "byte_of_char c = of_nat (of_char c)"

definition char_of_byte :: "byte \<Rightarrow> char" where
  "char_of_byte b = char_of (unat b)"

definition bytes_of :: "string \<Rightarrow> bytes" where
  "bytes_of s = map byte_of_char s"

definition string_of :: "bytes \<Rightarrow> string" where
  "string_of bs = map char_of_byte bs"

lemma of_char_less_256 [simp]: "(of_char c :: nat) < 256"
proof -
  have "(of_char c :: nat) = of_char (char_of (of_char c :: nat))" by simp
  also have "\<dots> = (of_char c :: nat) mod 256" by (simp only: of_char_of)
  also have "\<dots> < 256" by simp
  finally show ?thesis .
qed

lemma char_of_byte_of_char [simp]: "char_of_byte (byte_of_char c) = c"
  by (simp add: char_of_byte_def byte_of_char_def unat_of_nat)

lemma byte_of_char_of_byte [simp]: "byte_of_char (char_of_byte b) = b"
proof -
  have "unat b < 256" using unsigned_less [of b, where ?'a = nat] by simp
  then show ?thesis by (simp add: char_of_byte_def byte_of_char_def)
qed

lemma string_of_bytes_of [simp]: "string_of (bytes_of s) = s"
  by (simp add: string_of_def bytes_of_def o_def)

lemma bytes_of_string_of [simp]: "bytes_of (string_of b) = b"
  by (simp add: string_of_def bytes_of_def o_def)

lemma length_bytes_of [simp]: "length (bytes_of s) = length s"
  by (simp add: bytes_of_def)

lemma length_string_of [simp]: "length (string_of b) = length b"
  by (simp add: string_of_def)

lemma bytes_of_eq_Nil [simp]: "bytes_of s = [] \<longleftrightarrow> s = []"
  by (simp add: bytes_of_def)

subsection \<open>Package strings\<close>

definition has_prefix :: "'a list \<Rightarrow> 'a list \<Rightarrow> bool" where
  "has_prefix s p \<longleftrightarrow> length p \<le> length s \<and> take (length p) s = p"

definition has_suffix :: "'a list \<Rightarrow> 'a list \<Rightarrow> bool" where
  "has_suffix s p \<longleftrightarrow> length p \<le> length s \<and> drop (length s - length p) s = p"

definition trim_prefix :: "'a list \<Rightarrow> 'a list \<Rightarrow> 'a list" where
  "trim_prefix s p = (if has_prefix s p then drop (length p) s else s)"

definition trim_suffix :: "'a list \<Rightarrow> 'a list \<Rightarrow> 'a list" where
  "trim_suffix s p = (if has_suffix s p then take (length s - length p) s else s)"

text \<open>\<open>strings.Contains\<close>: some suffix of the text starts with the pattern.\<close>

fun contains_str :: "'a list \<Rightarrow> 'a list \<Rightarrow> bool" where
  "contains_str [] p = (p = [])"
| "contains_str (c # cs) p = (has_prefix (c # cs) p \<or> contains_str cs p)"

fun replace_char :: "'a \<Rightarrow> 'a \<Rightarrow> 'a list \<Rightarrow> 'a list" where
  "replace_char a b [] = []"
| "replace_char a b (c # cs) = (if c = a then b else c) # replace_char a b cs"

lemma has_prefix_append [simp]: "has_prefix (p @ s) p"
  by (simp add: has_prefix_def)

lemma has_prefixD: "has_prefix s p \<Longrightarrow> \<exists>r. s = p @ r"
  by (metis has_prefix_def append_take_drop_id)

lemma has_prefix_iff: "has_prefix s p \<longleftrightarrow> (\<exists>r. s = p @ r)"
  by (auto dest: has_prefixD)

lemma has_suffix_iff: "has_suffix s p \<longleftrightarrow> (\<exists>r. s = r @ p)"
proof
  assume "has_suffix s p"
  then show "\<exists>r. s = r @ p"
    by (metis has_suffix_def append_take_drop_id)
qed (auto simp: has_suffix_def)

lemma trim_prefix_append [simp]: "trim_prefix (p @ s) p = s"
  by (simp add: trim_prefix_def)

lemma trim_suffix_append [simp]: "trim_suffix (s @ p) p = s"
  by (simp add: trim_suffix_def has_suffix_def)

lemma contains_str_iff: "contains_str s p \<longleftrightarrow> (\<exists>a b. s = a @ p @ b)"
proof (induction s)
  case (Cons c cs)
  show ?case
  proof
    assume "contains_str (c # cs) p"
    then consider "has_prefix (c # cs) p" | "contains_str cs p" by auto
    then show "\<exists>a b. c # cs = a @ p @ b"
    proof cases
      case 1
      then show ?thesis by (metis append_Nil has_prefixD)
    next
      case 2
      then show ?thesis using Cons.IH by (metis append_Cons)
    qed
  next
    assume "\<exists>a b. c # cs = a @ p @ b"
    then obtain a b where ab: "c # cs = a @ p @ b" by blast
    show "contains_str (c # cs) p"
    proof (cases a)
      case Nil
      then have "has_prefix (c # cs) p" using ab by (auto simp: has_prefix_iff)
      then show ?thesis by simp
    next
      case (Cons d ds)
      then have "cs = ds @ p @ b" using ab by simp
      then show ?thesis using Cons.IH by auto
    qed
  qed
qed auto

lemma replace_char_notin: "a \<noteq> b \<Longrightarrow> a \<notin> set (replace_char a b s)"
  by (induction s) auto

subsection \<open>Decimal integers (fmt %d, strconv.FormatInt)\<close>

fun digits_nat :: "nat \<Rightarrow> string" where
  "digits_nat n = (if n < 10 then [char_of (48 + n)] else digits_nat (n div 10) @ [char_of (48 + n mod 10)])"

declare digits_nat.simps [simp del]

definition itoa :: "int \<Rightarrow> string" where
  "itoa i = (if i < 0 then CHR ''-'' # digits_nat (nat (- i)) else digits_nat (nat i))"

definition is_digit :: "char \<Rightarrow> bool" where
  "is_digit c \<longleftrightarrow> 48 \<le> (of_char c :: nat) \<and> (of_char c :: nat) \<le> 57"

definition digit_val :: "char \<Rightarrow> nat" where
  "digit_val c = of_char c - 48"

definition nat_of_digits :: "string \<Rightarrow> nat" where
  "nat_of_digits s = foldl (\<lambda>n c. 10 * n + digit_val c) 0 s"

text \<open>\<open>strconv.ParseInt\<close> in base 10 at 64 bits: an optional sign, then digits only, the value
  in range.\<close>

definition parse_int :: "string \<Rightarrow> int option" where
  "parse_int s =
     (let (neg, ds) = (case s of c # cs \<Rightarrow> if c = CHR ''-'' then (True, cs)
                                          else if c = CHR ''+'' then (False, cs) else (False, s)
                               | [] \<Rightarrow> (False, []));
          v = int (nat_of_digits ds);
          i = (if neg then - v else v)
      in if ds \<noteq> [] \<and> list_all is_digit ds \<and> - (2 ^ 63) \<le> i \<and> i < 2 ^ 63 then Some i else None)"

lemma of_char_digit [simp]: "k < 10 \<Longrightarrow> (of_char (char_of (48 + k :: nat)) :: nat) = 48 + k"
  by simp

lemma digits_nat_ne [simp]: "digits_nat n \<noteq> []"
  by (subst digits_nat.simps) simp

lemma digits_nat_digits: "list_all is_digit (digits_nat n)"
proof (induction n rule: digits_nat.induct)
  case (1 n)
  show ?case
  proof (cases "n < 10")
    case True
    then show ?thesis by (simp add: digits_nat.simps [of n] is_digit_def)
  next
    case False
    then show ?thesis using 1 by (simp add: digits_nat.simps [of n] is_digit_def)
  qed
qed

lemma nat_of_digits_snoc: "nat_of_digits (s @ [c]) = 10 * nat_of_digits s + digit_val c"
  by (simp add: nat_of_digits_def)

lemma nat_of_digits_nat [simp]: "nat_of_digits (digits_nat n) = n"
proof (induction n rule: digits_nat.induct)
  case (1 n)
  show ?case
  proof (cases "n < 10")
    case True
    then show ?thesis by (simp add: digits_nat.simps [of n] nat_of_digits_def digit_val_def)
  next
    case False
    then show ?thesis
      using 1 by (simp add: digits_nat.simps [of n] nat_of_digits_snoc digit_val_def)
  qed
qed

lemma digits_nat_inject [simp]: "digits_nat m = digits_nat n \<longleftrightarrow> m = n"
  by (metis nat_of_digits_nat)

lemma hd_digits_nat: "is_digit (hd (digits_nat n))"
  using digits_nat_digits [of n] by (cases "digits_nat n") auto

lemma not_digit_sign [simp]: "\<not> is_digit (CHR ''-'')" "\<not> is_digit (CHR ''+'')" "\<not> is_digit (CHR '':'')"
  by (simp_all add: is_digit_def)

lemma parse_int_itoa: "- (2 ^ 63) \<le> i \<Longrightarrow> i < 2 ^ 63 \<Longrightarrow> parse_int (itoa i) = Some i"
proof (cases "i < 0")
  case True
  assume "- (2 ^ 63) \<le> i" "i < 2 ^ 63"
  then show ?thesis
    using True digits_nat_digits [of "nat (- i)"] by (simp add: parse_int_def itoa_def)
next
  case False
  assume i: "- (2 ^ 63) \<le> i" "i < 2 ^ 63"
  obtain c cs where c: "digits_nat (nat i) = c # cs" by (cases "digits_nat (nat i)") auto
  have "is_digit c" using hd_digits_nat [of "nat i"] c by simp
  then have "c \<noteq> CHR ''-''" "c \<noteq> CHR ''+''" by auto
  then show ?thesis
    using False i digits_nat_digits [of "nat i"] nat_of_digits_nat [of "nat i"]
    by (simp add: parse_int_def itoa_def c del: nat_of_digits_nat)
qed

lemma itoa_inject: "itoa i = itoa j \<longleftrightarrow> i = j"
proof
  assume eq: "itoa i = itoa j"
  have d: "CHR ''-'' \<notin> set (digits_nat n)" for n
    using digits_nat_digits [of n] by (auto simp: list_all_iff)
  show "i = j"
    using eq d by (auto simp: itoa_def eq_nat_nat_iff split: if_splits)
      (metis list.set_intros(1))+
qed simp

lemma itoa_no_colon: "CHR '':'' \<notin> set (itoa i)"
proof -
  have "CHR '':'' \<notin> set (digits_nat n)" for n
    using digits_nat_digits [of n] by (auto simp: list_all_iff)
  then show ?thesis by (simp add: itoa_def)
qed

subsection \<open>Signed 64-bit addition\<close>

definition wrap64 :: "int \<Rightarrow> int" where
  "wrap64 i = (i + 2 ^ 63) mod 2 ^ 64 - 2 ^ 63"

lemma wrap64_id [simp]: "- (2 ^ 63) \<le> i \<Longrightarrow> i < 2 ^ 63 \<Longrightarrow> wrap64 i = i"
  by (simp add: wrap64_def)

lemma wrap64_range: "- (2 ^ 63) \<le> wrap64 i \<and> wrap64 i < 2 ^ 63"
proof -
  have "0 \<le> (i + 2 ^ 63) mod 2 ^ 64" "(i + 2 ^ 63) mod 2 ^ 64 < 2 ^ 64" by simp_all
  then show ?thesis by (simp add: wrap64_def)
qed

text \<open>The conversion \<open>int32(x)\<close>.\<close>

definition wrap32 :: "int \<Rightarrow> int" where
  "wrap32 i = (i + 2 ^ 31) mod 2 ^ 32 - 2 ^ 31"

subsection \<open>Package encoding/binary, big endian\<close>

definition put_uint16 :: "16 word \<Rightarrow> bytes" where
  "put_uint16 v = [ucast (drop_bit 8 v), ucast v]"

definition get_uint16 :: "byte \<Rightarrow> byte \<Rightarrow> 16 word" where
  "get_uint16 a b = ucast b OR push_bit 8 (ucast a)"

definition put_uint32 :: "32 word \<Rightarrow> bytes" where
  "put_uint32 v = [ucast (drop_bit 24 v), ucast (drop_bit 16 v), ucast (drop_bit 8 v), ucast v]"

definition get_uint32 :: "byte \<Rightarrow> byte \<Rightarrow> byte \<Rightarrow> byte \<Rightarrow> 32 word" where
  "get_uint32 a b c d =
     ucast d OR push_bit 8 (ucast c) OR push_bit 16 (ucast b) OR push_bit 24 (ucast a)"

lemma get_put_uint16: "put_uint16 v = [a, b] \<Longrightarrow> get_uint16 a b = v"
  by (rule bit_word_eqI) (auto simp: put_uint16_def get_uint16_def bit_simps)

lemma get_put_uint32: "put_uint32 v = [a, b, c, d] \<Longrightarrow> get_uint32 a b c d = v"
proof (rule bit_word_eqI)
  fix n
  assume v: "put_uint32 v = [a, b, c, d]" and n: "n < LENGTH(32)"
  consider "n < 8" | "8 \<le> n" "n < 16" | "16 \<le> n" "n < 24" | "24 \<le> n" "n < 32" using n by force
  then show "bit (get_uint32 a b c d) n = bit v n"
    using v by cases (auto simp: put_uint32_def get_uint32_def bit_simps)
qed

lemma byte_bit_high [simp]: "8 \<le> n \<Longrightarrow> \<not> bit (b :: byte) n"
  using bit_imp_le_length [of b n] by auto

lemma put_get_uint16: "put_uint16 (get_uint16 a b) = [a, b]"
  by (auto simp: put_uint16_def get_uint16_def bit_simps intro!: bit_word_eqI)

lemma put_get_uint32: "put_uint32 (get_uint32 a b c d) = [a, b, c, d]"
  by (auto simp: put_uint32_def get_uint32_def bit_simps intro!: bit_word_eqI)

lemma length_put_uint [simp]: "length (put_uint16 v) = 2" "length (put_uint32 w) = 4"
  by (simp_all add: put_uint16_def put_uint32_def)

text \<open>The accumulator of a constant-time comparison.\<close>

lemma or_xor_eq_0: "v OR (d XOR p) = 0 \<longleftrightarrow> v = 0 \<and> d = (p :: byte)"
proof
  assume "v OR (d XOR p) = 0"
  then have "v = 0" "d XOR p = 0" by (simp_all add: or_eq_0_iff)
  then have "d XOR (d XOR p) = d" by simp
  then show "v = 0 \<and> d = p" using \<open>v = 0\<close> by (simp flip: xor.assoc)
qed simp

end
