(* ===== verification/AES.thy ===== *)
theory AES
  imports Prelude
begin

text \<open>
  AES-128 as \<open>crypto/aes\<close> provides it to \<open>pkg/codec\<close>: the key schedule, one block encrypted and
  one block decrypted (FIPS 197).  A block is a list of 16 bytes in column order.  The main
  result is that decryption undoes encryption for every key and block; the transport codec uses
  it through the interface \<open>block_cipher\<close>.
\<close>

subsection \<open>The substitution box\<close>

definition sbox0 :: "bytes" where
  "sbox0 =
     [0x63, 0x7c, 0x77, 0x7b, 0xf2, 0x6b, 0x6f, 0xc5, 0x30, 0x01, 0x67, 0x2b, 0xfe, 0xd7, 0xab, 0x76,
      0xca, 0x82, 0xc9, 0x7d, 0xfa, 0x59, 0x47, 0xf0, 0xad, 0xd4, 0xa2, 0xaf, 0x9c, 0xa4, 0x72, 0xc0,
      0xb7, 0xfd, 0x93, 0x26, 0x36, 0x3f, 0xf7, 0xcc, 0x34, 0xa5, 0xe5, 0xf1, 0x71, 0xd8, 0x31, 0x15,
      0x04, 0xc7, 0x23, 0xc3, 0x18, 0x96, 0x05, 0x9a, 0x07, 0x12, 0x80, 0xe2, 0xeb, 0x27, 0xb2, 0x75,
      0x09, 0x83, 0x2c, 0x1a, 0x1b, 0x6e, 0x5a, 0xa0, 0x52, 0x3b, 0xd6, 0xb3, 0x29, 0xe3, 0x2f, 0x84,
      0x53, 0xd1, 0x00, 0xed, 0x20, 0xfc, 0xb1, 0x5b, 0x6a, 0xcb, 0xbe, 0x39, 0x4a, 0x4c, 0x58, 0xcf,
      0xd0, 0xef, 0xaa, 0xfb, 0x43, 0x4d, 0x33, 0x85, 0x45, 0xf9, 0x02, 0x7f, 0x50, 0x3c, 0x9f, 0xa8,
      0x51, 0xa3, 0x40, 0x8f, 0x92, 0x9d, 0x38, 0xf5, 0xbc, 0xb6, 0xda, 0x21, 0x10, 0xff, 0xf3, 0xd2,
      0xcd, 0x0c, 0x13, 0xec, 0x5f, 0x97, 0x44, 0x17, 0xc4, 0xa7, 0x7e, 0x3d, 0x64, 0x5d, 0x19, 0x73,
      0x60, 0x81, 0x4f, 0xdc, 0x22, 0x2a, 0x90, 0x88, 0x46, 0xee, 0xb8, 0x14, 0xde, 0x5e, 0x0b, 0xdb,
      0xe0, 0x32, 0x3a, 0x0a, 0x49, 0x06, 0x24, 0x5c, 0xc2, 0xd3, 0xac, 0x62, 0x91, 0x95, 0xe4, 0x79,
      0xe7, 0xc8, 0x37, 0x6d, 0x8d, 0xd5, 0x4e, 0xa9, 0x6c, 0x56, 0xf4, 0xea, 0x65, 0x7a, 0xae, 0x08,
      0xba, 0x78, 0x25, 0x2e, 0x1c, 0xa6, 0xb4, 0xc6, 0xe8, 0xdd, 0x74, 0x1f, 0x4b, 0xbd, 0x8b, 0x8a,
      0x70, 0x3e, 0xb5, 0x66, 0x48, 0x03, 0xf6, 0x0e, 0x61, 0x35, 0x57, 0xb9, 0x86, 0xc1, 0x1d, 0x9e,
      0xe1, 0xf8, 0x98, 0x11, 0x69, 0xd9, 0x8e, 0x94, 0x9b, 0x1e, 0x87, 0xe9, 0xce, 0x55, 0x28, 0xdf,
      0x8c, 0xa1, 0x89, 0x0d, 0xbf, 0xe6, 0x42, 0x68, 0x41, 0x99, 0x2d, 0x0f, 0xb0, 0x54, 0xbb, 0x16]"

definition sbox1 :: "bytes" where
  "sbox1 =
     [0x52, 0x09, 0x6a, 0xd5, 0x30, 0x36, 0xa5, 0x38, 0xbf, 0x40, 0xa3, 0x9e, 0x81, 0xf3, 0xd7, 0xfb,
      0x7c, 0xe3, 0x39, 0x82, 0x9b, 0x2f, 0xff, 0x87, 0x34, 0x8e, 0x43, 0x44, 0xc4, 0xde, 0xe9, 0xcb,
      0x54, 0x7b, 0x94, 0x32, 0xa6, 0xc2, 0x23, 0x3d, 0xee, 0x4c, 0x95, 0x0b, 0x42, 0xfa, 0xc3, 0x4e,
      0x08, 0x2e, 0xa1, 0x66, 0x28, 0xd9, 0x24, 0xb2, 0x76, 0x5b, 0xa2, 0x49, 0x6d, 0x8b, 0xd1, 0x25,
      0x72, 0xf8, 0xf6, 0x64, 0x86, 0x68, 0x98, 0x16, 0xd4, 0xa4, 0x5c, 0xcc, 0x5d, 0x65, 0xb6, 0x92,
      0x6c, 0x70, 0x48, 0x50, 0xfd, 0xed, 0xb9, 0xda, 0x5e, 0x15, 0x46, 0x57, 0xa7, 0x8d, 0x9d, 0x84,
      0x90, 0xd8, 0xab, 0x00, 0x8c, 0xbc, 0xd3, 0x0a, 0xf7, 0xe4, 0x58, 0x05, 0xb8, 0xb3, 0x45, 0x06,
      0xd0, 0x2c, 0x1e, 0x8f, 0xca, 0x3f, 0x0f, 0x02, 0xc1, 0xaf, 0xbd, 0x03, 0x01, 0x13, 0x8a, 0x6b,
      0x3a, 0x91, 0x11, 0x41, 0x4f, 0x67, 0xdc, 0xea, 0x97, 0xf2, 0xcf, 0xce, 0xf0, 0xb4, 0xe6, 0x73,
      0x96, 0xac, 0x74, 0x22, 0xe7, 0xad, 0x35, 0x85, 0xe2, 0xf9, 0x37, 0xe8, 0x1c, 0x75, 0xdf, 0x6e,
      0x47, 0xf1, 0x1a, 0x71, 0x1d, 0x29, 0xc5, 0x89, 0x6f, 0xb7, 0x62, 0x0e, 0xaa, 0x18, 0xbe, 0x1b,
      0xfc, 0x56, 0x3e, 0x4b, 0xc6, 0xd2, 0x79, 0x20, 0x9a, 0xdb, 0xc0, 0xfe, 0x78, 0xcd, 0x5a, 0xf4,
      0x1f, 0xdd, 0xa8, 0x33, 0x88, 0x07, 0xc7, 0x31, 0xb1, 0x12, 0x10, 0x59, 0x27, 0x80, 0xec, 0x5f,
      0x60, 0x51, 0x7f, 0xa9, 0x19, 0xb5, 0x4a, 0x0d, 0x2d, 0xe5, 0x7a, 0x9f, 0x93, 0xc9, 0x9c, 0xef,
      0xa0, 0xe0, 0x3b, 0x4d, 0xae, 0x2a, 0xf5, 0xb0, 0xc8, 0xeb, 0xbb, 0x3c, 0x83, 0x53, 0x99, 0x61,
      0x17, 0x2b, 0x04, 0x7e, 0xba, 0x77, 0xd6, 0x26, 0xe1, 0x69, 0x14, 0x63, 0x55, 0x21, 0x0c, 0x7d]"

definition sub_byte :: "byte \<Rightarrow> byte" where
  "sub_byte x = sbox0 ! unat x"

definition inv_sub_byte :: "byte \<Rightarrow> byte" where
  "inv_sub_byte x = sbox1 ! unat x"

definition sub_bytes :: "bytes \<Rightarrow> bytes" where
  "sub_bytes s = map sub_byte s"

definition inv_sub_bytes :: "bytes \<Rightarrow> bytes" where
  "inv_sub_bytes s = map inv_sub_byte s"

subsection \<open>Rows and columns\<close>

definition shift_rows :: "bytes \<Rightarrow> bytes" where
  "shift_rows s = map (\<lambda>i. s ! i) [0, 5, 10, 15, 4, 9, 14, 3, 8, 13, 2, 7, 12, 1, 6, 11]"

definition inv_shift_rows :: "bytes \<Rightarrow> bytes" where
  "inv_shift_rows s = map (\<lambda>i. s ! i) [0, 13, 10, 7, 4, 1, 14, 11, 8, 5, 2, 15, 12, 9, 6, 3]"

text \<open>Multiplication by the polynomial x in the field of 256 elements.\<close>

definition xtime :: "byte \<Rightarrow> byte" where
  "xtime x = push_bit 1 x XOR (if bit x 7 then 0x1b else 0)"

definition mix_col :: "byte \<Rightarrow> byte \<Rightarrow> byte \<Rightarrow> byte \<Rightarrow> bytes" where
  "mix_col a b c d =
     [xtime a XOR xtime b XOR b XOR c XOR d,
      a XOR xtime b XOR xtime c XOR c XOR d,
      a XOR b XOR xtime c XOR xtime d XOR d,
      xtime a XOR a XOR b XOR c XOR xtime d]"

definition mul9 :: "byte \<Rightarrow> byte" where
  "mul9 x = xtime (xtime (xtime x)) XOR x"

definition mul11 :: "byte \<Rightarrow> byte" where
  "mul11 x = xtime (xtime (xtime x)) XOR xtime x XOR x"

definition mul13 :: "byte \<Rightarrow> byte" where
  "mul13 x = xtime (xtime (xtime x)) XOR xtime (xtime x) XOR x"

definition mul14 :: "byte \<Rightarrow> byte" where
  "mul14 x = xtime (xtime (xtime x)) XOR xtime (xtime x) XOR xtime x"

definition inv_mix_col :: "byte \<Rightarrow> byte \<Rightarrow> byte \<Rightarrow> byte \<Rightarrow> bytes" where
  "inv_mix_col a b c d =
     [mul14 a XOR mul11 b XOR mul13 c XOR mul9 d,
      mul9 a XOR mul14 b XOR mul11 c XOR mul13 d,
      mul13 a XOR mul9 b XOR mul14 c XOR mul11 d,
      mul11 a XOR mul13 b XOR mul9 c XOR mul14 d]"

definition mix_columns :: "bytes \<Rightarrow> bytes" where
  "mix_columns s =
     mix_col (s ! 0) (s ! 1) (s ! 2) (s ! 3) @ mix_col (s ! 4) (s ! 5) (s ! 6) (s ! 7) @
     mix_col (s ! 8) (s ! 9) (s ! 10) (s ! 11) @ mix_col (s ! 12) (s ! 13) (s ! 14) (s ! 15)"

definition inv_mix_columns :: "bytes \<Rightarrow> bytes" where
  "inv_mix_columns s =
     inv_mix_col (s ! 0) (s ! 1) (s ! 2) (s ! 3) @ inv_mix_col (s ! 4) (s ! 5) (s ! 6) (s ! 7) @
     inv_mix_col (s ! 8) (s ! 9) (s ! 10) (s ! 11) @ inv_mix_col (s ! 12) (s ! 13) (s ! 14) (s ! 15)"

definition add_round_key :: "bytes \<Rightarrow> bytes \<Rightarrow> bytes" where
  "add_round_key k s = map2 (\<lambda>a b. a XOR b) k s"

subsection \<open>Key schedule and rounds\<close>

definition next_round_key :: "byte \<Rightarrow> bytes \<Rightarrow> bytes" where
  "next_round_key rcon k =
     (let w0 = add_round_key (take 4 k)
                 [sub_byte (k ! 13) XOR rcon, sub_byte (k ! 14), sub_byte (k ! 15), sub_byte (k ! 12)];
          w1 = add_round_key (take 4 (drop 4 k)) w0;
          w2 = add_round_key (take 4 (drop 8 k)) w1;
          w3 = add_round_key (take 4 (drop 12 k)) w2
      in w0 @ w1 @ w2 @ w3)"

primrec expand_keys :: "byte list \<Rightarrow> bytes \<Rightarrow> bytes list" where
  "expand_keys [] k = []"
| "expand_keys (r # rs) k = (let k' = next_round_key r k in k' # expand_keys rs k')"

definition round_keys :: "bytes \<Rightarrow> bytes list" where
  "round_keys key = expand_keys [0x01, 0x02, 0x04, 0x08, 0x10, 0x20, 0x40, 0x80, 0x1b, 0x36] key"

fun enc_rounds :: "bytes list \<Rightarrow> bytes \<Rightarrow> bytes" where
  "enc_rounds [] s = s"
| "enc_rounds [k] s = add_round_key k (shift_rows (sub_bytes s))"
| "enc_rounds (k # ks) s = enc_rounds ks (add_round_key k (mix_columns (shift_rows (sub_bytes s))))"

fun dec_rounds :: "bytes list \<Rightarrow> bytes \<Rightarrow> bytes" where
  "dec_rounds [] s = s"
| "dec_rounds [k] s = inv_sub_bytes (inv_shift_rows (add_round_key k s))"
| "dec_rounds (k # ks) s =
     inv_sub_bytes (inv_shift_rows (inv_mix_columns (add_round_key k (dec_rounds ks s))))"

definition aes_encrypt :: "bytes \<Rightarrow> bytes \<Rightarrow> bytes" where
  "aes_encrypt key b = enc_rounds (round_keys key) (add_round_key key b)"

definition aes_decrypt :: "bytes \<Rightarrow> bytes \<Rightarrow> bytes" where
  "aes_decrypt key b = add_round_key key (dec_rounds (round_keys key) b)"

subsection \<open>Each layer is inverted\<close>

lemma length_sbox0 [simp]: "length sbox0 = 256"
  by (simp add: sbox0_def)

lemma sbox_inverse_table: "list_all (\<lambda>i. sbox1 ! unat (sbox0 ! i) = of_nat i) [0..<256]"
  by code_simp

lemma unat_byte_less [simp]: "unat (b :: byte) < 256"
  using unsigned_less [of b, where ?'a = nat] by simp

lemma inv_sub_byte_sub_byte [simp]: "inv_sub_byte (sub_byte x) = x"
  using sbox_inverse_table unat_byte_less [of x]
  by (auto simp: inv_sub_byte_def sub_byte_def list_all_iff)

lemma inv_sub_bytes_sub_bytes [simp]: "inv_sub_bytes (sub_bytes s) = s"
  by (simp add: inv_sub_bytes_def sub_bytes_def o_def)

lemma length_sub_bytes [simp]: "length (sub_bytes s) = length s"
  by (simp add: sub_bytes_def)

lemma length_inv_sub_bytes [simp]: "length (inv_sub_bytes s) = length s"
  by (simp add: inv_sub_bytes_def)

lemma length_shift_rows [simp]: "length (shift_rows s) = 16" "length (inv_shift_rows s) = 16"
  by (simp_all add: shift_rows_def inv_shift_rows_def)

lemma length_mix_columns [simp]: "length (mix_columns s) = 16" "length (inv_mix_columns s) = 16"
  by (simp_all add: mix_columns_def inv_mix_columns_def mix_col_def inv_mix_col_def)

lemma length_add_round_key [simp]: "length (add_round_key k s) = min (length k) (length s)"
  by (simp add: add_round_key_def)

lemma list16_map_nth:
  assumes "length (s :: 'a list) = 16"
  shows "map (\<lambda>i. s ! i) [0, 1, 2, 3, 4, 5, 6, 7, 8, 9, 10, 11, 12, 13, 14, 15] = s"
proof -
  have "[0, 1, 2, 3, 4, 5, 6, 7, 8, 9, 10, 11, 12, 13, 14, 15] = [0..<16 :: nat]" by code_simp
  then show ?thesis using assms map_nth [of s] by simp
qed

lemma inv_shift_rows_shift_rows [simp]: "length s = 16 \<Longrightarrow> inv_shift_rows (shift_rows s) = s"
  using list16_map_nth [of s] by (simp add: inv_shift_rows_def shift_rows_def)

lemma xtime_xor: "xtime (a XOR b) = xtime a XOR xtime b"
  by (auto simp: xtime_def bit_xor_iff ac_simps push_bit_xor xor.left_commute)

lemma xor_cancel_left: "(a :: byte) XOR (a XOR b) = b"
  by (simp add: xor.assoc [symmetric])

lemma inv_mix_col_mix_col:
  "mix_col a b c d = [a', b', c', d'] \<Longrightarrow> inv_mix_col a' b' c' d' = [a, b, c, d]"
  by (auto simp: mix_col_def inv_mix_col_def mul9_def mul11_def mul13_def mul14_def xtime_xor
      ac_simps xor_cancel_left)

lemma inv_mix_col_nth:
  "inv_mix_col (mix_col a b c d ! 0) (mix_col a b c d ! Suc 0) (mix_col a b c d ! 2) (mix_col a b c d ! 3) =
   [a, b, c, d]"
  by (rule inv_mix_col_mix_col) (simp add: mix_col_def)

lemma length_mix_col [simp]: "length (mix_col a b c d) = 4"
  by (simp add: mix_col_def)

lemma inv_mix_columns_mix_columns [simp]:
  "length s = 16 \<Longrightarrow> inv_mix_columns (mix_columns s) = s"
  using list16_map_nth [of s]
  by (simp add: inv_mix_columns_def mix_columns_def nth_append inv_mix_col_nth)

lemma add_round_key_twice [simp]:
  "length k = length s \<Longrightarrow> add_round_key k (add_round_key k s) = s"
  by (rule nth_equalityI) (auto simp: add_round_key_def xor_cancel_left)

subsection \<open>Decryption undoes encryption\<close>

lemma length_next_round_key [simp]: "length k = 16 \<Longrightarrow> length (next_round_key r k) = 16"
  by (simp add: next_round_key_def Let_def)

lemma expand_keys_length: "length k = 16 \<Longrightarrow> \<forall>x \<in> set (expand_keys rs k). length x = 16"
proof (induction rs arbitrary: k)
  case (Cons r rs)
  have "length (next_round_key r k) = 16" using Cons.prems by simp
  then show ?case using Cons.IH by (simp add: Let_def)
qed simp

lemma round_keys_length: "length key = 16 \<Longrightarrow> \<forall>x \<in> set (round_keys key). length x = 16"
  unfolding round_keys_def by (rule expand_keys_length)

lemma enc_rounds_length:
  "\<forall>x \<in> set ks. length x = 16 \<Longrightarrow> length s = 16 \<Longrightarrow> length (enc_rounds ks s) = 16"
  by (induction ks s rule: enc_rounds.induct) auto

lemma dec_rounds_length:
  "\<forall>x \<in> set ks. length x = 16 \<Longrightarrow> length s = 16 \<Longrightarrow> length (dec_rounds ks s) = 16"
  by (induction ks s rule: dec_rounds.induct) auto

lemma dec_rounds_enc_rounds:
  "\<forall>x \<in> set ks. length x = 16 \<Longrightarrow> length s = 16 \<Longrightarrow> dec_rounds ks (enc_rounds ks s) = s"
  by (induction ks s rule: enc_rounds.induct) auto

lemma aes_encrypt_length [simp]:
  "length key = 16 \<Longrightarrow> length b = 16 \<Longrightarrow> length (aes_encrypt key b) = 16"
  by (simp add: aes_encrypt_def enc_rounds_length round_keys_length)

lemma aes_decrypt_length [simp]:
  "length key = 16 \<Longrightarrow> length b = 16 \<Longrightarrow> length (aes_decrypt key b) = 16"
  by (simp add: aes_decrypt_def dec_rounds_length round_keys_length)

lemma aes_decrypt_encrypt:
  "length key = 16 \<Longrightarrow> length b = 16 \<Longrightarrow> aes_decrypt key (aes_encrypt key b) = b"
  by (simp add: aes_decrypt_def aes_encrypt_def dec_rounds_enc_rounds round_keys_length)

end
