(* ===== verification/Codec.thy ===== *)
theory Codec
  imports AES
begin

text \<open>
  The encrypted transport of \<open>pkg/codec/codec.go\<close>: PKCS7 padding, ECB block processing, the two
  entry points \<open>Encrypt\<close> and \<open>Decrypt\<close>, and the framed variants with the 6-byte header.  Every
  error the code returns is a constructor of \<open>codec_error\<close>; a slice out of range is \<open>Panic\<close>, so
  that the absence of panics is a theorem.  The client lemmas are proved once over the interface
  \<open>block_cipher\<close> (what the codec relies on of \<open>cipher.Block\<close>), which AES-128 implements.
\<close>

subsection \<open>Data\<close>

datatype codec_error =
    ErrInvalidKey
  | ErrInvalidFrame
  | ErrLengthMismatch
  | ErrPadding
  | ErrEmpty
  | ErrNotBlockMultiple nat
  | ErrNewCipher
  | Panic

text \<open>The methods of \<open>cipher.Block\<close> the codec calls.\<close>

record cipher_block =
  BlockSize :: nat
  block_Encrypt :: "bytes \<Rightarrow> bytes"
  block_Decrypt :: "bytes \<Rightarrow> bytes"

text \<open>\<open>aes.NewCipher\<close> at the one key size the codec lets through.\<close>

definition NewCipher :: "bytes \<Rightarrow> cipher_block option" where
  "NewCipher key =
     (if length key = 16
      then Some \<lparr>BlockSize = 16, block_Encrypt = aes_encrypt key, block_Decrypt = aes_decrypt key\<rparr>
      else None)"

definition frameByte0 :: byte where "frameByte0 = 0x00"
definition frameByte1 :: byte where "frameByte1 = 0xA0"
definition frameHeaderLen :: nat where "frameHeaderLen = 6"

definition DefaultRequestKey :: string where "DefaultRequestKey = ''PHp1st5vEg5Ca8FH''"
definition DefaultResponseKey :: string where "DefaultResponseKey = ''qlCJekfRKwWkQxl7''"

subsection \<open>Block processing and padding\<close>

text \<open>The loop \<open>for i := 0; i < len(src); i += bs\<close> over slices of \<open>bs\<close> bytes; a last slice that
  is too short is the run-time panic of the slice expression (\<open>None\<close>).\<close>

function ecb_loop :: "(bytes \<Rightarrow> bytes) \<Rightarrow> nat \<Rightarrow> bytes \<Rightarrow> bytes option" where
  "ecb_loop f bs src =
     (if src = [] then Some []
      else if length src < bs \<or> bs = 0 then None
      else map_option ((@) (f (take bs src))) (ecb_loop f bs (drop bs src)))"
  by pat_completeness auto
termination
  by (relation "measure (\<lambda>(f, bs, src). length src)") auto

declare ecb_loop.simps [simp del]

definition ecbEncrypt :: "cipher_block \<Rightarrow> bytes \<Rightarrow> bytes option" where
  "ecbEncrypt block src = ecb_loop (block_Encrypt block) (BlockSize block) src"

definition ecbDecrypt :: "cipher_block \<Rightarrow> bytes \<Rightarrow> bytes option" where
  "ecbDecrypt block src = ecb_loop (block_Decrypt block) (BlockSize block) src"

definition pkcs7Pad :: "bytes \<Rightarrow> nat \<Rightarrow> bytes" where
  "pkcs7Pad data blockSize =
     (if blockSize = 0 \<or> blockSize > 255 then []
      else (let pad = blockSize - (length data mod blockSize)
            in data @ replicate pad (of_nat pad)))"

definition pkcs7Unpad :: "bytes \<Rightarrow> nat \<Rightarrow> codec_error + bytes" where
  "pkcs7Unpad data blockSize =
     (let n = length data in
      if n = 0 then Inl ErrPadding
      else if blockSize = 0 then Inl Panic
      else if n mod blockSize \<noteq> 0 then Inl ErrPadding
      else (let pad = unat (data ! (n - 1)) in
            if pad = 0 \<or> pad > blockSize \<or> pad > n then Inl ErrPadding
            else (let v = foldl (\<lambda>v d. v OR (d XOR of_nat pad)) 0 (drop (n - pad) data) in
                  if v \<noteq> 0 then Inl ErrPadding else Inr (take (n - pad) data))))"

subsection \<open>Encrypt, Decrypt and the frame\<close>

definition Encrypt :: "bytes \<Rightarrow> bytes \<Rightarrow> codec_error + bytes" where
  "Encrypt plaintext key =
     (if length key \<noteq> 16 then Inl ErrInvalidKey
      else case NewCipher key of
        None \<Rightarrow> Inl ErrNewCipher
      | Some block \<Rightarrow>
          (let padded = pkcs7Pad plaintext (BlockSize block) in
           if length padded = 0 then Inl ErrEmpty
           else case ecbEncrypt block padded of None \<Rightarrow> Inl Panic | Some out \<Rightarrow> Inr out))"

definition Decrypt :: "bytes \<Rightarrow> bytes \<Rightarrow> codec_error + bytes" where
  "Decrypt ciphertext key =
     (if length key \<noteq> 16 then Inl ErrInvalidKey
      else if length ciphertext = 0 then Inl ErrEmpty
      else if length ciphertext mod 16 \<noteq> 0 then Inl (ErrNotBlockMultiple (length ciphertext))
      else case NewCipher key of
        None \<Rightarrow> Inl ErrNewCipher
      | Some block \<Rightarrow>
          (case ecbDecrypt block ciphertext of
             None \<Rightarrow> Inl Panic
           | Some out \<Rightarrow> pkcs7Unpad out (BlockSize block)))"

definition EncodeFrame :: "bytes \<Rightarrow> bytes \<Rightarrow> codec_error + bytes" where
  "EncodeFrame payload key =
     (case Encrypt payload key of
        Inl e \<Rightarrow> Inl e
      | Inr ct \<Rightarrow> Inr ([frameByte0, frameByte1] @ put_uint32 (of_nat (length ct)) @ ct))"

definition DecodeFrame :: "bytes \<Rightarrow> bytes \<Rightarrow> codec_error + bytes" where
  "DecodeFrame raw key =
     (if length raw < frameHeaderLen then Inl ErrInvalidFrame
      else if raw ! 0 \<noteq> frameByte0 \<or> raw ! 1 \<noteq> frameByte1 then Inl ErrInvalidFrame
      else (let n = get_uint32 (raw ! 2) (raw ! 3) (raw ! 4) (raw ! 5) in
            if unat n \<noteq> length raw - frameHeaderLen then Inl ErrLengthMismatch
            else Decrypt (drop frameHeaderLen raw) key))"

lemmas codec_consts = frameByte0_def frameByte1_def frameHeaderLen_def

subsection \<open>What the codec relies on of a block cipher\<close>

lemma ecb_loop_defined:
  assumes "0 < bs" and "\<And>b. length b = bs \<Longrightarrow> length (f b) = bs" and "length src = k * bs"
  shows "\<exists>out. ecb_loop f bs src = Some out \<and> length out = length src"
  using assms(3)
proof (induction k arbitrary: src)
  case 0
  then show ?case by (simp add: ecb_loop.simps)
next
  case (Suc k)
  have d: "length (drop bs src) = k * bs" using Suc.prems by simp
  then obtain out where "ecb_loop f bs (drop bs src) = Some out" "length out = k * bs"
    using Suc.IH [OF d] by auto
  then show ?case
    using Suc.prems assms(1,2) by (auto simp: ecb_loop.simps [of f bs src])
qed

locale block_cipher =
  fixes bs :: nat and keyok :: "bytes \<Rightarrow> bool" and enc dec :: "bytes \<Rightarrow> bytes \<Rightarrow> bytes"
  assumes bs_pos: "0 < bs"
    and enc_length: "keyok k \<Longrightarrow> length b = bs \<Longrightarrow> length (enc k b) = bs"
    and dec_length: "keyok k \<Longrightarrow> length b = bs \<Longrightarrow> length (dec k b) = bs"
    and dec_enc: "keyok k \<Longrightarrow> length b = bs \<Longrightarrow> dec k (enc k b) = b"
begin

lemma ecb_enc_defined:
  assumes "keyok k" "length src mod bs = 0"
  shows "\<exists>out. ecb_loop (enc k) bs src = Some out \<and> length out = length src"
proof -
  have "length src = (length src div bs) * bs" using assms(2) by auto
  then show ?thesis
    using ecb_loop_defined [of bs "enc k", OF bs_pos enc_length [OF assms(1)]] by blast
qed

lemma ecb_dec_defined:
  assumes "keyok k" "length src mod bs = 0"
  shows "\<exists>out. ecb_loop (dec k) bs src = Some out \<and> length out = length src"
proof -
  have "length src = (length src div bs) * bs" using assms(2) by auto
  then show ?thesis
    using ecb_loop_defined [of bs "dec k", OF bs_pos dec_length [OF assms(1)]] by blast
qed

lemma enc_dec:
  assumes "keyok k" "length b = bs"
  shows "enc k (dec k b) = b"
proof -
  let ?S = "{b :: bytes. length b = bs}"
  have fin: "finite ?S" using finite_lists_length_eq [of "UNIV :: byte set" bs] by simp
  have inj: "inj_on (enc k) ?S" by (rule inj_on_inverseI [of _ "dec k"]) (simp add: dec_enc assms(1))
  have "enc k ` ?S \<subseteq> ?S" using enc_length assms(1) by auto
  then have "enc k ` ?S = ?S" using endo_inj_surj [OF fin _ inj] by blast
  then obtain a where "length a = bs" "b = enc k a" using assms(2) by blast
  then show ?thesis using dec_enc assms(1) by simp
qed

lemma ecb_inverse_aux:
  assumes f: "\<And>b. length b = bs \<Longrightarrow> length (f b) = bs"
    and g: "\<And>b. length b = bs \<Longrightarrow> g (f b) = b"
    and "length src = n * bs" and "ecb_loop f bs src = Some out"
  shows "ecb_loop g bs out = Some src"
  using assms(3,4)
proof (induction n arbitrary: src out)
  case 0
  then show ?case by (simp add: ecb_loop.simps)
next
  case (Suc n)
  have ne: "src \<noteq> []" and len: "bs \<le> length src" using Suc.prems(1) bs_pos by auto
  then obtain o' where o': "ecb_loop f bs (drop bs src) = Some o'" "out = f (take bs src) @ o'"
    using Suc.prems(2) bs_pos by (auto simp: ecb_loop.simps [of f bs src])
  have t: "length (take bs src) = bs" using len by simp
  have "ecb_loop g bs o' = Some (drop bs src)"
    using Suc.IH [of "drop bs src" o'] Suc.prems(1) o'(1) by simp
  then show ?case
    using bs_pos f [OF t] g [OF t] ecb_loop.simps [of g bs "f (take bs src) @ o'"]
    by (auto simp: o'(2))
qed

lemma ecb_inverse:
  assumes "keyok k" and "length src mod bs = 0" and "ecb_loop (enc k) bs src = Some out"
  shows "ecb_loop (dec k) bs out = Some src"
proof -
  have "length src = (length src div bs) * bs" using assms(2) by auto
  then show ?thesis
    using ecb_inverse_aux [of "enc k" "dec k", OF enc_length [OF assms(1)] dec_enc [OF assms(1)]] assms(3)
    by simp
qed

lemma ecb_inverse_dec:
  assumes "keyok k" and "length src mod bs = 0" and "ecb_loop (dec k) bs src = Some out"
  shows "ecb_loop (enc k) bs out = Some src"
proof -
  have "length src = (length src div bs) * bs" using assms(2) by auto
  then show ?thesis
    using ecb_inverse_aux [of "dec k" "enc k", OF dec_length [OF assms(1)] enc_dec [OF assms(1)]] assms(3)
    by simp
qed

end

interpretation aes128: block_cipher 16 "\<lambda>key. length key = 16" aes_encrypt aes_decrypt
  by unfold_locales (simp_all add: aes_decrypt_encrypt)

subsection \<open>Padding\<close>

lemma or_fold_zero:
  "foldl (\<lambda>v d. v OR (d XOR p)) v ds = (0 :: byte) \<longleftrightarrow> v = 0 \<and> (\<forall>d \<in> set ds. d = p)"
proof (induction ds arbitrary: v)
  case (Cons d ds)
  show ?case using Cons.IH or_xor_eq_0 [of v d p] by auto
qed simp

lemma pad_bounds:
  assumes "0 < (bs :: nat)"
  shows "0 < bs - n mod bs" "bs - n mod bs \<le> bs" "(n + (bs - n mod bs)) mod bs = 0"
proof -
  have l: "n mod bs < bs" using assms by simp
  then show "0 < bs - n mod bs" "bs - n mod bs \<le> bs" by auto
  have "n + (bs - n mod bs) = (n div bs) * bs + bs"
    using l div_mult_mod_eq [of n bs] by linarith
  then show "(n + (bs - n mod bs)) mod bs = 0" by simp
qed

lemma sum_mod_zero:
  assumes "(m + p) mod bs = 0" "m < bs" "p \<noteq> 0" "p \<le> (bs :: nat)"
  shows "bs - m = p"
proof -
  from assms(1) obtain q where q: "m + p = bs * q" by (meson dvd_def mod_0_imp_dvd)
  have "0 < q" using q assms(3) by (cases q) auto
  moreover have "bs * q < bs * 2" unfolding q [symmetric] using assms(2,4) by simp
  ultimately have "q = 1" by simp
  then show ?thesis using q by simp
qed

lemma length_pkcs7Pad:
  "0 < bs \<Longrightarrow> bs \<le> 255 \<Longrightarrow> length (pkcs7Pad d bs) = length d + (bs - length d mod bs)"
  by (simp add: pkcs7Pad_def Let_def)

lemma pkcs7Unpad_Pad:
  assumes "0 < bs" "bs \<le> 255"
  shows "pkcs7Unpad (pkcs7Pad d bs) bs = Inr d"
proof -
  define pad where "pad = bs - length d mod bs"
  note b = pad_bounds [OF assms(1), of "length d", folded pad_def]
  have p: "pkcs7Pad d bs = d @ replicate pad (of_nat pad)"
    using assms by (simp add: pkcs7Pad_def pad_def)
  have "\<not> length d + pad - 1 < length d" "length d + pad - 1 - length d < pad" using b(1) by auto
  then have l: "(d @ replicate pad (of_nat pad :: byte)) ! (length d + pad - 1) = of_nat pad"
    unfolding nth_append by (simp only: if_False nth_replicate)
  have u: "unat (of_nat pad :: byte) = pad" using b(2) assms(2) by (simp add: unat_of_nat)
  show ?thesis
    unfolding p pkcs7Unpad_def using b assms(1) l u by (simp add: Let_def or_fold_zero)
qed

lemma pkcs7Unpad_InrD:
  assumes "0 < bs" "bs \<le> 255" "pkcs7Unpad p bs = Inr d"
  shows "p = pkcs7Pad d bs"
proof -
  let ?n = "length p" and ?pad = "unat (p ! (length p - 1))"
  have n: "?n \<noteq> 0" "?n mod bs = 0" and pad: "?pad \<noteq> 0" "?pad \<le> bs" "?pad \<le> ?n"
    and all: "\<forall>x \<in> set (drop (?n - ?pad) p). x = of_nat ?pad" and d: "d = take (?n - ?pad) p"
    using assms by (auto simp: pkcs7Unpad_def Let_def or_fold_zero split: if_splits)
  have r: "drop (?n - ?pad) p = replicate ?pad (of_nat ?pad)"
    using all pad(3) replicate_length_same [of "drop (?n - ?pad) p" "of_nat ?pad"] by simp
  have "bs - length d mod bs = ?pad"
  proof -
    have "(length d + ?pad) mod bs = 0" using n d pad by simp
    then have "(length d mod bs + ?pad) mod bs = 0" by (metis mod_add_left_eq)
    moreover have "length d mod bs < bs" using assms(1) by simp
    ultimately show ?thesis using pad(1,2) by (rule sum_mod_zero)
  qed
  then show ?thesis
    using r d assms(1,2) append_take_drop_id [of "?n - ?pad" p]
    by (simp add: pkcs7Pad_def Let_def)
qed

subsection \<open>Encrypt and Decrypt\<close>

lemma NewCipher_16 [simp]:
  "length key = 16 \<Longrightarrow>
   NewCipher key = Some \<lparr>BlockSize = 16, block_Encrypt = aes_encrypt key, block_Decrypt = aes_decrypt key\<rparr>"
  by (simp add: NewCipher_def)

lemma length_pad16 [simp]: "length (pkcs7Pad d 16) = 16 * (length d div 16 + 1)"
proof -
  have "length d mod 16 < 16" by simp
  then have "length d + (16 - length d mod 16) = 16 * (length d div 16 + 1)"
    by presburger
  then show ?thesis by (simp add: length_pkcs7Pad)
qed

lemma pad16_ne [simp]: "pkcs7Pad d 16 \<noteq> []"
  using length_pad16 [of d] by (metis length_0_conv mult_is_0 add_is_0 zero_neq_numeral zero_neq_one)

lemma Encrypt_16:
  assumes "length key = 16"
  obtains ct where "ecb_loop (aes_encrypt key) 16 (pkcs7Pad p 16) = Some ct"
    and "Encrypt p key = Inr ct" and "length ct = 16 * (length p div 16 + 1)"
proof -
  obtain ct where ct: "ecb_loop (aes_encrypt key) 16 (pkcs7Pad p 16) = Some ct"
    "length ct = length (pkcs7Pad p 16)"
    using aes128.ecb_enc_defined [OF assms, of "pkcs7Pad p 16"] by auto
  moreover have "Encrypt p key = Inr ct"
    using ct assms by (simp add: Encrypt_def ecbEncrypt_def Let_def)
  ultimately show ?thesis using that by simp
qed

lemma Decrypt_Encrypt_16:
  assumes "length key = 16" "Encrypt p key = Inr ct"
  shows "Decrypt ct key = Inr p"
proof -
  obtain c where c: "ecb_loop (aes_encrypt key) 16 (pkcs7Pad p 16) = Some c" "Encrypt p key = Inr c"
    "length c = 16 * (length p div 16 + 1)" by (rule Encrypt_16 [OF assms(1)])
  have "ecb_loop (aes_decrypt key) 16 c = Some (pkcs7Pad p 16)"
    using aes128.ecb_inverse [OF assms(1) _ c(1)] by simp
  then show ?thesis
    using c assms by (simp add: Decrypt_def ecbDecrypt_def pkcs7Unpad_Pad)
qed

lemma Encrypt_Decrypt_16:
  assumes k: "length key = 16" and d: "Decrypt ct key = Inr p"
  shows "Encrypt p key = Inr ct"
proof -
  have m: "length ct mod 16 = 0" using k d by (auto simp: Decrypt_def split: if_splits)
  obtain out where out: "ecb_loop (aes_decrypt key) 16 ct = Some out" "length out = length ct"
    using aes128.ecb_dec_defined [OF k m] by auto
  have "pkcs7Unpad out 16 = Inr p"
    using k d out by (auto simp: Decrypt_def ecbDecrypt_def split: if_splits)
  then have o: "out = pkcs7Pad p 16" by (rule pkcs7Unpad_InrD [rotated 2]) simp_all
  have "ecb_loop (aes_encrypt key) 16 out = Some ct" by (rule aes128.ecb_inverse_dec [OF k m out(1)])
  then show ?thesis using k o by (simp add: Encrypt_def ecbEncrypt_def Let_def)
qed

lemma Decrypt_key: "Decrypt ct key = Inr p \<Longrightarrow> length key = 16"
  by (simp add: Decrypt_def split: if_splits)

lemma Encrypt_key: "Encrypt p key = Inr ct \<Longrightarrow> length key = 16"
  by (simp add: Encrypt_def split: if_splits)

lemma Decrypt_not_panic: "Decrypt ct key \<noteq> Inl Panic" "Decrypt ct key \<noteq> Inl ErrNewCipher"
proof -
  have "Decrypt ct key \<noteq> Inl Panic \<and> Decrypt ct key \<noteq> Inl ErrNewCipher"
  proof (cases "length key = 16 \<and> length ct mod 16 = 0")
    case True
    then obtain out where "ecb_loop (aes_decrypt key) 16 ct = Some out"
      using aes128.ecb_dec_defined [of key ct] by auto
    then show ?thesis
      using True by (simp add: Decrypt_def ecbDecrypt_def pkcs7Unpad_def Let_def)
  qed (auto simp: Decrypt_def)
  then show "Decrypt ct key \<noteq> Inl Panic" "Decrypt ct key \<noteq> Inl ErrNewCipher" by simp_all
qed

subsection \<open>Frames\<close>

definition frame_of :: "bytes \<Rightarrow> bytes" where
  "frame_of ct = [frameByte0, frameByte1] @ put_uint32 (of_nat (length ct)) @ ct"

lemma EncodeFrame_frame_of: "EncodeFrame p key = map_sum id frame_of (Encrypt p key)"
  by (simp add: EncodeFrame_def frame_of_def split: sum.splits)

lemma put_uint32_cases: obtains a b c d where "put_uint32 v = [a, b, c, d]"
  by (simp add: put_uint32_def)

lemma DecodeFrame_frame_of:
  "length ct < 2 ^ 32 \<Longrightarrow> DecodeFrame (frame_of ct) key = Decrypt ct key"
proof -
  assume l: "length ct < 2 ^ 32"
  obtain a b c d where p: "put_uint32 (of_nat (length ct)) = [a, b, c, d]" by (rule put_uint32_cases)
  have "unat (get_uint32 a b c d) = length ct"
    using get_put_uint32 [OF p] l by (simp add: unat_of_nat)
  then show ?thesis by (simp add: DecodeFrame_def frame_of_def p codec_consts numeral_eq_Suc)
qed

lemma frame_ofI:
  assumes "\<not> length raw < frameHeaderLen" "raw ! 0 = frameByte0" "raw ! 1 = frameByte1"
    and "unat (get_uint32 (raw ! 2) (raw ! 3) (raw ! 4) (raw ! 5)) = length raw - frameHeaderLen"
  shows "raw = frame_of (drop frameHeaderLen raw)"
proof -
  define rs where "rs = drop frameHeaderLen raw"
  have t: "take 6 raw = [raw ! 0, raw ! 1, raw ! 2, raw ! 3, raw ! 4, raw ! 5]"
  proof (rule nth_equalityI)
    show "length (take 6 raw) = length [raw ! 0, raw ! 1, raw ! 2, raw ! 3, raw ! 4, raw ! 5]"
      using assms(1) by (simp add: frameHeaderLen_def)
  qed (auto simp: numeral_eq_Suc less_Suc_eq)
  have "of_nat (length rs) = get_uint32 (raw ! 2) (raw ! 3) (raw ! 4) (raw ! 5)"
    using assms(4) by (simp add: rs_def flip: assms(4))
  then have "frame_of rs = take 6 raw @ rs"
    using assms(2,3) by (simp add: t frame_of_def put_get_uint32)
  then show ?thesis
    by (simp add: rs_def frameHeaderLen_def)
qed

lemma DecodeFrame_InrD:
  assumes "DecodeFrame raw key = Inr p"
  obtains ct where "raw = frame_of ct" "length ct < 2 ^ 32" "Decrypt ct key = Inr p"
proof -
  let ?n = "get_uint32 (raw ! 2) (raw ! 3) (raw ! 4) (raw ! 5)"
  have d: "Decrypt (drop frameHeaderLen raw) key = Inr p" and l: "unat ?n = length raw - frameHeaderLen"
    and r: "raw = frame_of (drop frameHeaderLen raw)"
    using assms frame_ofI [of raw] by (auto simp: DecodeFrame_def Let_def split: if_splits)
  have "unat ?n < 2 ^ 32" using unsigned_less [of ?n, where ?'a = nat] by simp
  then have "length (drop frameHeaderLen raw) < 2 ^ 32" using l by simp
  then show ?thesis using that d r by blast
qed

subsection \<open>Properties\<close>

text \<open>C1: a payload sent through \<open>EncodeFrame\<close> comes back from \<open>DecodeFrame\<close> with the same key, and
  conversely the only byte string that \<open>DecodeFrame\<close> decodes to a payload is the frame
  \<open>EncodeFrame\<close> makes of it: header, length, padding and ciphertext are all canonical.\<close>

theorem DecodeFrame_iff_EncodeFrame:
  assumes "length raw < 2 ^ 32"
  shows "DecodeFrame raw key = Inr p \<longleftrightarrow> EncodeFrame p key = Inr raw"
proof
  assume "DecodeFrame raw key = Inr p"
  then obtain ct where "raw = frame_of ct" "Decrypt ct key = Inr p" by (rule DecodeFrame_InrD)
  then show "EncodeFrame p key = Inr raw"
    using Encrypt_Decrypt_16 Decrypt_key by (simp add: EncodeFrame_frame_of)
next
  assume "EncodeFrame p key = Inr raw"
  then obtain ct where ct: "Encrypt p key = Inr ct" "raw = frame_of ct"
    by (cases "Encrypt p key") (auto simp: EncodeFrame_frame_of)
  then have "length ct < 2 ^ 32" using assms by (simp add: frame_of_def)
  then show "DecodeFrame raw key = Inr p"
    using ct Decrypt_Encrypt_16 Encrypt_key by (simp add: DecodeFrame_frame_of)
qed

text \<open>With a 16-byte key \<open>Encrypt\<close> always succeeds, its output is the payload rounded up to the
  next whole block (one block more when it is already whole), and \<open>Decrypt\<close> returns the payload.\<close>

theorem Encrypt_total_roundtrip:
  assumes "length key = 16"
  shows "\<exists>ct. Encrypt p key = Inr ct \<and> length ct = 16 * (length p div 16 + 1) \<and> Decrypt ct key = Inr p"
  using Encrypt_16 [OF assms, of p] Decrypt_Encrypt_16 [OF assms] by metis

text \<open>C35: unpadding accepts exactly the padded texts: it undoes \<open>pkcs7Pad\<close> and refuses every byte
  string that \<open>pkcs7Pad\<close> did not produce.\<close>

theorem pkcs7Unpad_iff_pkcs7Pad:
  assumes "0 < bs" "bs \<le> 255"
  shows "pkcs7Unpad padded bs = Inr data \<longleftrightarrow> padded = pkcs7Pad data bs"
  using pkcs7Unpad_Pad [OF assms] pkcs7Unpad_InrD [OF assms] by blast


end
