(* ===== verification/CodecVector.thy ===== *)
theory CodecVector
  imports Codec
begin

text \<open>
  The test vector the header of \<open>pkg/codec/codec.go\<close> documents, evaluated in the kernel on the
  model of AES and of \<open>Encrypt\<close>: the request key and the payload \<open>{"a":1}\<close> give the stated
  ciphertext.  The key schedule and the rounds are evaluated one at a time.
\<close>

lemma sub_byte_values:
  shows "sub_byte 0x01 = 0x7c" and "sub_byte 0x02 = 0x77" and "sub_byte 0x04 = 0xf2" and
    "sub_byte 0x08 = 0x30" and "sub_byte 0x09 = 0x01" and "sub_byte 0x0a = 0x67" and
    "sub_byte 0x0b = 0x2b" and "sub_byte 0x0d = 0xd7" and "sub_byte 0x0e = 0xab" and
    "sub_byte 0x0f = 0x76" and "sub_byte 0x10 = 0xca" and "sub_byte 0x11 = 0x82" and
    "sub_byte 0x13 = 0x7d" and "sub_byte 0x16 = 0x47" and "sub_byte 0x1a = 0xa2" and
    "sub_byte 0x1b = 0xaf" and "sub_byte 0x1c = 0x9c" and "sub_byte 0x1d = 0xa4" and
    "sub_byte 0x1f = 0xc0" and "sub_byte 0x20 = 0xb7" and "sub_byte 0x25 = 0x3f" and
    "sub_byte 0x26 = 0xf7" and "sub_byte 0x27 = 0xcc" and "sub_byte 0x28 = 0x34" and
    "sub_byte 0x29 = 0xa5" and "sub_byte 0x2b = 0xf1" and "sub_byte 0x2e = 0x31" and
    "sub_byte 0x2f = 0x15" and "sub_byte 0x30 = 0x04" and "sub_byte 0x31 = 0xc7" and
    "sub_byte 0x33 = 0xc3" and "sub_byte 0x34 = 0x18" and "sub_byte 0x38 = 0x07" and
    "sub_byte 0x39 = 0x12" and "sub_byte 0x3c = 0xeb" and "sub_byte 0x3e = 0xb2" and
    "sub_byte 0x3f = 0x75" and "sub_byte 0x41 = 0x83" and "sub_byte 0x42 = 0x2c" and
    "sub_byte 0x44 = 0x1b" and "sub_byte 0x45 = 0x6e" and "sub_byte 0x46 = 0x5a" and
    "sub_byte 0x48 = 0x52" and "sub_byte 0x49 = 0x3b" and "sub_byte 0x4a = 0xd6" and
    "sub_byte 0x4c = 0x29" and "sub_byte 0x4e = 0x2f" and "sub_byte 0x4f = 0x84" and
    "sub_byte 0x50 = 0x53" and "sub_byte 0x52 = 0x00" and "sub_byte 0x56 = 0xb1" and
    "sub_byte 0x58 = 0x6a" and "sub_byte 0x59 = 0xcb" and "sub_byte 0x5b = 0x39" and
    "sub_byte 0x5d = 0x4c" and "sub_byte 0x5e = 0x58" and "sub_byte 0x5f = 0xcf" and
    "sub_byte 0x61 = 0xef" and "sub_byte 0x62 = 0xaa" and "sub_byte 0x64 = 0x43" and
    "sub_byte 0x65 = 0x4d" and "sub_byte 0x68 = 0x45" and "sub_byte 0x6a = 0x02" and
    "sub_byte 0x6b = 0x7f" and "sub_byte 0x6c = 0x50" and "sub_byte 0x6e = 0x9f" and
    "sub_byte 0x6f = 0xa8" and "sub_byte 0x70 = 0x51" and "sub_byte 0x72 = 0x40" and
    "sub_byte 0x74 = 0x92" and "sub_byte 0x75 = 0x9d" and "sub_byte 0x77 = 0xf5" and
    "sub_byte 0x79 = 0xb6" and "sub_byte 0x7a = 0xda" and "sub_byte 0x7b = 0x21" and
    "sub_byte 0x7c = 0x10" and "sub_byte 0x7e = 0xf3" and "sub_byte 0x7f = 0xd2" and
    "sub_byte 0x82 = 0x13" and "sub_byte 0x84 = 0x5f" and "sub_byte 0x85 = 0x97" and
    "sub_byte 0x86 = 0x44" and "sub_byte 0x88 = 0xc4" and "sub_byte 0x8a = 0x7e" and
    "sub_byte 0x8b = 0x3d" and "sub_byte 0x8f = 0x73" and "sub_byte 0x92 = 0x4f" and
    "sub_byte 0x93 = 0xdc" and "sub_byte 0x94 = 0x22" and "sub_byte 0x95 = 0x2a" and
    "sub_byte 0x96 = 0x90" and "sub_byte 0x9a = 0xb8" and "sub_byte 0x9c = 0xde" and
    "sub_byte 0x9e = 0x0b" and "sub_byte 0xa0 = 0xe0" and "sub_byte 0xa3 = 0x0a" and
    "sub_byte 0xa5 = 0x06" and "sub_byte 0xa8 = 0xc2" and "sub_byte 0xa9 = 0xd3" and
    "sub_byte 0xac = 0x91" and "sub_byte 0xaf = 0x79" and "sub_byte 0xb0 = 0xe7" and
    "sub_byte 0xb2 = 0x37" and "sub_byte 0xb8 = 0x6c" and "sub_byte 0xbb = 0xea" and
    "sub_byte 0xbc = 0x65" and "sub_byte 0xbe = 0xae" and "sub_byte 0xbf = 0x08" and
    "sub_byte 0xc6 = 0xb4" and "sub_byte 0xc8 = 0xe8" and "sub_byte 0xc9 = 0xdd" and
    "sub_byte 0xcd = 0xbd" and "sub_byte 0xce = 0x8b" and "sub_byte 0xd0 = 0x70" and
    "sub_byte 0xd2 = 0xb5" and "sub_byte 0xd3 = 0x66" and "sub_byte 0xd4 = 0x48" and
    "sub_byte 0xd5 = 0x03" and "sub_byte 0xd7 = 0x0e" and "sub_byte 0xdd = 0xc1" and
    "sub_byte 0xdf = 0x9e" and "sub_byte 0xe0 = 0xe1" and "sub_byte 0xe4 = 0x69" and
    "sub_byte 0xe6 = 0x8e" and "sub_byte 0xe8 = 0x9b" and "sub_byte 0xe9 = 0x1e" and
    "sub_byte 0xec = 0xce" and "sub_byte 0xed = 0x55" and "sub_byte 0xee = 0x28" and
    "sub_byte 0xef = 0xdf" and "sub_byte 0xf2 = 0x89" and "sub_byte 0xf4 = 0xbf" and
    "sub_byte 0xf7 = 0x68" and "sub_byte 0xf9 = 0x99" and "sub_byte 0xfa = 0x2d" and
    "sub_byte 0xfc = 0xb0" and "sub_byte 0xfd = 0x54"
  by (simp_all add: sub_byte_def sbox0_def)

lemmas aes_eval = mix_columns_def shift_rows_def sub_bytes_def mix_col_def xtime_def add_round_key_def sub_byte_values

lemma vector_key: "bytes_of DefaultRequestKey =
    [0x50, 0x48, 0x70, 0x31, 0x73, 0x74, 0x35, 0x76, 0x45, 0x67, 0x35, 0x43, 0x61, 0x38, 0x46, 0x48]"
  by (simp add: DefaultRequestKey_def bytes_of_def byte_of_char_def)

lemma vector_round_keys:
  shows "next_round_key 0x01 [0x50, 0x48, 0x70, 0x31, 0x73, 0x74, 0x35, 0x76, 0x45, 0x67, 0x35, 0x43, 0x61, 0x38, 0x46, 0x48] =
      [0x56, 0x12, 0x22, 0xde, 0x25, 0x66, 0x17, 0xa8, 0x60, 0x01, 0x22, 0xeb, 0x01, 0x39, 0x64, 0xa3]" and
    "next_round_key 0x02 [0x56, 0x12, 0x22, 0xde, 0x25, 0x66, 0x17, 0xa8, 0x60, 0x01, 0x22, 0xeb, 0x01, 0x39, 0x64, 0xa3] =
      [0x46, 0x51, 0x28, 0xa2, 0x63, 0x37, 0x3f, 0x0a, 0x03, 0x36, 0x1d, 0xe1, 0x02, 0x0f, 0x79, 0x42]" and
    "next_round_key 0x04 [0x46, 0x51, 0x28, 0xa2, 0x63, 0x37, 0x3f, 0x0a, 0x03, 0x36, 0x1d, 0xe1, 0x02, 0x0f, 0x79, 0x42] =
      [0x34, 0xe7, 0x04, 0xd5, 0x57, 0xd0, 0x3b, 0xdf, 0x54, 0xe6, 0x26, 0x3e, 0x56, 0xe9, 0x5f, 0x7c]" and
    "next_round_key 0x08 [0x34, 0xe7, 0x04, 0xd5, 0x57, 0xd0, 0x3b, 0xdf, 0x54, 0xe6, 0x26, 0x3e, 0x56, 0xe9, 0x5f, 0x7c] =
      [0x22, 0x28, 0x14, 0x64, 0x75, 0xf8, 0x2f, 0xbb, 0x21, 0x1e, 0x09, 0x85, 0x77, 0xf7, 0x56, 0xf9]" and
    "next_round_key 0x10 [0x22, 0x28, 0x14, 0x64, 0x75, 0xf8, 0x2f, 0xbb, 0x21, 0x1e, 0x09, 0x85, 0x77, 0xf7, 0x56, 0xf9] =
      [0x5a, 0x99, 0x8d, 0x91, 0x2f, 0x61, 0xa2, 0x2a, 0x0e, 0x7f, 0xab, 0xaf, 0x79, 0x88, 0xfd, 0x56]" and
    "next_round_key 0x20 [0x5a, 0x99, 0x8d, 0x91, 0x2f, 0x61, 0xa2, 0x2a, 0x0e, 0x7f, 0xab, 0xaf, 0x79, 0x88, 0xfd, 0x56] =
      [0xbe, 0xcd, 0x3c, 0x27, 0x91, 0xac, 0x9e, 0x0d, 0x9f, 0xd3, 0x35, 0xa2, 0xe6, 0x5b, 0xc8, 0xf4]" and
    "next_round_key 0x40 [0xbe, 0xcd, 0x3c, 0x27, 0x91, 0xac, 0x9e, 0x0d, 0x9f, 0xd3, 0x35, 0xa2, 0xe6, 0x5b, 0xc8, 0xf4] =
      [0xc7, 0x25, 0x83, 0xa9, 0x56, 0x89, 0x1d, 0xa4, 0xc9, 0x5a, 0x28, 0x06, 0x2f, 0x01, 0xe0, 0xf2]" and
    "next_round_key 0x80 [0xc7, 0x25, 0x83, 0xa9, 0x56, 0x89, 0x1d, 0xa4, 0xc9, 0x5a, 0x28, 0x06, 0x2f, 0x01, 0xe0, 0xf2] =
      [0x3b, 0xc4, 0x0a, 0xbc, 0x6d, 0x4d, 0x17, 0x18, 0xa4, 0x17, 0x3f, 0x1e, 0x8b, 0x16, 0xdf, 0xec]" and
    "next_round_key 0x1b [0x3b, 0xc4, 0x0a, 0xbc, 0x6d, 0x4d, 0x17, 0x18, 0xa4, 0x17, 0x3f, 0x1e, 0x8b, 0x16, 0xdf, 0xec] =
      [0x67, 0x5a, 0xc4, 0x81, 0x0a, 0x17, 0xd3, 0x99, 0xae, 0x00, 0xec, 0x87, 0x25, 0x16, 0x33, 0x6b]" and
    "next_round_key 0x36 [0x67, 0x5a, 0xc4, 0x81, 0x0a, 0x17, 0xd3, 0x99, 0xae, 0x00, 0xec, 0x87, 0x25, 0x16, 0x33, 0x6b] =
      [0x16, 0x99, 0xbb, 0xbe, 0x1c, 0x8e, 0x68, 0x27, 0xb2, 0x8e, 0x84, 0xa0, 0x97, 0x98, 0xb7, 0xcb]"
  by (simp_all add: next_round_key_def Let_def add_round_key_def sub_byte_values)

lemma vector_rounds:
  shows "add_round_key [0x56, 0x12, 0x22, 0xde, 0x25, 0x66, 0x17, 0xa8, 0x60, 0x01, 0x22, 0xeb, 0x01, 0x39, 0x64, 0xa3]
      (mix_columns (shift_rows (sub_bytes [0x2b, 0x6a, 0x11, 0x13, 0x49, 0x45, 0x48, 0x7f, 0x4c, 0x6e, 0x3c, 0x4a, 0x68, 0x31, 0x4f, 0x41]))) =
      [0x75, 0x9a, 0xee, 0x4e, 0x10, 0x92, 0x27, 0x04, 0x30, 0xf2, 0xbe, 0x6a, 0x09, 0x58, 0xe6, 0x8b]" and
    "add_round_key [0x46, 0x51, 0x28, 0xa2, 0x63, 0x37, 0x3f, 0x0a, 0x03, 0x36, 0x1d, 0xe1, 0x02, 0x0f, 0x79, 0x42]
      (mix_columns (shift_rows (sub_bytes [0x75, 0x9a, 0xee, 0x4e, 0x10, 0x92, 0x27, 0x04, 0x30, 0xf2, 0xbe, 0x6a, 0x09, 0x58, 0xe6, 0x8b]))) =
      [0x25, 0x86, 0xfa, 0x85, 0xcd, 0x52, 0x0a, 0x16, 0x6f, 0x6c, 0x2e, 0x50, 0x1d, 0x28, 0x45, 0x31]" and
    "add_round_key [0x34, 0xe7, 0x04, 0xd5, 0x57, 0xd0, 0x3b, 0xdf, 0x54, 0xe6, 0x26, 0x3e, 0x56, 0xe9, 0x5f, 0x7c]
      (mix_columns (shift_rows (sub_bytes [0x25, 0x86, 0xfa, 0x85, 0xcd, 0x52, 0x0a, 0x16, 0x6f, 0x6c, 0x2e, 0x50, 0x1d, 0x28, 0x45, 0x31]))) =
      [0xbc, 0x4c, 0x0b, 0x30, 0x3f, 0xe8, 0xa8, 0x08, 0x29, 0x16, 0x29, 0x4a, 0xfd, 0x3f, 0x84, 0x0e]" and
    "add_round_key [0x22, 0x28, 0x14, 0x64, 0x75, 0xf8, 0x2f, 0xbb, 0x21, 0x1e, 0x09, 0x85, 0x77, 0xf7, 0x56, 0xf9]
      (mix_columns (shift_rows (sub_bytes [0xbc, 0x4c, 0x0b, 0x30, 0x3f, 0xe8, 0xa8, 0x08, 0x29, 0x16, 0x29, 0x4a, 0xfd, 0x3f, 0x84, 0x0e]))) =
      [0x50, 0x3f, 0x5d, 0xb8, 0x0d, 0xe6, 0xaf, 0x34, 0xf4, 0x1c, 0xdf, 0x4f, 0xb0, 0x7a, 0xd5, 0x59]" and
    "add_round_key [0x5a, 0x99, 0x8d, 0x91, 0x2f, 0x61, 0xa2, 0x2a, 0x0e, 0x7f, 0xab, 0xaf, 0x79, 0x88, 0xfd, 0x56]
      (mix_columns (shift_rows (sub_bytes [0x50, 0x3f, 0x5d, 0xb8, 0x0d, 0xe6, 0xaf, 0x34, 0xf4, 0x1c, 0xdf, 0x4f, 0xb0, 0x7a, 0xd5, 0x59]))) =
      [0x20, 0xbf, 0x31, 0xf9, 0x4a, 0xfc, 0x5b, 0x0f, 0x4a, 0xa3, 0x7e, 0xd3, 0xce, 0x8a, 0x0a, 0x7b]" and
    "add_round_key [0xbe, 0xcd, 0x3c, 0x27, 0x91, 0xac, 0x9e, 0x0d, 0x9f, 0xd3, 0x35, 0xa2, 0xe6, 0x5b, 0xc8, 0xf4]
      (mix_columns (shift_rows (sub_bytes [0x20, 0xbf, 0x31, 0xf9, 0x4a, 0xfc, 0x5b, 0x0f, 0x4a, 0xa3, 0x7e, 0xd3, 0xce, 0x8a, 0x0a, 0x7b]))) =
      [0xd2, 0x2e, 0xa5, 0xe4, 0xc6, 0x5e, 0x3c, 0x28, 0x1b, 0xdd, 0x92, 0x96, 0xac, 0xed, 0x93, 0x8f]" and
    "add_round_key [0xc7, 0x25, 0x83, 0xa9, 0x56, 0x89, 0x1d, 0xa4, 0xc9, 0x5a, 0x28, 0x06, 0x2f, 0x01, 0xe0, 0xf2]
      (mix_columns (shift_rows (sub_bytes [0xd2, 0x2e, 0xa5, 0xe4, 0xc6, 0x5e, 0x3c, 0x28, 0x1b, 0xdd, 0x92, 0x96, 0xac, 0xed, 0x93, 0x8f]))) =
      [0x62, 0x82, 0x65, 0x9c, 0xc8, 0xb2, 0x70, 0xac, 0x41, 0x61, 0x82, 0xd7, 0x3e, 0x44, 0x26, 0xbb]" and
    "add_round_key [0x3b, 0xc4, 0x0a, 0xbc, 0x6d, 0x4d, 0x17, 0x18, 0xa4, 0x17, 0x3f, 0x1e, 0x8b, 0x16, 0xdf, 0xec]
      (mix_columns (shift_rows (sub_bytes [0x62, 0x82, 0x65, 0x9c, 0xc8, 0xb2, 0x70, 0xac, 0x41, 0x61, 0x82, 0xd7, 0x3e, 0x44, 0x26, 0xbb]))) =
      [0xd4, 0xdf, 0x94, 0xb2, 0xa5, 0xbc, 0x9c, 0x84, 0x48, 0xe4, 0x95, 0xef, 0x9e, 0x7f, 0xce, 0x7f]" and
    "add_round_key [0x67, 0x5a, 0xc4, 0x81, 0x0a, 0x17, 0xd3, 0x99, 0xae, 0x00, 0xec, 0x87, 0x25, 0x16, 0x33, 0x6b]
      (mix_columns (shift_rows (sub_bytes [0xd4, 0xdf, 0x94, 0xb2, 0xa5, 0xbc, 0x9c, 0x84, 0x48, 0xe4, 0x95, 0xef, 0x9e, 0x7f, 0xce, 0x7f]))) =
      [0xa0, 0x74, 0xd0, 0xa9, 0x01, 0x72, 0xe8, 0x1f, 0x1a, 0xd4, 0xc9, 0x3f, 0x8b, 0x9c, 0x7b, 0x93]" and
    "add_round_key [0x16, 0x99, 0xbb, 0xbe, 0x1c, 0x8e, 0x68, 0x27, 0xb2, 0x8e, 0x84, 0xa0, 0x97, 0x98, 0xb7, 0xcb]
      (shift_rows (sub_bytes [0xa0, 0x74, 0xd0, 0xa9, 0x01, 0x72, 0xe8, 0x1f, 0x1a, 0xd4, 0xc9, 0x3f, 0x8b, 0x9c, 0x7b, 0x93])) =
      [0xf6, 0xd9, 0x66, 0x62, 0x60, 0xc6, 0x49, 0xf4, 0x10, 0x50, 0xf4, 0x60, 0xaa, 0x0a, 0x2c, 0xbe]" and
    "add_round_key [0x50, 0x48, 0x70, 0x31, 0x73, 0x74, 0x35, 0x76, 0x45, 0x67, 0x35, 0x43, 0x61, 0x38, 0x46, 0x48] [0x7b, 0x22, 0x61, 0x22, 0x3a, 0x31, 0x7d, 0x09, 0x09, 0x09, 0x09, 0x09, 0x09, 0x09, 0x09, 0x09] =
      [0x2b, 0x6a, 0x11, 0x13, 0x49, 0x45, 0x48, 0x7f, 0x4c, 0x6e, 0x3c, 0x4a, 0x68, 0x31, 0x4f, 0x41]"
  by (simp_all add: aes_eval)

lemma ecb_loop_single: "length b = bs \<Longrightarrow> b \<noteq> [] \<Longrightarrow> ecb_loop f bs b = Some (f b)"
  by (auto simp: ecb_loop.simps [of f bs b] ecb_loop.simps [of f bs "[]"])

lemma vector_block:
  "aes_encrypt (bytes_of DefaultRequestKey)
     [0x7b, 0x22, 0x61, 0x22, 0x3a, 0x31, 0x7d, 0x09, 0x09, 0x09, 0x09, 0x09, 0x09, 0x09, 0x09, 0x09] =
     [0xf6, 0xd9, 0x66, 0x62, 0x60, 0xc6, 0x49, 0xf4, 0x10, 0x50, 0xf4, 0x60, 0xaa, 0x0a, 0x2c, 0xbe]"
  by (simp add: aes_encrypt_def round_keys_def vector_key expand_keys.simps(2) [unfolded Let_def]
      vector_round_keys vector_rounds del: expand_keys.simps(2))

text \<open>The documented vector, at the level of \<open>Encrypt\<close>.\<close>

lemma codec_test_vector:
  "Encrypt (bytes_of ''{\"a\":1}'') (bytes_of DefaultRequestKey) =
     Inr [0xf6, 0xd9, 0x66, 0x62, 0x60, 0xc6, 0x49, 0xf4, 0x10, 0x50, 0xf4, 0x60, 0xaa, 0x0a, 0x2c, 0xbe]"
proof -
  have p: "pkcs7Pad (bytes_of ''{\"a\":1}'') 16 =
     [0x7b, 0x22, 0x61, 0x22, 0x3a, 0x31, 0x7d, 0x09, 0x09, 0x09, 0x09, 0x09, 0x09, 0x09, 0x09, 0x09]"
    by code_simp
  have k: "length (bytes_of DefaultRequestKey) = 16" by (simp add: DefaultRequestKey_def)
  show ?thesis
    using k by (simp add: Encrypt_def ecbEncrypt_def Let_def p ecb_loop_single vector_block del: length_bytes_of)
qed

subsection \<open>Witnesses of the codec properties on the vector\<close>

text \<open>The frame of the vector decodes to the payload, because encoding the payload gives it.\<close>

theorem DecodeFrame_witness:
  "DecodeFrame [0x00, 0xA0, 0x00, 0x00, 0x00, 0x10, 0xf6, 0xd9, 0x66, 0x62, 0x60, 0xc6, 0x49, 0xf4, 0x10, 0x50,
      0xf4, 0x60, 0xaa, 0x0a, 0x2c, 0xbe] (bytes_of DefaultRequestKey) = Inr (bytes_of ''{\"a\":1}'')"
proof -
  have "put_uint32 (of_nat 16) = [0, 0, 0, 0x10]" by code_simp
  then have "EncodeFrame (bytes_of ''{\"a\":1}'') (bytes_of DefaultRequestKey) =
      Inr [0x00, 0xA0, 0x00, 0x00, 0x00, 0x10, 0xf6, 0xd9, 0x66, 0x62, 0x60, 0xc6, 0x49, 0xf4, 0x10, 0x50,
      0xf4, 0x60, 0xaa, 0x0a, 0x2c, 0xbe]"
    by (simp add: EncodeFrame_def codec_test_vector frameByte0_def frameByte1_def)
  then show ?thesis
    by (subst DecodeFrame_iff_EncodeFrame) (simp_all only: list.size, simp)
qed

theorem Encrypt_witness:
  "Decrypt [0xf6, 0xd9, 0x66, 0x62, 0x60, 0xc6, 0x49, 0xf4, 0x10, 0x50, 0xf4, 0x60, 0xaa, 0x0a, 0x2c, 0xbe]
     (bytes_of DefaultRequestKey) = Inr (bytes_of ''{\"a\":1}'')"
proof -
  have "length (bytes_of DefaultRequestKey) = 16" by (simp add: DefaultRequestKey_def)
  from Encrypt_total_roundtrip [OF this, of "bytes_of ''{\"a\":1}''"] show ?thesis
    by (auto simp: codec_test_vector)
qed

theorem pkcs7_witness:
  "pkcs7Unpad [7, 8, 2, 2] 4 = Inr [7, 8] \<and> pkcs7Unpad [7, 8, 1, 2] 4 \<noteq> Inr [7, 8]"
proof -
  have p: "pkcs7Pad [7, 8] 4 = [7, 8, 2, 2]" by code_simp
  show ?thesis by (simp add: pkcs7Unpad_iff_pkcs7Pad p)
qed

end
