(* ===== verification/GoText.thy ===== *)
theory GoText
  imports Prelude
begin

text \<open>
  Text as Go's standard library sees it: UTF-8 decoding (\<open>unicode/utf8\<close>), white space trimming and
  case mapping (\<open>strings\<close>), hexadecimal and base-64 encoding, and the random tape \<open>crypto/rand\<close>
  reads.  Strings are byte sequences; a byte that does not start a valid encoding decodes to U+FFFD
  with width 1.  The case tables of Unicode beyond ASCII are a parameter.
\<close>

subsection \<open>UTF-8\<close>

abbreviation code_of :: "char \<Rightarrow> nat" where "code_of c \<equiv> of_char c"

definition RuneError :: nat where "RuneError = 0xFFFD"

definition cont :: "nat \<Rightarrow> bool" where "cont b \<longleftrightarrow> 0x80 \<le> b \<and> b \<le> 0xBF"

definition lo2 :: "nat \<Rightarrow> nat" where
  "lo2 b = (if b = 0xE0 then 0xA0 else if b = 0xF0 then 0x90 else 0x80)"

definition hi2 :: "nat \<Rightarrow> nat" where
  "hi2 b = (if b = 0xED then 0x9F else if b = 0xF4 then 0x8F else 0xBF)"

text \<open>\<open>utf8.DecodeRuneInString\<close> on a non-empty string: the rune and its width.\<close>

definition decode_rune :: "string \<Rightarrow> nat \<times> nat" where
  "decode_rune s =
     (case s of
        [] \<Rightarrow> (RuneError, 0)
      | c0 # t \<Rightarrow>
          (let b0 = code_of c0; b = (\<lambda>i. code_of (t ! i)) in
           if b0 < 0x80 then (b0, 1)
           else if 0xC2 \<le> b0 \<and> b0 \<le> 0xDF \<and> 1 \<le> length t \<and> cont (b 0)
             then ((b0 - 0xC0) * 64 + (b 0 - 0x80), 2)
           else if 0xE0 \<le> b0 \<and> b0 \<le> 0xEF \<and> 2 \<le> length t \<and> lo2 b0 \<le> b 0 \<and> b 0 \<le> hi2 b0 \<and> cont (b 1)
             then ((b0 - 0xE0) * 4096 + (b 0 - 0x80) * 64 + (b 1 - 0x80), 3)
           else if 0xF0 \<le> b0 \<and> b0 \<le> 0xF4 \<and> 3 \<le> length t \<and> lo2 b0 \<le> b 0 \<and> b 0 \<le> hi2 b0 \<and> cont (b 1) \<and> cont (b 2)
             then ((b0 - 0xF0) * 262144 + (b 0 - 0x80) * 4096 + (b 1 - 0x80) * 64 + (b 2 - 0x80), 4)
           else (RuneError, 1)))"

lemma decode_rune_width:
  assumes "s \<noteq> []"
  shows "0 < snd (decode_rune s)" "snd (decode_rune s) \<le> length s"
  using assms by (cases s; simp add: decode_rune_def Let_def)+

text \<open>The runes of a string with the bytes each was decoded from, in order.\<close>

function runes :: "string \<Rightarrow> (nat \<times> string) list" where
  "runes s = (if s = [] then []
              else (let (r, w) = decode_rune s in (r, take w s) # runes (drop w s)))"
  by pat_completeness auto
termination
  by (relation "measure length") (use decode_rune_width in \<open>auto simp: prod_eq_iff\<close>)

declare runes.simps [simp del]

definition RuneCountInString :: "string \<Rightarrow> nat" where
  "RuneCountInString s = length (runes s)"

text \<open>Encoding of a rune (\<open>utf8.AppendRune\<close>); surrogates and out-of-range values become U+FFFD.\<close>

definition encode_rune :: "nat \<Rightarrow> string" where
  "encode_rune r0 =
     (let r = (if r0 > 0x10FFFF \<or> (0xD800 \<le> r0 \<and> r0 \<le> 0xDFFF) then RuneError else r0) in
      map char_of
       (if r < 0x80 then [r]
        else if r < 0x800 then [0xC0 + r div 64, 0x80 + r mod 64]
        else if r < 0x10000 then [0xE0 + r div 4096, 0x80 + (r div 64) mod 64, 0x80 + r mod 64]
        else [0xF0 + r div 262144, 0x80 + (r div 4096) mod 64, 0x80 + (r div 64) mod 64, 0x80 + r mod 64]))"

text \<open>A string literal as its code points.\<close>

definition utf8 :: "nat list \<Rightarrow> string" where "utf8 rs = concat (map encode_rune rs)"

lemma encode_ascii [simp]: "r < 0x80 \<Longrightarrow> encode_rune r = [char_of r]"
  by (simp add: encode_rune_def Let_def)

definition ascii :: "string \<Rightarrow> bool" where
  "ascii s \<longleftrightarrow> list_all (\<lambda>c. code_of c < 0x80) s"

lemma decode_rune_ascii [simp]: "code_of c < 0x80 \<Longrightarrow> decode_rune (c # s) = (code_of c, 1)"
  by (simp add: decode_rune_def)

lemma runes_ascii: "ascii s \<Longrightarrow> runes s = map (\<lambda>c. (code_of c, [c])) s"
  by (induction s) (auto simp: ascii_def runes.simps)

lemma RuneCount_ascii: "ascii s \<Longrightarrow> RuneCountInString s = length s"
  by (simp add: RuneCountInString_def runes_ascii)

lemma runes_concat: "concat (map snd (runes s)) = s"
proof (induction s rule: runes.induct)
  case (1 s)
  show ?case
  proof (cases "s = []")
    case False
    obtain r w where d: "decode_rune s = (r, w)" by fastforce
    then have "concat (map snd (runes (drop w s))) = drop w s" using 1 False by simp
    then show ?thesis using False d by (simp add: runes.simps [of s])
  qed (simp add: runes.simps)
qed

lemma RuneCount_le: "RuneCountInString s \<le> length s"
  unfolding RuneCountInString_def
proof (induction s rule: runes.induct)
  case (1 s)
  show ?case
  proof (cases "s = []")
    case False
    obtain r w where d: "decode_rune s = (r, w)" by fastforce
    then have "length (runes (drop w s)) \<le> length s - w" "0 < w" "w \<le> length s"
      using 1 False decode_rune_width [of s] by auto
    then show ?thesis using False d by (simp add: runes.simps [of s])
  qed (simp add: runes.simps)
qed

text \<open>A string without invalid bytes.\<close>

definition valid_utf8 :: "string \<Rightarrow> bool" where
  "valid_utf8 s \<longleftrightarrow> (\<forall>(r, b) \<in> set (runes s). \<not> (r = RuneError \<and> length b = 1))"

lemma valid_utf8_ascii: "ascii s \<Longrightarrow> valid_utf8 s"
  by (auto simp: valid_utf8_def runes_ascii ascii_def list_all_iff RuneError_def)

lemma decode_rune_cases:
  assumes "decode_rune s = (r, w)" "s \<noteq> []" "\<not> (r = RuneError \<and> w = 1)"
  obtains (one) c t where "s = c # t" "code_of c < 0x80" "r = code_of c" "w = 1"
  | (two) c0 c1 t where "s = c0 # c1 # t" "0xC2 \<le> code_of c0" "code_of c0 \<le> 0xDF" "cont (code_of c1)"
      "r = (code_of c0 - 0xC0) * 64 + (code_of c1 - 0x80)" "w = 2"
  | (three) c0 c1 c2 t where "s = c0 # c1 # c2 # t" "0xE0 \<le> code_of c0" "code_of c0 \<le> 0xEF"
      "lo2 (code_of c0) \<le> code_of c1" "code_of c1 \<le> hi2 (code_of c0)" "cont (code_of c2)"
      "r = (code_of c0 - 0xE0) * 4096 + (code_of c1 - 0x80) * 64 + (code_of c2 - 0x80)" "w = 3"
  | (four) c0 c1 c2 c3 t where "s = c0 # c1 # c2 # c3 # t" "0xF0 \<le> code_of c0" "code_of c0 \<le> 0xF4"
      "lo2 (code_of c0) \<le> code_of c1" "code_of c1 \<le> hi2 (code_of c0)" "cont (code_of c2)" "cont (code_of c3)"
      "r = (code_of c0 - 0xF0) * 262144 + (code_of c1 - 0x80) * 4096 + (code_of c2 - 0x80) * 64 + (code_of c3 - 0x80)" "w = 4"
proof -
  obtain c0 t where s: "s = c0 # t" using assms(2) by (cases s) auto
  have l1: "\<exists>c1 u. t = c1 # u" if "1 \<le> length t" using that by (cases t) auto
  have l2: "\<exists>c1 c2 u. t = c1 # c2 # u" if "2 \<le> length t" using that by (cases t; cases "tl t") auto
  have l3: "\<exists>c1 c2 c3 u. t = c1 # c2 # c3 # u" if "3 \<le> length t"
    using that by (cases t; cases "tl t"; cases "tl (tl t)") auto
  consider "code_of c0 < 0x80"
    | "0xC2 \<le> code_of c0 \<and> code_of c0 \<le> 0xDF \<and> 1 \<le> length t \<and> cont (code_of (t ! 0))"
    | "0xE0 \<le> code_of c0 \<and> code_of c0 \<le> 0xEF \<and> 2 \<le> length t \<and> lo2 (code_of c0) \<le> code_of (t ! 0) \<and> code_of (t ! 0) \<le> hi2 (code_of c0) \<and> cont (code_of (t ! 1))"
    | "0xF0 \<le> code_of c0 \<and> code_of c0 \<le> 0xF4 \<and> 3 \<le> length t \<and> lo2 (code_of c0) \<le> code_of (t ! 0) \<and> code_of (t ! 0) \<le> hi2 (code_of c0) \<and> cont (code_of (t ! 1)) \<and> cont (code_of (t ! 2))"
    using assms(1,3) unfolding s decode_rune_def by (simp add: Let_def split: if_splits)
  then show ?thesis
  proof cases
    case 1
    then show ?thesis using one [of c0 t] assms(1) s by simp
  next
    case 2
    then obtain c1 u where "t = c1 # u" using l1 by blast
    then show ?thesis using two [of c0 c1 u] 2 assms(1) s by (simp add: decode_rune_def Let_def)
  next
    case 3
    then obtain c1 c2 u where "t = c1 # c2 # u" using l2 by blast
    then show ?thesis using three [of c0 c1 c2 u] 3 assms(1) s by (simp add: decode_rune_def Let_def)
  next
    case 4
    then obtain c1 c2 c3 u where "t = c1 # c2 # c3 # u" using l3 by blast
    then show ?thesis using four [of c0 c1 c2 c3 u] 4 assms(1) s
      by (simp add: decode_rune_def Let_def numeral_2_eq_2)
  qed
qed

lemma lo2_ge: "0x80 \<le> lo2 b" and hi2_le: "hi2 b \<le> 0xBF"
  by (simp_all add: lo2_def hi2_def)

lemma decode_rune_take:
  assumes "decode_rune s = (r, w)" "s \<noteq> []" "\<not> (r = RuneError \<and> w = 1)"
  shows "decode_rune (take w s @ t) = (r, w)"
  using assms by (cases rule: decode_rune_cases) (auto simp: decode_rune_def Let_def numeral_2_eq_2)

text \<open>Six-bit digits.\<close>

lemma six_bit_digits3:
  fixes r a b c :: nat
  assumes "b < 64" "c < 64" "r = a * 4096 + b * 64 + c"
  shows "r div 4096 = a" "r div 64 mod 64 = b" "r mod 64 = c"
proof -
  define m where "m = a * 64 + b"
  have "r = m * 64 + c" using assms(3) by (simp add: m_def)
  then have "r div 64 = m" "r mod 64 = c" using assms(2) by simp_all
  then show "r div 4096 = a" "r div 64 mod 64 = b" "r mod 64 = c" using assms(1) div_mult2_eq [of r 64 64] by (simp_all add: m_def)
qed

lemma six_bit_digits4:
  fixes r a b c e :: nat
  assumes "b < 64" "c < 64" "e < 64" "r = a * 262144 + b * 4096 + c * 64 + e"
  shows "r div 262144 = a" "r div 4096 mod 64 = b" "r div 64 mod 64 = c" "r mod 64 = e"
proof -
  define m where "m = a * 4096 + b * 64 + c"
  have "r = m * 64 + e" using assms(4) by (simp add: m_def)
  then have r: "r div 64 = m" "r mod 64 = e" using assms(3) by simp_all
  note d = six_bit_digits3 [OF assms(1,2) m_def]
  show "r div 262144 = a" "r div 4096 mod 64 = b" "r div 64 mod 64 = c" "r mod 64 = e"
    using r d div_mult2_eq [of r 64 4096] div_mult2_eq [of r 64 64] by simp_all
qed

lemma encode_decode_rune:
  assumes "decode_rune s = (r, w)" "s \<noteq> []" "\<not> (r = RuneError \<and> w = 1)"
  shows "encode_rune r = take w s"
  using assms
proof (cases rule: decode_rune_cases)
  case (one c t)
  then show ?thesis by simp
next
  case (two c0 c1 t)
  define a b where "a = code_of c0 - 0xC0" and "b = code_of c1 - 0x80"
  have ab: "2 \<le> a" "a < 32" "b < 64" "code_of c0 = 0xC0 + a" "code_of c1 = 0x80 + b" "r = a * 64 + b"
    using two by (auto simp: a_def b_def cont_def)
  have c: "c0 = char_of (0xC0 + a)" "c1 = char_of (0x80 + b)" by (simp_all flip: ab(4,5))
  have "r div 64 = a" "r mod 64 = b" using ab by simp_all
  then show ?thesis using two ab c by (simp add: encode_rune_def Let_def)
next
  case (three c0 c1 c2 t)
  define a b c where "a = code_of c0 - 0xE0" and "b = code_of c1 - 0x80" and "c = code_of c2 - 0x80"
  have ab: "a < 16" "b < 64" "c < 64" "code_of c0 = 0xE0 + a" "code_of c1 = 0x80 + b" "code_of c2 = 0x80 + c"
     "r = a * 4096 + b * 64 + c"
    using three lo2_ge [of "code_of c0"] hi2_le [of "code_of c0"] by (auto simp: a_def b_def c_def cont_def)
  have cs: "c0 = char_of (0xE0 + a)" "c1 = char_of (0x80 + b)" "c2 = char_of (0x80 + c)" by (simp_all flip: ab(4,5,6))
  have d: "r div 4096 = a" "r div 64 mod 64 = b" "r mod 64 = c" by (rule six_bit_digits3 [OF ab(2,3,7)])+
  have "a = 0 \<Longrightarrow> 32 \<le> b" using three(4) ab(4,5) by (simp add: lo2_def)
  then have lo: "0x800 \<le> r" using ab(7) by (cases "a = 0") auto
  have "a = 13 \<Longrightarrow> b < 32" using three(5) ab(4,5) by (simp add: hi2_def)
  then have "a \<le> 12 \<or> (a = 13 \<and> b < 32) \<or> 14 \<le> a" by linarith
  then have "\<not> (0xD800 \<le> r \<and> r \<le> 0xDFFF)" using ab(2,3,7) by (elim disjE) auto
  moreover have "r < 0x10000" using ab by simp
  ultimately show ?thesis using three(1,8) lo d cs by (auto simp: encode_rune_def Let_def)
next
  case (four c0 c1 c2 c3 t)
  define a b c e where "a = code_of c0 - 0xF0" and "b = code_of c1 - 0x80" and "c = code_of c2 - 0x80" and "e = code_of c3 - 0x80"
  have ab: "a \<le> 4" "b < 64" "c < 64" "e < 64" "code_of c0 = 0xF0 + a" "code_of c1 = 0x80 + b" "code_of c2 = 0x80 + c"
     "code_of c3 = 0x80 + e" "r = a * 262144 + b * 4096 + c * 64 + e"
    using four lo2_ge [of "code_of c0"] hi2_le [of "code_of c0"] by (auto simp: a_def b_def c_def e_def cont_def)
  have cs: "c0 = char_of (0xF0 + a)" "c1 = char_of (0x80 + b)" "c2 = char_of (0x80 + c)" "c3 = char_of (0x80 + e)"
    by (simp_all flip: ab(5-8))
  have d: "r div 262144 = a" "r div 4096 mod 64 = b" "r div 64 mod 64 = c" "r mod 64 = e"
    by (rule six_bit_digits4 [OF ab(2-4,9)])+
  have "a = 0 \<Longrightarrow> 16 \<le> b" using four(4) ab(5,6) by (simp add: lo2_def)
  then have lo: "0x10000 \<le> r" using ab(9) by (cases "a = 0") auto
  have "a = 4 \<Longrightarrow> b < 16" using four(5) ab(5,6) by (simp add: hi2_def)
  then have "a \<le> 3 \<or> (a = 4 \<and> b < 16)" using ab(1) by linarith
  then have "r \<le> 0x10FFFF" using ab by (elim disjE) auto
  then show ?thesis using four(1,9) lo d cs by (simp add: encode_rune_def Let_def)
qed

subsection \<open>White space\<close>

text \<open>The UTF-8 encodings of the runes of \<open>unicode.IsSpace\<close>.\<close>

definition space_seqs :: "string list" where
  "space_seqs =
     [[CHR 0x09], [CHR 0x0A], [CHR 0x0B], [CHR 0x0C], [CHR 0x0D], [CHR 0x20],
      [CHR 0xC2, CHR 0x85], [CHR 0xC2, CHR 0xA0], [CHR 0xE1, CHR 0x9A, CHR 0x80],
      [CHR 0xE2, CHR 0x80, CHR 0x80], [CHR 0xE2, CHR 0x80, CHR 0x81], [CHR 0xE2, CHR 0x80, CHR 0x82],
      [CHR 0xE2, CHR 0x80, CHR 0x83], [CHR 0xE2, CHR 0x80, CHR 0x84], [CHR 0xE2, CHR 0x80, CHR 0x85],
      [CHR 0xE2, CHR 0x80, CHR 0x86], [CHR 0xE2, CHR 0x80, CHR 0x87], [CHR 0xE2, CHR 0x80, CHR 0x88],
      [CHR 0xE2, CHR 0x80, CHR 0x89], [CHR 0xE2, CHR 0x80, CHR 0x8A], [CHR 0xE2, CHR 0x80, CHR 0xA8],
      [CHR 0xE2, CHR 0x80, CHR 0xA9], [CHR 0xE2, CHR 0x80, CHR 0xAF], [CHR 0xE2, CHR 0x81, CHR 0x9F],
      [CHR 0xE3, CHR 0x80, CHR 0x80]]"

lemma space_seqs_ne: "p \<in> set space_seqs \<Longrightarrow> 0 < length p"
  by (auto simp: space_seqs_def)

text \<open>Dropping leading encoded spaces, and trailing ones: a rune decoded from the end of a string is
  a space exactly when the string ends with that space's encoding.\<close>

function trim_left_space :: "string \<Rightarrow> string" where
  "trim_left_space s =
     (case find (has_prefix s) space_seqs of
        None \<Rightarrow> s
      | Some p \<Rightarrow> trim_left_space (drop (length p) s))"
  by pat_completeness auto
termination
proof (relation "measure length")
  fix s :: string and p :: string
  assume "find (has_prefix s) space_seqs = Some p"
  then have "p \<in> set space_seqs" "has_prefix s p" by (auto simp: find_Some_iff)
  then show "(drop (length p) s, s) \<in> measure length"
    using space_seqs_ne [of p] by (simp add: has_prefix_def del: length_greater_0_conv)
qed simp

function trim_right_space :: "string \<Rightarrow> string" where
  "trim_right_space s =
     (case find (has_suffix s) space_seqs of
        None \<Rightarrow> s
      | Some p \<Rightarrow> trim_right_space (take (length s - length p) s))"
  by pat_completeness auto
termination
proof (relation "measure length")
  fix s :: string and p :: string
  assume "find (has_suffix s) space_seqs = Some p"
  then have "p \<in> set space_seqs" "has_suffix s p" by (auto simp: find_Some_iff)
  then show "(take (length s - length p) s, s) \<in> measure length"
    using space_seqs_ne [of p] by (simp add: has_suffix_def del: length_greater_0_conv)
qed simp

declare trim_left_space.simps [simp del] trim_right_space.simps [simp del]

definition TrimSpace :: "string \<Rightarrow> string" where
  "TrimSpace s = trim_right_space (trim_left_space s)"

text \<open>Bytes that occur in no encoding of a space.\<close>

definition never_space :: "char \<Rightarrow> bool" where
  "never_space c \<longleftrightarrow> 0x21 \<le> code_of c \<and> code_of c < 0x80"

lemma space_seqs_chars: "p \<in> set space_seqs \<Longrightarrow> c \<in> set p \<Longrightarrow> \<not> never_space c"
  by (auto simp: space_seqs_def never_space_def)

lemma trim_left_id: "s = [] \<or> never_space (hd s) \<Longrightarrow> trim_left_space s = s"
proof -
  assume s: "s = [] \<or> never_space (hd s)"
  have "find (has_prefix s) space_seqs = None"
    unfolding find_None_iff
  proof (rule notI)
    assume "\<exists>p. p \<in> set space_seqs \<and> has_prefix s p"
    then obtain p where p: "p \<in> set space_seqs" "has_prefix s p" by blast
    then have "p \<noteq> []" "s \<noteq> []" "hd s = hd p" using space_seqs_ne [of p] by (auto simp: has_prefix_iff)
    then show False using s p(1) space_seqs_chars [of p "hd p"] by auto
  qed
  then show ?thesis by (simp add: trim_left_space.simps)
qed

lemma trim_right_id: "s = [] \<or> never_space (last s) \<Longrightarrow> trim_right_space s = s"
proof -
  assume s: "s = [] \<or> never_space (last s)"
  have "find (has_suffix s) space_seqs = None"
    unfolding find_None_iff
  proof (rule notI)
    assume "\<exists>p. p \<in> set space_seqs \<and> has_suffix s p"
    then obtain p where p: "p \<in> set space_seqs" "has_suffix s p" by blast
    then have "p \<noteq> []" "s \<noteq> []" "last s = last p" using space_seqs_ne [of p] by (auto simp: has_suffix_iff)
    then show False using s p(1) space_seqs_chars [of p "last p"] by auto
  qed
  then show ?thesis by (simp add: trim_right_space.simps)
qed

lemma TrimSpace_id: "s = [] \<or> (never_space (hd s) \<and> never_space (last s)) \<Longrightarrow> TrimSpace s = s"
  by (auto simp: TrimSpace_def trim_left_id trim_right_id)

lemma is_digit_never_space: "is_digit c \<Longrightarrow> never_space c"
  by (simp add: is_digit_def never_space_def)

lemma TrimSpace_digits: "list_all is_digit s \<Longrightarrow> TrimSpace s = s"
  by (rule TrimSpace_id) (cases "s = []"; simp add: is_digit_never_space list_all_iff)

subsection \<open>Case\<close>

definition ascii_lower :: "nat \<Rightarrow> nat" where
  "ascii_lower r = (if 65 \<le> r \<and> r \<le> 90 then r + 32 else r)"

text \<open>\<open>strings.ToLower\<close>: \<open>low\<close> is \<open>unicode.ToLower\<close> on the runes beyond ASCII.\<close>

definition ToLower :: "(nat \<Rightarrow> nat) \<Rightarrow> string \<Rightarrow> string" where
  "ToLower low s = concat (map (\<lambda>(r, _). encode_rune (if r < 0x80 then ascii_lower r else low r)) (runes s))"

text \<open>\<open>strings.EqualFold\<close>: \<open>feq\<close> is equality under simple folding when a rune is beyond ASCII.\<close>

definition EqualFold :: "(nat \<Rightarrow> nat \<Rightarrow> bool) \<Rightarrow> string \<Rightarrow> string \<Rightarrow> bool" where
  "EqualFold feq s t =
     list_all2 (\<lambda>(a, _) (b, _). a = b \<or> (if a < 0x80 \<and> b < 0x80 then ascii_lower a = ascii_lower b else feq a b))
       (runes s) (runes t)"

lemma EqualFold_refl: "EqualFold feq s s"
  by (auto simp: EqualFold_def list_all2_conv_all_nth split: prod.splits)

lemma ToLower_ascii: "ascii s \<Longrightarrow> ToLower low s = map (\<lambda>c. char_of (ascii_lower (code_of c))) s"
proof -
  assume a: "ascii s"
  then have "ToLower low s = concat (map (\<lambda>c. encode_rune (ascii_lower (code_of c))) s)"
    by (auto simp: ToLower_def runes_ascii ascii_def list_all_iff intro!: arg_cong [where f = concat])
  also have "\<dots> = map (\<lambda>c. char_of (ascii_lower (code_of c))) s"
    using a by (induction s) (auto simp: ascii_def ascii_lower_def)
  finally show ?thesis .
qed

subsection \<open>Hexadecimal, base 64 and the random tape\<close>

definition hex_digit :: "nat \<Rightarrow> char" where
  "hex_digit n = char_of (if n < 10 then 48 + n else 87 + n)"

definition hex_EncodeToString :: "bytes \<Rightarrow> string" where
  "hex_EncodeToString b = concat (map (\<lambda>x. [hex_digit (unat x div 16), hex_digit (unat x mod 16)]) b)"

definition b64_char :: "nat \<Rightarrow> char" where
  "b64_char n =
     (''ABCDEFGHIJKLMNOPQRSTUVWXYZabcdefghijklmnopqrstuvwxyz0123456789+/'') ! n"

fun base64_EncodeToString :: "bytes \<Rightarrow> string" where
  "base64_EncodeToString [] = []"
| "base64_EncodeToString [a] =
     (let v = unat a * 65536 in [b64_char (v div 262144), b64_char (v div 4096 mod 64), CHR ''='', CHR ''=''])"
| "base64_EncodeToString [a, b] =
     (let v = unat a * 65536 + unat b * 256 in
      [b64_char (v div 262144), b64_char (v div 4096 mod 64), b64_char (v div 64 mod 64), CHR ''=''])"
| "base64_EncodeToString (a # b # c # r) =
     (let v = unat a * 65536 + unat b * 256 + unat c in
      [b64_char (v div 262144), b64_char (v div 4096 mod 64), b64_char (v div 64 mod 64), b64_char (v mod 64)]) @
     base64_EncodeToString r"

text \<open>\<open>rand.Read\<close>: the operating system's random bytes are a finite tape; when it has fewer than
  the requested bytes left the read fails and consumes nothing.\<close>

type_synonym rng = bytes

definition rand_read :: "nat \<Rightarrow> rng \<Rightarrow> (bytes option) \<times> rng" where
  "rand_read n t = (if n \<le> length t then (Some (take n t), drop n t) else (None, t))"

lemma length_hex [simp]: "length (hex_EncodeToString b) = 2 * length b"
  by (induction b) (simp_all add: hex_EncodeToString_def)

lemma length_base64: "length (base64_EncodeToString b) = 4 * ((length b + 2) div 3)"
proof (induction b rule: base64_EncodeToString.induct)
  case (4 a b c r)
  have "(length (a # b # c # r) + 2) div 3 = (length r + 2) div 3 + 1" by simp
  moreover have "length (base64_EncodeToString (a # b # c # r)) = 4 + length (base64_EncodeToString r)"
    by (simp only: base64_EncodeToString.simps Let_def) simp
  ultimately show ?case using 4 by simp
qed (simp_all only: base64_EncodeToString.simps Let_def, simp_all)

lemma code_of_hex_digit: "n < 16 \<Longrightarrow> code_of (hex_digit n) = (if n < 10 then 48 + n else 87 + n)"
  by (simp add: hex_digit_def)

lemma hex_digit_inject: "a < 16 \<Longrightarrow> b < 16 \<Longrightarrow> hex_digit a = hex_digit b \<longleftrightarrow> a = b"
proof
  assume l: "a < 16" "b < 16" and "hex_digit a = hex_digit b"
  then have "(if a < 10 then 48 + a else 87 + a) = (if b < 10 then 48 + b else 87 + b)"
    using code_of_hex_digit [of a] code_of_hex_digit [of b] by simp
  then show "a = b" using l by presburger
qed simp

lemma hex_pair_inject:
  "hex_digit (unat x div 16) = hex_digit (unat y div 16) \<and> hex_digit (unat x mod 16) = hex_digit (unat y mod 16)
   \<longleftrightarrow> x = (y :: byte)"
proof -
  have "unat x div 16 < 16" "unat y div 16 < 16"
    using unsigned_less [of x, where ?'a = nat] unsigned_less [of y, where ?'a = nat] by auto
  then show ?thesis
    by (simp add: hex_digit_inject) (metis div_mult_mod_eq word_unat_eq_iff)
qed

lemma hex_inject: "hex_EncodeToString a = hex_EncodeToString b \<longleftrightarrow> a = b"
proof (induction a arbitrary: b)
  case Nil
  then show ?case by (cases b) (simp_all add: hex_EncodeToString_def)
next
  case (Cons x a)
  show ?case
  proof (cases b)
    case (Cons y c)
    then show ?thesis
      using Cons.IH [of c] hex_pair_inject [of x y] by (auto simp: hex_EncodeToString_def)
  qed (simp add: hex_EncodeToString_def)
qed

lemma hex_never_space: "list_all never_space (hex_EncodeToString b)"
proof -
  have "never_space (hex_digit n)" if "n < 16" for n
    using that by (simp add: never_space_def code_of_hex_digit)
  moreover have "unat (x :: byte) div 16 < 16" for x
    using unsigned_less [of x, where ?'a = nat] by auto
  ultimately show ?thesis by (induction b) (simp_all add: hex_EncodeToString_def)
qed

subsection \<open>Leading white space\<close>

definition ascii_space :: "char \<Rightarrow> bool" where
  "ascii_space c \<longleftrightarrow> c \<in> {CHR 0x09, CHR 0x0A, CHR 0x0B, CHR 0x0C, CHR 0x0D, CHR 0x20}"

lemma has_prefix_step: "has_prefix (c # t) (d # p) = (c = d \<and> has_prefix t p)" "has_prefix t []"
  by (auto simp: has_prefix_def)

lemma find_space: "ascii_space c \<Longrightarrow> find (has_prefix (c # t)) space_seqs = Some [c]"
  unfolding ascii_space_def by (elim insertE emptyE) (simp_all add: space_seqs_def has_prefix_step)

lemma trim_left_space_skip: "ascii_space c \<Longrightarrow> trim_left_space (c # t) = trim_left_space t"
  by (subst trim_left_space.simps) (simp add: find_space)

lemma trim_left_spaces: "list_all ascii_space w \<Longrightarrow> trim_left_space (w @ t) = trim_left_space t"
  by (induction w) (simp_all add: trim_left_space_skip)

lemma trim_left_length: "length (trim_left_space s) \<le> length s"
proof (induction s rule: trim_left_space.induct)
  case (1 s)
  then show ?case by (subst trim_left_space.simps) (force split: option.splits)
qed

lemma trim_right_length: "length (trim_right_space s) \<le> length s"
proof (induction s rule: trim_right_space.induct)
  case (1 s)
  then show ?case by (subst trim_right_space.simps) (force split: option.splits)
qed

lemma trim_right_suffix: "\<exists>u. s = trim_right_space s @ u"
proof (induction s rule: trim_right_space.induct)
  case (1 s)
  show ?case
  proof (cases "find (has_suffix s) space_seqs")
    case None then show ?thesis by (subst trim_right_space.simps) simp
  next
    case (Some p)
    then obtain u where "take (length s - length p) s = trim_right_space (take (length s - length p) s) @ u" using 1 by blast
    then show ?thesis using Some by (subst trim_right_space.simps) (metis append.assoc append_take_drop_id option.simps(5))
  qed
qed

lemma trim_left_suffix: "\<exists>u. s = u @ trim_left_space s"
proof (induction s rule: trim_left_space.induct)
  case (1 s)
  show ?case
  proof (cases "find (has_prefix s) space_seqs")
    case None then show ?thesis by (subst trim_left_space.simps) simp
  next
    case (Some p)
    then obtain u where "drop (length p) s = u @ trim_left_space (drop (length p) s)" using 1 by blast
    then show ?thesis using Some by (subst trim_left_space.simps) (metis append.assoc append_take_drop_id option.simps(5))
  qed
qed

lemma TrimSpace_spaces:
  assumes "TrimSpace s = s" "list_all ascii_space w" shows "TrimSpace (w @ s) = s"
proof -
  have "trim_left_space s = s"
    using assms(1) trim_left_length [of s] trim_right_length [of "trim_left_space s"] trim_left_suffix [of s]
    by (metis TrimSpace_def append_eq_append_conv append_self_conv2 le_antisym)
  with assms show ?thesis by (simp add: TrimSpace_def trim_left_spaces)
qed

end
