(* ===== verification/Json.thy ===== *)
theory Json
  imports GoText
begin

text \<open>
  The parts of \<open>encoding/json\<close> the sources rely on, at the level of bytes: \<open>json_print\<close> writes a
  value the way \<open>json.Marshal\<close> does (HTML escaping on, invalid UTF-8 replaced), \<open>json_parse\<close> accepts
  the texts \<open>json.Unmarshal\<close> accepts, and \<open>unmarshal_struct\<close> assigns the members of an object to the
  fields of a struct in order, matching names exactly first and then case-insensitively, going on
  after a type error.  The main result is that parsing what was printed gives the value back.
\<close>

datatype json = JNull | JBool bool | JNum string | JStr string | JArr "json list" | JObj "(string \<times> json) list"

subsection \<open>Printing\<close>

definition backslash :: char where "backslash = CHR 0x5C"
definition dquote :: char where "dquote = CHR 0x22"

definition u_escape :: "nat \<Rightarrow> string" where
  "u_escape r =
     [backslash, CHR ''u'', hex_digit (r div 4096), hex_digit (r div 256 mod 16), hex_digit (r div 16 mod 16),
      hex_digit (r mod 16)]"

definition esc_rune :: "nat \<times> string \<Rightarrow> string" where
  "esc_rune rb =
     (case rb of (r, b) \<Rightarrow>
        if r = 0x22 then [backslash, dquote]
        else if r = 0x5C then [backslash, backslash]
        else if r = 8 then [backslash, CHR ''b'']
        else if r = 12 then [backslash, CHR ''f'']
        else if r = 10 then [backslash, CHR ''n'']
        else if r = 13 then [backslash, CHR ''r'']
        else if r = 9 then [backslash, CHR ''t'']
        else if r < 0x20 \<or> r = 0x3C \<or> r = 0x3E \<or> r = 0x26 then u_escape r
        else if r = RuneError \<and> length b = 1 then u_escape RuneError
        else if r = 0x2028 \<or> r = 0x2029 then u_escape r
        else b)"

definition json_quote :: "string \<Rightarrow> string" where
  "json_quote s = dquote # concat (map esc_rune (runes s)) @ [dquote]"

fun json_print :: "json \<Rightarrow> string"
  and json_print_elems :: "json list \<Rightarrow> string"
  and json_print_members :: "(string \<times> json) list \<Rightarrow> string" where
  "json_print JNull = ''null''"
| "json_print (JBool b) = (if b then ''true'' else ''false'')"
| "json_print (JNum n) = n"
| "json_print (JStr s) = json_quote s"
| "json_print (JArr xs) = CHR ''['' # json_print_elems xs @ '']''"
| "json_print (JObj ms) = CHR ''{'' # json_print_members ms @ ''}''"
| "json_print_elems [] = []"
| "json_print_elems [x] = json_print x"
| "json_print_elems (x # y # ys) = json_print x @ '','' @ json_print_elems (y # ys)"
| "json_print_members [] = []"
| "json_print_members [(k, v)] = json_quote k @ '':'' @ json_print v"
| "json_print_members ((k, v) # m # ms) = json_quote k @ '':'' @ json_print v @ '','' @ json_print_members (m # ms)"

subsection \<open>Parsing\<close>

definition is_ws :: "char \<Rightarrow> bool" where
  "is_ws c \<longleftrightarrow> c = CHR '' '' \<or> c = CHR 0x09 \<or> c = CHR 0x0A \<or> c = CHR 0x0D"

definition skip_ws :: "string \<Rightarrow> string" where
  "skip_ws s = dropWhile is_ws s"

definition hex_val :: "char \<Rightarrow> nat option" where
  "hex_val c =
     (let n = code_of c in
      if 48 \<le> n \<and> n \<le> 57 then Some (n - 48)
      else if 97 \<le> n \<and> n \<le> 102 then Some (n - 87)
      else if 65 \<le> n \<and> n \<le> 70 then Some (n - 55)
      else None)"

text \<open>Four hexadecimal digits and what follows.\<close>

definition get_u4 :: "string \<Rightarrow> (nat \<times> string) option" where
  "get_u4 s =
     (case s of
        a # b # c # d # r \<Rightarrow>
          (case (hex_val a, hex_val b, hex_val c, hex_val d) of
             (Some w, Some x, Some y, Some z) \<Rightarrow> Some (w * 4096 + x * 256 + y * 16 + z, r)
           | _ \<Rightarrow> None)
      | _ \<Rightarrow> None)"

text \<open>The rune of a \<open>\u\<close> escape: a surrogate combines with a following \<open>\u\<close> escape if the two form a
  pair, and is U+FFFD otherwise.\<close>

definition unescape_u :: "nat \<Rightarrow> string \<Rightarrow> nat \<times> string" where
  "unescape_u r s =
     (if 0xD800 \<le> r \<and> r \<le> 0xDFFF then
        (case s of
           a # b # t \<Rightarrow>
             if a = backslash \<and> b = CHR ''u'' then
               (case get_u4 t of
                  Some (r2, t2) \<Rightarrow>
                    if r \<le> 0xDBFF \<and> 0xDC00 \<le> r2 \<and> r2 \<le> 0xDFFF
                    then ((r - 0xD800) * 1024 + (r2 - 0xDC00) + 0x10000, t2) else (RuneError, s)
                | None \<Rightarrow> (RuneError, s))
             else (RuneError, s)
         | _ \<Rightarrow> (RuneError, s))
      else (r, s))"

definition simple_escape :: "char \<Rightarrow> char option" where
  "simple_escape c =
     (if c = dquote \<or> c = backslash \<or> c = CHR ''/'' then Some c
      else if c = CHR ''b'' then Some (CHR 0x08)
      else if c = CHR ''f'' then Some (CHR 0x0C)
      else if c = CHR ''n'' then Some (CHR 0x0A)
      else if c = CHR ''r'' then Some (CHR 0x0D)
      else if c = CHR ''t'' then Some (CHR 0x09)
      else None)"

text \<open>One item of a string literal: the bytes it stands for and the rest, \<open>None\<close> on a syntax error.\<close>

definition string_item :: "string \<Rightarrow> (string \<times> string) option" where
  "string_item s =
     (case s of
        [] \<Rightarrow> None
      | c # cs \<Rightarrow>
          if c = backslash then
            (case cs of
               [] \<Rightarrow> None
             | e # t \<Rightarrow>
                 if e = CHR ''u'' then
                   (case get_u4 t of
                      None \<Rightarrow> None
                    | Some (r, t2) \<Rightarrow> (case unescape_u r t2 of (r2, t3) \<Rightarrow> Some (encode_rune r2, t3)))
                 else (case simple_escape e of None \<Rightarrow> None | Some x \<Rightarrow> Some ([x], t)))
          else if code_of c < 0x20 then None
          else (case decode_rune s of
                  (r, w) \<Rightarrow> Some (if r = RuneError \<and> w = 1 then encode_rune RuneError else take w s, drop w s)))"

lemma get_u4_length: "get_u4 s = Some (r, t) \<Longrightarrow> length t < length s"
  by (auto simp: get_u4_def split: list.splits option.splits)

lemma unescape_u_length: "unescape_u r s = (r2, t) \<Longrightarrow> length t \<le> length s"
  by (auto simp: unescape_u_def split: if_splits list.splits option.splits dest!: get_u4_length)

lemma string_item_length: "string_item s = Some (b, t) \<Longrightarrow> length t < length s"
proof -
  assume a: "string_item s = Some (b, t)"
  then obtain c cs where s: "s = c # cs" by (cases s) (auto simp: string_item_def)
  show ?thesis
  proof (cases "c = backslash")
    case True
    then show ?thesis
      using a s by (fastforce simp: string_item_def split: list.splits if_splits option.splits prod.splits
          dest: get_u4_length unescape_u_length)
  next
    case False
    then show ?thesis
      using a s decode_rune_width [of s] by (auto simp: string_item_def split: if_splits prod.splits)
  qed
qed

text \<open>The body of a string literal after its opening quote.\<close>

function parse_string :: "string \<Rightarrow> (string \<times> string) option" where
  "parse_string s =
     (case s of
        [] \<Rightarrow> None
      | c # cs \<Rightarrow>
          if c = dquote then Some ([], cs)
          else (case string_item s of
                  None \<Rightarrow> None
                | Some (b, t) \<Rightarrow> (case parse_string t of None \<Rightarrow> None | Some (u, r) \<Rightarrow> Some (b @ u, r))))"
  by pat_completeness auto
termination
  by (relation "measure length") (auto dest: string_item_length)

declare parse_string.simps [simp del]

text \<open>A number token: sign, integer part without leading zeros, fraction, exponent.\<close>

definition digits_tok :: "string \<Rightarrow> string \<times> string" where
  "digits_tok s = (takeWhile is_digit s, dropWhile is_digit s)"

definition frac_tok :: "string \<Rightarrow> (string \<times> string) option" where
  "frac_tok s =
     (case s of
        c # cs \<Rightarrow> if c = CHR ''.''
                  then (case digits_tok cs of (d, r) \<Rightarrow> if d = [] then None else Some (c # d, r))
                  else Some ([], s)
      | [] \<Rightarrow> Some ([], s))"

definition exp_tok :: "string \<Rightarrow> (string \<times> string) option" where
  "exp_tok s =
     (case s of
        c # cs \<Rightarrow> if c = CHR ''e'' \<or> c = CHR ''E''
                  then (let (sg, t) = (case cs of x # xs \<Rightarrow> if x = CHR ''+'' \<or> x = CHR ''-'' then ([x], xs) else ([], cs)
                                                | [] \<Rightarrow> ([], cs)) in
                        case digits_tok t of (d, r) \<Rightarrow> if d = [] then None else Some (c # sg @ d, r))
                  else Some ([], s)
      | [] \<Rightarrow> Some ([], s))"

definition int_tok :: "string \<Rightarrow> (string \<times> string) option" where
  "int_tok s =
     (case s of
        c # cs \<Rightarrow> if c = CHR ''0'' then Some ([c], cs)
                  else if is_digit c then Some (digits_tok s) else None
      | [] \<Rightarrow> None)"

definition num_tok :: "string \<Rightarrow> (string \<times> string) option" where
  "num_tok s =
     (let (sg, t) = (case s of c # cs \<Rightarrow> if c = CHR ''-'' then ([c], cs) else ([], s) | [] \<Rightarrow> ([], s)) in
      case int_tok t of
        None \<Rightarrow> None
      | Some (i, r1) \<Rightarrow>
          (case frac_tok r1 of
             None \<Rightarrow> None
           | Some (f, r2) \<Rightarrow> (case exp_tok r2 of None \<Rightarrow> None | Some (e, r3) \<Rightarrow> Some (sg @ i @ f @ e, r3))))"

definition max_depth :: nat where "max_depth = 10000"

text \<open>The value parser.  The first argument bounds the recursion and \<open>d\<close> is the nesting depth, which
  the package limits to 10000.\<close>

fun parse_value :: "nat \<Rightarrow> nat \<Rightarrow> string \<Rightarrow> (json \<times> string) option"
  and parse_elems :: "nat \<Rightarrow> nat \<Rightarrow> string \<Rightarrow> (json list \<times> string) option"
  and parse_members :: "nat \<Rightarrow> nat \<Rightarrow> string \<Rightarrow> ((string \<times> json) list \<times> string) option" where
  "parse_value 0 d s = None"
| "parse_value (Suc n) d s =
     (case skip_ws s of
        [] \<Rightarrow> None
      | c # cs \<Rightarrow>
          if c = dquote then map_option (map_prod JStr id) (parse_string cs)
          else if c = CHR ''{'' then
            (if d \<ge> max_depth then None
             else (case skip_ws cs of
                     x # r \<Rightarrow> if x = CHR ''}'' then Some (JObj [], r)
                              else map_option (map_prod JObj id) (parse_members n (Suc d) cs)
                   | [] \<Rightarrow> None))
          else if c = CHR ''['' then
            (if d \<ge> max_depth then None
             else (case skip_ws cs of
                     x # r \<Rightarrow> if x = CHR '']'' then Some (JArr [], r)
                              else map_option (map_prod JArr id) (parse_elems n (Suc d) cs)
                   | [] \<Rightarrow> None))
          else if has_prefix (c # cs) ''null'' then Some (JNull, drop 4 (c # cs))
          else if has_prefix (c # cs) ''true'' then Some (JBool True, drop 4 (c # cs))
          else if has_prefix (c # cs) ''false'' then Some (JBool False, drop 5 (c # cs))
          else map_option (map_prod JNum id) (num_tok (c # cs)))"
| "parse_elems 0 d s = None"
| "parse_elems (Suc n) d s =
     (case parse_value n d s of
        None \<Rightarrow> None
      | Some (v, r) \<Rightarrow>
          (case skip_ws r of
             x # r2 \<Rightarrow> if x = CHR '']'' then Some ([v], r2)
                       else if x = CHR '','' then map_option (map_prod ((#) v) id) (parse_elems n d r2)
                       else None
           | [] \<Rightarrow> None))"
| "parse_members 0 d s = None"
| "parse_members (Suc n) d s =
     (case skip_ws s of
        q # t \<Rightarrow>
          if q = dquote then
            (case parse_string t of
               None \<Rightarrow> None
             | Some (k, r) \<Rightarrow>
                 (case skip_ws r of
                    x # r2 \<Rightarrow>
                      if x = CHR '':'' then
                        (case parse_value n d r2 of
                           None \<Rightarrow> None
                         | Some (v, r3) \<Rightarrow>
                             (case skip_ws r3 of
                                y # r4 \<Rightarrow> if y = CHR ''}'' then Some ([(k, v)], r4)
                                          else if y = CHR '','' then map_option (map_prod ((#) (k, v)) id) (parse_members n d r4)
                                          else None
                              | [] \<Rightarrow> None))
                      else None
                  | [] \<Rightarrow> None))
          else None
      | [] \<Rightarrow> None)"

declare parse_value.simps(2) [simp del] parse_elems.simps(2) [simp del] parse_members.simps(2) [simp del]

text \<open>The whole text: one value with nothing but white space after it.\<close>

definition json_parse :: "string \<Rightarrow> json option" where
  "json_parse s =
     (case parse_value (2 * length s + 2) 0 s of
        Some (v, r) \<Rightarrow> if skip_ws r = [] then Some v else None
      | None \<Rightarrow> None)"

subsection \<open>Strings come back\<close>

lemma hex_val_digit [simp]: "n < 16 \<Longrightarrow> hex_val (hex_digit n) = Some n"
  by (simp add: hex_val_def Let_def code_of_hex_digit)

lemma get_u4_escape: "r < 0x10000 \<Longrightarrow> get_u4 (drop 2 (u_escape r) @ t) = Some (r, t)"
proof -
  assume r: "r < 0x10000"
  have "r div 4096 * 4096 + r div 256 mod 16 * 256 + r div 16 mod 16 * 16 + r mod 16 = r"
  proof -
    define m n where "m = r div 16" and "n = m div 16"
    have "r = 16 * m + r mod 16" "m = 16 * n + m mod 16" "n = 16 * (n div 16) + n mod 16"
      by (simp_all add: m_def n_def)
    then have "n div 16 * 4096 + n mod 16 * 256 + m mod 16 * 16 + r mod 16 = r" by linarith
    moreover have "r div 256 = n" "r div 4096 = n div 16" "r div 16 = m"
      using div_mult2_eq [of r 16 16] div_mult2_eq [of r 256 16] by (simp_all add: m_def n_def)
    ultimately show ?thesis by simp
  qed
  then show ?thesis using r by (simp add: get_u4_def u_escape_def)
qed

lemma string_item_u:
  assumes "r < 0xD800"
  shows "string_item (u_escape r @ t) = Some (encode_rune r, t)"
proof -
  have u: "u_escape r @ t = backslash # CHR ''u'' # (drop 2 (u_escape r) @ t)" by (simp add: u_escape_def)
  show ?thesis
    unfolding u using get_u4_escape [of r t] assms by (simp add: string_item_def unescape_u_def)
qed

lemma hd_u_escape: "u_escape r @ t = c # u \<Longrightarrow> c \<noteq> dquote"
  by (auto simp: u_escape_def backslash_def dquote_def)

lemma char_of_escaped:
  "char_of (34 :: nat) = CHR 0x22" "char_of (92 :: nat) = CHR 0x5C" "char_of (8 :: nat) = CHR 0x08"
  "char_of (12 :: nat) = CHR 0x0C" "char_of (10 :: nat) = CHR 0x0A" "char_of (13 :: nat) = CHR 0x0D"
  "char_of (9 :: nat) = CHR 0x09"
  by (simp_all add: char_of_def bit_0)

lemma string_item_esc:
  assumes d: "decode_rune s = (r, w)" and s: "s \<noteq> []" and v: "\<not> (r = RuneError \<and> w = 1)"
  shows "string_item (esc_rune (r, take w s) @ t) = Some (take w s, t)"
    and "\<exists>c u. esc_rune (r, take w s) @ t = c # u \<and> c \<noteq> dquote"
proof -
  note e = encode_decode_rune [OF d s v]
  have w: "0 < w" "w \<le> length s" using decode_rune_width [OF s] d by auto
  have lw: "length (take w s) = 1 \<longleftrightarrow> w = 1" using w by auto
  have code: "r < 0x80 \<Longrightarrow> take w s = [char_of r]" using e by simp
  have plain: "string_item (take w s @ t) = Some (take w s, t) \<and> (\<exists>c u. take w s @ t = c # u \<and> c \<noteq> dquote)"
    if p: "r \<noteq> 0x22" "r \<noteq> 0x5C" "0x20 \<le> r"
  proof -
    obtain c u where cu: "take w s @ t = c # u" using w s by (cases "take w s @ t") auto
    have d2: "decode_rune (c # u) = (r, w)" using decode_rune_take [OF d s v, of t] cu by simp
    have "c \<noteq> backslash \<and> c \<noteq> dquote \<and> \<not> code_of c < 0x20"
      using d2 p by (auto simp: backslash_def dquote_def)
    moreover have "take w (c # u) = take w s" "drop w (c # u) = t" using w by (simp_all flip: cu)
    ultimately show ?thesis using cu d2 v by (auto simp: string_item_def)
  qed
  have "string_item (esc_rune (r, take w s) @ t) = Some (take w s, t) \<and>
    (\<exists>c u. esc_rune (r, take w s) @ t = c # u \<and> c \<noteq> dquote)"
  proof (cases "r = 0x22 \<or> r = 0x5C \<or> r = 8 \<or> r = 12 \<or> r = 10 \<or> r = 13 \<or> r = 9")
    case True
    then show ?thesis
      by (elim disjE; simp add: code char_of_escaped esc_rune_def string_item_def simple_escape_def backslash_def dquote_def)
  next
    case ns: False
    show ?thesis
    proof (cases "r < 0x20 \<or> r = 0x3C \<or> r = 0x3E \<or> r = 0x26 \<or> r = 0x2028 \<or> r = 0x2029")
      case True
      then have "esc_rune (r, take w s) = u_escape r"
        using ns v lw by (auto simp: esc_rune_def)
      moreover have "r < 0xD800" using True by auto
      ultimately show ?thesis
        using string_item_u [of r t] e hd_u_escape [of r t]
        by (simp add: u_escape_def backslash_def dquote_def)
    next
      case False
      then have "esc_rune (r, take w s) = take w s" using ns v lw by (auto simp: esc_rune_def)
      then show ?thesis using plain ns False by simp
    qed
  qed
  then show "string_item (esc_rune (r, take w s) @ t) = Some (take w s, t)"
    "\<exists>c u. esc_rune (r, take w s) @ t = c # u \<and> c \<noteq> dquote" by simp_all
qed

lemma valid_utf8_step:
  assumes "valid_utf8 s" "s \<noteq> []" "decode_rune s = (r, w)"
  shows "\<not> (r = RuneError \<and> w = 1)" "valid_utf8 (drop w s)"
  using assms decode_rune_width [OF assms(2)]
  by (auto simp: valid_utf8_def runes.simps [of s])

lemma parse_string_quote:
  "valid_utf8 s \<Longrightarrow> parse_string (concat (map esc_rune (runes s)) @ dquote # t) = Some (s, t)"
proof (induction s rule: runes.induct)
  case (1 s)
  show ?case
  proof (cases "s = []")
    case True
    then show ?thesis by (simp add: runes.simps parse_string.simps)
  next
    case False
    obtain r w where d: "decode_rune s = (r, w)" by fastforce
    note v = valid_utf8_step [OF 1(2) False d]
    let ?t = "concat (map esc_rune (runes (drop w s))) @ dquote # t"
    have ih: "parse_string ?t = Some (drop w s, t)" using 1(1) False d v(2) by simp
    obtain c u where cu: "esc_rune (r, take w s) @ ?t = c # u" "c \<noteq> dquote"
      using string_item_esc(2) [OF d False v(1), of ?t] by blast
    have "parse_string (esc_rune (r, take w s) @ ?t) = Some (s, t)"
      using string_item_esc(1) [OF d False v(1), of ?t] cu ih
      by (subst parse_string.simps) (simp add: cu(1))
    then show ?thesis using False d by (simp add: runes.simps [of s])
  qed
qed

subsection \<open>Values come back\<close>

text \<open>The values the sources print: numbers are integers, strings are valid UTF-8, nesting is within
  the limit.\<close>

fun wf_json :: "json \<Rightarrow> bool" where
  "wf_json JNull = True"
| "wf_json (JBool _) = True"
| "wf_json (JNum n) = (\<exists>i. n = itoa i)"
| "wf_json (JStr s) = valid_utf8 s"
| "wf_json (JArr xs) = (\<forall>x \<in> set xs. wf_json x)"
| "wf_json (JObj ms) = (\<forall>m \<in> set ms. valid_utf8 (fst m) \<and> wf_json (snd m))"

fun jdepth :: "json \<Rightarrow> nat" and jdepths :: "json list \<Rightarrow> nat" and jdepthm :: "(string \<times> json) list \<Rightarrow> nat" where
  "jdepth (JArr xs) = Suc (jdepths xs)"
| "jdepth (JObj ms) = Suc (jdepthm ms)"
| "jdepth _ = 0"
| "jdepths [] = 0"
| "jdepths (x # xs) = max (jdepth x) (jdepths xs)"
| "jdepthm [] = 0"
| "jdepthm ((k, v) # ms) = max (jdepth v) (jdepthm ms)"

text \<open>How much recursion parsing a printed value takes.\<close>

fun jfuel :: "json \<Rightarrow> nat" and jfuels :: "json list \<Rightarrow> nat" and jfuelm :: "(string \<times> json) list \<Rightarrow> nat" where
  "jfuel (JArr xs) = Suc (jfuels xs)"
| "jfuel (JObj ms) = Suc (jfuelm ms)"
| "jfuel _ = 1"
| "jfuels [] = 0"
| "jfuels (x # xs) = Suc (jfuel x + jfuels xs)"
| "jfuelm [] = 0"
| "jfuelm ((k, v) # ms) = Suc (jfuel v + jfuelm ms)"

definition delim :: "string \<Rightarrow> bool" where
  "delim r \<longleftrightarrow> r = [] \<or> hd r \<in> {CHR '','', CHR '']'', CHR ''}''}"

lemma delim_simps [simp]: "delim []" "delim (CHR '','' # r)" "delim (CHR '']'' # r)" "delim (CHR ''}'' # r)"
  by (simp_all add: delim_def)

lemma hd_digits_nat_zero: "hd (digits_nat n) = CHR ''0'' \<longleftrightarrow> n = 0"
proof (induction n rule: digits_nat.induct)
  case (1 n)
  show ?case
  proof (cases "n < 10")
    case True
    have "char_of (48 + n) = CHR ''0'' \<longleftrightarrow> n = 0"
    proof
      assume "char_of (48 + n) = CHR ''0''"
      then have "(of_char (char_of (48 + n)) :: nat) = of_char (CHR ''0'')" by simp
      then show "n = 0" using True by simp
    qed (simp add: char_of_def bit_0)
    then show ?thesis using True by (simp add: digits_nat.simps [of n])
  next
    case False
    then have "n div 10 \<noteq> 0" by simp
    then show ?thesis using 1 False by (simp add: digits_nat.simps [of n])
  qed
qed

lemma int_tok_digits:
  assumes "r = [] \<or> \<not> is_digit (hd r)"
  shows "int_tok (digits_nat n @ r) = Some (digits_nat n, r)"
proof -
  obtain c cs where c: "digits_nat n = c # cs" by (cases "digits_nat n") auto
  have dig: "\<forall>x \<in> set (c # cs). is_digit x" using digits_nat_digits [of n] by (simp add: c list_all_iff)
  have tw: "takeWhile is_digit ((c # cs) @ r) = c # cs" "dropWhile is_digit ((c # cs) @ r) = r"
    using dig assms by (cases r; simp)+
  show ?thesis
  proof (cases "n = 0")
    case True
    then show ?thesis by (simp add: digits_nat.simps [of 0] int_tok_def char_of_def bit_0)
  next
    case False
    then have "c \<noteq> CHR ''0''" using hd_digits_nat_zero [of n] c by simp
    then show ?thesis using dig tw by (simp add: c int_tok_def digits_tok_def)
  qed
qed

lemma num_tok_itoa:
  assumes "delim r"
  shows "num_tok (itoa i @ r) = Some (itoa i, r)"
proof -
  have r: "r = [] \<or> \<not> is_digit (hd r)" "frac_tok r = Some ([], r)" "exp_tok r = Some ([], r)"
    using assms by (auto simp: delim_def frac_tok_def exp_tok_def is_digit_def split: list.splits)
  obtain c cs where c: "digits_nat (nat i) = c # cs" by (cases "digits_nat (nat i)") auto
  have "is_digit c" using hd_digits_nat [of "nat i"] c by simp
  then have "c \<noteq> CHR ''-''" by auto
  then show ?thesis
    using r int_tok_digits [OF r(1), of "nat i"] int_tok_digits [OF r(1), of "nat (- i)"]
    by (simp add: num_tok_def itoa_def c)
qed

definition starts_value :: "char \<Rightarrow> bool" where
  "starts_value c \<longleftrightarrow> \<not> is_ws c \<and> c \<noteq> CHR '']'' \<and> c \<noteq> CHR ''}''"

lemma itoa_start: "\<exists>c u. itoa i = c # u \<and> (c = CHR ''-'' \<or> is_digit c)"
  using hd_digits_nat [of "nat i"] by (cases "digits_nat (nat i)") (auto simp: itoa_def)

lemma digit_starts: "is_digit c \<Longrightarrow> starts_value c \<and> c \<notin> {CHR ''{'', CHR ''['', dquote, CHR ''n'', CHR ''t'', CHR ''f''}"
  by (auto simp: is_digit_def starts_value_def is_ws_def dquote_def)

lemma json_print_start: "wf_json j \<Longrightarrow> \<exists>c u. json_print j = c # u \<and> starts_value c"
proof (cases j)
  case (JNum n)
  assume "wf_json j"
  then show ?thesis using JNum itoa_start digit_starts by (fastforce simp: starts_value_def is_ws_def)
qed (auto simp: starts_value_def is_ws_def json_quote_def dquote_def)

lemma skip_ws_start: "starts_value c \<Longrightarrow> skip_ws (c # u) = c # u"
  by (simp add: skip_ws_def starts_value_def)

lemma skip_ws_other [simp]: "\<not> is_ws c \<Longrightarrow> skip_ws (c # u) = c # u" "skip_ws [] = []"
  by (simp_all add: skip_ws_def)

lemma not_ws [simp]: "\<not> is_ws (CHR '','')" "\<not> is_ws (CHR '']'')" "\<not> is_ws (CHR ''}'')" "\<not> is_ws (CHR '':'')"
  "\<not> is_ws (CHR ''{'')" "\<not> is_ws (CHR ''['')" "\<not> is_ws dquote" "\<not> is_ws (CHR ''n'')" "\<not> is_ws (CHR ''t'')" "\<not> is_ws (CHR ''f'')"
  by (simp_all add: is_ws_def dquote_def)

lemma dquote_ne [simp]: "dquote \<noteq> CHR ''{''" "dquote \<noteq> CHR ''[''" "CHR ''{'' \<noteq> dquote" "CHR ''['' \<noteq> dquote"
  "dquote \<noteq> CHR ''}''" "dquote \<noteq> CHR '']''" "CHR ''n'' \<noteq> dquote" "CHR ''t'' \<noteq> dquote" "CHR ''f'' \<noteq> dquote"
  by (simp_all add: dquote_def)

lemma json_quote_app: "json_quote s @ r = dquote # concat (map esc_rune (runes s)) @ dquote # r"
  by (simp add: json_quote_def)

lemma has_prefix_hd: "c \<noteq> p \<Longrightarrow> \<not> has_prefix (c # cs) (p # ps)"
  by (simp add: has_prefix_def)

lemma parse_value_num:
  assumes "delim r"
  shows "parse_value (Suc n) d (itoa i @ r) = Some (JNum (itoa i), r)"
proof -
  obtain c u where c: "itoa i = c # u" "c = CHR ''-'' \<or> is_digit c" using itoa_start by blast
  have d: "starts_value c" "c \<notin> {CHR ''{'', CHR ''['', dquote, CHR ''n'', CHR ''t'', CHR ''f''}"
    using c(2) digit_starts [of c] by (elim disjE; simp add: starts_value_def is_ws_def dquote_def)+
  have n: "num_tok (c # u @ r) = Some (c # u, r)" using num_tok_itoa [OF assms, of i] c(1) by simp
  have "parse_value (Suc n) d (c # u @ r) = Some (JNum (c # u), r)"
    unfolding parse_value.simps(2) skip_ws_start [OF d(1)] using d(2) n by (simp add: has_prefix_hd)
  then show ?thesis by (simp add: c(1))
qed

lemma parse_value_arr:
  assumes "\<forall>x \<in> set xs. wf_json x" "Suc d \<le> max_depth"
    and "xs \<noteq> [] \<Longrightarrow> parse_elems n (Suc d) (json_print_elems xs @ CHR '']'' # r) = Some (xs, r)"
  shows "parse_value (Suc n) d (CHR ''['' # json_print_elems xs @ CHR '']'' # r) = Some (JArr xs, r)"
proof (cases xs)
  case Nil
  then show ?thesis using assms by (simp add: parse_value.simps(2))
next
  case (Cons x ys)
  obtain c u where "json_print_elems xs = c # u" "starts_value c"
    using assms(1) json_print_start [of x] Cons by (cases ys) auto
  then show ?thesis using assms Cons by (simp add: parse_value.simps(2) skip_ws_start starts_value_def)
qed

lemma parse_value_obj:
  assumes "Suc d \<le> max_depth" and "ms \<noteq> [] \<Longrightarrow> parse_members n (Suc d) (json_print_members ms @ CHR ''}'' # r) = Some (ms, r)"
  shows "parse_value (Suc n) d (CHR ''{'' # json_print_members ms @ CHR ''}'' # r) = Some (JObj ms, r)"
proof (cases ms)
  case Nil
  then show ?thesis using assms by (simp add: parse_value.simps(2))
next
  case (Cons m ys)
  obtain u where "json_print_members ms = dquote # u" using Cons by (cases m; cases ys) (auto simp: json_quote_def)
  then show ?thesis using assms Cons by (simp add: parse_value.simps(2))
qed

lemma parse_print:
  shows "wf_json j \<Longrightarrow> delim r \<Longrightarrow> d + jdepth j \<le> max_depth \<Longrightarrow> jfuel j \<le> n \<Longrightarrow>
      parse_value n d (json_print j @ r) = Some (j, r)"
    and "xs \<noteq> [] \<Longrightarrow> \<forall>x \<in> set xs. wf_json x \<Longrightarrow> d + jdepths xs \<le> max_depth \<Longrightarrow> jfuels xs \<le> n \<Longrightarrow>
      parse_elems n d (json_print_elems xs @ CHR '']'' # r) = Some (xs, r)"
    and "ms \<noteq> [] \<Longrightarrow> \<forall>m \<in> set ms. valid_utf8 (fst m) \<and> wf_json (snd m) \<Longrightarrow> d + jdepthm ms \<le> max_depth \<Longrightarrow>
      jfuelm ms \<le> n \<Longrightarrow> parse_members n d (json_print_members ms @ CHR ''}'' # r) = Some (ms, r)"
proof (induction j and xs and ms arbitrary: n d r and n d r and n d r
    rule: json_print_json_print_elems_json_print_members.induct)
  case 1
  then show ?case by (cases n) (simp_all add: parse_value.simps(2) has_prefix_def)
next
  case (2 b)
  then show ?case by (cases n) (simp_all add: parse_value.simps(2) has_prefix_def)
next
  case (3 k)
  then show ?case by (cases n) (auto simp: parse_value_num)
next
  case (4 s)
  then show ?case
    by (cases n) (simp_all add: parse_value.simps(2) json_quote_app parse_string_quote)
next
  case (5 xs)
  then obtain n' where n: "n = Suc n'" "jfuels xs \<le> n'" by (cases n) auto
  then show ?case using 5 by (auto intro!: parse_value_arr)
next
  case (6 ms)
  then obtain n' where n: "n = Suc n'" "jfuelm ms \<le> n'" by (cases n) auto
  then show ?case using 6 by (auto intro!: parse_value_obj)
next
  case 7
  then show ?case by simp
next
  case (8 x)
  then obtain n' where n: "n = Suc n'" "jfuel x \<le> n'" by (cases n) auto
  then show ?case using 8 by (simp add: parse_elems.simps(2))
next
  case (9 x y ys)
  then obtain n' where n: "n = Suc n'" "jfuel x \<le> n'" "jfuels (y # ys) \<le> n'" by (cases n) auto
  then show ?case using 9 by (simp add: parse_elems.simps(2))
next
  case 10
  then show ?case by simp
next
  case (11 k v)
  then obtain n' where n: "n = Suc n'" "jfuel v \<le> n'" by (cases n) auto
  then show ?case using 11 by (simp add: parse_members.simps(2) json_quote_app parse_string_quote)
next
  case (12 k v m ms)
  then obtain n' where n: "n = Suc n'" "jfuel v \<le> n'" "jfuelm (m # ms) \<le> n'" by (cases n) auto
  then show ?case using 12 by (simp add: parse_members.simps(2) json_quote_app parse_string_quote)
qed

lemma jfuel_bound:
  shows "jfuel j \<le> 2 * length (json_print j) + 1"
    and "jfuels xs \<le> 2 * length (json_print_elems xs) + 2"
    and "jfuelm ms \<le> 2 * length (json_print_members ms) + 2"
  by (induction j and xs and ms rule: json_print_json_print_elems_json_print_members.induct) auto

lemma json_parse_print: "wf_json j \<Longrightarrow> jdepth j \<le> max_depth \<Longrightarrow> json_parse (json_print j) = Some j"
  using parse_print(1) [of j "[]" 0 "2 * length (json_print j) + 2"] jfuel_bound(1) [of j]
  by (simp add: json_parse_def)

subsection \<open>The recursion bound never matters\<close>

lemma skip_ws_length: "length (skip_ws s) \<le> length s"
  by (simp add: skip_ws_def length_dropWhile_le)

lemma skip_ws_Cons_length: "skip_ws s = c # cs \<Longrightarrow> length cs < length s"
  using skip_ws_length [of s] by simp

lemma parse_string_shorter: "parse_string s = Some (b, r) \<Longrightarrow> length r < length s"
proof (induction s arbitrary: b r rule: parse_string.induct)
  case (1 s)
  then obtain c cs where s: "s = c # cs" by (subst (asm) (2) parse_string.simps) (auto split: list.splits)
  show ?case
  proof (cases "c = dquote")
    case True
    then show ?thesis using 1(2) s by (simp add: parse_string.simps [of "dquote # cs"])
  next
    case False
    then obtain b1 t b2 where i: "string_item s = Some (b1, t)" and p: "parse_string t = Some (b2, r)"
      using 1(2) s by (auto simp: parse_string.simps [of "c # cs"] split: option.splits)
    have "length r < length t" using 1(1) [OF s False i refl] p by blast
    then show ?thesis using string_item_length [OF i] by simp
  qed
qed

lemma digits_tok_length: "digits_tok s = (a, r) \<Longrightarrow> length r \<le> length s"
  by (auto simp: digits_tok_def length_dropWhile_le)

lemma frac_tok_length: "frac_tok s = Some (a, r) \<Longrightarrow> length r \<le> length s"
  by (auto simp: frac_tok_def split: list.splits if_splits prod.splits dest!: digits_tok_length)

lemma exp_tok_length: "exp_tok s = Some (a, r) \<Longrightarrow> length r \<le> length s"
  by (auto simp: exp_tok_def split: list.splits if_splits prod.splits dest!: digits_tok_length)

lemma int_tok_length: "int_tok s = Some (a, r) \<Longrightarrow> length r < length s"
  by (auto simp: int_tok_def digits_tok_def less_Suc_eq_le length_dropWhile_le split: list.splits if_splits)

lemma num_tok_length: "num_tok s = Some (a, r) \<Longrightarrow> length r < length s"
  by (fastforce simp: num_tok_def split: list.splits if_splits option.splits prod.splits
      dest: int_tok_length frac_tok_length exp_tok_length)

lemma parse_members_SomeE:
  assumes "parse_members (Suc n) d s = Some (ms, r)"
  obtains t k r1 r2 v r3 y r4 where "skip_ws s = dquote # t" "parse_string t = Some (k, r1)"
    "skip_ws r1 = CHR '':'' # r2" "parse_value n d r2 = Some (v, r3)" "skip_ws r3 = y # r4"
    "r = r4 \<or> (\<exists>ms'. parse_members n d r4 = Some (ms', r))"
  using assms by (auto simp: parse_members.simps(2) split: if_splits list.splits option.splits)

lemma parse_shorter:
  shows "parse_value n d s = Some (v, r) \<Longrightarrow> length r < length s"
    and "parse_elems n d s = Some (xs, r) \<Longrightarrow> length r < length s"
    and "parse_members n d s = Some (ms, r) \<Longrightarrow> length r < length s"
proof (induction n arbitrary: d s v r xs ms)
  case (Suc n)
  note ih = Suc.IH
  { case 1
    then obtain c cs where c: "skip_ws s = c # cs"
      by (auto simp: parse_value.simps(2) split: list.splits)
    then have l: "length cs < length s" by (rule skip_ws_Cons_length)
    then show ?case
      using 1 c ih(2,3) parse_string_shorter [of cs] num_tok_length [of "c # cs"] skip_ws_Cons_length [of cs]
      by (fastforce simp: parse_value.simps(2) split: if_splits list.splits)
  next
    case 2
    then show ?case
      using ih(1,2) skip_ws_Cons_length
      by (fastforce simp: parse_elems.simps(2) split: if_splits list.splits option.splits)
  next
    case 3
    then obtain t k r1 r2 v r3 y r4 where "skip_ws s = dquote # t" "parse_string t = Some (k, r1)"
      "skip_ws r1 = CHR '':'' # r2" "parse_value n d r2 = Some (v, r3)" "skip_ws r3 = y # r4"
      and r: "r = r4 \<or> (\<exists>ms'. parse_members n d r4 = Some (ms', r))" by (rule parse_members_SomeE)
    then have "length t < length s" "length r1 < length t" "length r2 < length r1" "length r3 < length r2" "length r4 < length r3"
      using ih(1) skip_ws_Cons_length parse_string_shorter by blast+
    moreover have "length r \<le> length r4" using r ih(3) by (auto intro: less_imp_le)
    ultimately show ?case by simp
  }
qed simp_all

text \<open>Any bound of twice the length and one more gives the same answer, so the bound chosen in
  \<open>json_parse\<close> rejects nothing.\<close>

lemma fuel_enough:
  shows "2 * length s + 1 \<le> n \<Longrightarrow> 2 * length s + 1 \<le> m \<Longrightarrow> parse_value n d s = parse_value m d s"
    and "2 * length s + 2 \<le> n \<Longrightarrow> 2 * length s + 2 \<le> m \<Longrightarrow> parse_elems n d s = parse_elems m d s"
    and "2 * length s + 2 \<le> n \<Longrightarrow> 2 * length s + 2 \<le> m \<Longrightarrow> parse_members n d s = parse_members m d s"
proof (induction "length s" arbitrary: s n m d rule: less_induct)
  case less
  note ih = less
  have v: "parse_value n d s = parse_value m d s" if le: "2 * length s + 1 \<le> n" "2 * length s + 1 \<le> m" for n m d
  proof -
    obtain n' m' where nm: "n = Suc n'" "m = Suc m'" using le not0_implies_Suc [of n] not0_implies_Suc [of m] by auto
    show ?thesis
    proof (cases "skip_ws s")
      case (Cons c cs)
      then have l: "length cs < length s" by (rule skip_ws_Cons_length)
      then have "parse_elems n' (Suc d) cs = parse_elems m' (Suc d) cs" "parse_members n' (Suc d) cs = parse_members m' (Suc d) cs"
        using ih(2,3) [OF l, of n' m'] le nm by simp_all
      then show ?thesis by (simp add: nm parse_value.simps(2) Cons split: list.splits)
    qed (simp add: nm parse_value.simps(2))
  qed
  { case 1
    then show ?case by (rule v)
  next
    case 2
    obtain n' m' where nm: "n = Suc n'" "m = Suc m'" using 2 not0_implies_Suc [of n] not0_implies_Suc [of m] by auto
    have "parse_value n' d s = parse_value m' d s" using v [of n' m'] 2 nm by simp
    moreover have "parse_elems n' d r2 = parse_elems m' d r2"
      if "parse_value m' d s = Some (x, r)" "skip_ws r = y # r2" for x r y r2
      using ih(2) [of r2 n' m' d] parse_shorter(1) [OF that(1)] skip_ws_Cons_length [OF that(2)] 2 nm by simp
    ultimately show ?case by (auto simp: nm parse_elems.simps(2) split: option.splits list.splits)
  next
    case 3
    obtain n' m' where nm: "n = Suc n'" "m = Suc m'" using 3 not0_implies_Suc [of n] not0_implies_Suc [of m] by auto
    have "parse_value n' d r2 = parse_value m' d r2 \<and>
       (\<forall>x r3 y r4. parse_value m' d r2 = Some (x, r3) \<longrightarrow> skip_ws r3 = y # r4 \<longrightarrow> parse_members n' d r4 = parse_members m' d r4)"
      if "skip_ws s = q # t" "parse_string t = Some (k, r1)" "skip_ws r1 = z # r2" for q t k r1 z r2
    proof -
      have l: "length r2 < length s"
        using skip_ws_Cons_length [OF that(1)] parse_string_shorter [OF that(2)] skip_ws_Cons_length [OF that(3)] by simp
      have "parse_value n' d r2 = parse_value m' d r2" using ih(1) [OF l, of n' m'] l 3 nm by simp
      moreover have "parse_members n' d r4 = parse_members m' d r4"
        if "parse_value m' d r2 = Some (x, r3)" "skip_ws r3 = y # r4" for x r3 y r4
        using ih(3) [of r4 n' m' d] parse_shorter(1) [OF that(1)] skip_ws_Cons_length [OF that(2)] l 3 nm by simp
      ultimately show ?thesis by blast
    qed
    then show ?case by (auto simp: nm parse_members.simps(2) split: option.splits list.splits)
  }
qed

subsection \<open>Unmarshalling into structs\<close>

text \<open>A key that is no field name matches a field case-insensitively; besides ASCII letters only the
  Kelvin sign and the long s fold to the ASCII letters field names are made of.\<close>

definition fold_rune :: "nat \<Rightarrow> nat" where
  "fold_rune r = (if 97 \<le> r \<and> r \<le> 122 then r - 32 else if r = 0x212A then 75 else if r = 0x17F then 83 else r)"

definition fold_name :: "string \<Rightarrow> nat list" where
  "fold_name s = map (fold_rune \<circ> fst) (runes s)"

text \<open>A field: its name and how a member's value is assigned; the flag reports a type error.\<close>

type_synonym 's field = "string \<times> (json \<Rightarrow> 's \<Rightarrow> bool \<times> 's)"

definition lookup_field :: "'s field list \<Rightarrow> string \<Rightarrow> (json \<Rightarrow> 's \<Rightarrow> bool \<times> 's) option" where
  "lookup_field fs k =
     (case map_of fs k of
        Some f \<Rightarrow> Some f
      | None \<Rightarrow> map_option snd (find (\<lambda>(n, _). fold_name n = fold_name k) fs))"

fun assign_members :: "'s field list \<Rightarrow> (string \<times> json) list \<Rightarrow> bool \<times> 's \<Rightarrow> bool \<times> 's" where
  "assign_members fs [] es = es"
| "assign_members fs ((k, v) # ms) (e, s) =
     (case lookup_field fs k of
        None \<Rightarrow> assign_members fs ms (e, s)
      | Some f \<Rightarrow> (case f v s of (e2, s2) \<Rightarrow> assign_members fs ms (e \<or> e2, s2)))"

definition decode_struct :: "'s field list \<Rightarrow> json \<Rightarrow> 's \<Rightarrow> bool \<times> 's" where
  "decode_struct fs j s =
     (case j of JObj ms \<Rightarrow> assign_members fs ms (False, s) | JNull \<Rightarrow> (False, s) | _ \<Rightarrow> (True, s))"

text \<open>\<open>json.Unmarshal(text, &s)\<close>: whether it returns an error, and the struct afterwards.  A syntax
  error leaves the struct alone; a type error does not stop the other assignments.\<close>

definition unmarshal_struct :: "'s field list \<Rightarrow> string \<Rightarrow> 's \<Rightarrow> bool \<times> 's" where
  "unmarshal_struct fs text s =
     (case json_parse text of None \<Rightarrow> (True, s) | Some j \<Rightarrow> decode_struct fs j s)"

definition dec_string :: "(string \<Rightarrow> 's \<Rightarrow> 's) \<Rightarrow> json \<Rightarrow> 's \<Rightarrow> bool \<times> 's" where
  "dec_string upd j s = (case j of JStr v \<Rightarrow> (False, upd v s) | JNull \<Rightarrow> (False, s) | _ \<Rightarrow> (True, s))"

definition dec_bool :: "(bool \<Rightarrow> 's \<Rightarrow> 's) \<Rightarrow> json \<Rightarrow> 's \<Rightarrow> bool \<times> 's" where
  "dec_bool upd j s = (case j of JBool v \<Rightarrow> (False, upd v s) | JNull \<Rightarrow> (False, s) | _ \<Rightarrow> (True, s))"

text \<open>Signed integers (\<open>int\<close> and \<open>int64\<close> are both 64 bits wide) and unsigned 16-bit integers.\<close>

definition dec_int :: "(int \<Rightarrow> 's \<Rightarrow> 's) \<Rightarrow> json \<Rightarrow> 's \<Rightarrow> bool \<times> 's" where
  "dec_int upd j s =
     (case j of
        JNum n \<Rightarrow> (case parse_int n of Some i \<Rightarrow> (False, upd i s) | None \<Rightarrow> (True, s))
      | JNull \<Rightarrow> (False, s)
      | _ \<Rightarrow> (True, s))"

definition dec_uint16 :: "(int \<Rightarrow> 's \<Rightarrow> 's) \<Rightarrow> json \<Rightarrow> 's \<Rightarrow> bool \<times> 's" where
  "dec_uint16 upd j s =
     (case j of
        JNum n \<Rightarrow> (case parse_int n of
                     Some i \<Rightarrow> if i < 2 ^ 16 \<and> \<not> has_prefix n ''-'' then (False, upd i s) else (True, s)
                   | None \<Rightarrow> (True, s))
      | JNull \<Rightarrow> (False, s)
      | _ \<Rightarrow> (True, s))"

definition jint :: "int \<Rightarrow> json" where "jint i = JNum (itoa i)"

lemma wf_jint [simp]: "wf_json (jint i)" "jdepth (jint i) = 0"
  by (auto simp: jint_def)

lemma dec_int_jint [simp]: "- (2 ^ 63) \<le> i \<Longrightarrow> i < 2 ^ 63 \<Longrightarrow> dec_int upd (jint i) s = (False, upd i s)"
  using parse_int_itoa [of i] by (simp add: dec_int_def jint_def)

lemma dec_string_JStr [simp]: "dec_string upd (JStr v) s = (False, upd v s)"
  by (simp add: dec_string_def)

lemma dec_bool_JBool [simp]: "dec_bool upd (JBool v) s = (False, upd v s)"
  by (simp add: dec_bool_def)

lemma lookup_field_exact: "map_of fs k = Some f \<Longrightarrow> lookup_field fs k = Some f"
  by (simp add: lookup_field_def)

end
