(* ===== verification/Redis.thy ===== *)
theory Redis
  imports Prelude "HOL-Library.AList"
begin

text \<open>
  The Redis client the sources call (go-zero's \<open>stores/redis\<close>) as a record of operations over an
  arbitrary server state \<open>'r\<close>: every operation returns an error or a value and the next state, so a
  server may fail at any call.  The locale \<open>redis_server\<close> states the documented behaviour of a
  reachable server through a view of its keys; \<open>mem_redis\<close> is an in-memory server that satisfies it
  and on which the witnesses run.
\<close>

datatype rval = RStr string | RZset "(string \<times> int) list" | RList "string list" | RSet "string list"

type_synonym keyspace = "string \<Rightarrow> (rval \<times> int option) option"

type_synonym ('r, 'a) rop = "'r \<Rightarrow> (string + 'a) \<times> 'r"

record 'r redis =
  r_get :: "string \<Rightarrow> ('r, string) rop"
  r_set :: "string \<Rightarrow> string \<Rightarrow> ('r, unit) rop"
  r_setex :: "string \<Rightarrow> string \<Rightarrow> int \<Rightarrow> ('r, unit) rop"
  r_setnx :: "string \<Rightarrow> string \<Rightarrow> ('r, bool) rop"
  r_setnxex :: "string \<Rightarrow> string \<Rightarrow> int \<Rightarrow> ('r, bool) rop"
  r_del :: "string list \<Rightarrow> ('r, int) rop"
  r_incr :: "string \<Rightarrow> ('r, int) rop"
  r_decr :: "string \<Rightarrow> ('r, int) rop"
  r_expire :: "string \<Rightarrow> int \<Rightarrow> ('r, unit) rop"
  r_zremrangebyscore :: "string \<Rightarrow> int \<Rightarrow> int \<Rightarrow> ('r, int) rop"
  r_zcard :: "string \<Rightarrow> ('r, int) rop"
  r_zadd :: "string \<Rightarrow> int \<Rightarrow> string \<Rightarrow> ('r, bool) rop"
  r_sismember :: "string \<Rightarrow> string \<Rightarrow> ('r, bool) rop"
  r_lpush :: "string \<Rightarrow> string \<Rightarrow> ('r, int) rop"
  r_ltrim :: "string \<Rightarrow> int \<Rightarrow> int \<Rightarrow> ('r, unit) rop"
  r_lrange :: "string \<Rightarrow> int \<Rightarrow> int \<Rightarrow> ('r, string list) rop"
  r_keys :: "string \<Rightarrow> ('r, string list) rop"

subsection \<open>What the commands mean on a keyspace\<close>

definition put_zset :: "string \<Rightarrow> (string \<times> int) list \<Rightarrow> int option \<Rightarrow> keyspace \<Rightarrow> keyspace" where
  "put_zset k z t m = m(k := if z = [] then None else Some (RZset z, t))"

definition put_list :: "string \<Rightarrow> string list \<Rightarrow> int option \<Rightarrow> keyspace \<Rightarrow> keyspace" where
  "put_list k z t m = m(k := if z = [] then None else Some (RList z, t))"

definition ttl_of :: "keyspace \<Rightarrow> string \<Rightarrow> int option" where
  "ttl_of m k = (case m k of Some (_, t) \<Rightarrow> t | None \<Rightarrow> None)"

text \<open>The value at a key when it has the type the command expects (an absent key counts as empty).\<close>

definition str_at :: "keyspace \<Rightarrow> string \<Rightarrow> string option" where
  "str_at m k = (case m k of None \<Rightarrow> Some [] | Some (RStr v, _) \<Rightarrow> Some v | _ \<Rightarrow> None)"

definition zset_at :: "keyspace \<Rightarrow> string \<Rightarrow> (string \<times> int) list option" where
  "zset_at m k = (case m k of None \<Rightarrow> Some [] | Some (RZset z, _) \<Rightarrow> Some z | _ \<Rightarrow> None)"

definition list_at :: "keyspace \<Rightarrow> string \<Rightarrow> string list option" where
  "list_at m k = (case m k of None \<Rightarrow> Some [] | Some (RList z, _) \<Rightarrow> Some z | _ \<Rightarrow> None)"

definition set_at :: "keyspace \<Rightarrow> string \<Rightarrow> string list option" where
  "set_at m k = (case m k of None \<Rightarrow> Some [] | Some (RSet z, _) \<Rightarrow> Some z | _ \<Rightarrow> None)"

text \<open>The counter at a key: 0 when absent, its decimal value otherwise.\<close>

definition counter_at :: "keyspace \<Rightarrow> string \<Rightarrow> int option" where
  "counter_at m k = (case m k of None \<Rightarrow> Some 0 | Some (RStr v, _) \<Rightarrow> parse_int v | _ \<Rightarrow> None)"

definition drop_keys :: "string list \<Rightarrow> keyspace \<Rightarrow> keyspace" where
  "drop_keys ks m = (\<lambda>k. if k \<in> set ks then None else m k)"

definition zrem :: "int \<Rightarrow> int \<Rightarrow> (string \<times> int) list \<Rightarrow> (string \<times> int) list" where
  "zrem lo hi z = filter (\<lambda>(_, sc). \<not> (lo \<le> sc \<and> sc \<le> hi)) z"

definition zput :: "string \<Rightarrow> int \<Rightarrow> (string \<times> int) list \<Rightarrow> (string \<times> int) list" where
  "zput x sc z = (x, sc) # filter (\<lambda>(y, _). y \<noteq> x) z"

lemma drop_keys_apply [simp]: "drop_keys ks m k = (if k \<in> set ks then None else m k)"
  by (simp add: drop_keys_def)

lemma str_at_cases [simp]:
  "m k = None \<Longrightarrow> str_at m k = Some []" "m k = Some (RStr v, t) \<Longrightarrow> str_at m k = Some v"
  by (simp_all add: str_at_def)

lemma counter_at_cases [simp]:
  "m k = None \<Longrightarrow> counter_at m k = Some 0" "m k = Some (RStr v, t) \<Longrightarrow> counter_at m k = parse_int v"
  by (simp_all add: counter_at_def)

lemma parse_int_range: "parse_int v = Some n \<Longrightarrow> - (2 ^ 63) \<le> n \<and> n < 2 ^ 63"
  by (auto simp: parse_int_def Let_def split: prod.splits if_splits)

lemma counter_at_range: "counter_at m k = Some n \<Longrightarrow> - (2 ^ 63) \<le> n \<and> n < 2 ^ 63"
  using parse_int_range by (auto simp: counter_at_def split: option.splits prod.splits rval.splits)

subsection \<open>The interface\<close>

text \<open>\<open>live\<close> states are those of a reachable server; \<open>dbl\<close> is the conversion of an integer score to
  the double the server stores.\<close>

locale redis_server =
  fixes R :: "'r redis" and view :: "'r \<Rightarrow> keyspace" and live :: "'r \<Rightarrow> bool" and dbl :: "int \<Rightarrow> int"
  assumes dbl_mono: "a \<le> b \<Longrightarrow> dbl a \<le> dbl b"
    and get_law: "live s \<Longrightarrow> str_at (view s) k = Some v \<Longrightarrow> r_get R k s = (Inr v, s)"
    and set_law: "live s \<Longrightarrow> fst (r_set R k v s) = Inr () \<and> live (snd (r_set R k v s)) \<and>
        view (snd (r_set R k v s)) = (view s)(k \<mapsto> (RStr v, None))"
    and setex_law: "live s \<Longrightarrow> 0 < t \<Longrightarrow> fst (r_setex R k v t s) = Inr () \<and> live (snd (r_setex R k v t s)) \<and>
        view (snd (r_setex R k v t s)) = (view s)(k \<mapsto> (RStr v, Some t))"
    and setnx_law: "live s \<Longrightarrow> fst (r_setnx R k v s) = Inr (view s k = None) \<and> live (snd (r_setnx R k v s)) \<and>
        view (snd (r_setnx R k v s)) = (if view s k = None then (view s)(k \<mapsto> (RStr v, None)) else view s)"
    and setnxex_law: "live s \<Longrightarrow> 0 < t \<Longrightarrow>
        fst (r_setnxex R k v t s) = Inr (view s k = None) \<and> live (snd (r_setnxex R k v t s)) \<and>
        view (snd (r_setnxex R k v t s)) = (if view s k = None then (view s)(k \<mapsto> (RStr v, Some t)) else view s)"
    and del_law: "live s \<Longrightarrow> (\<exists>n. fst (r_del R ks s) = Inr n) \<and> live (snd (r_del R ks s)) \<and>
        view (snd (r_del R ks s)) = drop_keys ks (view s)"
    and incr_law: "live s \<Longrightarrow> counter_at (view s) k = Some n \<Longrightarrow> n < 2 ^ 63 - 1 \<Longrightarrow>
        fst (r_incr R k s) = Inr (n + 1) \<and> live (snd (r_incr R k s)) \<and>
        view (snd (r_incr R k s)) = (view s)(k \<mapsto> (RStr (itoa (n + 1)), ttl_of (view s) k))"
    and decr_law: "live s \<Longrightarrow> counter_at (view s) k = Some n \<Longrightarrow> - (2 ^ 63) < n \<Longrightarrow>
        fst (r_decr R k s) = Inr (n - 1) \<and> live (snd (r_decr R k s)) \<and>
        view (snd (r_decr R k s)) = (view s)(k \<mapsto> (RStr (itoa (n - 1)), ttl_of (view s) k))"
    and expire_law: "live s \<Longrightarrow> 0 < t \<Longrightarrow> fst (r_expire R k t s) = Inr () \<and> live (snd (r_expire R k t s)) \<and>
        view (snd (r_expire R k t s)) = (view s)(k := map_option (\<lambda>(v, _). (v, Some t)) (view s k))"
    and zrem_law: "live s \<Longrightarrow> zset_at (view s) k = Some z \<Longrightarrow>
        (\<exists>n. fst (r_zremrangebyscore R k lo hi s) = Inr n) \<and> live (snd (r_zremrangebyscore R k lo hi s)) \<and>
        view (snd (r_zremrangebyscore R k lo hi s)) =
          put_zset k (zrem (dbl lo) (dbl hi) z) (ttl_of (view s) k) (view s)"
    and zcard_law: "live s \<Longrightarrow> zset_at (view s) k = Some z \<Longrightarrow> r_zcard R k s = (Inr (int (length z)), s)"
    and zadd_law: "live s \<Longrightarrow> zset_at (view s) k = Some z \<Longrightarrow>
        (\<exists>n. fst (r_zadd R k sc x s) = Inr n) \<and> live (snd (r_zadd R k sc x s)) \<and>
        view (snd (r_zadd R k sc x s)) = put_zset k (zput x (dbl sc) z) (ttl_of (view s) k) (view s)"
    and sismember_law: "live s \<Longrightarrow> set_at (view s) k = Some l \<Longrightarrow> r_sismember R k x s = (Inr (x \<in> set l), s)"
    and lpush_law: "live s \<Longrightarrow> list_at (view s) k = Some l \<Longrightarrow>
        (\<exists>n. fst (r_lpush R k x s) = Inr n) \<and> live (snd (r_lpush R k x s)) \<and>
        view (snd (r_lpush R k x s)) = put_list k (x # l) (ttl_of (view s) k) (view s)"
    and ltrim_law: "live s \<Longrightarrow> list_at (view s) k = Some l \<Longrightarrow> 0 \<le> hi \<Longrightarrow>
        fst (r_ltrim R k 0 hi s) = Inr () \<and> live (snd (r_ltrim R k 0 hi s)) \<and>
        view (snd (r_ltrim R k 0 hi s)) = put_list k (take (nat hi + 1) l) (ttl_of (view s) k) (view s)"
    and lrange_law: "live s \<Longrightarrow> list_at (view s) k = Some l \<Longrightarrow> 0 \<le> hi \<Longrightarrow>
        r_lrange R k 0 hi s = (Inr (take (nat hi + 1) l), s)"

subsection \<open>An in-memory server\<close>

record mem =
  mem_up :: bool
  mem_data :: "(string \<times> rval \<times> int option) list"

definition mem_view :: "mem \<Rightarrow> keyspace" where
  "mem_view s = map_of (mem_data s)"

abbreviation mem_down :: string where "mem_down \<equiv> ''connection refused''"
abbreviation mem_type :: string where "mem_type \<equiv> ''WRONGTYPE''"

definition mput :: "string \<Rightarrow> (rval \<times> int option) option \<Rightarrow> mem \<Rightarrow> mem" where
  "mput k v s =
     s\<lparr>mem_data := (case v of None \<Rightarrow> AList.delete k (mem_data s) | Some x \<Rightarrow> AList.update k x (mem_data s))\<rparr>"

lemma mem_view_mput [simp]: "mem_view (mput k v s) = (mem_view s)(k := v)"
  by (auto simp: mem_view_def mput_def update_conv' delete_conv' restrict_map_def fun_eq_iff split: option.splits)

lemma mem_up_mput [simp]: "mem_up (mput k v s) = mem_up s"
  by (simp add: mput_def)

definition mem_guard :: "mem \<Rightarrow> (string + 'a) \<times> mem \<Rightarrow> (string + 'a) \<times> mem" where
  "mem_guard s r = (if mem_up s then r else (Inl mem_down, s))"

definition mem_zset :: "string \<Rightarrow> (string \<times> int) list \<Rightarrow> mem \<Rightarrow> mem" where
  "mem_zset k z s = mput k (if z = [] then None else Some (RZset z, ttl_of (mem_view s) k)) s"

definition mem_list :: "string \<Rightarrow> string list \<Rightarrow> mem \<Rightarrow> mem" where
  "mem_list k z s = mput k (if z = [] then None else Some (RList z, ttl_of (mem_view s) k)) s"

definition mem_setnx :: "string \<Rightarrow> string \<Rightarrow> int option \<Rightarrow> mem \<Rightarrow> (string + bool) \<times> mem" where
  "mem_setnx k v t s = mem_guard s (if mem_view s k = None then (Inr True, mput k (Some (RStr v, t)) s) else (Inr False, s))"

definition mem_add :: "int \<Rightarrow> string \<Rightarrow> mem \<Rightarrow> (string + int) \<times> mem" where
  "mem_add d k s =
     mem_guard s (case counter_at (mem_view s) k of
        None \<Rightarrow> (Inl mem_type, s)
      | Some n \<Rightarrow> if - (2 ^ 63) \<le> n + d \<and> n + d < 2 ^ 63
                  then (Inr (n + d), mput k (Some (RStr (itoa (n + d)), ttl_of (mem_view s) k)) s)
                  else (Inl ''overflow'', s))"

definition mem_redis :: "mem redis" where
  "mem_redis =
    \<lparr>r_get = (\<lambda>k s. mem_guard s (case str_at (mem_view s) k of Some v \<Rightarrow> (Inr v, s) | None \<Rightarrow> (Inl mem_type, s))),
     r_set = (\<lambda>k v s. mem_guard s (Inr (), mput k (Some (RStr v, None)) s)),
     r_setex = (\<lambda>k v t s. mem_guard s (if 0 < t then (Inr (), mput k (Some (RStr v, Some t)) s) else (Inl ''invalid expire'', s))),
     r_setnx = (\<lambda>k v s. mem_setnx k v None s),
     r_setnxex = (\<lambda>k v t s. mem_setnx k v (Some t) s),
     r_del = (\<lambda>ks s. mem_guard s (Inr (int (length (filter (\<lambda>k. mem_view s k \<noteq> None) ks))), fold (\<lambda>k. mput k None) ks s)),
     r_incr = mem_add 1,
     r_decr = mem_add (- 1),
     r_expire = (\<lambda>k t s. mem_guard s (Inr (), mput k (map_option (\<lambda>(v, _). (v, Some t)) (mem_view s k)) s)),
     r_zremrangebyscore = (\<lambda>k lo hi s. mem_guard s (case zset_at (mem_view s) k of
          None \<Rightarrow> (Inl mem_type, s)
        | Some z \<Rightarrow> (Inr (int (length z - length (zrem lo hi z))), mem_zset k (zrem lo hi z) s))),
     r_zcard = (\<lambda>k s. mem_guard s (case zset_at (mem_view s) k of None \<Rightarrow> (Inl mem_type, s) | Some z \<Rightarrow> (Inr (int (length z)), s))),
     r_zadd = (\<lambda>k sc x s. mem_guard s (case zset_at (mem_view s) k of
          None \<Rightarrow> (Inl mem_type, s) | Some z \<Rightarrow> (Inr (x \<notin> fst ` set z), mem_zset k (zput x sc z) s))),
     r_sismember = (\<lambda>k x s. mem_guard s (case set_at (mem_view s) k of None \<Rightarrow> (Inl mem_type, s) | Some z \<Rightarrow> (Inr (x \<in> set z), s))),
     r_lpush = (\<lambda>k x s. mem_guard s (case list_at (mem_view s) k of
          None \<Rightarrow> (Inl mem_type, s) | Some z \<Rightarrow> (Inr (int (length z) + 1), mem_list k (x # z) s))),
     r_ltrim = (\<lambda>k lo hi s. mem_guard s (case list_at (mem_view s) k of
          None \<Rightarrow> (Inl mem_type, s) | Some z \<Rightarrow> (Inr (), mem_list k (take (nat (hi - lo + 1)) (drop (nat lo) z)) s))),
     r_lrange = (\<lambda>k lo hi s. mem_guard s (case list_at (mem_view s) k of
          None \<Rightarrow> (Inl mem_type, s) | Some z \<Rightarrow> (Inr (take (nat (hi - lo + 1)) (drop (nat lo) z)), s))),
     r_keys = (\<lambda>p s. mem_guard s (Inr (filter (\<lambda>k. has_prefix k (trim_suffix p ''*'')) (map fst (mem_data s))), s))\<rparr>"

lemma mem_del_view: "mem_view (fold (\<lambda>k. mput k None) ks s) = drop_keys ks (mem_view s)"
  by (induction ks arbitrary: s) (auto simp: fun_eq_iff)

lemma mem_del_up [simp]: "mem_up (fold (\<lambda>k. mput k None) ks s) = mem_up s"
  by (induction ks arbitrary: s) auto

interpretation memr: redis_server mem_redis mem_view mem_up id
  by unfold_locales
    (auto simp: mem_redis_def mem_guard_def mem_setnx_def mem_add_def mem_zset_def mem_list_def put_zset_def
      put_list_def mem_del_view nat_add_distrib add.commute split: option.splits dest: counter_at_range)

text \<open>An empty reachable server.\<close>

definition mem_empty :: mem where "mem_empty = \<lparr>mem_up = True, mem_data = []\<rparr>"

lemma mem_empty_simps [simp]: "mem_up mem_empty" "mem_view mem_empty k = None"
  by (simp_all add: mem_empty_def mem_view_def)

end
