(* ===== verification/Session.thy ===== *)
theory Session
  imports Json Redis
begin

text \<open>
  The opaque-token session store (\<open>common/auth/session.go\<close>).  The store's effects go to a Redis state
  and a random tape; \<open>Refresh\<close> also threads whatever state the user-status callback uses.  Times are
  nanoseconds since the epoch; every reading of the clock is an argument.
\<close>

definition sessKeyPrefix :: string where "sessKeyPrefix = ''yuyan:sess:v2:''"
definition refreshKeyPrefix :: string where "refreshKeyPrefix = ''yuyan:refresh:v2:''"

definition second :: int where "second = 1000000000"
definition DefaultUserAccessTTL :: int where "DefaultUserAccessTTL = 30 * 60 * second"
definition DefaultUserRefreshTTL :: int where "DefaultUserRefreshTTL = 30 * 24 * 3600 * second"
definition DefaultGuestAccessTTL :: int where "DefaultGuestAccessTTL = 24 * 3600 * second"

lemmas ttl_defs = second_def DefaultUserAccessTTL_def DefaultUserRefreshTTL_def DefaultGuestAccessTTL_def

record Session =
  AccessToken :: string
  RefreshToken :: string
  UID :: int
  NickName :: string
  Icon :: string
  UserType :: int
  DeviceType :: string
  Plat :: int
  IsGuest :: bool
  AccessExpireAt :: int
  RefreshExpireAt :: int

definition zero_session :: Session where
  "zero_session = \<lparr>AccessToken = [], RefreshToken = [], UID = 0, NickName = [], Icon = [], UserType = 0,
     DeviceType = [], Plat = 0, IsGuest = False, AccessExpireAt = 0, RefreshExpireAt = 0\<rparr>"

datatype sess_error =
    ErrSessionNotFound
  | ErrRefreshDenied
  | ErrUserBanned
  | ErrRedisUnavailable
  | ErrSetSess string
  | ErrSetRefresh string
  | ErrRandom

record 'r SessionStore =
  ss_rdb :: "'r redis option"
  userAccessTTL :: int
  userRefreshTTL :: int
  guestAccessTTL :: int

definition NewSessionStore :: "'r redis option \<Rightarrow> 'r SessionStore" where
  "NewSessionStore rdb = \<lparr>ss_rdb = rdb, userAccessTTL = DefaultUserAccessTTL,
     userRefreshTTL = DefaultUserRefreshTTL, guestAccessTTL = DefaultGuestAccessTTL\<rparr>"

subsection \<open>The stored JSON\<close>

text \<open>The members \<open>json.Marshal\<close> writes, in field order; two fields are \<open>omitempty\<close>.\<close>

definition session_json :: "Session \<Rightarrow> json" where
  "session_json s = JObj (
     [(''accessToken'', JStr (AccessToken s))] @
     (if RefreshToken s = [] then [] else [(''refreshToken'', JStr (RefreshToken s))]) @
     [(''uid'', jint (UID s)), (''nickName'', JStr (NickName s)), (''icon'', JStr (Icon s)),
      (''userType'', jint (UserType s)), (''deviceType'', JStr (DeviceType s)), (''plat'', jint (Plat s)),
      (''isGuest'', JBool (IsGuest s)), (''accessExpireAt'', jint (AccessExpireAt s))] @
     (if RefreshExpireAt s = 0 then [] else [(''refreshExpireAt'', jint (RefreshExpireAt s))]))"

definition session_fields :: "Session field list" where
  "session_fields =
     [(''accessToken'', dec_string (\<lambda>v s. s\<lparr>AccessToken := v\<rparr>)),
      (''refreshToken'', dec_string (\<lambda>v s. s\<lparr>RefreshToken := v\<rparr>)),
      (''uid'', dec_int (\<lambda>v s. s\<lparr>UID := v\<rparr>)),
      (''nickName'', dec_string (\<lambda>v s. s\<lparr>NickName := v\<rparr>)),
      (''icon'', dec_string (\<lambda>v s. s\<lparr>Icon := v\<rparr>)),
      (''userType'', dec_int (\<lambda>v s. s\<lparr>UserType := v\<rparr>)),
      (''deviceType'', dec_string (\<lambda>v s. s\<lparr>DeviceType := v\<rparr>)),
      (''plat'', dec_int (\<lambda>v s. s\<lparr>Plat := v\<rparr>)),
      (''isGuest'', dec_bool (\<lambda>v s. s\<lparr>IsGuest := v\<rparr>)),
      (''accessExpireAt'', dec_int (\<lambda>v s. s\<lparr>AccessExpireAt := v\<rparr>)),
      (''refreshExpireAt'', dec_int (\<lambda>v s. s\<lparr>RefreshExpireAt := v\<rparr>))]"

subsection \<open>Operations\<close>

definition randomHex :: "nat \<Rightarrow> rng \<Rightarrow> string option \<times> rng" where
  "randomHex n t = (case rand_read n t of (None, t1) \<Rightarrow> (None, t1) | (Some b, t1) \<Rightarrow> (Some (hex_EncodeToString b), t1))"

definition upperHex :: "bytes \<Rightarrow> string" where
  "upperHex b = map (\<lambda>c. if 97 \<le> code_of c \<and> code_of c \<le> 102 then char_of (code_of c - 32) else c) (hex_EncodeToString b)"

text \<open>A failed read leaves the three bytes zero.\<close>

definition GuestNickName :: "rng \<Rightarrow> string \<times> rng" where
  "GuestNickName t =
     (case rand_read 3 t of (None, t1) \<Rightarrow> (upperHex [0, 0, 0], t1) | (Some b, t1) \<Rightarrow> (upperHex b, t1))"

definition platToDevice :: "int \<Rightarrow> string" where
  "platToDevice plat =
     (if plat = 1 then ''android'' else if plat = 2 then ''ios'' else if plat = 3 then ''pc''
      else if plat = 4 then ''h5'' else ''h5'')"

definition persist :: "'r SessionStore \<Rightarrow> Session \<Rightarrow> 'r \<Rightarrow> (sess_error option) \<times> 'r" where
  "persist st sess s =
     (case ss_rdb st of
        None \<Rightarrow> (Some ErrRedisUnavailable, s)
      | Some R \<Rightarrow>
          (let body = json_print (session_json sess);
               ttl = userRefreshTTL st div second;
               ttl = (if IsGuest sess then guestAccessTTL st div second else ttl);
               ttl = (if ttl \<le> 0 then DefaultUserRefreshTTL div second else ttl)
           in case r_setex R (sessKeyPrefix @ AccessToken sess) body ttl s of
                (Inl e, s1) \<Rightarrow> (Some (ErrSetSess e), s1)
              | (Inr _, s1) \<Rightarrow>
                  if \<not> IsGuest sess \<and> RefreshToken sess \<noteq> [] then
                    (case r_setex R (refreshKeyPrefix @ RefreshToken sess) (AccessToken sess) ttl s1 of
                       (Inl e, s2) \<Rightarrow> (Some (ErrSetRefresh e), s2)
                     | (Inr _, s2) \<Rightarrow> (None, s2))
                  else (None, s1)))"

definition IssueUser ::
  "'r SessionStore \<Rightarrow> int \<Rightarrow> int \<Rightarrow> string \<Rightarrow> string \<Rightarrow> int \<Rightarrow> int \<Rightarrow> 'r \<times> rng \<Rightarrow> (sess_error + Session) \<times> 'r \<times> rng" where
  "IssueUser st now uid nickName icon userType plat w =
     (case w of (s, t) \<Rightarrow>
        case randomHex 24 t of
          (None, t1) \<Rightarrow> (Inl ErrRandom, s, t1)
        | (Some access, t1) \<Rightarrow>
            (case randomHex 32 t1 of
               (None, t2) \<Rightarrow> (Inl ErrRandom, s, t2)
             | (Some refresh, t2) \<Rightarrow>
                 (let sess = \<lparr>AccessToken = access, RefreshToken = refresh, UID = uid, NickName = nickName, Icon = icon,
                              UserType = userType, DeviceType = platToDevice plat, Plat = plat, IsGuest = False,
                              AccessExpireAt = (now + userAccessTTL st) div second,
                              RefreshExpireAt = (now + userRefreshTTL st) div second\<rparr>
                  in case persist st sess s of
                       (Some e, s1) \<Rightarrow> (Inl e, s1, t2)
                     | (None, s1) \<Rightarrow> (Inr sess, s1, t2))))"

definition IssueGuest :: "'r SessionStore \<Rightarrow> int \<Rightarrow> int \<Rightarrow> 'r \<times> rng \<Rightarrow> (sess_error + Session) \<times> 'r \<times> rng" where
  "IssueGuest st now plat w =
     (case w of (s, t) \<Rightarrow>
        case randomHex 24 t of
          (None, t1) \<Rightarrow> (Inl ErrRandom, s, t1)
        | (Some access, t1) \<Rightarrow>
            (case GuestNickName t1 of (nick, t2) \<Rightarrow>
               (let sess = zero_session\<lparr>AccessToken := access, UID := 0, NickName := nick, Icon := [], UserType := 1,
                              DeviceType := platToDevice plat, Plat := plat, IsGuest := True,
                              AccessExpireAt := (now + guestAccessTTL st) div second\<rparr>
                in case persist st sess s of
                     (Some e, s1) \<Rightarrow> (Inl e, s1, t2)
                   | (None, s1) \<Rightarrow> (Inr sess, s1, t2))))"

definition Get :: "'r SessionStore \<Rightarrow> int \<Rightarrow> string \<Rightarrow> 'r \<Rightarrow> (sess_error + Session) \<times> 'r" where
  "Get st now accessToken s =
     (case ss_rdb st of
        None \<Rightarrow> (Inl ErrSessionNotFound, s)
      | Some R \<Rightarrow>
          if accessToken = [] then (Inl ErrSessionNotFound, s)
          else (case r_get R (sessKeyPrefix @ accessToken) s of
                  (Inl _, s1) \<Rightarrow> (Inl ErrSessionNotFound, s1)
                | (Inr raw, s1) \<Rightarrow>
                    if raw = [] then (Inl ErrSessionNotFound, s1)
                    else (case unmarshal_struct session_fields raw zero_session of
                            (True, _) \<Rightarrow> (Inl ErrSessionNotFound, s1)
                          | (False, sess) \<Rightarrow>
                              if AccessExpireAt sess > 0 \<and> now div second > AccessExpireAt sess
                              then (Inl ErrSessionNotFound, s1) else (Inr sess, s1))))"

definition revoke :: "'r SessionStore \<Rightarrow> string \<Rightarrow> string \<Rightarrow> 'r \<Rightarrow> 'r" where
  "revoke st access refresh s =
     (case ss_rdb st of
        None \<Rightarrow> s
      | Some R \<Rightarrow>
          (let s1 = snd (r_del R [sessKeyPrefix @ access] s)
           in if refresh \<noteq> [] then snd (r_del R [refreshKeyPrefix @ refresh] s1) else s1))"

definition Revoke :: "'r SessionStore \<Rightarrow> int \<Rightarrow> string \<Rightarrow> 'r \<Rightarrow> 'r" where
  "Revoke st now accessToken s =
     (case ss_rdb st of
        None \<Rightarrow> s
      | Some R \<Rightarrow>
          if accessToken = [] then s
          else (case Get st now accessToken s of
                  (Inl _, s1) \<Rightarrow> s1
                | (Inr sess, s1) \<Rightarrow> revoke st accessToken (RefreshToken sess) s1))"

text \<open>The no-op of the lightweight rebuild.\<close>

definition RevokeAllForUID :: "'r SessionStore \<Rightarrow> int \<Rightarrow> 'r \<Rightarrow> 'r" where
  "RevokeAllForUID st uid s = s"

text \<open>\<open>Refresh\<close> reads the clock in \<open>Get\<close>, for the refresh expiry and in \<open>IssueUser\<close>.  The callback
  returns an error or the user's status, and threads its own state.\<close>

definition Refresh ::
  "'r SessionStore \<Rightarrow> int \<Rightarrow> int \<Rightarrow> int \<Rightarrow> string \<Rightarrow> (int \<Rightarrow> 'x \<Rightarrow> ('e + int) \<times> 'x) option \<Rightarrow> 'r \<times> rng \<times> 'x \<Rightarrow>
   (sess_error + Session) \<times> 'r \<times> rng \<times> 'x" where
  "Refresh st now1 now2 now3 refreshToken userStatusFn w =
     (case w of (s, t, x) \<Rightarrow>
        case ss_rdb st of
          None \<Rightarrow> (Inl ErrRefreshDenied, s, t, x)
        | Some R \<Rightarrow>
            if refreshToken = [] then (Inl ErrRefreshDenied, s, t, x)
            else (case r_get R (refreshKeyPrefix @ refreshToken) s of
                    (Inl _, s1) \<Rightarrow> (Inl ErrRefreshDenied, s1, t, x)
                  | (Inr access, s1) \<Rightarrow>
                      if access = [] then (Inl ErrRefreshDenied, s1, t, x)
                      else (case Get st now1 access s1 of
                              (Inl _, s2) \<Rightarrow> (Inl ErrRefreshDenied, s2, t, x)
                            | (Inr old, s2) \<Rightarrow>
                                if IsGuest old then (Inl ErrRefreshDenied, s2, t, x)
                                else if RefreshExpireAt old > 0 \<and> now2 div second > RefreshExpireAt old
                                then (Inl ErrRefreshDenied, revoke st access (RefreshToken old) s2, t, x)
                                else (let (st_ok, x1) =
                                            (case userStatusFn of
                                               None \<Rightarrow> (True, x)
                                             | Some f \<Rightarrow> (case f (UID old) x of
                                                            (Inl _, x1) \<Rightarrow> (False, x1)
                                                          | (Inr n, x1) \<Rightarrow> (n = 1, x1)))
                                      in if \<not> st_ok then (Inl ErrUserBanned, RevokeAllForUID st (UID old) s2, t, x1)
                                         else (let s3 = revoke st access (RefreshToken old) s2
                                               in case IssueUser st now3 (UID old) (NickName old) (Icon old) (UserType old) (Plat old) (s3, t) of
                                                    (r, s4, t4) \<Rightarrow> (r, s4, t4, x1))))))"

subsection \<open>What is stored comes back\<close>

definition int64 :: "int \<Rightarrow> bool" where
  "int64 i \<longleftrightarrow> - (2 ^ 63) \<le> i \<and> i < 2 ^ 63"

definition session_ok :: "Session \<Rightarrow> bool" where
  "session_ok s \<longleftrightarrow> list_all valid_utf8 [AccessToken s, RefreshToken s, NickName s, Icon s, DeviceType s] \<and>
     list_all int64 [UID s, UserType s, Plat s, AccessExpireAt s, RefreshExpireAt s]"

lemma lookup_session_field:
  "lookup_field session_fields ''accessToken'' = Some (dec_string (\<lambda>v s. s\<lparr>AccessToken := v\<rparr>))"
  "lookup_field session_fields ''refreshToken'' = Some (dec_string (\<lambda>v s. s\<lparr>RefreshToken := v\<rparr>))"
  "lookup_field session_fields ''uid'' = Some (dec_int (\<lambda>v s. s\<lparr>UID := v\<rparr>))"
  "lookup_field session_fields ''nickName'' = Some (dec_string (\<lambda>v s. s\<lparr>NickName := v\<rparr>))"
  "lookup_field session_fields ''icon'' = Some (dec_string (\<lambda>v s. s\<lparr>Icon := v\<rparr>))"
  "lookup_field session_fields ''userType'' = Some (dec_int (\<lambda>v s. s\<lparr>UserType := v\<rparr>))"
  "lookup_field session_fields ''deviceType'' = Some (dec_string (\<lambda>v s. s\<lparr>DeviceType := v\<rparr>))"
  "lookup_field session_fields ''plat'' = Some (dec_int (\<lambda>v s. s\<lparr>Plat := v\<rparr>))"
  "lookup_field session_fields ''isGuest'' = Some (dec_bool (\<lambda>v s. s\<lparr>IsGuest := v\<rparr>))"
  "lookup_field session_fields ''accessExpireAt'' = Some (dec_int (\<lambda>v s. s\<lparr>AccessExpireAt := v\<rparr>))"
  "lookup_field session_fields ''refreshExpireAt'' = Some (dec_int (\<lambda>v s. s\<lparr>RefreshExpireAt := v\<rparr>))"
  by (simp_all add: lookup_field_def session_fields_def)

lemma session_names_ascii:
  "list_all valid_utf8 [''accessToken'', ''refreshToken'', ''uid'', ''nickName'', ''icon'', ''userType'', ''deviceType'',
     ''plat'', ''isGuest'', ''accessExpireAt'', ''refreshExpireAt'']"
  by (simp add: valid_utf8_ascii ascii_def)

lemma wf_session_json: "session_ok s \<Longrightarrow> wf_json (session_json s)"
  using session_names_ascii by (auto simp: session_json_def session_ok_def)

lemma jdepth_session_json: "jdepth (session_json s) = 1"
  by (simp add: session_json_def)

lemma unmarshal_session:
  assumes "session_ok s"
  shows "unmarshal_struct session_fields (json_print (session_json s)) zero_session = (False, s)"
proof -
  have p: "json_parse (json_print (session_json s)) = Some (session_json s)"
    using wf_session_json [OF assms] jdepth_session_json [of s]
    by (intro json_parse_print) (simp_all add: max_depth_def)
  have i: "int64 (UID s)" "int64 (UserType s)" "int64 (Plat s)" "int64 (AccessExpireAt s)" "int64 (RefreshExpireAt s)"
    using assms by (simp_all add: session_ok_def)
  have d: "decode_struct session_fields (session_json s) zero_session = (False, s)"
    using i by (cases "RefreshToken s = []"; cases "RefreshExpireAt s = 0")
      (simp_all add: session_json_def decode_struct_def lookup_session_field int64_def zero_session_def)
  show ?thesis using p d by (simp add: unmarshal_struct_def)
qed

lemma session_body_ne: "json_print (session_json s) \<noteq> []"
  by (simp add: session_json_def)

lemma sess_refresh_keys: "sessKeyPrefix @ a \<noteq> refreshKeyPrefix @ b"
  by (simp add: sessKeyPrefix_def refreshKeyPrefix_def)

context redis_server
begin

lemma Get_stored:
  assumes "ss_rdb st = Some R" "live s" "session_ok sess" "a \<noteq> []"
    and "view s (sessKeyPrefix @ a) = Some (RStr (json_print (session_json sess)), t)"
  shows "Get st now a s = (if AccessExpireAt sess > 0 \<and> now div second > AccessExpireAt sess
     then (Inl ErrSessionNotFound, s) else (Inr sess, s))"
proof -
  have "r_get R (sessKeyPrefix @ a) s = (Inr (json_print (session_json sess)), s)"
    using assms(2,5) by (intro get_law) simp_all
  then show ?thesis
    using assms(1,4) unmarshal_session [OF assms(3)] session_body_ne [of sess] by (simp add: Get_def)
qed

lemma Get_missing:
  assumes "ss_rdb st = Some R" "live s" "view s (sessKeyPrefix @ a) = None"
  shows "Get st now a s = (Inl ErrSessionNotFound, s)"
  using assms get_law [OF assms(2), of "sessKeyPrefix @ a" "[]"] by (simp add: Get_def)

text \<open>What issuing a session writes.\<close>

lemma persist_live:
  assumes "ss_rdb st = Some R" "live s"
  obtains s' ttl where "persist st sess s = (None, s')" "live s'" "0 < ttl"
    "view s' = (if \<not> IsGuest sess \<and> RefreshToken sess \<noteq> []
       then (view s)(sessKeyPrefix @ AccessToken sess \<mapsto> (RStr (json_print (session_json sess)), Some ttl),
                     refreshKeyPrefix @ RefreshToken sess \<mapsto> (RStr (AccessToken sess), Some ttl))
       else (view s)(sessKeyPrefix @ AccessToken sess \<mapsto> (RStr (json_print (session_json sess)), Some ttl)))"
proof -
  define ttl0 where "ttl0 = (if IsGuest sess then guestAccessTTL st div second else userRefreshTTL st div second)"
  define ttl where "ttl = (if ttl0 \<le> 0 then DefaultUserRefreshTTL div second else ttl0)"
  have t: "0 < ttl" by (simp add: ttl_def ttl_defs)
  obtain s1 where s1: "r_setex R (sessKeyPrefix @ AccessToken sess) (json_print (session_json sess)) ttl s = (Inr (), s1)" "live s1"
    "view s1 = (view s)(sessKeyPrefix @ AccessToken sess \<mapsto> (RStr (json_print (session_json sess)), Some ttl))"
    using setex_law [OF assms(2) t] by (metis prod.collapse)
  obtain s2 where s2: "r_setex R (refreshKeyPrefix @ RefreshToken sess) (AccessToken sess) ttl s1 = (Inr (), s2)" "live s2"
    "view s2 = (view s1)(refreshKeyPrefix @ RefreshToken sess \<mapsto> (RStr (AccessToken sess), Some ttl))"
    using setex_law [OF s1(2) t] by (metis prod.collapse)
  have "persist st sess s = (None, if \<not> IsGuest sess \<and> RefreshToken sess \<noteq> [] then s2 else s1)"
    unfolding persist_def Let_def ttl0_def [symmetric] ttl_def [symmetric] using assms(1) s1(1) s2(1) by simp
  then show ?thesis
    using that [of "if \<not> IsGuest sess \<and> RefreshToken sess \<noteq> [] then s2 else s1" ttl] s1 s2 t by auto
qed

lemma revoke_view:
  assumes "ss_rdb st = Some R" "live s"
  shows "live (revoke st a r s)"
    and "view (revoke st a r s) = drop_keys ([sessKeyPrefix @ a] @ (if r \<noteq> [] then [refreshKeyPrefix @ r] else [])) (view s)"
  using assms del_law [OF assms(2), of "[sessKeyPrefix @ a]"]
    del_law [of "snd (r_del R [sessKeyPrefix @ a] s)" "[refreshKeyPrefix @ r]"]
  by (auto simp: revoke_def Let_def drop_keys_def)

end

lemma randomHex_Some:
  "n \<le> length t \<Longrightarrow> randomHex n t = (Some (hex_EncodeToString (take n t)), drop n t)"
  by (simp add: randomHex_def rand_read_def)

text \<open>The session \<open>IssueUser\<close> makes from the first 56 bytes of the tape.\<close>

definition issued :: "'r SessionStore \<Rightarrow> int \<Rightarrow> int \<Rightarrow> string \<Rightarrow> string \<Rightarrow> int \<Rightarrow> int \<Rightarrow> rng \<Rightarrow> Session" where
  "issued st now uid nick icon ut plat t =
     \<lparr>AccessToken = hex_EncodeToString (take 24 t), RefreshToken = hex_EncodeToString (take 32 (drop 24 t)), UID = uid,
      NickName = nick, Icon = icon, UserType = ut, DeviceType = platToDevice plat, Plat = plat, IsGuest = False,
      AccessExpireAt = (now + userAccessTTL st) div second, RefreshExpireAt = (now + userRefreshTTL st) div second\<rparr>"

lemma hex_valid [simp]: "valid_utf8 (hex_EncodeToString b)"
proof (rule valid_utf8_ascii)
  show "ascii (hex_EncodeToString b)"
    using hex_never_space [of b] by (auto simp: ascii_def never_space_def list_all_iff)
qed

lemma platToDevice_valid [simp]: "valid_utf8 (platToDevice p)"
  by (simp add: platToDevice_def valid_utf8_ascii ascii_def)

lemma hex_ne: "b \<noteq> [] \<Longrightarrow> hex_EncodeToString b \<noteq> []"
  using length_hex [of b] by (metis length_0_conv mult_eq_0_iff zero_neq_numeral)

context redis_server
begin

lemma IssueUser_live:
  assumes "ss_rdb st = Some R" "live s" "56 \<le> length t"
  obtains s' ttl where "IssueUser st now uid nick icon ut plat (s, t) = (Inr (issued st now uid nick icon ut plat t), s', drop 56 t)"
    "live s'" "view s' = (view s)(sessKeyPrefix @ hex_EncodeToString (take 24 t) \<mapsto>
         (RStr (json_print (session_json (issued st now uid nick icon ut plat t))), Some ttl),
       refreshKeyPrefix @ hex_EncodeToString (take 32 (drop 24 t)) \<mapsto> (RStr (hex_EncodeToString (take 24 t)), Some ttl))"
proof -
  let ?s = "issued st now uid nick icon ut plat t"
  have ne: "hex_EncodeToString (take 32 (drop 24 t)) \<noteq> []" using assms(3) by (intro hex_ne) auto
  obtain s' ttl where p: "persist st ?s s = (None, s')" "live s'"
    "view s' = (if \<not> IsGuest ?s \<and> RefreshToken ?s \<noteq> []
       then (view s)(sessKeyPrefix @ AccessToken ?s \<mapsto> (RStr (json_print (session_json ?s)), Some ttl),
                     refreshKeyPrefix @ RefreshToken ?s \<mapsto> (RStr (AccessToken ?s), Some ttl))
       else (view s)(sessKeyPrefix @ AccessToken ?s \<mapsto> (RStr (json_print (session_json ?s)), Some ttl)))"
    by (rule persist_live [OF assms(1,2)])
  have "IssueUser st now uid nick icon ut plat (s, t) = (Inr ?s, s', drop 56 t)"
    using assms(3) p(1) by (simp add: IssueUser_def randomHex_Some Let_def issued_def)
  then show ?thesis using that p(2,3) ne by (simp add: issued_def)
qed

end

context redis_server
begin

text \<open>A user session at rest: its record under the access token and the pointer under the refresh
  token.\<close>

definition stored :: "Session \<Rightarrow> 'r \<Rightarrow> bool" where
  "stored sess s \<longleftrightarrow> live s \<and> session_ok sess \<and> AccessToken sess \<noteq> [] \<and> RefreshToken sess \<noteq> [] \<and>
     (\<exists>t. view s (sessKeyPrefix @ AccessToken sess) = Some (RStr (json_print (session_json sess)), t)) \<and>
     (\<exists>t. view s (refreshKeyPrefix @ RefreshToken sess) = Some (RStr (AccessToken sess), t))"

lemma Get_stored_session:
  assumes "ss_rdb st = Some R" "stored sess s"
  shows "Get st now (AccessToken sess) s = (if AccessExpireAt sess > 0 \<and> now div second > AccessExpireAt sess
     then (Inl ErrSessionNotFound, s) else (Inr sess, s))"
proof -
  obtain t where "live s" "session_ok sess" "AccessToken sess \<noteq> []"
    "view s (sessKeyPrefix @ AccessToken sess) = Some (RStr (json_print (session_json sess)), t)"
    using assms(2) by (auto simp: stored_def)
  then show ?thesis by (rule Get_stored [OF assms(1)])
qed

lemma get_refresh_key:
  "live s \<Longrightarrow> view s k = Some (RStr v, t) \<Longrightarrow> r_get R k s = (Inr v, s)"
  by (rule get_law) simp_all

lemma Refresh_stored:
  assumes st: "ss_rdb st = Some R" and s: "stored sess s" and g: "\<not> IsGuest sess"
    and a: "\<not> (AccessExpireAt sess > 0 \<and> now1 div second > AccessExpireAt sess)"
    and r: "\<not> (RefreshExpireAt sess > 0 \<and> now2 div second > RefreshExpireAt sess)"
  shows "Refresh st now1 now2 now3 (RefreshToken sess) (Some f) (s, t, x) =
     (case f (UID sess) x of
        (Inr n, x1) \<Rightarrow>
          if n = 1
          then (case IssueUser st now3 (UID sess) (NickName sess) (Icon sess) (UserType sess) (Plat sess)
                  (revoke st (AccessToken sess) (RefreshToken sess) s, t) of (res, s4, t4) \<Rightarrow> (res, s4, t4, x1))
          else (Inl ErrUserBanned, s, t, x1)
      | (Inl _, x1) \<Rightarrow> (Inl ErrUserBanned, s, t, x1))"
proof -
  have "r_get R (refreshKeyPrefix @ RefreshToken sess) s = (Inr (AccessToken sess), s)"
    using s by (auto simp: stored_def intro: get_refresh_key)
  moreover have "Get st now1 (AccessToken sess) s = (Inr sess, s)"
    using Get_stored_session [OF st s, of now1] a by simp
  moreover have "RefreshToken sess \<noteq> []" "AccessToken sess \<noteq> []" using s by (simp_all add: stored_def)
  ultimately show ?thesis
    using st g r by (auto simp: Refresh_def Let_def RevokeAllForUID_def split: prod.splits sum.splits)
qed

lemma Refresh_unknown:
  assumes "ss_rdb st = Some R" "live s" "view s (refreshKeyPrefix @ r) = None"
  shows "Refresh st now1 now2 now3 r f (s, t, x) = (Inl ErrRefreshDenied, s, t, x)"
  using assms get_law [OF assms(2), of "refreshKeyPrefix @ r" "[]"] by (simp add: Refresh_def)

lemma stored_issued:
  assumes "ss_rdb st = Some R" "live s" "56 \<le> length t"
    and "valid_utf8 nick" "valid_utf8 icon" "list_all int64 [uid, ut, plat, (now + userAccessTTL st) div second, (now + userRefreshTTL st) div second]"
  obtains s' where "IssueUser st now uid nick icon ut plat (s, t) = (Inr (issued st now uid nick icon ut plat t), s', drop 56 t)"
    "stored (issued st now uid nick icon ut plat t) s'"
    "\<And>k. k \<noteq> sessKeyPrefix @ hex_EncodeToString (take 24 t) \<Longrightarrow>
       k \<noteq> refreshKeyPrefix @ hex_EncodeToString (take 32 (drop 24 t)) \<Longrightarrow> view s' k = view s k"
proof -
  let ?i = "issued st now uid nick icon ut plat t"
  obtain s' ttl where i: "IssueUser st now uid nick icon ut plat (s, t) = (Inr ?i, s', drop 56 t)" "live s'"
    "view s' = (view s)(sessKeyPrefix @ hex_EncodeToString (take 24 t) \<mapsto> (RStr (json_print (session_json ?i)), Some ttl),
       refreshKeyPrefix @ hex_EncodeToString (take 32 (drop 24 t)) \<mapsto> (RStr (hex_EncodeToString (take 24 t)), Some ttl))"
    by (rule IssueUser_live [OF assms(1-3)])
  have "session_ok ?i" using assms(4-) by (simp add: session_ok_def issued_def)
  moreover have "hex_EncodeToString (take 24 t) \<noteq> []" "hex_EncodeToString (take 32 (drop 24 t)) \<noteq> []"
    using assms(3) by (auto intro!: hex_ne)
  ultimately have "stored ?i s'"
    using i(2,3) sess_refresh_keys by (auto simp: stored_def issued_def)
  then show ?thesis using that [OF i(1)] i(3) by simp
qed

end

subsection \<open>Properties\<close>

text \<open>The state in which a freshly issued session lives, for the store with the default lifetimes.\<close>

lemma issue_stored:
  assumes "redis_server R view live dbl" and "live s" and "56 \<le> length t" and "valid_utf8 nick" "valid_utf8 icon"
    and "list_all int64 [uid, ut, plat]" and "0 \<le> now" "now < 2 ^ 63"
    and i: "IssueUser (NewSessionStore (Some R)) now uid nick icon ut plat (s, t) = (Inr sess, s', t')"
  shows "redis_server.stored view live sess s'" "sess = issued (NewSessionStore (Some R)) now uid nick icon ut plat t"
    "t' = drop 56 t" "0 < AccessExpireAt sess"
    "\<And>k. k \<noteq> sessKeyPrefix @ AccessToken sess \<Longrightarrow> k \<noteq> refreshKeyPrefix @ RefreshToken sess \<Longrightarrow> view s' k = view s k"
proof -
  let ?st = "NewSessionStore (Some R)"
  have st: "ss_rdb ?st = Some R" by (simp add: NewSessionStore_def)
  have pos: "0 < (now + userAccessTTL ?st) div second"
    using assms(7) by (simp add: NewSessionStore_def ttl_defs pos_imp_zdiv_pos_iff)
  have "(now + userAccessTTL ?st) div second < 2 ^ 63" "(now + userRefreshTTL ?st) div second < 2 ^ 63"
    "0 \<le> (now + userRefreshTTL ?st) div second"
    using assms(7,8) by (simp_all add: NewSessionStore_def ttl_defs div_less_iff_less_mult pos_imp_zdiv_nonneg_iff)
  then have n: "list_all int64 [uid, ut, plat, (now + userAccessTTL ?st) div second, (now + userRefreshTTL ?st) div second]"
    using assms(6) pos by (auto simp: int64_def)
  obtain s1 where s1: "IssueUser ?st now uid nick icon ut plat (s, t) = (Inr (issued ?st now uid nick icon ut plat t), s1, drop 56 t)"
    "redis_server.stored view live (issued ?st now uid nick icon ut plat t) s1"
    "\<And>k. k \<noteq> sessKeyPrefix @ hex_EncodeToString (take 24 t) \<Longrightarrow>
       k \<noteq> refreshKeyPrefix @ hex_EncodeToString (take 32 (drop 24 t)) \<Longrightarrow> view s1 k = view s k"
    by (rule redis_server.stored_issued [OF assms(1) st assms(2,3,4,5) n]) metis
  then have e: "sess = issued ?st now uid nick icon ut plat t" "s' = s1" "t' = drop 56 t" using i by simp_all
  show "redis_server.stored view live sess s'" "sess = issued ?st now uid nick icon ut plat t" "t' = drop 56 t"
    "0 < AccessExpireAt sess"
    "\<And>k. k \<noteq> sessKeyPrefix @ AccessToken sess \<Longrightarrow> k \<noteq> refreshKeyPrefix @ RefreshToken sess \<Longrightarrow> view s' k = view s k"
    using s1 pos by (simp_all add: e issued_def)
qed

text \<open>A session that \<open>IssueUser\<close> returned is found under its access token, unchanged, for the 30
  minutes of its lifetime and not after; its tokens are 48 and 64 hexadecimal characters of fresh
  random bytes.\<close>

theorem issue_then_get:
  assumes "redis_server R view live dbl" and "live s" and "56 \<le> length t" and "valid_utf8 nick" "valid_utf8 icon"
    and "list_all int64 [uid, ut, plat]" and "0 \<le> now" "now < 2 ^ 63"
    and "IssueUser (NewSessionStore (Some R)) now uid nick icon ut plat (s, t) = (Inr sess, s', t')"
  shows "Get (NewSessionStore (Some R)) now' (AccessToken sess) s' =
      (if now' div second \<le> (now + 30 * 60 * second) div second then (Inr sess, s') else (Inl ErrSessionNotFound, s')) \<and>
    UID sess = uid \<and> length (AccessToken sess) = 48 \<and> length (RefreshToken sess) = 64 \<and> t = take 56 t @ t'"
proof -
  let ?st = "NewSessionStore (Some R)"
  have st: "ss_rdb ?st = Some R" by (simp add: NewSessionStore_def)
  note i = issue_stored [OF assms]
  have "AccessExpireAt sess = (now + 30 * 60 * second) div second"
    by (simp add: i(2) issued_def NewSessionStore_def ttl_defs)
  then show ?thesis
    using redis_server.Get_stored_session [OF assms(1) st i(1), of now'] i(3,4) assms(3)
    by (auto simp: i(2) issued_def)
qed

theorem issue_then_get_witness:
  "\<exists>sess s'. IssueUser (NewSessionStore (Some mem_redis)) 0 7 ''bob'' [] 1 4 (mem_empty, replicate 56 1) = (Inr sess, s', []) \<and>
     Get (NewSessionStore (Some mem_redis)) (20 * 60 * second) (AccessToken sess) s' = (Inr sess, s') \<and>
     Get (NewSessionStore (Some mem_redis)) (31 * 60 * second) (AccessToken sess) s' = (Inl ErrSessionNotFound, s')"
proof -
  let ?st = "NewSessionStore (Some mem_redis)"
  obtain sess s' where i: "IssueUser ?st 0 7 ''bob'' [] 1 4 (mem_empty, replicate 56 1) = (Inr sess, s', [])"
    by (rule memr.IssueUser_live [of ?st mem_empty "replicate 56 1" 0 7 "''bob''" "[]" 1 4])
      (auto simp: NewSessionStore_def)
  note g = issue_then_get [OF memr.redis_server_axioms _ _ _ _ _ _ _ i]
  have v: "valid_utf8 ''bob''" "valid_utf8 []" by (simp_all add: valid_utf8_ascii ascii_def)
  show ?thesis
    using i g [of "20 * 60 * second"] g [of "31 * 60 * second"] v by (auto simp: second_def int64_def)
qed

text \<open>C12: a refresh within the lifetime of the access token rotates both tokens: the user's data carries
  over to a new session that is found, the old access token is gone, and the old refresh token is
  refused from then on.  The new refresh token's expiry counts 30 days from the refresh.\<close>

theorem refresh_rotates:
  assumes "redis_server R view live dbl" and "live s" and "112 \<le> length t" and "valid_utf8 nick" "valid_utf8 icon"
    and "list_all int64 [uid, ut, plat]" and "0 \<le> now" "now < 2 ^ 63" "0 \<le> n3" "n3 < 2 ^ 63"
    and i: "IssueUser (NewSessionStore (Some R)) now uid nick icon ut plat (s, t) = (Inr sess, s1, t1)"
    and "n1 div second \<le> AccessExpireAt sess" "n2 div second \<le> RefreshExpireAt sess" and f: "f uid x = (Inr 1, x1)"
    and fresh: "take 24 t \<noteq> take 24 (drop 56 t)" "take 32 (drop 24 t) \<noteq> take 32 (drop 80 t)"
  shows "\<exists>new s2. Refresh (NewSessionStore (Some R)) n1 n2 n3 (RefreshToken sess) (Some f) (s1, t1, x) = (Inr new, s2, drop 56 t1, x1) \<and>
     UID new = uid \<and> NickName new = nick \<and> Icon new = icon \<and> RefreshExpireAt new = (n3 + 30 * 24 * 3600 * second) div second \<and>
     Get (NewSessionStore (Some R)) n3 (AccessToken new) s2 = (Inr new, s2) \<and>
     (\<forall>n. Get (NewSessionStore (Some R)) n (AccessToken sess) s2 = (Inl ErrSessionNotFound, s2)) \<and>
     Refresh (NewSessionStore (Some R)) n1 n2 n3 (RefreshToken sess) (Some f) (s2, t2, y) = (Inl ErrRefreshDenied, s2, t2, y)"
proof -
  let ?st = "NewSessionStore (Some R)"
  have st: "ss_rdb ?st = Some R" by (simp add: NewSessionStore_def)
  have l: "56 \<le> length t" using assms(3) by simp
  note old = issue_stored [OF assms(1,2) l assms(4-8) i]
  let ?s = "revoke ?st (AccessToken sess) (RefreshToken sess) s1"
  have ls: "live s1" "RefreshToken sess \<noteq> []" using old(1) by (simp_all add: redis_server.stored_def [OF assms(1)])
  note rv = redis_server.revoke_view [OF assms(1) st ls(1), of "AccessToken sess" "RefreshToken sess"]
  have sess: "\<not> IsGuest sess" "UID sess = uid" "NickName sess = nick" "Icon sess = icon" "UserType sess = ut" "Plat sess = plat"
    "AccessToken sess = hex_EncodeToString (take 24 t)" "RefreshToken sess = hex_EncodeToString (take 32 (drop 24 t))"
    by (simp_all add: old(2) issued_def)
  have l1: "56 \<le> length t1" using assms(3) old(3) by simp
  obtain new s2 where nw: "IssueUser ?st n3 uid nick icon ut plat (?s, t1) = (Inr new, s2, drop 56 t1)"
    using redis_server.IssueUser_live [OF assms(1) st rv(1) l1, of n3 uid nick icon ut plat] by metis
  note new = issue_stored [OF assms(1) rv(1) l1 assms(4-6,9,10) nw]
  have R: "Refresh ?st n1 n2 n3 (RefreshToken sess) (Some f) (s1, t1, x) = (Inr new, s2, drop 56 t1, x1)"
    using redis_server.Refresh_stored [OF assms(1) st old(1) sess(1), of n1 n2 n3 f t1 x] assms(12,13) f nw
    by (simp add: sess(2-6))
  have tok: "AccessToken new = hex_EncodeToString (take 24 t1)" "RefreshToken new = hex_EncodeToString (take 32 (drop 24 t1))"
    "AccessExpireAt new = (n3 + 30 * 60 * second) div second" "RefreshExpireAt new = (n3 + 30 * 24 * 3600 * second) div second"
    "UID new = uid" "NickName new = nick" "Icon new = icon"
    by (simp_all add: new(2) issued_def NewSessionStore_def ttl_defs)
  have ne: "AccessToken new \<noteq> AccessToken sess" "RefreshToken new \<noteq> RefreshToken sess"
    using fresh by (simp_all add: tok sess hex_inject old(3) eq_commute add.commute)
  have gone: "view s2 (sessKeyPrefix @ AccessToken sess) = None" "view s2 (refreshKeyPrefix @ RefreshToken sess) = None"
    using new(5) ne sess_refresh_keys rv(2) ls(2) by (simp_all add: eq_commute)
  have "n3 div second \<le> AccessExpireAt new" by (simp add: tok(3) zdiv_mono1 second_def)
  then have "Get ?st n3 (AccessToken new) s2 = (Inr new, s2)"
    using redis_server.Get_stored_session [OF assms(1) st new(1), of n3] by auto
  moreover have "live s2" using new(1) by (simp add: redis_server.stored_def [OF assms(1)])
  ultimately show ?thesis
    using R tok(4-7) redis_server.Get_missing [OF assms(1) st _ gone(1)] redis_server.Refresh_unknown [OF assms(1) st _ gone(2)]
    by (intro exI [of _ new] exI [of _ s2]) simp
qed

lemma replicate_issue:
  obtains sess s' where "IssueUser (NewSessionStore (Some mem_redis)) 0 7 ''bob'' [] 1 4 (mem_empty, replicate 56 1 @ replicate 56 2) = (Inr sess, s', replicate 56 2)"
  by (rule memr.IssueUser_live [of "NewSessionStore (Some mem_redis)" mem_empty "replicate 56 1 @ replicate 56 2" 0 7 "''bob''" "[]" 1 4])
    (auto simp: NewSessionStore_def)

lemma bob_ok: "valid_utf8 ''bob''" "valid_utf8 []" "list_all int64 [7, 1, 4]"
  by (simp_all add: valid_utf8_ascii ascii_def int64_def)

theorem refresh_rotates_witness:
  "\<exists>sess s1 new s2. IssueUser (NewSessionStore (Some mem_redis)) 0 7 ''bob'' [] 1 4 (mem_empty, replicate 56 1 @ replicate 56 2) = (Inr sess, s1, replicate 56 2) \<and>
     Refresh (NewSessionStore (Some mem_redis)) second second second (RefreshToken sess) (Some (\<lambda>_ u. (Inr 1 :: unit + int, u))) (s1, replicate 56 2, ()) = (Inr new, s2, [], ()) \<and>
     Refresh (NewSessionStore (Some mem_redis)) second second second (RefreshToken sess) (Some (\<lambda>_ u. (Inr 1 :: unit + int, u))) (s2, [], ()) = (Inl ErrRefreshDenied, s2, [], ())"
proof -
  obtain sess s1 where i: "IssueUser (NewSessionStore (Some mem_redis)) 0 7 ''bob'' [] 1 4 (mem_empty, replicate 56 1 @ replicate 56 2) = (Inr sess, s1, replicate 56 2)"
    by (rule replicate_issue)
  have e: "second div second \<le> AccessExpireAt sess" "second div second \<le> RefreshExpireAt sess"
    using issue_stored(2) [OF memr.redis_server_axioms _ _ bob_ok _ _ i] by (simp_all add: issued_def NewSessionStore_def ttl_defs)
  show ?thesis
    using i refresh_rotates [OF memr.redis_server_axioms _ _ bob_ok _ _ _ _ i e, of second "\<lambda>_ u. (Inr 1 :: unit + int, u)" "()" "()" "[]" "()"]
    by (fastforce simp: second_def)
qed

text \<open>A refresh token outlives its access token in the store but not in use: once the access token's 30
  minutes are over, \<open>Refresh\<close> answers \<open>ErrRefreshDenied\<close> although the refresh token is valid for 30
  days, because it loads the session through \<open>Get\<close>.\<close>

theorem refresh_denied_after_access_expiry:
  assumes "redis_server R view live dbl" and "live s" and "56 \<le> length t" and "valid_utf8 nick" "valid_utf8 icon"
    and "list_all int64 [uid, ut, plat]" and "0 \<le> now" "now < 2 ^ 63"
    and i: "IssueUser (NewSessionStore (Some R)) now uid nick icon ut plat (s, t) = (Inr sess, s1, t1)"
    and "n1 div second > (now + 30 * 60 * second) div second"
  shows "Refresh (NewSessionStore (Some R)) n1 n2 n3 (RefreshToken sess) f (s1, t1, x) = (Inl ErrRefreshDenied, s1, t1, x)"
proof -
  let ?st = "NewSessionStore (Some R)"
  have st: "ss_rdb ?st = Some R" by (simp add: NewSessionStore_def)
  note old = issue_stored [OF assms(1-9)]
  have a: "AccessExpireAt sess = (now + 30 * 60 * second) div second"
    by (simp add: old(2) issued_def NewSessionStore_def ttl_defs)
  then have "Get ?st n1 (AccessToken sess) s1 = (Inl ErrSessionNotFound, s1)"
    using redis_server.Get_stored_session [OF assms(1) st old(1), of n1] old(4) assms(10) by simp
  moreover have "r_get R (refreshKeyPrefix @ RefreshToken sess) s1 = (Inr (AccessToken sess), s1)" "AccessToken sess \<noteq> []" "RefreshToken sess \<noteq> []"
    using old(1) redis_server.get_refresh_key [OF assms(1)] by (auto simp: redis_server.stored_def [OF assms(1)])
  ultimately show ?thesis using st by (simp add: Refresh_def)
qed

theorem refresh_denied_witness:
  "\<exists>sess s1. IssueUser (NewSessionStore (Some mem_redis)) 0 7 ''bob'' [] 1 4 (mem_empty, replicate 56 1 @ replicate 56 2) = (Inr sess, s1, replicate 56 2) \<and>
     Refresh (NewSessionStore (Some mem_redis)) (31 * 60 * second) 0 0 (RefreshToken sess) (Some (\<lambda>_ u. (Inr 1 :: unit + int, u)))
       (s1, replicate 56 2, ()) = (Inl ErrRefreshDenied, s1, replicate 56 2, ())"
proof -
  obtain sess s1 where i: "IssueUser (NewSessionStore (Some mem_redis)) 0 7 ''bob'' [] 1 4 (mem_empty, replicate 56 1 @ replicate 56 2) = (Inr sess, s1, replicate 56 2)"
    by (rule replicate_issue)
  show ?thesis
    using i refresh_denied_after_access_expiry [OF memr.redis_server_axioms _ _ bob_ok _ _ i, of "31 * 60 * second"]
    by (auto simp: second_def)
qed

text \<open>C37: logging out ends both tokens: after \<open>Revoke\<close> of a live session its access token is not found and
  its refresh token is refused.  A refresh refused because the user is banned, in contrast, leaves
  the session usable: \<open>RevokeAllForUID\<close> deletes nothing.\<close>

theorem revoke_ends_session_ban_does_not:
  assumes "redis_server R view live dbl" and "live s" and "56 \<le> length t" and "valid_utf8 nick" "valid_utf8 icon"
    and "list_all int64 [uid, ut, plat]" and "0 \<le> now" "now < 2 ^ 63"
    and i: "IssueUser (NewSessionStore (Some R)) now uid nick icon ut plat (s, t) = (Inr sess, s1, t1)"
    and n: "n1 div second \<le> AccessExpireAt sess" "n2 div second \<le> RefreshExpireAt sess"
    and b: "f uid x = (Inr status, x1)" "status \<noteq> 1"
  shows "Get (NewSessionStore (Some R)) n1 (AccessToken sess) (Revoke (NewSessionStore (Some R)) n1 (AccessToken sess) s1) =
       (Inl ErrSessionNotFound, Revoke (NewSessionStore (Some R)) n1 (AccessToken sess) s1) \<and>
     fst (Refresh (NewSessionStore (Some R)) n1 n2 n3 (RefreshToken sess) (Some f)
       (Revoke (NewSessionStore (Some R)) n1 (AccessToken sess) s1, t1, x)) = Inl ErrRefreshDenied \<and>
     Refresh (NewSessionStore (Some R)) n1 n2 n3 (RefreshToken sess) (Some f) (s1, t1, x) = (Inl ErrUserBanned, s1, t1, x1) \<and>
     Get (NewSessionStore (Some R)) n1 (AccessToken sess) s1 = (Inr sess, s1)"
proof -
  let ?st = "NewSessionStore (Some R)"
  have st: "ss_rdb ?st = Some R" by (simp add: NewSessionStore_def)
  note old = issue_stored [OF assms(1-9)]
  have ls: "live s1" "RefreshToken sess \<noteq> []" "AccessToken sess \<noteq> []"
    using old(1) by (simp_all add: redis_server.stored_def [OF assms(1)])
  have g: "Get ?st n1 (AccessToken sess) s1 = (Inr sess, s1)"
    using redis_server.Get_stored_session [OF assms(1) st old(1), of n1] n(1) by auto
  let ?s2 = "revoke ?st (AccessToken sess) (RefreshToken sess) s1"
  have r: "Revoke ?st n1 (AccessToken sess) s1 = ?s2" using g ls st by (simp add: Revoke_def)
  note rv = redis_server.revoke_view [OF assms(1) st ls(1), of "AccessToken sess" "RefreshToken sess"]
  have u: "\<not> IsGuest sess" "UID sess = uid" by (simp_all add: old(2) issued_def)
  have "Refresh ?st n1 n2 n3 (RefreshToken sess) (Some f) (s1, t1, x) = (Inl ErrUserBanned, s1, t1, x1)"
    using redis_server.Refresh_stored [OF assms(1) st old(1) u(1), of n1 n2 n3 f t1 x] n b by (simp add: u(2))
  moreover have "Refresh ?st n1 n2 n3 (RefreshToken sess) (Some f) (?s2, t1, x) = (Inl ErrRefreshDenied, ?s2, t1, x)"
    by (rule redis_server.Refresh_unknown [OF assms(1) st rv(1)]) (simp add: rv(2) ls)
  moreover have "Get ?st n1 (AccessToken sess) ?s2 = (Inl ErrSessionNotFound, ?s2)"
    by (rule redis_server.Get_missing [OF assms(1) st rv(1)]) (simp add: rv(2))
  ultimately show ?thesis using g r by simp
qed

theorem revoke_ends_session_witness:
  "\<exists>sess s1. IssueUser (NewSessionStore (Some mem_redis)) 0 7 ''bob'' [] 1 4 (mem_empty, replicate 56 1 @ replicate 56 2) = (Inr sess, s1, replicate 56 2) \<and>
     fst (Refresh (NewSessionStore (Some mem_redis)) 0 0 0 (RefreshToken sess) (Some (\<lambda>_ u. (Inr 2 :: unit + int, u))) (s1, replicate 56 2, ())) = Inl ErrUserBanned \<and>
     Get (NewSessionStore (Some mem_redis)) 0 (AccessToken sess) s1 = (Inr sess, s1)"
proof -
  obtain sess s1 where i: "IssueUser (NewSessionStore (Some mem_redis)) 0 7 ''bob'' [] 1 4 (mem_empty, replicate 56 1 @ replicate 56 2) = (Inr sess, s1, replicate 56 2)"
    by (rule replicate_issue)
  have e: "0 div second \<le> AccessExpireAt sess" "0 div second \<le> RefreshExpireAt sess"
    using issue_stored(2) [OF memr.redis_server_axioms _ _ bob_ok _ _ i] by (simp_all add: issued_def NewSessionStore_def ttl_defs)
  show ?thesis
    using i revoke_ends_session_ban_does_not [OF memr.redis_server_axioms _ _ bob_ok _ _ i e, of "\<lambda>_ u. (Inr 2 :: unit + int, u)" "()" 2 "()" 0]
    by auto
qed

end
