(* ===== verification/Schema.thy ===== *)
theory Schema
  imports GoText "HOL-Library.AList"
begin

text \<open>
  Table-name resolution (\<open>common/model/schema.go\<close>).  The two package variables are a record that
  the query builders take as an argument.
\<close>

record Schema =
  schemaPrefix :: string
  useSchemaPrefix :: bool

definition defaultSchemaPrefix :: string where "defaultSchemaPrefix = ''zb_''"

definition initial_schema :: Schema where
  "initial_schema = \<lparr>schemaPrefix = defaultSchemaPrefix, useSchemaPrefix = True\<rparr>"

definition tableSchema :: "(string \<times> string) list" where
  "tableSchema =
    [(''user'', ''user''), (''user_grow'', ''user''), (''room_gift_rank'', ''user''), (''uid_pool'', ''user''),
     (''account'', ''user''), (''attention_compere'', ''user''), (''login_log'', ''user''), (''reg_info'', ''user''),
     (''live_type'', ''live''), (''live_room'', ''live''), (''anchors'', ''live''), (''match_schedule'', ''live''),
     (''match_schedule_room'', ''live''), (''live_hot_recommend'', ''live''), (''high_light'', ''live''),
     (''live_stat'', ''live''),
     (''chat_room_message'', ''chat''),
     (''gift'', ''gift''),
     (''admin_user'', ''admin''),
     (''advertising'', ''sys''), (''article'', ''sys''), (''system_chat_message'', ''sys''),
     (''system_notice_message'', ''sys''),
     (''rooms'', ''live''), (''room_ranks'', ''user'')]"

definition SetSchemaPrefix :: "string \<Rightarrow> Schema \<Rightarrow> Schema" where
  "SetSchemaPrefix p sc = sc\<lparr>schemaPrefix := TrimSpace p\<rparr>"

definition SetNoSchemaPrefix :: "Schema \<Rightarrow> Schema" where
  "SetNoSchemaPrefix sc = sc\<lparr>useSchemaPrefix := False\<rparr>"

text \<open>A missing map entry reads as the empty string.\<close>

definition SchemaForTable :: "Schema \<Rightarrow> string \<Rightarrow> string" where
  "SchemaForTable sc table =
     (if \<not> useSchemaPrefix sc then []
      else (let short = (case map_of tableSchema table of Some s \<Rightarrow> s | None \<Rightarrow> []) in
            if short = [] then [] else schemaPrefix sc @ short))"

definition Tbl :: "Schema \<Rightarrow> string \<Rightarrow> string" where
  "Tbl sc table =
     (if \<not> useSchemaPrefix sc then table
      else (let sch = SchemaForTable sc table in if sch = [] then table else sch @ ''.'' @ table))"

definition SchemaUser :: "Schema \<Rightarrow> string" where "SchemaUser sc = SchemaForTable sc ''user''"
definition SchemaLive :: "Schema \<Rightarrow> string" where "SchemaLive sc = SchemaForTable sc ''live_room''"
definition SchemaChat :: "Schema \<Rightarrow> string" where "SchemaChat sc = SchemaForTable sc ''chat_room_message''"
definition SchemaGift :: "Schema \<Rightarrow> string" where "SchemaGift sc = SchemaForTable sc ''gift''"
definition SchemaAdmin :: "Schema \<Rightarrow> string" where "SchemaAdmin sc = SchemaForTable sc ''admin_user''"
definition SchemaSys :: "Schema \<Rightarrow> string" where "SchemaSys sc = SchemaForTable sc ''article''"

lemma tableSchema_dots: "map_of tableSchema t = Some s \<Longrightarrow> CHR ''.'' \<notin> set t \<and> CHR ''.'' \<notin> set s \<and> s \<noteq> []"
  by (auto simp: tableSchema_def split: if_splits)

lemma Tbl_known:
  "useSchemaPrefix sc \<Longrightarrow> map_of tableSchema t = Some s \<Longrightarrow> Tbl sc t = schemaPrefix sc @ s @ ''.'' @ t"
  using tableSchema_dots [of t s] by (simp add: Tbl_def SchemaForTable_def Let_def)

lemma suffix_after_dot:
  "CHR ''.'' \<notin> set t \<Longrightarrow> CHR ''.'' \<notin> set u \<Longrightarrow> a @ CHR ''.'' # t = b @ CHR ''.'' # u \<Longrightarrow> t = u"
proof -
  assume t: "CHR ''.'' \<notin> set t" and u: "CHR ''.'' \<notin> set u" and eq: "a @ CHR ''.'' # t = b @ CHR ''.'' # u"
  from eq have "rev t @ CHR ''.'' # rev a = rev u @ CHR ''.'' # rev b"
    by (metis append_Cons append_assoc append_self_conv2 rev.simps(2) rev_append)
  then have "takeWhile (\<lambda>c. c \<noteq> CHR ''.'') (rev t @ CHR ''.'' # rev a) =
             takeWhile (\<lambda>c. c \<noteq> CHR ''.'') (rev u @ CHR ''.'' # rev b)" by simp
  moreover have "takeWhile (\<lambda>c. c \<noteq> CHR ''.'') (rev t @ CHR ''.'' # rev a) = rev t"
    using t by (subst takeWhile_append2) auto
  moreover have "takeWhile (\<lambda>c. c \<noteq> CHR ''.'') (rev u @ CHR ''.'' # rev b) = rev u"
    using u by (subst takeWhile_append2) auto
  ultimately show "t = u" by simp
qed

end
