(* ===== verification/Sql.thy ===== *)
theory Sql
  imports Schema
begin

text \<open>
  The part of \<open>database/sql\<close> that the models use.  The engine behind it (the driver and the server)
  is a record of operations over an arbitrary state \<open>'d\<close>; what happens on this side of the driver,
  \<open>Rows.Scan\<close> and \<open>Row.Scan\<close> with their conversions, is defined here.  Driver values of type
  \<open>float64\<close> and \<open>bool\<close> are left out: no column the models read has one of these types.
\<close>

text \<open>A \<open>time.Time\<close>: its instant in nanoseconds since the epoch, and its RFC 3339 text in its own
  location.\<close>

record gotime =
  Instant :: int
  Rfc3339 :: string

datatype sqlval = VNull | VInt int | VText string | VTime gotime

text \<open>What a \<open>Scan\<close> destination is: an integer of some width, a string, a time, or one of the
  nullable wrappers.\<close>

datatype dest = DInt nat | DStr | DTime | DNullInt | DNullStr | DNullTime

datatype gval = GI int | GS string | GT gotime | GNI "int option" | GNS "string option" | GNT "gotime option"

datatype sql_error =
    ErrNoRows
  | ErrCanceled
  | ErrDeadlineExceeded
  | ErrScan nat sqlval dest
  | ErrScanArity nat nat
  | ErrDriver string

definition in_width :: "nat \<Rightarrow> int \<Rightarrow> bool" where
  "in_width w n \<longleftrightarrow> - (2 ^ (w - 1)) \<le> n \<and> n < 2 ^ (w - 1)"

fun conv_int :: "nat \<Rightarrow> sqlval \<Rightarrow> int option" where
  "conv_int w (VInt n) = (if in_width w n then Some n else None)"
| "conv_int w (VText s) = (case parse_int s of Some n \<Rightarrow> if in_width w n then Some n else None | None \<Rightarrow> None)"
| "conv_int w VNull = None"
| "conv_int w (VTime t) = None"

fun conv_str :: "sqlval \<Rightarrow> string option" where
  "conv_str (VText s) = Some s"
| "conv_str (VInt n) = Some (itoa n)"
| "conv_str (VTime t) = Some (Rfc3339 t)"
| "conv_str VNull = None"

fun conv_time :: "sqlval \<Rightarrow> gotime option" where
  "conv_time (VTime t) = Some t"
| "conv_time _ = None"

text \<open>\<open>convertAssign\<close>.\<close>

fun convert_assign :: "dest \<Rightarrow> sqlval \<Rightarrow> gval option" where
  "convert_assign (DInt w) v = map_option GI (conv_int w v)"
| "convert_assign DStr v = map_option GS (conv_str v)"
| "convert_assign DTime v = map_option GT (conv_time v)"
| "convert_assign DNullInt v = (if v = VNull then Some (GNI None) else map_option (GNI \<circ> Some) (conv_int 64 v))"
| "convert_assign DNullStr v = (if v = VNull then Some (GNS None) else map_option (GNS \<circ> Some) (conv_str v))"
| "convert_assign DNullTime v = (if v = VNull then Some (GNT None) else map_option (GNT \<circ> Some) (conv_time v))"

fun scan_cols :: "nat \<Rightarrow> dest list \<Rightarrow> sqlval list \<Rightarrow> sql_error + gval list" where
  "scan_cols i (d # ds) (v # vs) =
     (case convert_assign d v of
        None \<Rightarrow> Inl (ErrScan i v d)
      | Some g \<Rightarrow> (case scan_cols (Suc i) ds vs of Inl e \<Rightarrow> Inl e | Inr gs \<Rightarrow> Inr (g # gs)))"
| "scan_cols i _ _ = Inr []"

definition scan_row :: "dest list \<Rightarrow> sqlval list \<Rightarrow> sql_error + gval list" where
  "scan_row ds vs =
     (if length ds \<noteq> length vs then Inl (ErrScanArity (length vs) (length ds)) else scan_cols 0 ds vs)"

text \<open>What the \<open>i\<close>-th destination holds after a successful \<open>Scan\<close>; an invalid nullable holds the zero
  value.\<close>

definition g_int :: "gval list \<Rightarrow> nat \<Rightarrow> int" where
  "g_int gs i = (case gs ! i of GI n \<Rightarrow> n | GNI (Some n) \<Rightarrow> n | _ \<Rightarrow> 0)"

definition g_str :: "gval list \<Rightarrow> nat \<Rightarrow> string" where
  "g_str vs i = (case vs ! i of GS s \<Rightarrow> s | GNS (Some s) \<Rightarrow> s | _ \<Rightarrow> [])"

definition g_time :: "gval list \<Rightarrow> nat \<Rightarrow> gotime option" where
  "g_time vs i = (case vs ! i of GT t \<Rightarrow> Some t | GNT t \<Rightarrow> t | _ \<Rightarrow> None)"

text \<open>The engine.  A query fails at once, or yields rows and the error that ended the iteration.\<close>

record 'd sql_db =
  ExecContext :: "string \<Rightarrow> sqlval list \<Rightarrow> 'd \<Rightarrow> sql_error option \<times> 'd"
  QueryContext :: "string \<Rightarrow> sqlval list \<Rightarrow> 'd \<Rightarrow> (sql_error + (sqlval list list \<times> sql_error option)) \<times> 'd"

text \<open>\<open>QueryRowContext(...).Scan(...)\<close>.\<close>

definition query_row :: "'d sql_db \<Rightarrow> string \<Rightarrow> sqlval list \<Rightarrow> dest list \<Rightarrow> 'd \<Rightarrow> (sql_error + gval list) \<times> 'd" where
  "query_row D q args ds d =
     (case QueryContext D q args d of
        (Inl e, d') \<Rightarrow> (Inl e, d')
      | (Inr (rows, re), d') \<Rightarrow>
          (case rows of
             [] \<Rightarrow> (Inl (case re of Some e \<Rightarrow> e | None \<Rightarrow> ErrNoRows), d')
           | r # _ \<Rightarrow> (scan_row ds r, d')))"

text \<open>The loop \<open>for rows.Next() { rows.Scan(...) }\<close>, which gives up at the first row that does not
  convert; the slice and \<open>rows.Err()\<close> are returned together.\<close>

fun scan_loop :: "dest list \<Rightarrow> (gval list \<Rightarrow> 'a) \<Rightarrow> sqlval list list \<Rightarrow> sql_error + 'a list" where
  "scan_loop ds f [] = Inr []"
| "scan_loop ds f (r # rs) =
     (case scan_row ds r of
        Inl e \<Rightarrow> Inl e
      | Inr g \<Rightarrow> (case scan_loop ds f rs of Inl e \<Rightarrow> Inl e | Inr xs \<Rightarrow> Inr (f g # xs)))"

definition query_list ::
  "'d sql_db \<Rightarrow> string \<Rightarrow> sqlval list \<Rightarrow> dest list \<Rightarrow> (gval list \<Rightarrow> 'a) \<Rightarrow> 'd \<Rightarrow> ('a list \<times> sql_error option) \<times> 'd" where
  "query_list D q args ds f d =
     (case QueryContext D q args d of
        (Inl e, d') \<Rightarrow> (([], Some e), d')
      | (Inr (rows, re), d') \<Rightarrow>
          (case scan_loop ds f rows of
             Inl e \<Rightarrow> (([], Some e), d')
           | Inr xs \<Rightarrow> ((xs, re), d')))"

abbreviation nl :: string where "nl \<equiv> [CHR 0x0A]"

text \<open>A row of values of the right kind for each destination scans to itself.\<close>

fun fits :: "dest \<Rightarrow> gval \<Rightarrow> sqlval \<Rightarrow> bool" where
  "fits (DInt w) (GI n) (VInt m) = (n = m \<and> in_width w n)"
| "fits DStr (GS s) (VText t) = (s = t)"
| "fits DTime (GT s) (VTime t) = (s = t)"
| "fits DNullStr (GNS s) v = (case s of None \<Rightarrow> v = VNull | Some t \<Rightarrow> v = VText t)"
| "fits DNullTime (GNT s) v = (case s of None \<Rightarrow> v = VNull | Some t \<Rightarrow> v = VTime t)"
| "fits _ _ _ = False"

lemma fits_convert: "fits d g v \<Longrightarrow> convert_assign d v = Some g"
  by (cases "(d, g, v)" rule: fits.cases) (auto split: option.splits)

lemma scan_cols_fits:
  "length ds = length gs \<Longrightarrow> length gs = length vs \<Longrightarrow> (\<forall>i < length ds. fits (ds ! i) (gs ! i) (vs ! i)) \<Longrightarrow>
   scan_cols k ds vs = Inr gs"
proof (induction ds gs vs arbitrary: k rule: list_induct3)
  case (Cons d ds g gs v vs)
  have "fits d g v" using Cons.prems by (metis length_Cons nth_Cons_0 zero_less_Suc)
  moreover have "\<forall>i < length ds. fits (ds ! i) (gs ! i) (vs ! i)" using Cons.prems by force
  ultimately show ?case using Cons.IH by (simp add: fits_convert)
qed simp

lemma scan_row_fits:
  "list_all2 (\<lambda>d (g, v). fits d g v) ds (zip gs vs) \<Longrightarrow> length gs = length vs \<Longrightarrow> scan_row ds vs = Inr gs"
  by (auto simp: scan_row_def list_all2_conv_all_nth intro!: scan_cols_fits)

lemma scan_loop_length: "scan_loop ds f rs = Inr xs \<Longrightarrow> length xs = length rs"
  by (induction rs arbitrary: xs) (auto split: sum.splits)

end
