(* ===== verification/GoTime.thy ===== *)
theory GoTime
  imports GoText
begin

text \<open>
  The part of package \<open>time\<close> that the sources use: calendar dates, \<open>ParseInLocation\<close> for the layouts
  of \<open>MatchTimeToMS\<close>, and \<open>Format\<close> with the layout \<open>20060102\<close>.  A wall-clock reading is the number of
  seconds from 1970-01-01 00:00:00 on that clock; the local time zone is a function from such
  readings to Unix seconds.
\<close>

definition leap :: "int \<Rightarrow> bool" where
  "leap y \<longleftrightarrow> 4 dvd y \<and> (\<not> 100 dvd y \<or> 400 dvd y)"

definition daysIn :: "int \<Rightarrow> int \<Rightarrow> int" where
  "daysIn m y = (if m = 2 then (if leap y then 29 else 28) else if m \<in> {4, 6, 9, 11} then 30 else 31)"

definition days_before_month :: "int \<Rightarrow> int \<Rightarrow> int" where
  "days_before_month m y = [0, 31, 59, 90, 120, 151, 181, 212, 243, 273, 304, 334] ! nat (m - 1) +
     (if 2 < m \<and> leap y then 1 else 0)"

definition days_from_civil :: "int \<Rightarrow> int \<Rightarrow> int \<Rightarrow> int" where
  "days_from_civil y m d =
     365 * (y - 1) + (y - 1) div 4 - (y - 1) div 100 + (y - 1) div 400 + days_before_month m y + (d - 1) - 719162"

definition wall :: "int \<Rightarrow> int \<Rightarrow> int \<Rightarrow> int \<Rightarrow> int \<Rightarrow> int \<Rightarrow> int" where
  "wall y mo d h mi s = 86400 * days_from_civil y mo d + 3600 * h + 60 * mi + s"

text \<open>\<open>getnum\<close> with \<open>fixed\<close> set, and without it (one digit is then enough).\<close>

definition getnum2 :: "string \<Rightarrow> (int \<times> string) option" where
  "getnum2 s = (case s of a # b # r \<Rightarrow> if is_digit a \<and> is_digit b then Some (int (10 * digit_val a + digit_val b), r) else None
                        | _ \<Rightarrow> None)"

definition getnum1 :: "string \<Rightarrow> (int \<times> string) option" where
  "getnum1 s =
     (case s of
        [] \<Rightarrow> None
      | a # r \<Rightarrow> if \<not> is_digit a then None
                 else (case r of
                         b # r' \<Rightarrow> if is_digit b then Some (int (10 * digit_val a + digit_val b), r') else Some (int (digit_val a), r)
                       | [] \<Rightarrow> Some (int (digit_val a), r)))"

definition lit :: "char \<Rightarrow> string \<Rightarrow> string option" where
  "lit c s = (case s of a # r \<Rightarrow> if a = c then Some r else None | [] \<Rightarrow> None)"

text \<open>\<open>skip\<close> over a blank of the layout takes any number of blanks, also none at the end.\<close>

definition skip_blank :: "string \<Rightarrow> string option" where
  "skip_blank s = (if s \<noteq> [] \<and> hd s \<noteq> CHR '' '' then None else Some (dropWhile (\<lambda>c. c = CHR '' '') s))"

definition p_year :: "string \<Rightarrow> (int \<times> string) option" where
  "p_year s = (if length s < 4 \<or> \<not> list_all is_digit (take 4 s) then None
               else Some (int (nat_of_digits (take 4 s)), drop 4 s))"

definition p_date :: "string \<Rightarrow> ((int \<times> int \<times> int) \<times> string) option" where
  "p_date s =
     Option.bind (p_year s) (\<lambda>(y, s1). Option.bind (lit (CHR ''-'') s1) (\<lambda>s2. Option.bind (getnum2 s2) (\<lambda>(m, s3).
       if m \<le> 0 \<or> 12 < m then None
       else Option.bind (lit (CHR ''-'') s3) (\<lambda>s4. Option.bind (getnum2 s4) (\<lambda>(d, s5). Some ((y, m, d), s5))))))"

text \<open>A fraction of a second may follow the seconds: its value in milliseconds.\<close>

definition p_frac :: "string \<Rightarrow> int \<times> string" where
  "p_frac s =
     (case s of
        a # b # r \<Rightarrow>
          if (a = CHR ''.'' \<or> a = CHR '','') \<and> is_digit b
          then (let ds = take 9 (takeWhile is_digit (b # r)) in
                (int (nat_of_digits ds * 10 ^ (9 - length ds)) div 1000000, dropWhile is_digit (b # r)))
          else (0, s)
      | _ \<Rightarrow> (0, s))"

definition p_time :: "string \<Rightarrow> ((int \<times> int \<times> int \<times> int) \<times> string) option" where
  "p_time s =
     Option.bind (getnum1 s) (\<lambda>(h, s1). if 24 \<le> h then None
       else Option.bind (lit (CHR '':'') s1) (\<lambda>s2. Option.bind (getnum2 s2) (\<lambda>(mi, s3). if 60 \<le> mi then None
         else Option.bind (lit (CHR '':'') s3) (\<lambda>s4. Option.bind (getnum2 s4) (\<lambda>(sec, s5). if 60 \<le> sec then None
           else (let (ms, s6) = p_frac s5 in Some ((h, mi, sec, ms), s6)))))))"

text \<open>The zone chunk \<open>Z07:00\<close>: an offset in seconds.\<close>

definition p_zone :: "string \<Rightarrow> (int \<times> string) option" where
  "p_zone s =
     (if s \<noteq> [] \<and> hd s = CHR ''Z'' then Some (0, tl s)
      else if length s < 6 \<or> s ! 3 \<noteq> CHR '':'' then None
      else Option.bind (getnum2 (take 2 (drop 1 s))) (\<lambda>(hr, _). Option.bind (getnum2 (take 2 (drop 4 s))) (\<lambda>(mm, _).
        if 24 < hr \<or> 60 < mm then None
        else if hd s = CHR ''+'' then Some (3600 * hr + 60 * mm, drop 6 s)
        else if hd s = CHR ''-'' then Some (- (3600 * hr + 60 * mm), drop 6 s)
        else None)))"

definition valid_day :: "int \<times> int \<times> int \<Rightarrow> bool" where
  "valid_day ymd = (case ymd of (y, m, d) \<Rightarrow> 1 \<le> d \<and> d \<le> daysIn m y)"

datatype layout = DateTime | DateTimeT | RFC3339 | DateOnly

text \<open>\<open>ParseInLocation(layout, s, time.Local)\<close>, as Unix milliseconds.\<close>

definition parse_layout :: "(int \<Rightarrow> int) \<Rightarrow> layout \<Rightarrow> string \<Rightarrow> int option" where
  "parse_layout loc l s =
     Option.bind (p_date s) (\<lambda>((y, m, d), s1).
       if l = DateOnly then
         (if s1 = [] \<and> valid_day (y, m, d) then Some (1000 * loc (wall y m d 0 0 0)) else None)
       else Option.bind (if l = DateTime then skip_blank s1 else lit (CHR ''T'') s1) (\<lambda>s2.
         Option.bind (p_time s2) (\<lambda>((h, mi, sec, ms), s3).
           if l = RFC3339 then
             Option.bind (p_zone s3) (\<lambda>(off, s4).
               if s4 = [] \<and> valid_day (y, m, d) then Some (1000 * (wall y m d h mi sec - off) + ms) else None)
           else if s3 = [] \<and> valid_day (y, m, d) then Some (1000 * loc (wall y m d h mi sec) + ms) else None)))"

text \<open>The date of a day number.\<close>

definition civil_from_days :: "int \<Rightarrow> int \<times> int \<times> int" where
  "civil_from_days n =
     (let z = n + 719468; era = z div 146097; doe = z mod 146097;
          yoe = (doe - doe div 1460 + doe div 36524 - doe div 146096) div 365;
          doy = doe - (365 * yoe + yoe div 4 - yoe div 100); mp = (5 * doy + 2) div 153;
          d = doy - (153 * mp + 2) div 5 + 1; m = (if mp < 10 then mp + 3 else mp - 9)
      in (yoe + 400 * era + (if m \<le> 2 then 1 else 0), m, d))"

definition pad_left :: "nat \<Rightarrow> string \<Rightarrow> string" where
  "pad_left n s = replicate (n - length s) (CHR ''0'') @ s"

text \<open>\<open>Format("20060102")\<close> of a wall-clock reading.\<close>

definition format_date :: "int \<Rightarrow> string" where
  "format_date w =
     (case civil_from_days (w div 86400) of
        (y, m, d) \<Rightarrow> (if y < 0 then CHR ''-'' # pad_left 4 (itoa (- y)) else pad_left 4 (itoa y)) @ pad_left 2 (itoa m) @ pad_left 2 (itoa d))"

text \<open>The text of a date and time in the first layout.\<close>

definition two :: "int \<Rightarrow> string" where
  "two n = [char_of (48 + nat n div 10), char_of (48 + nat n mod 10)]"

definition four :: "int \<Rightarrow> string" where
  "four n = two (n div 100) @ two (n mod 100)"

definition datetime_text :: "int \<Rightarrow> int \<Rightarrow> int \<Rightarrow> int \<Rightarrow> int \<Rightarrow> int \<Rightarrow> string" where
  "datetime_text y mo d h mi s =
     four y @ ''-'' @ two mo @ ''-'' @ two d @ '' '' @ two h @ '':'' @ two mi @ '':'' @ two s"

lemma digit_char: "n < 10 \<Longrightarrow> is_digit (char_of (48 + n)) \<and> digit_val (char_of (48 + n)) = n"
  by (simp add: is_digit_def digit_val_def)

lemma getnum2_two: "0 \<le> n \<Longrightarrow> n < 100 \<Longrightarrow> getnum2 (two n @ r) = Some (n, r)"
proof -
  assume n: "0 \<le> n" "n < 100"
  then have lt: "nat n div 10 < 10" "nat n mod 10 < 10" by auto
  have "int (10 * (nat n div 10) + nat n mod 10) = n" using n by simp
  then show ?thesis using digit_char [OF lt(1)] digit_char [OF lt(2)] by (simp add: getnum2_def two_def)
qed

lemma getnum1_two: "0 \<le> n \<Longrightarrow> n < 100 \<Longrightarrow> getnum1 (two n @ r) = Some (n, r)"
proof -
  assume n: "0 \<le> n" "n < 100"
  then have lt: "nat n div 10 < 10" "nat n mod 10 < 10" by auto
  have "int (10 * (nat n div 10) + nat n mod 10) = n" using n by simp
  then show ?thesis using digit_char [OF lt(1)] digit_char [OF lt(2)] by (simp add: getnum1_def two_def)
qed

lemma p_year_four: "0 \<le> y \<Longrightarrow> y < 10000 \<Longrightarrow> p_year (four y @ r) = Some (y, r)"
proof -
  assume y: "0 \<le> y" "y < 10000"
  have hi: "nat (y div 100) div 10 < 10" "nat (y div 100) mod 10 < 10" using y by auto
  have lo: "nat (y mod 100) div 10 < 10" "nat (y mod 100) mod 10 < 10" by (auto simp: nat_less_iff)
  have "int (((10 * (nat (y div 100) div 10) + nat (y div 100) mod 10) * 10 + nat (y mod 100) div 10) * 10 + nat (y mod 100) mod 10) = y"
    using y by (simp add: zdiv_int zmod_int) presburger
  then show ?thesis
    using digit_char [OF hi(1)] digit_char [OF hi(2)] digit_char [OF lo(1)] digit_char [OF lo(2)]
    by (simp add: p_year_def four_def two_def nat_of_digits_def algebra_simps)
qed

lemma lit_Cons [simp]: "lit c (c # r) = Some r"
  by (simp add: lit_def)

lemma skip_blank_two: "skip_blank (CHR '' '' # two n @ r) = Some (two n @ r)" if "0 \<le> n" "n < 100"
proof -
  have "is_digit (char_of (48 + nat n div 10))" using digit_char [of "nat n div 10"] that by auto
  moreover have "\<not> is_digit (CHR '' '')" by (simp add: is_digit_def)
  ultimately have "char_of (48 + nat n div 10) \<noteq> CHR '' ''" by metis
  then show ?thesis by (simp add: skip_blank_def two_def)
qed

lemma parse_datetime_text:
  assumes "0 \<le> y" "y < 10000" "1 \<le> mo" "mo \<le> 12" "valid_day (y, mo, d)" "0 \<le> h" "h < 24" "0 \<le> mi" "mi < 60" "0 \<le> s" "s < 60"
  shows "parse_layout loc DateTime (datetime_text y mo d h mi s) = Some (1000 * loc (wall y mo d h mi s))"
proof -
  have d: "0 \<le> d" "d < 100" using assms by (auto simp: valid_day_def daysIn_def split: if_splits)
  note get = getnum2_two [OF d] getnum2_two [of mo] getnum2_two [of mi] getnum2_two [of s] getnum2_two [of s "[]", simplified]
    getnum1_two [of h] p_year_four [of y] skip_blank_two [of h]
  show ?thesis using assms get
    by (simp add: parse_layout_def datetime_text_def p_date_def p_time_def p_frac_def)
qed

end
