(* ===== verification/Models.thy ===== *)
theory Models
  imports Sql GoTime Json
begin

text \<open>
  The data models (\<open>common/model/*_model.go\<close>): one record per row type, the text of every query, and
  one definition per method.  A method takes the database \<open>D\<close>, the schema settings \<open>sc\<close>, its arguments
  and the database state, and returns what the Go method returns (a pointer or an error, or a slice
  together with an error) and the next state.
\<close>

datatype model_error = ErrNotFound | ErrDuplicate | ErrSql sql_error

text \<open>A scan of one row that maps \<open>sql.ErrNoRows\<close> to \<open>ErrNotFound\<close>.\<close>

definition find_one ::
  "'d sql_db \<Rightarrow> string \<Rightarrow> sqlval list \<Rightarrow> dest list \<Rightarrow> (gval list \<Rightarrow> 'a) \<Rightarrow> 'd \<Rightarrow> (model_error + 'a) \<times> 'd" where
  "find_one D q args ds f d =
     (case query_row D q args ds d of
        (Inl e, d') \<Rightarrow> (Inl (if e = ErrNoRows then ErrNotFound else ErrSql e), d')
      | (Inr g, d') \<Rightarrow> (Inr (f g), d'))"

abbreviation limit_or :: "int \<Rightarrow> int \<Rightarrow> int" where
  "limit_or limit dflt \<equiv> (if limit \<le> 0 then dflt else limit)"

section \<open>Users\<close>

record User =
  us_UID :: int
  us_LoginName :: string
  us_NickName :: string
  us_Phone :: string
  us_CountryCode :: string
  us_Password :: string
  us_Salt :: string
  us_PwdType :: int
  us_UserType :: int
  us_Score :: int
  us_Grow :: int
  us_Status :: int
  us_Icon :: string
  us_Gender :: int
  us_Birthday :: "gotime option"
  us_Plat :: int
  us_CreatedAt :: int
  us_UpdatedAt :: int

definition userCols :: "string" where
  "userCols =
    concat [
      ''uid, login_name, nick_name, phone, country_code, password, salt, pwd_type, user_type, score, grow, status, icon, gender, birthday, plat, created_at, updated_at'']"

definition q_user_insert :: "Schema \<Rightarrow> string" where
  "q_user_insert sc =
    concat [''INSERT INTO '', Tbl sc ''user'', nl,
      ''                (uid, login_name, nick_name, phone, country_code, password, salt, pwd_type, user_type, score, grow, status, icon, gender, birthday, plat, created_at, updated_at)'',
      nl,
      ''                VALUES (?,?,?,?,?,?,?,?,?,?,?,?,?,?,?,?,?,?)'']"

definition q_user_by_uid :: "Schema \<Rightarrow> string" where
  "q_user_by_uid sc =
    concat [''SELECT '', userCols, '' FROM '', Tbl sc ''user'', '' WHERE uid=?'']"

definition q_user_by_phone :: "Schema \<Rightarrow> string" where
  "q_user_by_phone sc =
    concat [''SELECT '', userCols, '' FROM '', Tbl sc ''user'',
      '' WHERE country_code=? AND phone=?'']"

definition q_user_by_login :: "Schema \<Rightarrow> string" where
  "q_user_by_login sc =
    concat [''SELECT '', userCols, '' FROM '', Tbl sc ''user'', '' WHERE login_name=?'']"

definition q_next_uid :: "Schema \<Rightarrow> string" where
  "q_next_uid sc =
    concat [''SELECT COALESCE(MAX(uid), 1000) FROM '', Tbl sc ''user'']"

definition q_max_uid :: "Schema \<Rightarrow> string" where
  "q_max_uid sc =
    concat [''SELECT MAX(uid) FROM '', Tbl sc ''user'']"

definition q_user_grow :: "Schema \<Rightarrow> string" where
  "q_user_grow sc =
    concat [nl,
      ''                SELECT g.id, g.name, g.min_grow, g.sort, g.status,'', nl,
      ''                       COALESCE((SELECT MIN(g2.min_grow) FROM '', Tbl sc ''user_grow'',
      '' g2 WHERE g2.min_grow > g.min_grow AND g2.status=1), 0)'', nl,
      ''                FROM '', Tbl sc ''user_grow'', '' g'', nl,
      ''                WHERE g.status=1 AND g.min_grow <= ?'', nl,
      ''                ORDER BY g.min_grow DESC LIMIT 1'']"

fun indexOf_from :: "nat \<Rightarrow> string \<Rightarrow> string \<Rightarrow> int" where
  "indexOf_from i s sub =
     (if length sub \<le> length s then
        (if take (length sub) s = sub then int i
         else (case s of [] \<Rightarrow> - 1 | _ # s' \<Rightarrow> indexOf_from (Suc i) s' sub))
      else - 1)"

declare indexOf_from.simps [simp del]

definition indexOf :: "string \<Rightarrow> string \<Rightarrow> int" where
  "indexOf s sub = indexOf_from 0 s sub"

definition model_contains :: "string \<Rightarrow> string \<Rightarrow> bool" where
  "model_contains s sub \<longleftrightarrow> length sub \<le> length s \<and> 0 \<le> indexOf s sub"

text \<open>\<open>isDup\<close> looks at the text of the error; only a driver's error can hold the two phrases.\<close>

definition isDup :: "sql_error \<Rightarrow> bool" where
  "isDup e = (case e of
       ErrDriver s \<Rightarrow> model_contains s ''Duplicate entry'' \<or> model_contains s ''UNIQUE constraint failed''
     | _ \<Rightarrow> False)"

text \<open>\<open>Insert\<close> also stamps the two times of the caller's struct, which is returned.  \<open>now\<close> is
  \<open>time.Now().Unix()\<close>.\<close>

definition user_args :: "User \<Rightarrow> sqlval list" where
  "user_args u =
     [VInt (us_UID u), VText (us_LoginName u), VText (us_NickName u), VText (us_Phone u), VText (us_CountryCode u), VText (us_Password u),
      VText (us_Salt u), VInt (us_PwdType u), VInt (us_UserType u), VInt (us_Score u), VInt (us_Grow u), VInt (us_Status u), VText (us_Icon u),
      VInt (us_Gender u), (case us_Birthday u of Some t \<Rightarrow> VTime t | None \<Rightarrow> VNull), VInt (us_Plat u), VInt (us_CreatedAt u),
      VInt (us_UpdatedAt u)]"

definition user_Insert :: "'d sql_db \<Rightarrow> Schema \<Rightarrow> int \<Rightarrow> User \<Rightarrow> 'd \<Rightarrow> (model_error option \<times> User) \<times> 'd" where
  "user_Insert D sc now u0 d =
     (let u1 = (if us_CreatedAt u0 = 0 then u0\<lparr>us_CreatedAt := now\<rparr> else u0);
          u = u1\<lparr>us_UpdatedAt := now\<rparr>
      in case ExecContext D (q_user_insert sc) (user_args u) d of
           (None, d') \<Rightarrow> ((None, u), d')
         | (Some e, d') \<Rightarrow> ((Some (if isDup e then ErrDuplicate else ErrSql e), u), d'))"

definition user_dests :: "dest list" where
  "user_dests = [DInt 64, DStr, DStr, DStr, DStr, DStr, DStr, DInt 32, DInt 32, DInt 64, DInt 64, DInt 32, DStr, DInt 32,
     DNullTime, DInt 32, DInt 64, DInt 64]"

definition scanUser :: "gval list \<Rightarrow> User" where
  "scanUser g =
     \<lparr>us_UID = g_int g 0, us_LoginName = g_str g 1, us_NickName = g_str g 2, us_Phone = g_str g 3, us_CountryCode = g_str g 4,
      us_Password = g_str g 5, us_Salt = g_str g 6, us_PwdType = g_int g 7, us_UserType = g_int g 8, us_Score = g_int g 9,
      us_Grow = g_int g 10, us_Status = g_int g 11, us_Icon = g_str g 12, us_Gender = g_int g 13, us_Birthday = g_time g 14,
      us_Plat = g_int g 15, us_CreatedAt = g_int g 16, us_UpdatedAt = g_int g 17\<rparr>"

definition user_FindByUid :: "'d sql_db \<Rightarrow> Schema \<Rightarrow> int \<Rightarrow> 'd \<Rightarrow> (model_error + User) \<times> 'd" where
  "user_FindByUid D sc uid = find_one D (q_user_by_uid sc) [VInt uid] user_dests scanUser"

definition user_FindByPhone :: "'d sql_db \<Rightarrow> Schema \<Rightarrow> string \<Rightarrow> string \<Rightarrow> 'd \<Rightarrow> (model_error + User) \<times> 'd" where
  "user_FindByPhone D sc cc phone = find_one D (q_user_by_phone sc) [VText cc, VText phone] user_dests scanUser"

definition user_FindByLoginName :: "'d sql_db \<Rightarrow> Schema \<Rightarrow> string \<Rightarrow> 'd \<Rightarrow> (model_error + User) \<times> 'd" where
  "user_FindByLoginName D sc loginName = find_one D (q_user_by_login sc) [VText loginName] user_dests scanUser"

text \<open>\<open>NextUID\<close> ignores the scan error, which leaves \<open>maxUID\<close> at zero.\<close>

definition NextUID :: "'d sql_db \<Rightarrow> Schema \<Rightarrow> 'd \<Rightarrow> int \<times> 'd" where
  "NextUID D sc d =
     (let (r, d') = query_row D (q_next_uid sc) [] [DInt 64] d;
          maxUID = (case r of Inr g \<Rightarrow> g_int g 0 | Inl _ \<Rightarrow> 0)
      in (if maxUID < 5000 then 5001 else wrap64 (maxUID + 1), d'))"

definition max_of :: "'d sql_db \<Rightarrow> string \<Rightarrow> 'd \<Rightarrow> (sql_error + int) \<times> 'd" where
  "max_of D q d =
     (case query_row D q [] [DNullInt] d of
        (Inl e, d') \<Rightarrow> (if e = ErrNoRows then Inr 0 else Inl e, d')
      | (Inr g, d') \<Rightarrow> (Inr (g_int g 0), d'))"

definition MaxUID :: "'d sql_db \<Rightarrow> Schema \<Rightarrow> 'd \<Rightarrow> (sql_error + int) \<times> 'd" where
  "MaxUID D sc = max_of D (q_max_uid sc)"

definition user_DebugString :: "User \<Rightarrow> string" where
  "user_DebugString u =
     ''uid='' @ itoa (us_UID u) @ '' nick='' @ us_NickName u @ '' type='' @ itoa (us_UserType u) @ '' status='' @ itoa (us_Status u)"

record UserGrow =
  ug_ID :: int
  ug_Name :: string
  ug_MinGrow :: int
  ug_Sort :: int
  ug_Status :: int
  ug_NextMinGrow :: int

definition FindUserGrowForValue :: "'d sql_db \<Rightarrow> Schema \<Rightarrow> int \<Rightarrow> 'd \<Rightarrow> (sql_error + UserGrow) \<times> 'd" where
  "FindUserGrowForValue D sc value d =
     (case query_row D (q_user_grow sc) [VInt value] [DInt 64, DStr, DInt 64, DInt 32, DInt 32, DInt 64] d of
        (Inl e, d') \<Rightarrow>
          (if e = ErrNoRows
           then Inr \<lparr>ug_ID = 0, ug_Name = ''LV.1'', ug_MinGrow = 0, ug_Sort = 0, ug_Status = 0, ug_NextMinGrow = 100\<rparr>
           else Inl e, d')
      | (Inr g, d') \<Rightarrow>
          (Inr \<lparr>ug_ID = g_int g 0, ug_Name = g_str g 1, ug_MinGrow = g_int g 2, ug_Sort = g_int g 3, ug_Status = g_int g 4,
                ug_NextMinGrow = g_int g 5\<rparr>, d'))"

section \<open>Live rooms\<close>

record LiveRoom =
  lr_UID :: int
  lr_RoomNum :: string
  lr_Title :: string
  lr_Contact :: string
  lr_Cover :: string
  lr_CustomCover :: string
  lr_Notice :: string
  lr_Detail :: string
  lr_LiveFLV :: string
  lr_LiveM3U8 :: string
  lr_LiveStatus :: int
  lr_RoomStatus :: int
  lr_LiveType :: int
  lr_LiveTypeParent :: int
  lr_FocusCount :: int
  lr_FictitiousFocusCount :: int
  lr_VisitCount :: int
  lr_FictitiousVisitCount :: int
  lr_MarkType :: int
  lr_AssistantUID :: int
  lr_HD :: int
  lr_StreamType :: int
  lr_PushContent :: string
  lr_AnchorNickName :: string
  lr_AnchorIcon :: string
  lr_AssistantNickName :: string
  lr_AssistantIcon :: string

definition liveRoomCols :: "string" where
  "liveRoomCols =
    concat [
      ''r.uid, r.room_num, r.title, r.contact, r.cover, r.custom_cover, r.notice, r.detail,'', nl,
      ''        r.live_flv, r.live_m3u8, r.live_status, r.room_status, r.live_type, r.live_type_parent,'',
      nl,
      ''        r.focus_count, r.fictitious_focus_count, r.visit_count, r.fictitious_visit_count,'',
      nl,
      ''        r.mark_type, r.assistant_uid, r.hd, r.stream_type, r.push_content'']"

definition q_room_by_num :: "Schema \<Rightarrow> string" where
  "q_room_by_num sc =
    concat [nl,
      ''                SELECT '', liveRoomCols, '','', nl,
      ''                       u.nick_name, u.icon,'', nl,
      ''                       u2.nick_name, u2.icon'', nl,
      ''                FROM '', Tbl sc ''live_room'', '' r'', nl,
      ''                LEFT JOIN '', Tbl sc ''user'', '' u  ON u.uid  = r.uid'', nl,
      ''                LEFT JOIN '', Tbl sc ''user'', '' u2 ON u2.uid = r.assistant_uid'', nl,
      ''                WHERE r.room_num=?'']"

definition q_rooms_hot :: "Schema \<Rightarrow> string" where
  "q_rooms_hot sc =
    concat [nl,
      ''                SELECT '', liveRoomCols, '','', nl,
      ''                       u.nick_name, u.icon,'', nl,
      ''                       u2.nick_name, u2.icon'', nl,
      ''                FROM '', Tbl sc ''live_room'', '' r'', nl,
      ''                LEFT JOIN '', Tbl sc ''user'', '' u  ON u.uid  = r.uid'', nl,
      ''                LEFT JOIN '', Tbl sc ''user'', '' u2 ON u2.uid = r.assistant_uid'', nl,
      ''                WHERE r.live_status=1 AND r.room_status=1'', nl,
      ''                ORDER BY r.mark_type DESC, (r.visit_count + r.fictitious_visit_count) DESC, r.uid ASC'',
      nl,
      ''                LIMIT ?'']"

definition q_rooms_by_type :: "Schema \<Rightarrow> string" where
  "q_rooms_by_type sc =
    concat [nl,
      ''                SELECT '', liveRoomCols, '','', nl,
      ''                       u.nick_name, u.icon,'', nl,
      ''                       u2.nick_name, u2.icon'', nl,
      ''                FROM '', Tbl sc ''live_room'', '' r'', nl,
      ''                LEFT JOIN '', Tbl sc ''user'', '' u  ON u.uid  = r.uid'', nl,
      ''                LEFT JOIN '', Tbl sc ''user'', '' u2 ON u2.uid = r.assistant_uid'', nl,
      ''                WHERE r.room_status=1 AND r.live_type_parent=?'', nl,
      ''                ORDER BY r.mark_type DESC, (r.visit_count + r.fictitious_visit_count) DESC, r.uid ASC'',
      nl,
      ''                LIMIT ?'']"

definition q_rooms_visible :: "Schema \<Rightarrow> string" where
  "q_rooms_visible sc =
    concat [nl,
      ''                SELECT '', liveRoomCols, '','', nl,
      ''                       u.nick_name, u.icon,'', nl,
      ''                       u2.nick_name, u2.icon'', nl,
      ''                FROM '', Tbl sc ''live_room'', '' r'', nl,
      ''                LEFT JOIN '', Tbl sc ''user'', '' u  ON u.uid  = r.uid'', nl,
      ''                LEFT JOIN '', Tbl sc ''user'', '' u2 ON u2.uid = r.assistant_uid'', nl,
      ''                WHERE r.room_status=1'', nl,
      ''                ORDER BY r.mark_type DESC, (r.visit_count + r.fictitious_visit_count) DESC, r.uid ASC'',
      nl,
      ''                LIMIT ?'']"

definition q_bump_visit :: "Schema \<Rightarrow> string" where
  "q_bump_visit sc =
    concat [''UPDATE '', Tbl sc ''live_room'',
      '' SET visit_count = visit_count + ?, updated_at = strftime('', replicate 1 (CHR 0x27),
      ''%s'', replicate 1 (CHR 0x27), '','', replicate 1 (CHR 0x27), ''now'',
      replicate 1 (CHR 0x27), '') WHERE room_num=?'']"

definition live_room_dests :: "dest list" where
  "live_room_dests =
     [DInt 64, DStr, DStr, DStr, DStr, DStr, DStr, DStr, DStr, DStr, DInt 64, DInt 64, DInt 64, DInt 64, DInt 64, DInt 64,
      DInt 64, DInt 64, DInt 64, DInt 64, DInt 64, DInt 64, DStr, DNullStr, DNullStr, DNullStr, DNullStr]"

definition scanLiveRoom :: "gval list \<Rightarrow> LiveRoom" where
  "scanLiveRoom g =
     \<lparr>lr_UID = g_int g 0, lr_RoomNum = g_str g 1, lr_Title = g_str g 2, lr_Contact = g_str g 3, lr_Cover = g_str g 4,
      lr_CustomCover = g_str g 5, lr_Notice = g_str g 6, lr_Detail = g_str g 7, lr_LiveFLV = g_str g 8,
      lr_LiveM3U8 = g_str g 9, lr_LiveStatus = g_int g 10, lr_RoomStatus = g_int g 11, lr_LiveType = g_int g 12,
      lr_LiveTypeParent = g_int g 13, lr_FocusCount = g_int g 14, lr_FictitiousFocusCount = g_int g 15,
      lr_VisitCount = g_int g 16, lr_FictitiousVisitCount = g_int g 17, lr_MarkType = g_int g 18,
      lr_AssistantUID = g_int g 19, lr_HD = g_int g 20, lr_StreamType = g_int g 21, lr_PushContent = g_str g 22,
      lr_AnchorNickName = g_str g 23, lr_AnchorIcon = g_str g 24, lr_AssistantNickName = g_str g 25,
      lr_AssistantIcon = g_str g 26\<rparr>"

definition scanLiveRooms ::
  "'d sql_db \<Rightarrow> string \<Rightarrow> sqlval list \<Rightarrow> 'd \<Rightarrow> (LiveRoom list \<times> sql_error option) \<times> 'd" where
  "scanLiveRooms D q args = query_list D q args live_room_dests scanLiveRoom"

definition room_FindByRoomNum :: "'d sql_db \<Rightarrow> Schema \<Rightarrow> string \<Rightarrow> 'd \<Rightarrow> (model_error + LiveRoom) \<times> 'd" where
  "room_FindByRoomNum D sc roomNum = find_one D (q_room_by_num sc) [VText roomNum] live_room_dests scanLiveRoom"

definition ListHot :: "'d sql_db \<Rightarrow> Schema \<Rightarrow> int \<Rightarrow> 'd \<Rightarrow> (LiveRoom list \<times> sql_error option) \<times> 'd" where
  "ListHot D sc limit = scanLiveRooms D (q_rooms_hot sc) [VInt (limit_or limit 50)]"

definition ListByType :: "'d sql_db \<Rightarrow> Schema \<Rightarrow> int \<Rightarrow> int \<Rightarrow> 'd \<Rightarrow> (LiveRoom list \<times> sql_error option) \<times> 'd" where
  "ListByType D sc parentID limit = scanLiveRooms D (q_rooms_by_type sc) [VInt parentID, VInt (limit_or limit 50)]"

definition ListAllVisible :: "'d sql_db \<Rightarrow> Schema \<Rightarrow> int \<Rightarrow> 'd \<Rightarrow> (LiveRoom list \<times> sql_error option) \<times> 'd" where
  "ListAllVisible D sc limit = scanLiveRooms D (q_rooms_visible sc) [VInt (limit_or limit 200)]"

definition BumpVisitCount :: "'d sql_db \<Rightarrow> Schema \<Rightarrow> string \<Rightarrow> int \<Rightarrow> 'd \<Rightarrow> sql_error option \<times> 'd" where
  "BumpVisitCount D sc roomNum delta = ExecContext D (q_bump_visit sc) [VInt delta, VText roomNum]"

definition room_DebugString :: "LiveRoom \<Rightarrow> string" where
  "room_DebugString r =
     ''room='' @ lr_RoomNum r @ '' title='' @ lr_Title r @ '' live='' @ itoa (lr_LiveStatus r) @ '' parent='' @ itoa (lr_LiveTypeParent r)"

section \<open>Matches\<close>

record MatchSchedule =
  ms_ScheduleID :: int
  ms_HostName :: string
  ms_GuestName :: string
  ms_HostScore :: "int option"
  ms_GuestScore :: "int option"
  ms_MatchTime :: "gotime option"
  ms_LiveType :: "int option"
  ms_LiveTypeParent :: "int option"
  ms_HostIcon :: string
  ms_GuestIcon :: string
  ms_SubCateName :: string
  ms_MatchStatus :: "int option"
  ms_Status :: int
  ms_Hot :: int
  ms_GreenMatch :: int

record MatchCatalogRow =
  mr_ScheduleID :: int
  mr_MatchTime :: string
  mr_HostName :: string
  mr_GuestName :: string
  mr_HostScore :: int
  mr_GuestScore :: int
  mr_MatchStatus :: int
  mr_HostIcon :: string
  mr_GuestIcon :: string
  mr_SubCateName :: string
  mr_LiveType :: int
  mr_LiveTypeParent :: int
  mr_CategoryIcon :: string
  mr_CategoryName :: string
  mr_AnchorUID :: int
  mr_AnchorNickName :: string
  mr_AnchorIcon :: string
  mr_RoomNum :: string
  mr_RoomDetail :: string
  mr_RoomNotice :: string

fun ph_loop :: "nat \<Rightarrow> string" where
  "ph_loop 0 = []"
| "ph_loop (Suc n) = ''?'' @ (if n = 0 then [] else '','' @ ph_loop n)"

definition placeholders :: "nat \<Rightarrow> string" where
  "placeholders n = ph_loop n"

definition q_list_catalog :: "Schema \<Rightarrow> int list \<Rightarrow> string" where
  "q_list_catalog sc parents =
    concat [''SELECT ms.schedule_id, ms.match_time, ms.host_name, ms.guest_name,'', nl,
      ''                       COALESCE(ms.host_score, 0), COALESCE(ms.guest_score, 0),'', nl,
      ''                       COALESCE(ms.match_status, 0), ms.host_icon, ms.guest_icon,'', nl,
      ''                       ms.sub_type_name, COALESCE(ms.live_type, 0), COALESCE(ms.live_type_parent, 0),'',
      nl,
      ''                       COALESCE(lt.icon, '', replicate 2 (CHR 0x27),
      ''), COALESCE(lt.type_name, '', replicate 2 (CHR 0x27), ''),'', nl,
      ''                       u.uid, u.nick_name, u.icon,'', nl,
      ''                       r.room_num, r.detail, r.notice'', nl,
      ''                FROM '', Tbl sc ''match_schedule'', '' ms'', nl,
      ''                INNER JOIN '', Tbl sc ''match_schedule_room'',
      '' msr ON msr.schedule_id = ms.schedule_id AND msr.status = 1'', nl,
      ''                LEFT JOIN '', Tbl sc ''live_room'',
      '' r ON r.room_num = msr.room_num AND r.room_status = 1'', nl,
      ''                LEFT JOIN '', Tbl sc ''user'', '' u ON u.uid = r.uid'', nl,
      ''                LEFT JOIN '', Tbl sc ''live_type'',
      '' lt ON lt.live_type_id = ms.live_type_parent'', nl,
      ''                WHERE ms.status = 1 AND ms.live_type_parent IN ('',
      placeholders (length parents), '')'', nl,
      ''                ORDER BY ms.match_time ASC LIMIT ?'']"

definition q_list_by_date :: "Schema \<Rightarrow> string" where
  "q_list_by_date sc =
    concat [nl,
      ''                SELECT ms.schedule_id, ms.match_time, ms.host_name, ms.guest_name,'', nl,
      ''                       COALESCE(ms.host_score, 0), COALESCE(ms.guest_score, 0),'', nl,
      ''                       COALESCE(ms.match_status, 0), ms.host_icon, ms.guest_icon,'', nl,
      ''                       ms.sub_type_name, COALESCE(ms.live_type, 0), COALESCE(ms.live_type_parent, 0),'',
      nl,
      ''                       COALESCE(lt.icon, '', replicate 2 (CHR 0x27),
      ''), COALESCE(lt.type_name, '', replicate 2 (CHR 0x27), ''),'', nl,
      ''                       u.uid, u.nick_name, u.icon,'', nl,
      ''                       r.room_num, r.detail, r.notice'', nl,
      ''                FROM '', Tbl sc ''match_schedule'', '' ms'', nl,
      ''                INNER JOIN '', Tbl sc ''match_schedule_room'',
      '' msr ON msr.schedule_id = ms.schedule_id AND msr.status = 1'', nl,
      ''                LEFT JOIN '', Tbl sc ''live_room'',
      '' r ON r.room_num = msr.room_num AND r.room_status = 1'', nl,
      ''                LEFT JOIN '', Tbl sc ''user'', '' u ON u.uid = r.uid'', nl,
      ''                LEFT JOIN '', Tbl sc ''live_type'',
      '' lt ON lt.live_type_id = ms.live_type_parent'', nl,
      ''                WHERE ms.status = 1 AND ms.match_time >= ? AND ms.match_time <= ?'', nl,
      ''                ORDER BY ms.match_time ASC LIMIT ?'']"

definition q_list_recommend :: "Schema \<Rightarrow> string" where
  "q_list_recommend sc =
    concat [nl,
      ''                SELECT ms.schedule_id, ms.match_time, ms.host_name, ms.guest_name,'', nl,
      ''                       COALESCE(ms.host_score, 0), COALESCE(ms.guest_score, 0),'', nl,
      ''                       COALESCE(ms.match_status, 0), ms.host_icon, ms.guest_icon,'', nl,
      ''                       ms.sub_type_name, COALESCE(ms.live_type, 0), COALESCE(ms.live_type_parent, 0),'',
      nl,
      ''                       COALESCE(lt.icon, '', replicate 2 (CHR 0x27),
      ''), COALESCE(lt.type_name, '', replicate 2 (CHR 0x27), ''),'', nl,
      ''                       u.uid, u.nick_name, u.icon,'', nl,
      ''                       r.room_num, r.detail, r.notice'', nl,
      ''                FROM '', Tbl sc ''match_schedule'', '' ms'', nl,
      ''                INNER JOIN '', Tbl sc ''match_schedule_room'',
      '' msr ON msr.schedule_id = ms.schedule_id AND msr.status = 1'', nl,
      ''                LEFT JOIN '', Tbl sc ''live_room'',
      '' r ON r.room_num = msr.room_num AND r.room_status = 1'', nl,
      ''                LEFT JOIN '', Tbl sc ''user'', '' u ON u.uid = r.uid'', nl,
      ''                LEFT JOIN '', Tbl sc ''live_type'',
      '' lt ON lt.live_type_id = ms.live_type_parent'', nl,
      ''                WHERE ms.status = 1'', nl,
      ''                ORDER BY ms.hot DESC, ms.match_time ASC LIMIT ?'']"

definition q_list_by_room :: "Schema \<Rightarrow> string" where
  "q_list_by_room sc =
    concat [nl,
      ''                SELECT ms.schedule_id, ms.match_time, ms.host_name, ms.guest_name,'', nl,
      ''                       COALESCE(ms.host_score, 0), COALESCE(ms.guest_score, 0),'', nl,
      ''                       COALESCE(ms.match_status, 0), ms.host_icon, ms.guest_icon,'', nl,
      ''                       ms.sub_type_name, COALESCE(ms.live_type, 0), COALESCE(ms.live_type_parent, 0),'',
      nl,
      ''                       COALESCE(lt.icon, '', replicate 2 (CHR 0x27),
      ''), COALESCE(lt.type_name, '', replicate 2 (CHR 0x27), ''),'', nl,
      ''                       u.uid, u.nick_name, u.icon,'', nl,
      ''                       r.room_num, r.detail, r.notice'', nl,
      ''                FROM '', Tbl sc ''match_schedule'', '' ms'', nl,
      ''                INNER JOIN '', Tbl sc ''match_schedule_room'',
      '' msr ON msr.schedule_id = ms.schedule_id AND msr.status = 1 AND msr.room_num = ?'', nl,
      ''                LEFT JOIN '', Tbl sc ''live_room'',
      '' r ON r.room_num = msr.room_num AND r.room_status = 1'', nl,
      ''                LEFT JOIN '', Tbl sc ''user'', '' u ON u.uid = r.uid'', nl,
      ''                LEFT JOIN '', Tbl sc ''live_type'',
      '' lt ON lt.live_type_id = ms.live_type_parent'', nl,
      ''                WHERE ms.status = 1'', nl,
      ''                ORDER BY ms.match_time ASC LIMIT ?'']"

definition q_rooms_by_schedule :: "Schema \<Rightarrow> string" where
  "q_rooms_by_schedule sc =
    concat [nl,
      ''                SELECT '', liveRoomCols, '','', nl,
      ''                       u.nick_name, u.icon,'', nl,
      ''                       u2.nick_name, u2.icon'', nl,
      ''                FROM '', Tbl sc ''match_schedule_room'', '' msr'', nl,
      ''                INNER JOIN '', Tbl sc ''live_room'',
      '' r ON r.room_num = msr.room_num AND r.room_status = 1'', nl,
      ''                LEFT JOIN '', Tbl sc ''user'', '' u  ON u.uid  = r.uid'', nl,
      ''                LEFT JOIN '', Tbl sc ''user'', '' u2 ON u2.uid = r.assistant_uid'', nl,
      ''                WHERE msr.schedule_id = ? AND msr.status = 1'', nl,
      ''                ORDER BY r.mark_type DESC, (r.visit_count + r.fictitious_visit_count) DESC, r.uid ASC'',
      nl,
      ''                LIMIT ?'']"

definition catalog_dests :: "dest list" where
  "catalog_dests =
     [DInt 64, DStr, DStr, DStr, DInt 64, DInt 64, DInt 64, DStr, DStr, DStr, DInt 64, DInt 64, DStr, DStr, DNullInt, DNullStr,
      DNullStr, DNullStr, DNullStr, DNullStr]"

definition scanCatalogRow :: "gval list \<Rightarrow> MatchCatalogRow" where
  "scanCatalogRow g =
     \<lparr>mr_ScheduleID = g_int g 0, mr_MatchTime = g_str g 1, mr_HostName = g_str g 2, mr_GuestName = g_str g 3,
      mr_HostScore = g_int g 4, mr_GuestScore = g_int g 5, mr_MatchStatus = g_int g 6, mr_HostIcon = g_str g 7,
      mr_GuestIcon = g_str g 8, mr_SubCateName = g_str g 9, mr_LiveType = g_int g 10, mr_LiveTypeParent = g_int g 11,
      mr_CategoryIcon = g_str g 12, mr_CategoryName = g_str g 13, mr_AnchorUID = g_int g 14, mr_AnchorNickName = g_str g 15,
      mr_AnchorIcon = g_str g 16, mr_RoomNum = g_str g 17, mr_RoomDetail = g_str g 18, mr_RoomNotice = g_str g 19\<rparr>"

definition scanCatalogRows ::
  "'d sql_db \<Rightarrow> string \<Rightarrow> sqlval list \<Rightarrow> 'd \<Rightarrow> (MatchCatalogRow list \<times> sql_error option) \<times> 'd" where
  "scanCatalogRows D q args = query_list D q args catalog_dests scanCatalogRow"

definition ListCatalog ::
  "'d sql_db \<Rightarrow> Schema \<Rightarrow> int list \<Rightarrow> int \<Rightarrow> 'd \<Rightarrow> (MatchCatalogRow list \<times> sql_error option) \<times> 'd" where
  "ListCatalog D sc parents limit0 d =
     (let limit = limit_or limit0 100 in
      if length parents = 0 then (([], None), d)
      else scanCatalogRows D (q_list_catalog sc parents) (map VInt parents @ [VInt limit]) d)"

definition ListByDate ::
  "'d sql_db \<Rightarrow> Schema \<Rightarrow> string \<Rightarrow> int \<Rightarrow> 'd \<Rightarrow> (MatchCatalogRow list \<times> sql_error option) \<times> 'd" where
  "ListByDate D sc dateStr limit0 d =
     (let limit = limit_or limit0 100;
          normalized = (if length dateStr = 8
                        then take 4 dateStr @ ''-'' @ take 2 (drop 4 dateStr) @ ''-'' @ take 2 (drop 6 dateStr)
                        else dateStr)
      in scanCatalogRows D (q_list_by_date sc)
           [VText (normalized @ '' 00:00:00''), VText (normalized @ '' 23:59:59''), VInt limit] d)"

definition ListRecommend :: "'d sql_db \<Rightarrow> Schema \<Rightarrow> int \<Rightarrow> 'd \<Rightarrow> (MatchCatalogRow list \<times> sql_error option) \<times> 'd" where
  "ListRecommend D sc limit = scanCatalogRows D (q_list_recommend sc) [VInt (limit_or limit 8)]"

definition ListByRoom ::
  "'d sql_db \<Rightarrow> Schema \<Rightarrow> string \<Rightarrow> int \<Rightarrow> 'd \<Rightarrow> (MatchCatalogRow list \<times> sql_error option) \<times> 'd" where
  "ListByRoom D sc roomNum limit = scanCatalogRows D (q_list_by_room sc) [VText roomNum, VInt (limit_or limit 50)]"

definition ListRoomsBySchedule ::
  "'d sql_db \<Rightarrow> Schema \<Rightarrow> int \<Rightarrow> int \<Rightarrow> 'd \<Rightarrow> (LiveRoom list \<times> sql_error option) \<times> 'd" where
  "ListRoomsBySchedule D sc scheduleID limit =
     scanLiveRooms D (q_rooms_by_schedule sc) [VInt scheduleID, VInt (limit_or limit 50)]"

text \<open>The layouts are tried in order; \<open>loc\<close> is the local time zone.\<close>

definition MatchTimeToMS :: "(int \<Rightarrow> int) \<Rightarrow> string \<Rightarrow> int" where
  "MatchTimeToMS loc s =
     (if s = [] then 0
      else (case List.map_filter (\<lambda>l. parse_layout loc l s) [DateTime, DateTimeT, RFC3339, DateOnly] of
              [] \<Rightarrow> 0
            | t # _ \<Rightarrow> t))"

definition FormatDateKey :: "int \<Rightarrow> string" where
  "FormatDateKey t = format_date t"

definition match_DebugString :: "MatchSchedule \<Rightarrow> string" where
  "match_DebugString ms =
     ''schedule='' @ itoa (ms_ScheduleID ms) @ '' '' @ ms_HostName ms @ '' vs '' @ ms_GuestName ms @ '' parent='' @
     itoa (case ms_LiveTypeParent ms of Some n \<Rightarrow> n | None \<Rightarrow> 0)"

section \<open>Anchors\<close>

record Anchor =
  an_UID :: int
  an_NickName :: string
  an_Icon :: string
  an_CutOutIcon :: string
  an_Intro :: string
  an_Fans :: int
  an_Follow :: int
  an_Hot :: int
  an_RoomNum :: string
  an_Detail :: string
  an_Notice :: string
  an_Live :: bool
  an_CreatedAt :: int

definition anchorCols :: "string" where
  "anchorCols =
    concat [
      ''uid, nick_name, icon, cut_out_icon, intro, fans, follow, hot, room_num, detail, notice, live, created_at'']"

definition q_anchors_all :: "Schema \<Rightarrow> string" where
  "q_anchors_all sc =
    concat [''SELECT '', anchorCols, '' FROM '', Tbl sc ''anchors'', '' ORDER BY hot DESC'']"

definition q_anchors_hot :: "Schema \<Rightarrow> string" where
  "q_anchors_hot sc =
    concat [''SELECT '', anchorCols, '' FROM '', Tbl sc ''anchors'', '' ORDER BY hot DESC LIMIT ?'']"

definition q_anchor_by_uid :: "Schema \<Rightarrow> string" where
  "q_anchor_by_uid sc =
    concat [''SELECT '', anchorCols, '' FROM '', Tbl sc ''anchors'', '' WHERE uid=?'']"

definition q_anchor_by_room :: "Schema \<Rightarrow> string" where
  "q_anchor_by_room sc =
    concat [''SELECT '', anchorCols, '' FROM '', Tbl sc ''anchors'', '' WHERE room_num=?'']"

definition anchor_dests :: "dest list" where
  "anchor_dests = [DInt 64, DStr, DStr, DStr, DStr, DInt 64, DInt 64, DInt 64, DStr, DStr, DStr, DInt 32, DInt 64]"

definition scanAnchor :: "gval list \<Rightarrow> Anchor" where
  "scanAnchor g =
     \<lparr>an_UID = g_int g 0, an_NickName = g_str g 1, an_Icon = g_str g 2, an_CutOutIcon = g_str g 3, an_Intro = g_str g 4,
      an_Fans = g_int g 5, an_Follow = g_int g 6, an_Hot = g_int g 7, an_RoomNum = g_str g 8, an_Detail = g_str g 9,
      an_Notice = g_str g 10, an_Live = (g_int g 11 \<noteq> 0), an_CreatedAt = g_int g 12\<rparr>"

definition scanAnchors :: "'d sql_db \<Rightarrow> string \<Rightarrow> sqlval list \<Rightarrow> 'd \<Rightarrow> (Anchor list \<times> sql_error option) \<times> 'd" where
  "scanAnchors D q args = query_list D q args anchor_dests scanAnchor"

definition anchor_ListAll :: "'d sql_db \<Rightarrow> Schema \<Rightarrow> 'd \<Rightarrow> (Anchor list \<times> sql_error option) \<times> 'd" where
  "anchor_ListAll D sc = scanAnchors D (q_anchors_all sc) []"

definition anchor_ListHot :: "'d sql_db \<Rightarrow> Schema \<Rightarrow> int \<Rightarrow> 'd \<Rightarrow> (Anchor list \<times> sql_error option) \<times> 'd" where
  "anchor_ListHot D sc limit = scanAnchors D (q_anchors_hot sc) [VInt (limit_or limit 6)]"

definition anchor_FindByUid :: "'d sql_db \<Rightarrow> Schema \<Rightarrow> int \<Rightarrow> 'd \<Rightarrow> (model_error + Anchor) \<times> 'd" where
  "anchor_FindByUid D sc uid = find_one D (q_anchor_by_uid sc) [VInt uid] anchor_dests scanAnchor"

definition anchor_FindByRoomNum :: "'d sql_db \<Rightarrow> Schema \<Rightarrow> string \<Rightarrow> 'd \<Rightarrow> (model_error + Anchor) \<times> 'd" where
  "anchor_FindByRoomNum D sc roomNum = find_one D (q_anchor_by_room sc) [VText roomNum] anchor_dests scanAnchor"

definition anchor_DebugString :: "Anchor \<Rightarrow> string" where
  "anchor_DebugString a =
     ''uid='' @ itoa (an_UID a) @ '' nick='' @ an_NickName a @ '' room='' @ an_RoomNum a @ '' live='' @
     (if an_Live a then ''true'' else ''false'')"

section \<open>Legacy rooms\<close>

record Room =
  rm_RoomNum :: string
  rm_Title :: string
  rm_Cover :: string
  rm_Live :: bool
  rm_ViewNum :: int
  rm_LiveType :: string
  rm_AnchorUid :: string
  rm_StreamUrls :: "string list"
  rm_Notice :: string
  rm_Tags :: "string list"
  rm_CateName :: string
  rm_CreatedAt :: int

definition q_legacy_by_num :: "Schema \<Rightarrow> string" where
  "q_legacy_by_num sc =
    concat [
      ''SELECT room_num, title, cover, live, view_num, live_type, anchor_uid, stream_urls, notice, tags, cate_name, created_at'',
      nl,
      ''                 FROM '', Tbl sc ''rooms'', '' WHERE room_num=?'']"

definition q_legacy_live :: "Schema \<Rightarrow> string" where
  "q_legacy_live sc =
    concat [
      ''SELECT room_num, title, cover, live, view_num, live_type, anchor_uid, stream_urls, notice, tags, cate_name, created_at'',
      nl,
      ''                 FROM '', Tbl sc ''rooms'', '' WHERE live=1 ORDER BY view_num DESC'']"

definition q_legacy_all :: "Schema \<Rightarrow> string" where
  "q_legacy_all sc =
    concat [
      ''SELECT room_num, title, cover, live, view_num, live_type, anchor_uid, stream_urls, notice, tags, cate_name, created_at'',
      nl,
      ''                 FROM '', Tbl sc ''rooms'', '' ORDER BY view_num DESC'']"

definition q_room_ranks :: "Schema \<Rightarrow> string" where
  "q_room_ranks sc =
    concat [''SELECT uid, nick_name, icon, score, rank_no FROM '', Tbl sc ''room_ranks'',
      '' WHERE room_num=? ORDER BY rank_no ASC'']"

text \<open>\<open>json.Unmarshal\<close> into a \<open>[]string\<close>: a null element leaves the element empty, and the first element
  of another kind is an error.\<close>

definition dec_str_elem :: "json \<Rightarrow> string option" where
  "dec_str_elem j = (case j of JStr s \<Rightarrow> Some s | JNull \<Rightarrow> Some [] | _ \<Rightarrow> None)"

definition decodeStrArray :: "string \<Rightarrow> string list" where
  "decodeStrArray jsonStr =
     (if jsonStr = [] then []
      else (case json_parse jsonStr of
              Some (JArr xs) \<Rightarrow> (if list_all (\<lambda>x. dec_str_elem x \<noteq> None) xs then map (the \<circ> dec_str_elem) xs else [])
            | _ \<Rightarrow> []))"

definition legacy_dests :: "dest list" where
  "legacy_dests = [DStr, DStr, DStr, DInt 32, DInt 64, DStr, DStr, DStr, DStr, DStr, DStr, DInt 64]"

definition scanRoom :: "gval list \<Rightarrow> Room" where
  "scanRoom g =
     \<lparr>rm_RoomNum = g_str g 0, rm_Title = g_str g 1, rm_Cover = g_str g 2, rm_Live = (g_int g 3 \<noteq> 0), rm_ViewNum = g_int g 4,
      rm_LiveType = g_str g 5, rm_AnchorUid = g_str g 6, rm_StreamUrls = decodeStrArray (g_str g 7), rm_Notice = g_str g 8,
      rm_Tags = decodeStrArray (g_str g 9), rm_CateName = g_str g 10, rm_CreatedAt = g_int g 11\<rparr>"

definition scanRooms :: "'d sql_db \<Rightarrow> string \<Rightarrow> sqlval list \<Rightarrow> 'd \<Rightarrow> (Room list \<times> sql_error option) \<times> 'd" where
  "scanRooms D q args = query_list D q args legacy_dests scanRoom"

definition legacy_FindByRoomNum :: "'d sql_db \<Rightarrow> Schema \<Rightarrow> string \<Rightarrow> 'd \<Rightarrow> (model_error + Room) \<times> 'd" where
  "legacy_FindByRoomNum D sc roomNum = find_one D (q_legacy_by_num sc) [VText roomNum] legacy_dests scanRoom"

definition legacy_ListLive :: "'d sql_db \<Rightarrow> Schema \<Rightarrow> 'd \<Rightarrow> (Room list \<times> sql_error option) \<times> 'd" where
  "legacy_ListLive D sc = scanRooms D (q_legacy_live sc) []"

definition legacy_ListAll :: "'d sql_db \<Rightarrow> Schema \<Rightarrow> 'd \<Rightarrow> (Room list \<times> sql_error option) \<times> 'd" where
  "legacy_ListAll D sc = scanRooms D (q_legacy_all sc) []"

record RoomRank =
  rr_Uid :: string
  rr_NickName :: string
  rr_Icon :: string
  rr_Score :: int
  rr_RankNo :: int

definition ListRank :: "'d sql_db \<Rightarrow> Schema \<Rightarrow> string \<Rightarrow> 'd \<Rightarrow> (RoomRank list \<times> sql_error option) \<times> 'd" where
  "ListRank D sc roomNum =
     query_list D (q_room_ranks sc) [VText roomNum] [DStr, DStr, DStr, DInt 64, DInt 32]
       (\<lambda>g. \<lparr>rr_Uid = g_str g 0, rr_NickName = g_str g 1, rr_Icon = g_str g 2, rr_Score = g_int g 3, rr_RankNo = g_int g 4\<rparr>)"

section \<open>Chat messages\<close>

record ChatRoomMessage =
  cm_ID :: int
  cm_SendUID :: int
  cm_RoomNum :: string
  cm_SendTime :: gotime
  cm_Content :: string
  cm_Type :: int
  cm_IP :: string
  cm_Status :: int
  cm_CreatedAt :: int

definition q_chat_insert :: "Schema \<Rightarrow> string" where
  "q_chat_insert sc =
    concat [nl,
      ''                INSERT INTO '', Tbl sc ''chat_room_message'',
      '' (chat_room_message_id, send_uid, room_num, send_time, content, type, ip, status, created_at)'',
      nl,
      ''                VALUES (?,?,?,?,?,?,?,?,?)'']"

definition q_chat_recent :: "Schema \<Rightarrow> string" where
  "q_chat_recent sc =
    concat [nl,
      ''                SELECT chat_room_message_id, send_uid, room_num, send_time, content, type, ip, status, created_at'',
      nl,
      ''                FROM '', Tbl sc ''chat_room_message'', nl,
      ''                WHERE room_num=? AND COALESCE(status,1)=1 AND type IN (1,2)'', nl,
      ''                ORDER BY send_time DESC LIMIT ?'']"

definition q_chat_max :: "Schema \<Rightarrow> string" where
  "q_chat_max sc =
    concat [''SELECT MAX(chat_room_message_id) FROM '', Tbl sc ''chat_room_message'']"

text \<open>The zero \<open>time.Time\<close> is midnight of the first of January of year 1, UTC.\<close>

definition zero_instant :: int where "zero_instant = - 62135596800 * 1000000000"

text \<open>\<open>now1\<close> and \<open>now2\<close> are the two readings of the clock.\<close>

definition chat_Insert :: "'d sql_db \<Rightarrow> Schema \<Rightarrow> gotime \<Rightarrow> gotime \<Rightarrow> ChatRoomMessage \<Rightarrow> 'd \<Rightarrow> (sql_error option \<times> ChatRoomMessage) \<times> 'd" where
  "chat_Insert D sc now1 now2 m0 d =
     (let m1 = (if Instant (cm_SendTime m0) = zero_instant then m0\<lparr>cm_SendTime := now1\<rparr> else m0);
          m2 = (if cm_CreatedAt m1 = 0 then m1\<lparr>cm_CreatedAt := Instant now2 div 1000000000\<rparr> else m1);
          m = (if cm_Status m2 = 0 then m2\<lparr>cm_Status := 1\<rparr> else m2);
          (e, d') = ExecContext D (q_chat_insert sc)
                      [VInt (cm_ID m), VInt (cm_SendUID m), VText (cm_RoomNum m), VTime (cm_SendTime m), VText (cm_Content m),
                       VInt (cm_Type m), VText (cm_IP m), VInt (cm_Status m), VInt (cm_CreatedAt m)] d
      in ((e, m), d'))"

definition ListRecentByRoom ::
  "'d sql_db \<Rightarrow> Schema \<Rightarrow> string \<Rightarrow> int \<Rightarrow> 'd \<Rightarrow> (ChatRoomMessage list \<times> sql_error option) \<times> 'd" where
  "ListRecentByRoom D sc roomNum limit =
     query_list D (q_chat_recent sc) [VText roomNum, VInt (limit_or limit 50)]
       [DInt 64, DInt 64, DStr, DTime, DStr, DInt 32, DStr, DInt 32, DInt 64]
       (\<lambda>g. \<lparr>cm_ID = g_int g 0, cm_SendUID = g_int g 1, cm_RoomNum = g_str g 2, cm_SendTime = the (g_time g 3),
             cm_Content = g_str g 4, cm_Type = g_int g 5, cm_IP = g_str g 6, cm_Status = g_int g 7, cm_CreatedAt = g_int g 8\<rparr>)"

definition MaxID :: "'d sql_db \<Rightarrow> Schema \<Rightarrow> 'd \<Rightarrow> (sql_error + int) \<times> 'd" where
  "MaxID D sc = max_of D (q_chat_max sc)"

section \<open>Live types and gift ranks\<close>

record LiveType =
  lt_LiveTypeID :: int
  lt_ParentID :: int
  lt_TypeName :: string
  lt_Icon :: string
  lt_Status :: int
  lt_Sort :: int

definition q_types_top :: "Schema \<Rightarrow> string" where
  "q_types_top sc =
    concat [''SELECT live_type_id, parent_id, type_name, icon, status, sort'', nl,
      ''                 FROM '', Tbl sc ''live_type'', '' WHERE status=1 AND parent_id=0'', nl,
      ''                 ORDER BY sort DESC, live_type_id ASC'']"

definition q_type_by_id :: "Schema \<Rightarrow> string" where
  "q_type_by_id sc =
    concat [''SELECT live_type_id, parent_id, type_name, icon, status, sort'', nl,
      ''                 FROM '', Tbl sc ''live_type'', '' WHERE live_type_id=?'']"

definition q_types_by_parent :: "Schema \<Rightarrow> string" where
  "q_types_by_parent sc =
    concat [''SELECT live_type_id, parent_id, type_name, icon, status, sort'', nl,
      ''                 FROM '', Tbl sc ''live_type'', '' WHERE parent_id=? AND status=1'', nl,
      ''                 ORDER BY sort DESC, live_type_id ASC'']"

definition q_gift_ranks :: "Schema \<Rightarrow> string" where
  "q_gift_ranks sc =
    concat [''SELECT r.room_num, r.uid,'', nl,
      ''                        COALESCE(u.nick_name, r.nick_name),'', nl,
      ''                        COALESCE(u.icon, r.icon),'', nl,
      ''                        r.score, r.rank_no'', nl,
      ''                 FROM '', Tbl sc ''room_gift_rank'', '' r'', nl,
      ''                 LEFT JOIN '', Tbl sc ''user'', '' u ON u.uid = r.uid'', nl,
      ''                 WHERE r.room_num=? ORDER BY r.rank_no ASC LIMIT ?'']"

definition type_dests :: "dest list" where
  "type_dests = [DInt 64, DInt 64, DStr, DStr, DInt 32, DInt 32]"

definition scanLiveType :: "gval list \<Rightarrow> LiveType" where
  "scanLiveType g =
     \<lparr>lt_LiveTypeID = g_int g 0, lt_ParentID = g_int g 1, lt_TypeName = g_str g 2, lt_Icon = g_str g 3, lt_Status = g_int g 4,
      lt_Sort = g_int g 5\<rparr>"

definition scanLiveTypes :: "'d sql_db \<Rightarrow> string \<Rightarrow> sqlval list \<Rightarrow> 'd \<Rightarrow> (LiveType list \<times> sql_error option) \<times> 'd" where
  "scanLiveTypes D q args = query_list D q args type_dests scanLiveType"

definition ListTopLevel :: "'d sql_db \<Rightarrow> Schema \<Rightarrow> 'd \<Rightarrow> (LiveType list \<times> sql_error option) \<times> 'd" where
  "ListTopLevel D sc = scanLiveTypes D (q_types_top sc) []"

definition type_FindByID :: "'d sql_db \<Rightarrow> Schema \<Rightarrow> int \<Rightarrow> 'd \<Rightarrow> (model_error + LiveType) \<times> 'd" where
  "type_FindByID D sc i = find_one D (q_type_by_id sc) [VInt i] type_dests scanLiveType"

definition FindByParent :: "'d sql_db \<Rightarrow> Schema \<Rightarrow> int \<Rightarrow> 'd \<Rightarrow> (LiveType list \<times> sql_error option) \<times> 'd" where
  "FindByParent D sc parentID = scanLiveTypes D (q_types_by_parent sc) [VInt parentID]"

definition type_DebugString :: "LiveType \<Rightarrow> string" where
  "type_DebugString lt = ''id='' @ itoa (lt_LiveTypeID lt) @ '' parent='' @ itoa (lt_ParentID lt) @ '' name='' @ lt_TypeName lt"

record RoomGiftRank =
  gr_RoomNum :: string
  gr_UID :: int
  gr_NickName :: string
  gr_Icon :: string
  gr_Score :: int
  gr_RankNo :: int

definition ListTopByRoom ::
  "'d sql_db \<Rightarrow> Schema \<Rightarrow> string \<Rightarrow> int \<Rightarrow> 'd \<Rightarrow> (RoomGiftRank list \<times> sql_error option) \<times> 'd" where
  "ListTopByRoom D sc roomNum limit =
     query_list D (q_gift_ranks sc) [VText roomNum, VInt (limit_or limit 10)] [DStr, DInt 64, DStr, DStr, DInt 64, DInt 32]
       (\<lambda>g. \<lparr>gr_RoomNum = g_str g 0, gr_UID = g_int g 1, gr_NickName = g_str g 2, gr_Icon = g_str g 3, gr_Score = g_int g 4,
             gr_RankNo = g_int g 5\<rparr>)"

end
