(* ===== verification/Hub.thy ===== *)
theory Hub
  imports Session Models Codec
begin

text \<open>
  The WebSocket chat (\<open>pkg/wschat\<close>).  Clients are objects in a store, addressed by a number; the hub's rooms map a room
  to the addresses of its members; a client's \<open>send\<close> channel is a queue of at most 256 frames.  Each handler takes
  the hub's configuration, the readings of the environment, the address of the client and the chat world, and returns the
  next world.  A message is handled in one step: the handlers of different connections interleave between messages,
  with the goroutines that unregister slow clients, with the write pumps and with what other processes do to Redis and
  the database.
\<close>

section \<open>Opcodes and settings\<close>

definition OpHeart :: "16 word" where "OpHeart = 1000"
definition OpLogin :: "16 word" where "OpLogin = 1001"
definition OpLogout :: "16 word" where "OpLogout = 1002"
definition OpRoomEnter :: "16 word" where "OpRoomEnter = 1003"
definition OpRoomLeave :: "16 word" where "OpRoomLeave = 1004"
definition OpComment :: "16 word" where "OpComment = 1005"
definition OpLike :: "16 word" where "OpLike = 1007"
definition OpSessionResume :: "16 word" where "OpSessionResume = 1010"
definition OpHeartSuccess :: "16 word" where "OpHeartSuccess = 2000"
definition OpLoginSuccess :: "16 word" where "OpLoginSuccess = 2001"
definition OpLogoutSuccess :: "16 word" where "OpLogoutSuccess = 2002"
definition OpRoomEnterSuccess :: "16 word" where "OpRoomEnterSuccess = 2003"
definition OpRoomLeaveSuccess :: "16 word" where "OpRoomLeaveSuccess = 2004"
definition OpCommentSuccess :: "16 word" where "OpCommentSuccess = 2005"
definition OpLikeSuccess :: "16 word" where "OpLikeSuccess = 2007"
definition OpSessionResumeSuccess :: "16 word" where "OpSessionResumeSuccess = 2010"
definition OpCommentPush :: "16 word" where "OpCommentPush = 3000"
definition OpViewNumPush :: "16 word" where "OpViewNumPush = 3005"
definition OpError :: "16 word" where "OpError = 9999"

lemmas opcode_defs = OpHeart_def OpLogin_def OpLogout_def OpRoomEnter_def OpRoomLeave_def OpComment_def OpLike_def OpSessionResume_def

definition ErrCodeNotInChatServer :: int where "ErrCodeNotInChatServer = 1000"
definition ErrCodeSensitiveWord :: int where "ErrCodeSensitiveWord = 1002"
definition ErrCodeUnauthorized :: int where "ErrCodeUnauthorized = 1003"
definition ErrCodeMuted :: int where "ErrCodeMuted = 1004"
definition ErrCodeAccountDisabled :: int where "ErrCodeAccountDisabled = 1005"

definition frameByte0_ws :: byte where "frameByte0_ws = 0x00"
definition frameByte1_ws :: byte where "frameByte1_ws = 0xA0"
definition frameHeaderLen_ws :: nat where "frameHeaderLen_ws = 8"
definition defaultSendQueueSize :: nat where "defaultSendQueueSize = 256"
definition defaultHistoryLimit :: int where "defaultHistoryLimit = 50"
definition chatHistoryKeyPrefix :: string where "chatHistoryKeyPrefix = ''yuyan:live:chat:''"

definition m_not_live :: string where "m_not_live = utf8 [0x672A, 0x5F00, 0x64AD, 0x76F4, 0x64AD, 0x95F4, 0x4E0D, 0x53EF, 0x4EE5, 0x53D1, 0x8A00]"  \<comment> \<open>no speaking while the room is not live\<close>
definition m_account_disabled :: string where "m_account_disabled = utf8 [0x8D26, 0x53F7, 0x5DF2, 0x5C01, 0x7981]"  \<comment> \<open>account banned\<close>
definition m_ip_muted :: string where "m_ip_muted = utf8 [0x60A8, 0x7684, 0x49, 0x50, 0x5DF2, 0x88AB, 0x7981, 0x8A00]"  \<comment> \<open>IP muted\<close>
definition m_sensitive :: string where
  "m_sensitive = utf8 [0x8BF7, 0x52FF, 0x53D1, 0x5E03, 0x654F, 0x611F, 0x5185, 0x5BB9, 0xFF0C, 0x591A, 0x6B21, 0x8FDD, 0x89C4, 0x5C06, 0x5C01, 0x53F7, 0x5904, 0x7406]"  \<comment> \<open>no sensitive content\<close>
definition m_enters :: string where "m_enters = utf8 [0x8FDB, 0x5165, 0x76F4, 0x64AD, 0x95F4]"  \<comment> \<open>enters the room\<close>

section \<open>Clients and the hub\<close>

text \<open>\<open>c_open\<close>: the connection is open; \<open>c_reading\<close> and \<open>c_writing\<close>: the pumps run; \<open>c_wire\<close>: the frames written to
  the connection, oldest first.\<close>

record Client =
  c_send :: "bytes list"
  c_uid :: int
  c_nickName :: string
  c_icon :: string
  c_isGuest :: bool
  c_authenticated :: bool
  c_ip :: string
  c_rooms :: "string list"
  c_mutedRooms :: "string \<Rightarrow> bool option"
  c_sendTimes :: "int list"
  c_open :: bool
  c_reading :: bool
  c_writing :: bool
  c_wire :: "bytes list"

text \<open>A model is a database and the schema settings, or nil.\<close>

type_synonym 'd model = "('d sql_db \<times> Schema) option"

record ('r, 'd) hub =
  h_rdb :: "'r redis option"
  h_sessions :: "'r SessionStore"
  h_maxMsgLen :: int
  h_historyLim :: int
  h_ratePerMin :: int
  h_reqKey :: bytes
  h_respKey :: bytes
  h_chatMessages :: "'d model"
  h_roomsModel :: "'d model"
  h_usersModel :: "'d model"

record ('r, 'd) chat =
  ch_client :: "nat \<Rightarrow> Client"
  ch_next :: nat
  ch_rooms :: "string \<Rightarrow> nat list option"
  ch_redis :: 'r
  ch_db :: 'd
  ch_going :: "nat list"

text \<open>The readings of the environment: the clock by call site, \<open>unicode.ToLower\<close> beyond ASCII.\<close>

record chat_env =
  he_session :: int
  he_notice :: int
  he_enter :: int
  he_allow :: int
  he_now :: gotime
  he_created :: gotime
  he_low :: "nat \<Rightarrow> nat"

definition NewHub ::
  "'r redis option \<Rightarrow> bytes \<Rightarrow> bytes \<Rightarrow> int \<Rightarrow> int \<Rightarrow> int \<Rightarrow> 'd model \<Rightarrow> 'd model \<Rightarrow> 'd model \<Rightarrow> ('r, 'd) hub" where
  "NewHub rdb respKey reqKey maxMsgLen historyLim ratePerMin chatMessages roomsModel usersModel =
     \<lparr>h_rdb = rdb, h_sessions = NewSessionStore rdb,
      h_maxMsgLen = (if maxMsgLen \<le> 0 then 500 else maxMsgLen),
      h_historyLim = (if historyLim \<le> 0 then defaultHistoryLimit else historyLim),
      h_ratePerMin = (if ratePerMin \<le> 0 then 60 else ratePerMin),
      h_reqKey = reqKey, h_respKey = respKey, h_chatMessages = chatMessages, h_roomsModel = roomsModel, h_usersModel = usersModel\<rparr>"

section \<open>Text helpers\<close>

text \<open>\<open>clientIP\<close>: the two headers (empty when absent) and the remote address.\<close>

definition clientIP :: "string \<Rightarrow> string \<Rightarrow> string \<Rightarrow> string" where
  "clientIP xff xri remote =
     (if xff \<noteq> [] then TrimSpace (takeWhile (\<lambda>c. c \<noteq> CHR '','') xff)
      else if xri \<noteq> [] then TrimSpace xri
      else if CHR '':'' \<in> set remote then rev (tl (dropWhile (\<lambda>c. c \<noteq> CHR '':'') (rev remote))) else remote)"

definition isSafeRoom :: "string \<Rightarrow> bool" where
  "isSafeRoom r =
     (if r = [] \<or> length r > 32 then False
      else list_all (\<lambda>(ch, _). 48 \<le> ch \<and> ch \<le> 57 \<or> 97 \<le> ch \<and> ch \<le> 122 \<or> 65 \<le> ch \<and> ch \<le> 90) (runes r))"

definition escape_rune :: "nat \<Rightarrow> string" where
  "escape_rune r =
     (if r = 0x3C then ''&lt;'' else if r = 0x3E then ''&gt;'' else if r = 0x26 then ''&amp;'' else if r = 0x22 then ''&#34;''
      else if r = 0x27 then ''&#39;'' else encode_rune r)"

definition sanitize :: "string \<Rightarrow> string" where
  "sanitize s = concat (map (\<lambda>(r, _). escape_rune r) (runes (take 500 (TrimSpace s))))"

definition blockwords :: "string list" where
  "blockwords =
    [''fuck'', ''shit'', ''bitch'', ''asshole'', ''dick'',
     utf8 [0x8D4C, 0x535A],
     utf8 [0x8D4C, 0x573A],
     utf8 [0x535A, 0x5F69],
     utf8 [0x8272, 0x60C5],
     utf8 [0x9EC4, 0x8D4C, 0x6BD2],
     utf8 [0x53CD, 0x52A8],
     utf8 [0x6CD5, 0x8F6E],
     utf8 [0x516D, 0x56DB],
     utf8 [0x53F0, 0x72EC],
     utf8 [0x6E2F, 0x72EC],
     utf8 [0x79C1, 0x670D],
     utf8 [0x5916, 0x6302],
     utf8 [0x5237, 0x5C4F]]"

definition matchBlockword :: "(nat \<Rightarrow> nat) \<Rightarrow> string \<Rightarrow> string option" where
  "matchBlockword low text = find (contains_str (ToLower low text)) blockwords"

text \<open>\<open>genMsgID\<close>: the error of \<open>rand.Read\<close> is ignored, and a failed read leaves zeros.\<close>

definition genMsgID :: "rng \<Rightarrow> string \<times> rng" where
  "genMsgID t = (case rand_read 12 t of (b, t') \<Rightarrow> (hex_EncodeToString (case b of Some x \<Rightarrow> x | None \<Rightarrow> replicate 12 0), t'))"

section \<open>Frames\<close>

definition encryptFrameBody :: "bytes \<Rightarrow> bytes \<Rightarrow> codec_error + bytes" where "encryptFrameBody body key = Encrypt body key"
definition decryptFrameBody :: "bytes \<Rightarrow> bytes \<Rightarrow> codec_error + bytes" where "decryptFrameBody body key = Decrypt body key"

definition encodeBinaryFrame :: "16 word \<Rightarrow> bytes \<Rightarrow> bytes \<Rightarrow> bytes" where
  "encodeBinaryFrame op body key =
     (let ct = (if length body > 0 then case encryptFrameBody body key of Inr c \<Rightarrow> c | Inl _ \<Rightarrow> [] else [])
      in [frameByte0_ws, frameByte1_ws] @ put_uint16 op @ put_uint32 (of_nat (length ct)) @ ct)"

section \<open>Sending\<close>

text \<open>The non-blocking send on a client's channel.\<close>

definition offer :: "bytes \<Rightarrow> Client \<Rightarrow> Client" where
  "offer frame c = (if length (c_send c) < defaultSendQueueSize then c\<lparr>c_send := c_send c @ [frame]\<rparr> else c)"

definition on_client :: "nat \<Rightarrow> (Client \<Rightarrow> Client) \<Rightarrow> ('r, 'd) chat \<Rightarrow> ('r, 'd) chat" where
  "on_client i f w = w\<lparr>ch_client := (ch_client w)(i := f (ch_client w i))\<rparr>"

definition sendBinary :: "('r, 'd) hub \<Rightarrow> 16 word \<Rightarrow> bytes \<Rightarrow> nat \<Rightarrow> ('r, 'd) chat \<Rightarrow> ('r, 'd) chat" where
  "sendBinary h op body i = on_client i (offer (encodeBinaryFrame op body (h_respKey h)))"

definition error_body :: "int \<Rightarrow> string \<Rightarrow> bytes" where
  "error_body code msg = bytes_of (json_print (JObj [(''errCode'', jint code), (''errMsg'', JStr msg)]))"

definition sendError :: "('r, 'd) hub \<Rightarrow> int \<Rightarrow> string \<Rightarrow> nat \<Rightarrow> ('r, 'd) chat \<Rightarrow> ('r, 'd) chat" where
  "sendError h code msg = sendBinary h OpError (error_body code msg)"

definition sendSystemNotice :: "('r, 'd) hub \<Rightarrow> int \<Rightarrow> string \<Rightarrow> string \<Rightarrow> int \<Rightarrow> nat \<Rightarrow> ('r, 'd) chat \<Rightarrow> ('r, 'd) chat" where
  "sendSystemNotice h now room content msgType =
     sendBinary h OpCommentPush (bytes_of (json_print (JObj [(''content'', JStr content), (''msgType'', jint msgType),
       (''noticeType'', jint 1), (''roomNum'', JStr room), (''sendTime'', jint (now div 1000000))])))"

text \<open>\<open>allowSend\<close>: the verdict and the client.\<close>

definition allowSend :: "('r, 'd) hub \<Rightarrow> int \<Rightarrow> Client \<Rightarrow> bool \<times> Client" where
  "allowSend h now c =
     (let cut = now - 60 * 1000000000;
          times = dropWhile (\<lambda>t. t < cut) (c_sendTimes c)
      in if int (length times) \<ge> h_ratePerMin h then (False, c\<lparr>c_sendTimes := times\<rparr>)
         else (True, c\<lparr>c_sendTimes := times @ [now]\<rparr>))"

section \<open>Rooms\<close>

definition members :: "('r, 'd) chat \<Rightarrow> string \<Rightarrow> nat list" where
  "members w room = (case ch_rooms w room of None \<Rightarrow> [] | Some ms \<Rightarrow> ms)"

definition joinRoom :: "string \<Rightarrow> nat \<Rightarrow> ('r, 'd) chat \<Rightarrow> ('r, 'd) chat" where
  "joinRoom room i w =
     (let w1 = w\<lparr>ch_rooms := (ch_rooms w)(room \<mapsto> List.insert i (members w room))\<rparr>
      in on_client i (\<lambda>c. c\<lparr>c_rooms := List.insert room (c_rooms c)\<rparr>) w1)"

text \<open>Deleting a client from a room's set, and the room with its last client.\<close>

definition room_delete :: "nat \<Rightarrow> string \<Rightarrow> (string \<Rightarrow> nat list option) \<Rightarrow> string \<Rightarrow> nat list option" where
  "room_delete i room rs =
     (case rs room of
        None \<Rightarrow> rs
      | Some ms \<Rightarrow> (let ms' = removeAll i ms in rs(room := if length ms' = 0 then None else Some ms')))"

definition leaveRoom :: "string \<Rightarrow> nat \<Rightarrow> ('r, 'd) chat \<Rightarrow> ('r, 'd) chat" where
  "leaveRoom room i w =
     on_client i (\<lambda>c. c\<lparr>c_rooms := removeAll room (c_rooms c)\<rparr>) (w\<lparr>ch_rooms := room_delete i room (ch_rooms w)\<rparr>)"

definition unregisterAll :: "nat \<Rightarrow> ('r, 'd) chat \<Rightarrow> ('r, 'd) chat" where
  "unregisterAll i w =
     on_client i (\<lambda>c. c\<lparr>c_rooms := []\<rparr>) (w\<lparr>ch_rooms := fold (room_delete i) (c_rooms (ch_client w i)) (ch_rooms w)\<rparr>)"

text \<open>A client whose queue is full is unregistered by a goroutine of its own.\<close>

definition push_or_drop :: "bytes \<Rightarrow> nat \<Rightarrow> ('r, 'd) chat \<Rightarrow> ('r, 'd) chat" where
  "push_or_drop frame i w =
     (if length (c_send (ch_client w i)) < defaultSendQueueSize then on_client i (offer frame) w
      else w\<lparr>ch_going := ch_going w @ [i]\<rparr>)"

definition broadcast :: "('r, 'd) hub \<Rightarrow> string \<Rightarrow> 16 word \<Rightarrow> bytes \<Rightarrow> ('r, 'd) chat \<Rightarrow> ('r, 'd) chat" where
  "broadcast h room op body w = fold (push_or_drop (encodeBinaryFrame op body (h_respKey h))) (members w room) w"

definition RoomSize :: "('r, 'd) chat \<Rightarrow> string \<Rightarrow> int" where
  "RoomSize w room = int (length (members w room))"

text \<open>\<open>FindByRoomNum\<close> through a model that may be nil: the row when the lookup succeeds.\<close>

definition room_row :: "('r, 'd) hub \<Rightarrow> string \<Rightarrow> ('r, 'd) chat \<Rightarrow> LiveRoom option \<times> ('r, 'd) chat" where
  "room_row h room w =
     (case h_roomsModel h of
        None \<Rightarrow> (None, w)
      | Some (D, sc) \<Rightarrow>
          (case room_FindByRoomNum D sc room (ch_db w) of (r, d) \<Rightarrow> (case r of Inr x \<Rightarrow> Some x | Inl _ \<Rightarrow> None, w\<lparr>ch_db := d\<rparr>)))"

definition broadcastViewNum :: "('r, 'd) hub \<Rightarrow> string \<Rightarrow> ('r, 'd) chat \<Rightarrow> ('r, 'd) chat" where
  "broadcastViewNum h room w =
     (case room_row h room w of (row, w1) \<Rightarrow>
        (let viewNum = (case row of None \<Rightarrow> RoomSize w room
                        | Some r \<Rightarrow> wrap64 (RoomSize w room + wrap64 (lr_VisitCount r + lr_FictitiousVisitCount r)))
         in broadcast h room OpViewNumPush (bytes_of (json_print (JObj [(''roomNum'', JStr room), (''viewNum'', jint viewNum)]))) w1))"

definition broadcastEnterNotice :: "('r, 'd) hub \<Rightarrow> int \<Rightarrow> string \<Rightarrow> string \<Rightarrow> ('r, 'd) chat \<Rightarrow> ('r, 'd) chat" where
  "broadcastEnterNotice h now room nickName =
     broadcast h room OpCommentPush (bytes_of (json_print (JObj [(''content'', JStr (nickName @ m_enters)), (''msgType'', jint 3),
       (''noticeType'', jint 2), (''roomNum'', JStr room), (''sendTime'', jint (now div 1000000))])))"

section \<open>History\<close>

definition r_run :: "('r, 'a) rop \<Rightarrow> ('r, 'd) chat \<Rightarrow> ('r, 'd) chat" where
  "r_run f w = w\<lparr>ch_redis := snd (f (ch_redis w))\<rparr>"

definition persistHistory :: "('r, 'd) hub \<Rightarrow> string \<Rightarrow> bytes \<Rightarrow> ('r, 'd) chat \<Rightarrow> ('r, 'd) chat" where
  "persistHistory h room body w =
     (case h_rdb h of
        None \<Rightarrow> w
      | Some R \<Rightarrow>
          (let key = chatHistoryKeyPrefix @ room;
               w1 = r_run (r_lpush R key (string_of body)) w;
               w2 = r_run (r_ltrim R key 0 (h_historyLim h - 1)) w1
           in r_run (r_expire R key (24 * 3600)) w2))"

text \<open>A replay stops at the first frame the channel does not take.\<close>

fun replay_frames :: "bytes list \<Rightarrow> nat \<Rightarrow> ('r, 'd) chat \<Rightarrow> ('r, 'd) chat" where
  "replay_frames [] i w = w"
| "replay_frames (f # fs) i w =
     (if length (c_send (ch_client w i)) < defaultSendQueueSize then replay_frames fs i (on_client i (offer f) w) else w)"

definition stored_push :: "ChatRoomMessage \<Rightarrow> bytes" where
  "stored_push m = bytes_of (json_print (JObj [(''content'', JStr (cm_Content m)), (''msgId'', jint (cm_ID m)), (''msgType'', jint (cm_Type m)),
     (''roomNum'', JStr (cm_RoomNum m)), (''sendTime'', jint (Instant (cm_SendTime m) div 1000000)), (''sendUid'', jint (cm_SendUID m))]))"

definition replay_database :: "('r, 'd) hub \<Rightarrow> string \<Rightarrow> nat \<Rightarrow> ('r, 'd) chat \<Rightarrow> ('r, 'd) chat" where
  "replay_database h room i w =
     (case h_chatMessages h of
        None \<Rightarrow> w
      | Some (D, sc) \<Rightarrow>
          (case ListRecentByRoom D sc room (h_historyLim h) (ch_db w) of ((msgs, err), d) \<Rightarrow>
             (let w1 = w\<lparr>ch_db := d\<rparr>
              in if err \<noteq> None \<or> length msgs = 0 then w1
                 else replay_frames (map (\<lambda>m. encodeBinaryFrame OpCommentPush (stored_push m) (h_respKey h)) (rev msgs)) i w1)))"

definition replayHistory :: "('r, 'd) hub \<Rightarrow> string \<Rightarrow> nat \<Rightarrow> ('r, 'd) chat \<Rightarrow> ('r, 'd) chat" where
  "replayHistory h room i w =
     (case h_rdb h of
        None \<Rightarrow> replay_database h room i w
      | Some R \<Rightarrow>
          (case r_lrange R (chatHistoryKeyPrefix @ room) 0 (h_historyLim h) (ch_redis w) of (res, r) \<Rightarrow>
             (let w1 = w\<lparr>ch_redis := r\<rparr>
              in case res of
                   Inr (v # vs) \<Rightarrow>
                     replay_frames (map (\<lambda>x. encodeBinaryFrame OpCommentPush (bytes_of x) (h_respKey h)) (rev (v # vs))) i w1
                 | _ \<Rightarrow> replay_database h room i w1)))"

section \<open>Handlers\<close>

definition empty_object :: bytes where "empty_object = bytes_of ''{}''"

text \<open>The request bodies.\<close>

record ws_body =
  wb_Key :: string
  wb_RoomNum :: string
  wb_MsgType :: int
  wb_Content :: string
  wb_Plat :: int
  wb_Version :: int
  wb_HaveHistory :: int
  wb_SendUID :: int
  wb_Op :: int

definition zero_body :: ws_body where
  "zero_body = \<lparr>wb_Key = [], wb_RoomNum = [], wb_MsgType = 0, wb_Content = [], wb_Plat = 0, wb_Version = 0, wb_HaveHistory = 0,
     wb_SendUID = 0, wb_Op = 0\<rparr>"

abbreviation f_key :: "ws_body field" where "f_key \<equiv> (''key'', dec_string (\<lambda>v s. s\<lparr>wb_Key := v\<rparr>))"
abbreviation f_plat :: "ws_body field" where "f_plat \<equiv> (''plat'', dec_int (\<lambda>v s. s\<lparr>wb_Plat := v\<rparr>))"
abbreviation f_version :: "ws_body field" where "f_version \<equiv> (''version'', dec_int (\<lambda>v s. s\<lparr>wb_Version := v\<rparr>))"
abbreviation f_roomNum :: "ws_body field" where "f_roomNum \<equiv> (''roomNum'', dec_string (\<lambda>v s. s\<lparr>wb_RoomNum := v\<rparr>))"
abbreviation f_content :: "ws_body field" where "f_content \<equiv> (''content'', dec_string (\<lambda>v s. s\<lparr>wb_Content := v\<rparr>))"
abbreviation f_haveHistory :: "ws_body field" where "f_haveHistory \<equiv> (''haveHistory'', dec_int (\<lambda>v s. s\<lparr>wb_HaveHistory := v\<rparr>))"
abbreviation f_msgType :: "ws_body field" where "f_msgType \<equiv> (''msgType'', dec_int (\<lambda>v s. s\<lparr>wb_MsgType := v\<rparr>))"
abbreviation f_sendUid :: "ws_body field" where "f_sendUid \<equiv> (''sendUid'', dec_int (\<lambda>v s. s\<lparr>wb_SendUID := v\<rparr>))"
abbreviation f_op :: "ws_body field" where "f_op \<equiv> (''op'', dec_uint16 (\<lambda>v s. s\<lparr>wb_Op := v\<rparr>))"

definition loginBody :: "ws_body field list" where "loginBody = [f_key, f_plat, f_version]"
definition roomEnterBody :: "ws_body field list" where "roomEnterBody = [f_roomNum, f_haveHistory]"
definition commentBody :: "ws_body field list" where "commentBody = [f_roomNum, f_msgType, f_content, f_sendUid]"
definition roomBody :: "ws_body field list" where "roomBody = [f_roomNum]"
definition keyBody :: "ws_body field list" where "keyBody = [f_key]"
definition textBody :: "ws_body field list" where
  "textBody = [f_op, f_key, f_plat, f_version, f_roomNum, f_content, f_haveHistory, f_msgType]"

text \<open>The error of these \<open>Unmarshal\<close> calls is ignored.\<close>

definition body_of :: "ws_body field list \<Rightarrow> bytes \<Rightarrow> ws_body" where
  "body_of fs body = snd (unmarshal_struct fs (string_of body) zero_body)"

text \<open>The part \<open>handleLogin\<close> and \<open>handleSessionResume\<close> share: the session behind a key becomes the client's identity.\<close>

definition bind_session :: "('r, 'd) hub \<Rightarrow> chat_env \<Rightarrow> 16 word \<Rightarrow> string \<Rightarrow> nat \<Rightarrow> ('r, 'd) chat \<Rightarrow> ('r, 'd) chat" where
  "bind_session h E ack key i w =
     (if key = [] then sendError h ErrCodeUnauthorized ''missing key'' i w
      else (case Get (h_sessions h) (he_session E) key (ch_redis w) of (res, r) \<Rightarrow>
              (let w1 = w\<lparr>ch_redis := r\<rparr>
               in case res of
                    Inl _ \<Rightarrow> sendError h ErrCodeUnauthorized ''invalid session'' i w1
                  | Inr sess \<Rightarrow>
                      sendBinary h ack empty_object i
                        (on_client i (\<lambda>c. c\<lparr>c_uid := UID sess, c_nickName := NickName sess, c_icon := Icon sess,
                                            c_isGuest := IsGuest sess, c_authenticated := True\<rparr>) w1))))"

definition handleLogin_ws :: "('r, 'd) hub \<Rightarrow> chat_env \<Rightarrow> bytes \<Rightarrow> nat \<Rightarrow> ('r, 'd) chat \<Rightarrow> ('r, 'd) chat" where
  "handleLogin_ws h E body = bind_session h E OpLoginSuccess (wb_Key (body_of loginBody body))"

definition handleSessionResume :: "('r, 'd) hub \<Rightarrow> chat_env \<Rightarrow> bytes \<Rightarrow> nat \<Rightarrow> ('r, 'd) chat \<Rightarrow> ('r, 'd) chat" where
  "handleSessionResume h E body i w =
     (if \<not> c_authenticated (ch_client w i) then sendError h ErrCodeUnauthorized ''login required'' i w
      else bind_session h E OpSessionResumeSuccess (wb_Key (body_of keyBody body)) i w)"

definition close_conn :: "nat \<Rightarrow> ('r, 'd) chat \<Rightarrow> ('r, 'd) chat" where
  "close_conn i = on_client i (\<lambda>c. c\<lparr>c_open := False\<rparr>)"

definition handleLogout_ws :: "('r, 'd) hub \<Rightarrow> nat \<Rightarrow> ('r, 'd) chat \<Rightarrow> ('r, 'd) chat" where
  "handleLogout_ws h i w = close_conn i (unregisterAll i (sendBinary h OpLogoutSuccess empty_object i w))"

definition set_mute :: "string \<Rightarrow> bool option \<Rightarrow> nat \<Rightarrow> ('r, 'd) chat \<Rightarrow> ('r, 'd) chat" where
  "set_mute room v i = on_client i (\<lambda>c. c\<lparr>c_mutedRooms := (c_mutedRooms c)(room := v)\<rparr>)"

text \<open>\<open>handleRoomEnter\<close>: the live-status check, then the entry itself.\<close>

definition live_check :: "('r, 'd) hub \<Rightarrow> chat_env \<Rightarrow> string \<Rightarrow> nat \<Rightarrow> ('r, 'd) chat \<Rightarrow> bool \<times> ('r, 'd) chat" where
  "live_check h E room i w =
     (case room_row h room w of (row, w1) \<Rightarrow>
        (case row of
           None \<Rightarrow> (True, w1)
         | Some r \<Rightarrow>
             if lr_LiveStatus r \<noteq> 1
             then (False, sendSystemNotice h (he_notice E) room m_not_live 3 i (set_mute room (Some True) i w1))
             else (True, set_mute room (Some False) i w1)))"

definition enter_room :: "('r, 'd) hub \<Rightarrow> chat_env \<Rightarrow> string \<Rightarrow> bool \<Rightarrow> nat \<Rightarrow> ('r, 'd) chat \<Rightarrow> ('r, 'd) chat" where
  "enter_room h E room roomLive i w =
     (let alreadyIn = room \<in> set (c_rooms (ch_client w i));
          w1 = joinRoom room i w;
          w2 = sendBinary h OpRoomEnterSuccess empty_object i w1;
          w3 = broadcastViewNum h room w2;
          w4 = (if roomLive \<and> \<not> c_isGuest (ch_client w3 i) \<and> \<not> alreadyIn
                then broadcastEnterNotice h (he_enter E) room (c_nickName (ch_client w3 i)) w3 else w3)
      in replayHistory h room i w4)"

definition handleRoomEnter :: "('r, 'd) hub \<Rightarrow> chat_env \<Rightarrow> bytes \<Rightarrow> nat \<Rightarrow> ('r, 'd) chat \<Rightarrow> ('r, 'd) chat" where
  "handleRoomEnter h E body i w =
     (if \<not> c_authenticated (ch_client w i) then sendError h ErrCodeUnauthorized ''login required'' i w
      else (let room = wb_RoomNum (body_of roomEnterBody body)
            in if room = [] then sendError h ErrCodeNotInChatServer ''missing roomNum'' i w
               else if \<not> isSafeRoom room then sendError h ErrCodeNotInChatServer ''invalid room'' i w
               else (case live_check h E room i w of (roomLive, w1) \<Rightarrow> enter_room h E room roomLive i w1)))"

definition handleRoomLeave :: "('r, 'd) hub \<Rightarrow> bytes \<Rightarrow> nat \<Rightarrow> ('r, 'd) chat \<Rightarrow> ('r, 'd) chat" where
  "handleRoomLeave h body i w =
     (let room = wb_RoomNum (body_of roomBody body);
          w1 = (if room \<noteq> [] then set_mute room None i (broadcastViewNum h room (leaveRoom room i w)) else w)
      in sendBinary h OpRoomLeaveSuccess empty_object i w1)"

text \<open>The checks of \<open>handleComment\<close> after the mute flag: the account's status, then the two IP lists.\<close>

definition account_disabled :: "('r, 'd) hub \<Rightarrow> nat \<Rightarrow> ('r, 'd) chat \<Rightarrow> bool \<times> ('r, 'd) chat" where
  "account_disabled h i w =
     (case h_usersModel h of
        None \<Rightarrow> (False, w)
      | Some (D, sc) \<Rightarrow>
          if c_uid (ch_client w i) > 0
          then (case user_FindByUid D sc (c_uid (ch_client w i)) (ch_db w) of (res, d) \<Rightarrow>
                  (case res of Inr u \<Rightarrow> us_Status u \<noteq> 1 | Inl _ \<Rightarrow> False, w\<lparr>ch_db := d\<rparr>))
          else (False, w))"

definition in_ip_list :: "'r redis \<Rightarrow> string \<Rightarrow> string \<Rightarrow> ('r, 'd) chat \<Rightarrow> bool \<times> ('r, 'd) chat" where
  "in_ip_list R key ip w =
     (case r_sismember R key ip (ch_redis w) of (res, r) \<Rightarrow> (case res of Inr b \<Rightarrow> b | Inl _ \<Rightarrow> False, w\<lparr>ch_redis := r\<rparr>))"

definition ip_banned :: "('r, 'd) hub \<Rightarrow> nat \<Rightarrow> ('r, 'd) chat \<Rightarrow> bool \<times> ('r, 'd) chat" where
  "ip_banned h i w =
     (case h_rdb h of
        None \<Rightarrow> (False, w)
      | Some R \<Rightarrow>
          if c_ip (ch_client w i) = [] then (False, w)
          else (case in_ip_list R ''ban:ip:list'' (c_ip (ch_client w i)) w of (b, w1) \<Rightarrow>
                  if b then (True, w1) else in_ip_list R ''black:ip:list'' (c_ip (ch_client w i)) w1))"

definition next_msg_id :: "('r, 'd) hub \<Rightarrow> chat_env \<Rightarrow> ('r, 'd) chat \<Rightarrow> int \<times> ('r, 'd) chat" where
  "next_msg_id h E w =
     (case h_rdb h of
        None \<Rightarrow> (Instant (he_now E), w)
      | Some R \<Rightarrow>
          (case r_incr R ''yuyan:chat:message_id'' (ch_redis w) of (res, r) \<Rightarrow>
             (let id = (case res of Inr n \<Rightarrow> n | Inl _ \<Rightarrow> 0) in (if id = 0 then Instant (he_now E) else id, w\<lparr>ch_redis := r\<rparr>))))"

definition push_body :: "Client \<Rightarrow> string \<Rightarrow> int \<Rightarrow> int \<Rightarrow> string \<Rightarrow> int \<Rightarrow> bytes" where
  "push_body c room msgType ms content msgID =
     bytes_of (json_print (JObj [(''content'', JStr content), (''msgId'', jint msgID), (''msgType'', jint msgType), (''roomNum'', JStr room),
       (''sendTime'', jint ms), (''sendUid'', jint (c_uid c)),
       (''sendUser'', JObj [(''icon'', JStr (c_icon c)), (''nickName'', JStr (c_nickName c)), (''uid'', jint (c_uid c))])]))"

definition store_message :: "('r, 'd) hub \<Rightarrow> chat_env \<Rightarrow> ChatRoomMessage \<Rightarrow> ('r, 'd) chat \<Rightarrow> ('r, 'd) chat" where
  "store_message h E m w =
     (case h_chatMessages h of
        None \<Rightarrow> w
      | Some (D, sc) \<Rightarrow> (case chat_Insert D sc (he_now E) (he_created E) m (ch_db w) of (_, d) \<Rightarrow> w\<lparr>ch_db := d\<rparr>))"

text \<open>The rest of \<open>handleComment\<close>, once the sender may speak.\<close>

definition publish :: "('r, 'd) hub \<Rightarrow> chat_env \<Rightarrow> string \<Rightarrow> int \<Rightarrow> string \<Rightarrow> nat \<Rightarrow> ('r, 'd) chat \<Rightarrow> ('r, 'd) chat" where
  "publish h E room mt content i w =
     (let msgType = (if mt = 0 then 1 else mt)
      in case next_msg_id h E w of (msgID, w1) \<Rightarrow>
           (let c = ch_client w1 i;
                pushBody = push_body c room msgType (Instant (he_now E) div 1000000) content msgID;
                w2 = store_message h E \<lparr>cm_ID = msgID, cm_SendUID = c_uid c, cm_RoomNum = room, cm_SendTime = he_now E, cm_Content = content,
                       cm_Type = wrap32 msgType, cm_IP = c_ip c, cm_Status = 1, cm_CreatedAt = 0\<rparr> w1;
                w3 = persistHistory h room pushBody w2;
                w4 = sendBinary h OpCommentSuccess empty_object i w3
            in broadcast h room OpCommentPush pushBody w4))"

definition comment_content :: "('r, 'd) hub \<Rightarrow> string \<Rightarrow> string" where
  "comment_content h s =
     (let content = sanitize s in if int (length content) > h_maxMsgLen h then take (nat (h_maxMsgLen h)) content else content)"

definition handleComment :: "('r, 'd) hub \<Rightarrow> chat_env \<Rightarrow> bytes \<Rightarrow> nat \<Rightarrow> ('r, 'd) chat \<Rightarrow> ('r, 'd) chat" where
  "handleComment h E body i w =
     (let c = ch_client w i; b = body_of commentBody body; room = wb_RoomNum b
      in if \<not> c_authenticated c then sendError h ErrCodeUnauthorized ''login required'' i w
         else if room = [] then sendError h ErrCodeNotInChatServer ''missing roomNum'' i w
         else if room \<notin> set (c_rooms c) then sendError h ErrCodeNotInChatServer ''not in room'' i w
         else if c_isGuest c then sendError h ErrCodeMuted ''guests cannot speak'' i w
         else if c_mutedRooms c room = Some True then sendError h ErrCodeMuted m_not_live i w
         else (case account_disabled h i w of (disabled, w1) \<Rightarrow>
                 if disabled then sendError h ErrCodeAccountDisabled m_account_disabled i w1
                 else (case ip_banned h i w1 of (banned, w2) \<Rightarrow>
                         if banned then sendError h ErrCodeMuted m_ip_muted i w2
                         else if sanitize (wb_Content b) = [] then w2
                         else (let content = comment_content h (wb_Content b)
                               in case allowSend h (he_allow E) (ch_client w2 i) of (allowed, c3) \<Rightarrow>
                                    (let w3 = on_client i (\<lambda>_. c3) w2
                                     in if \<not> allowed then sendError h ErrCodeMuted ''rate limit'' i w3
                                        else if matchBlockword (he_low E) content \<noteq> None
                                        then sendError h ErrCodeSensitiveWord m_sensitive i w3
                                        else publish h E room (wb_MsgType b) content i w3)))))"

definition handleLike :: "('r, 'd) hub \<Rightarrow> bytes \<Rightarrow> nat \<Rightarrow> ('r, 'd) chat \<Rightarrow> ('r, 'd) chat" where
  "handleLike h body i w =
     (if \<not> c_authenticated (ch_client w i) then sendError h ErrCodeUnauthorized ''login required'' i w
      else (let room = wb_RoomNum (body_of roomBody body)
            in if room = [] then w
               else broadcast h room OpLikeSuccess
                      (bytes_of (json_print (JObj [(''roomNum'', JStr room), (''sendUid'', jint (c_uid (ch_client w i)))])))
                      (sendBinary h OpLikeSuccess empty_object i w)))"

definition dispatch_ws :: "('r, 'd) hub \<Rightarrow> chat_env \<Rightarrow> 16 word \<Rightarrow> bytes \<Rightarrow> nat \<Rightarrow> ('r, 'd) chat \<Rightarrow> ('r, 'd) chat" where
  "dispatch_ws h E op body i w =
     (if op = OpHeart then sendBinary h OpHeartSuccess [] i w
      else if op = OpLogin then handleLogin_ws h E body i w
      else if op = OpLogout then handleLogout_ws h i w
      else if op = OpRoomEnter then handleRoomEnter h E body i w
      else if op = OpRoomLeave then handleRoomLeave h body i w
      else if op = OpComment then handleComment h E body i w
      else if op = OpLike then handleLike h body i w
      else if op = OpSessionResume then handleSessionResume h E body i w
      else sendError h ErrCodeUnauthorized (''unknown opcode '' @ itoa (int (unat op))) i w)"

definition handleBinaryFrame :: "('r, 'd) hub \<Rightarrow> chat_env \<Rightarrow> bytes \<Rightarrow> nat \<Rightarrow> ('r, 'd) chat \<Rightarrow> ('r, 'd) chat" where
  "handleBinaryFrame h E frame i w =
     (if length frame < frameHeaderLen_ws then sendError h ErrCodeUnauthorized ''invalid frame'' i w
      else (let opcode = get_uint16 (frame ! 2) (frame ! 3);
                bodyLen = get_uint32 (frame ! 4) (frame ! 5) (frame ! 6) (frame ! 7)
            in if unat bodyLen \<noteq> length frame - frameHeaderLen_ws then sendError h ErrCodeUnauthorized ''frame length mismatch'' i w
               else if bodyLen > 0
               then (case decryptFrameBody (drop frameHeaderLen_ws frame) (h_reqKey h) of
                       Inl _ \<Rightarrow> sendError h ErrCodeUnauthorized ''decrypt failed'' i w
                     | Inr plain \<Rightarrow> dispatch_ws h E opcode plain i w)
               else dispatch_ws h E opcode [] i w))"

text \<open>The legacy text protocol: the members that are set, sorted by name, become the body.\<close>

definition text_members :: "ws_body \<Rightarrow> (string \<times> json) list" where
  "text_members m =
     (if wb_Content m \<noteq> [] then [(''content'', JStr (wb_Content m))] else []) @
     (if wb_HaveHistory m \<noteq> 0 then [(''haveHistory'', jint (wb_HaveHistory m))] else []) @
     (if wb_Key m \<noteq> [] then [(''key'', JStr (wb_Key m))] else []) @
     (if wb_MsgType m \<noteq> 0 then [(''msgType'', jint (wb_MsgType m))] else []) @
     (if wb_Plat m \<noteq> 0 then [(''plat'', jint (wb_Plat m))] else []) @
     (if wb_RoomNum m \<noteq> [] then [(''roomNum'', JStr (wb_RoomNum m))] else []) @
     (if wb_Version m \<noteq> 0 then [(''version'', jint (wb_Version m))] else [])"

definition handleJSONTextFrame :: "('r, 'd) hub \<Rightarrow> chat_env \<Rightarrow> bytes \<Rightarrow> nat \<Rightarrow> ('r, 'd) chat \<Rightarrow> ('r, 'd) chat" where
  "handleJSONTextFrame h E message i w =
     (case unmarshal_struct textBody (string_of message) zero_body of (err, msg) \<Rightarrow>
        if err then w
        else if wb_Op msg = 0 \<and> wb_Content msg = [] then w
        else dispatch_ws h E (if wb_Op msg = 0 then OpComment else of_int (wb_Op msg))
               (bytes_of (json_print (JObj (text_members msg)))) i w)"

section \<open>Connections\<close>

datatype message_type = TextMessage | BinaryMessage

text \<open>One iteration of \<open>readPump\<close>, its end, and the two cases of \<open>writePump\<close>'s select.  \<open>wrote\<close> says whether the
  connection took the frame.\<close>

definition readPump_message :: "('r, 'd) hub \<Rightarrow> chat_env \<Rightarrow> message_type \<Rightarrow> bytes \<Rightarrow> nat \<Rightarrow> ('r, 'd) chat \<Rightarrow> ('r, 'd) chat" where
  "readPump_message h E ty message i w =
     (if ty = BinaryMessage \<and> length message \<ge> 2 \<and> message ! 0 = frameByte0_ws \<and> message ! 1 = frameByte1_ws
      then handleBinaryFrame h E message i w else handleJSONTextFrame h E message i w)"

definition readPump_end :: "nat \<Rightarrow> ('r, 'd) chat \<Rightarrow> ('r, 'd) chat" where
  "readPump_end i w = on_client i (\<lambda>c. c\<lparr>c_open := False, c_reading := False\<rparr>) (unregisterAll i w)"

definition writePump_frame :: "bool \<Rightarrow> nat \<Rightarrow> ('r, 'd) chat \<Rightarrow> ('r, 'd) chat" where
  "writePump_frame wrote i w =
     on_client i (\<lambda>c. case c_send c of
        [] \<Rightarrow> c
      | f # fs \<Rightarrow> if wrote then c\<lparr>c_send := fs, c_wire := c_wire c @ [f]\<rparr>
                   else c\<lparr>c_send := fs, c_open := False, c_writing := False\<rparr>) w"

definition writePump_ping :: "bool \<Rightarrow> nat \<Rightarrow> ('r, 'd) chat \<Rightarrow> ('r, 'd) chat" where
  "writePump_ping wrote i w = (if wrote then w else on_client i (\<lambda>c. c\<lparr>c_open := False, c_writing := False\<rparr>) w)"

definition new_client :: "string \<Rightarrow> Client" where
  "new_client ip = \<lparr>c_send = [], c_uid = 0, c_nickName = [], c_icon = [], c_isGuest = False, c_authenticated = False, c_ip = ip,
     c_rooms = [], c_mutedRooms = (\<lambda>_. None), c_sendTimes = [], c_open = True, c_reading = True, c_writing = True, c_wire = []\<rparr>"

text \<open>\<open>ServeWS\<close>: \<open>upgraded\<close> says whether the upgrade succeeded.\<close>

definition ServeWS :: "bool \<Rightarrow> string \<Rightarrow> string \<Rightarrow> string \<Rightarrow> ('r, 'd) chat \<Rightarrow> ('r, 'd) chat" where
  "ServeWS upgraded xff xri remote w =
     (if \<not> upgraded then w
      else w\<lparr>ch_client := (ch_client w)(ch_next w := new_client (clientIP xff xri remote)), ch_next := ch_next w + 1\<rparr>)"

definition read_limit :: "('r, 'd) hub \<Rightarrow> int" where "read_limit h = h_maxMsgLen h + 256"

end
