(* ===== verification/HubProps.thy ===== *)
theory HubProps
  imports Hub
begin

text \<open>
  The chat's invariant over every interleaving of connections, messages, pumps and unregistering goroutines; the frame
  round trip; who may speak; and the history as a bounded log.
\<close>

section \<open>Steps\<close>

inductive hub_step :: "('r, 'd) hub \<Rightarrow> ('r, 'd) chat \<Rightarrow> ('r, 'd) chat \<Rightarrow> bool" for h where
  connect: "hub_step h w (ServeWS upgraded xff xri remote w)"
| incoming: "i < ch_next w \<Longrightarrow> c_open (ch_client w i) \<Longrightarrow> c_reading (ch_client w i) \<Longrightarrow> int (length m) \<le> read_limit h \<Longrightarrow>
    hub_step h w (readPump_message h E ty m i w)"
| read_end: "i < ch_next w \<Longrightarrow> c_reading (ch_client w i) \<Longrightarrow> hub_step h w (readPump_end i w)"
| written: "i < ch_next w \<Longrightarrow> c_writing (ch_client w i) \<Longrightarrow> (wrote \<longrightarrow> c_open (ch_client w i)) \<Longrightarrow> hub_step h w (writePump_frame wrote i w)"
| ping: "i < ch_next w \<Longrightarrow> c_writing (ch_client w i) \<Longrightarrow> (wrote \<longrightarrow> c_open (ch_client w i)) \<Longrightarrow> hub_step h w (writePump_ping wrote i w)"
| unregister: "ch_going w = gs @ i # gs' \<Longrightarrow> hub_step h w (unregisterAll i (w\<lparr>ch_going := gs @ gs'\<rparr>))"
| outside: "hub_step h w (w\<lparr>ch_redis := r, ch_db := d\<rparr>)"

definition chat_start :: "'r \<Rightarrow> 'd \<Rightarrow> ('r, 'd) chat" where
  "chat_start r d = \<lparr>ch_client = (\<lambda>_. new_client []), ch_next = 0, ch_rooms = (\<lambda>_. None), ch_redis = r, ch_db = d, ch_going = []\<rparr>"

definition hub_reachable :: "('r, 'd) hub \<Rightarrow> ('r, 'd) chat \<Rightarrow> bool" where
  "hub_reachable h w \<longleftrightarrow> (\<exists>r d. (hub_step h)\<^sup>*\<^sup>* (chat_start r d) w)"

section \<open>The invariant\<close>

definition client_inv :: "('r, 'd) hub \<Rightarrow> nat \<Rightarrow> nat \<Rightarrow> Client \<Rightarrow> bool" where
  "client_inv h n i c \<longleftrightarrow>
     length (c_send c) \<le> defaultSendQueueSize \<and> int (length (c_sendTimes c)) \<le> h_ratePerMin h \<and> distinct (c_rooms c) \<and>
     (c_rooms c \<noteq> [] \<longrightarrow> i < n \<and> c_authenticated c \<and> c_reading c \<and> list_all isSafeRoom (c_rooms c))"

definition hub_inv :: "('r, 'd) hub \<Rightarrow> ('r, 'd) chat \<Rightarrow> bool" where
  "hub_inv h w \<longleftrightarrow>
     (\<forall>room ms. ch_rooms w room = Some ms \<longrightarrow> ms \<noteq> [] \<and> distinct ms) \<and>
     (\<forall>i room. i \<in> set (members w room) \<longleftrightarrow> room \<in> set (c_rooms (ch_client w i))) \<and>
     (\<forall>i. client_inv h (ch_next w) i (ch_client w i))"

subsection \<open>Operations that leave the rooms alone\<close>

definition mild_client :: "('r, 'd) hub \<Rightarrow> Client \<Rightarrow> Client \<Rightarrow> bool" where
  "mild_client h c c' \<longleftrightarrow>
     c_rooms c' = c_rooms c \<and> c_reading c' = c_reading c \<and> (c_authenticated c \<longrightarrow> c_authenticated c') \<and>
     (length (c_send c) \<le> defaultSendQueueSize \<longrightarrow> length (c_send c') \<le> defaultSendQueueSize) \<and>
     (int (length (c_sendTimes c)) \<le> h_ratePerMin h \<longrightarrow> int (length (c_sendTimes c')) \<le> h_ratePerMin h)"

definition mild :: "('r, 'd) hub \<Rightarrow> ('r, 'd) chat \<Rightarrow> ('r, 'd) chat \<Rightarrow> bool" where
  "mild h w w' \<longleftrightarrow> ch_rooms w' = ch_rooms w \<and> ch_next w' = ch_next w \<and> (\<forall>i. mild_client h (ch_client w i) (ch_client w' i))"

lemma mild_client_refl [simp]: "mild_client h c c" by (simp add: mild_client_def)

lemma mild_refl [simp]: "mild h w w" by (simp add: mild_def)

lemma mild_trans [trans]: "mild h u v \<Longrightarrow> mild h v w \<Longrightarrow> mild h u w"
  by (auto simp: mild_def mild_client_def)

lemma mild_stores [simp]:
  "mild h u (w\<lparr>ch_redis := r\<rparr>) = mild h u w" "mild h u (w\<lparr>ch_db := d\<rparr>) = mild h u w" "mild h u (w\<lparr>ch_going := g\<rparr>) = mild h u w"
  by (simp_all add: mild_def)

lemma mild_run [simp]: "mild h u (r_run f w) = mild h u w"
  by (simp add: r_run_def)

lemma mild_on_client: "mild h u w \<Longrightarrow> (\<And>c. mild_client h c (f c)) \<Longrightarrow> mild h u (on_client i f w)"
  by (auto simp: mild_def on_client_def mild_client_def)

lemma mild_offer: "mild_client h c (offer f c)"
  by (simp add: offer_def mild_client_def)

lemma mild_sendBinary: "mild h u w \<Longrightarrow> mild h u (sendBinary h op body i w)"
  by (simp add: sendBinary_def mild_on_client mild_offer)

lemma mild_sendError: "mild h u w \<Longrightarrow> mild h u (sendError h code msg i w)"
  by (simp add: sendError_def mild_sendBinary)

lemma mild_notice: "mild h u w \<Longrightarrow> mild h u (sendSystemNotice h now room content mt i w)"
  by (simp add: sendSystemNotice_def mild_sendBinary)

lemma mild_set_mute: "mild h u w \<Longrightarrow> mild h u (set_mute room v i w)"
  by (simp add: set_mute_def mild_on_client mild_client_def)

lemma mild_push_or_drop: "mild h u w \<Longrightarrow> mild h u (push_or_drop f i w)"
  by (simp add: push_or_drop_def mild_on_client mild_offer)

lemma mild_fold_push: "mild h u w \<Longrightarrow> mild h u (fold (push_or_drop f) is w)"
  by (induction "is" arbitrary: w) (simp_all add: mild_push_or_drop)

lemma mild_broadcast: "mild h u w \<Longrightarrow> mild h u (broadcast h room op body w)"
  by (simp add: broadcast_def mild_fold_push)

lemma mild_room_row: "room_row h room w = (row, w1) \<Longrightarrow> mild h u w \<Longrightarrow> mild h u w1"
  by (auto simp: room_row_def split: option.splits prod.splits)

lemma mild_viewNum: "mild h u w \<Longrightarrow> mild h u (broadcastViewNum h room w)"
  unfolding broadcastViewNum_def by (auto simp: Let_def intro!: mild_broadcast split: prod.splits dest: mild_room_row)

lemma mild_enterNotice: "mild h u w \<Longrightarrow> mild h u (broadcastEnterNotice h now room nick w)"
  by (simp add: broadcastEnterNotice_def mild_broadcast)

lemma mild_persist: "mild h u w \<Longrightarrow> mild h u (persistHistory h room body w)"
  by (simp add: persistHistory_def Let_def split: option.splits)

lemma mild_replay_frames: "mild h u w \<Longrightarrow> mild h u (replay_frames fs i w)"
  by (induction fs i w rule: replay_frames.induct) (simp_all add: mild_on_client mild_offer)

lemma mild_replay_database: "mild h u w \<Longrightarrow> mild h u (replay_database h room i w)"
  by (simp add: replay_database_def Let_def mild_replay_frames split: option.splits prod.splits)

lemma mild_replay: "mild h u w \<Longrightarrow> mild h u (replayHistory h room i w)"
  by (simp add: replayHistory_def Let_def mild_replay_frames mild_replay_database split: option.splits prod.splits sum.splits list.splits)

lemma mild_disabled: "account_disabled h i w = (b, w1) \<Longrightarrow> mild h u w \<Longrightarrow> mild h u w1"
  by (auto simp: account_disabled_def split: option.splits prod.splits if_splits)

lemma mild_ip_list: "in_ip_list R k ip w = (b, w1) \<Longrightarrow> mild h u w \<Longrightarrow> mild h u w1"
  by (auto simp: in_ip_list_def split: prod.splits)

lemma mild_ip_banned: "ip_banned h i w = (b, w1) \<Longrightarrow> mild h u w \<Longrightarrow> mild h u w1"
  by (auto simp: ip_banned_def split: option.splits prod.splits if_splits dest: mild_ip_list)

lemma mild_msg_id: "next_msg_id h E w = (n, w1) \<Longrightarrow> mild h u w \<Longrightarrow> mild h u w1"
  by (auto simp: next_msg_id_def Let_def split: option.splits prod.splits)

lemma mild_store: "mild h u w \<Longrightarrow> mild h u (store_message h E m w)"
  by (simp add: store_message_def split: option.splits prod.splits)

lemmas mild_intros = mild_sendBinary mild_sendError mild_notice mild_set_mute mild_broadcast mild_viewNum mild_enterNotice mild_persist
  mild_replay mild_store

lemma mild_publish: "mild h u w \<Longrightarrow> mild h u (publish h E room mt content i w)"
  unfolding publish_def by (auto simp: Let_def intro!: mild_intros split: prod.splits dest: mild_msg_id)

lemma mild_allowSend: "allowSend h now c = (b, c') \<Longrightarrow> mild_client h c c'"
  using length_dropWhile_le [of "\<lambda>t. t < now - 60 * 1000000000" "c_sendTimes c"]
  by (auto simp: allowSend_def mild_client_def Let_def split: if_splits)

lemma mild_on_same: "mild h u w \<Longrightarrow> mild_client h (ch_client w i) c \<Longrightarrow> mild h u (on_client i (\<lambda>_. c) w)"
  by (auto simp: mild_def on_client_def mild_client_def)

lemma if_rule: "P a \<Longrightarrow> P b \<Longrightarrow> P (if c then a else b)" by simp

text \<open>The ways a comment can end: refused at once, refused after a lookup, dropped as empty, refused by the limiter or the
  word list, or published.\<close>

lemma handleComment_rule:
  assumes d: "account_disabled h i w = (b1, w1)" and p: "ip_banned h i w1 = (b2, w2)"
    and l: "allowSend h (he_allow E) (ch_client w2 i) = (ok, c3)"
    and "\<And>code msg. P (sendError h code msg i w)" "\<And>code msg. P (sendError h code msg i w1)" "\<And>code msg. P (sendError h code msg i w2)" "P w2"
    and "\<And>code msg. P (sendError h code msg i (on_client i (\<lambda>_. c3) w2))"
    and "\<And>room mt content. P (publish h E room mt content i (on_client i (\<lambda>_. c3) w2))"
  shows "P (handleComment h E body i w)"
  unfolding handleComment_def Let_def d p l prod.case
  by (intro if_rule [where P = P] assms(4-9))

lemma mild_comment: "mild h w (handleComment h E body i w)"
proof -
  obtain b1 w1 where d: "account_disabled h i w = (b1, w1)" by force
  obtain b2 w2 where p: "ip_banned h i w1 = (b2, w2)" by force
  obtain ok c3 where l: "allowSend h (he_allow E) (ch_client w2 i) = (ok, c3)" by force
  have 1: "mild h w w1" by (rule mild_disabled [OF d mild_refl])
  have 2: "mild h w w2" by (rule mild_ip_banned [OF p 1])
  have "mild h w (on_client i (\<lambda>_. c3) w2)" by (rule mild_on_same [OF 2 mild_allowSend [OF l]])
  then show ?thesis using 1 2 by (intro handleComment_rule [OF d p l, where P = "mild h w"] mild_sendError mild_publish mild_refl)
qed

lemma mild_bind: "mild h u w \<Longrightarrow> mild h u (bind_session h E ack key i w)"
  unfolding bind_session_def
  by (auto simp: Let_def intro!: mild_intros mild_on_client split: prod.splits sum.splits) (simp add: mild_client_def)

lemma mild_like: "mild h w (handleLike h body i w)"
  unfolding handleLike_def by (auto simp: Let_def intro!: mild_intros)

lemma hub_inv_mild: "hub_inv h w \<Longrightarrow> mild h w w' \<Longrightarrow> hub_inv h w'"
  unfolding hub_inv_def mild_def members_def client_inv_def mild_client_def by auto

subsection \<open>Operations on the rooms\<close>

lemma members_frame [simp]:
  "members (on_client i f w) = members w" "members (w\<lparr>ch_going := g\<rparr>) = members w"
  by (simp_all add: members_def on_client_def fun_eq_iff)

lemma on_client_at: "ch_client (on_client i f w) j = (if j = i then f (ch_client w i) else ch_client w j)"
  by (simp add: on_client_def)

lemma on_client_rest [simp]: "ch_rooms (on_client i f w) = ch_rooms w" "ch_next (on_client i f w) = ch_next w"
  by (simp_all add: on_client_def)

lemma members_put: "members (w\<lparr>ch_rooms := rs\<rparr>) room = (case rs room of None \<Rightarrow> [] | Some ms \<Rightarrow> ms)"
  by (simp add: members_def)

lemma hub_inv_join:
  assumes "hub_inv h w" "i < ch_next w" "c_authenticated (ch_client w i)" "c_reading (ch_client w i)" "isSafeRoom room"
  shows "hub_inv h (joinRoom room i w)"
proof -
  note v = assms(1) [unfolded hub_inv_def]
  have d: "distinct (members w room)" using v by (auto simp: members_def split: option.splits)
  have m: "members (joinRoom room i w) r = (if r = room then List.insert i (members w room) else members w r)" for r
    by (simp add: joinRoom_def Let_def members_def)
  show ?thesis unfolding hub_inv_def
  proof (intro conjI allI impI)
    fix r ms assume "ch_rooms (joinRoom room i w) r = Some ms"
    then have "ch_rooms w r = Some ms \<or> ms = List.insert i (members w room)" by (auto simp: joinRoom_def Let_def split: if_splits)
    moreover have "List.insert i (members w room) \<noteq> []" "distinct (List.insert i (members w room))"
      using d by (auto simp: List.insert_def)
    ultimately have "ms \<noteq> [] \<and> distinct ms" using conjunct1 [OF v] by auto
    then show "ms \<noteq> []" "distinct ms" by simp_all
  next
    fix j r show "(j \<in> set (members (joinRoom room i w) r)) = (r \<in> set (c_rooms (ch_client (joinRoom room i w) j)))"
      unfolding m using v by (auto simp: joinRoom_def Let_def on_client_at)
  next
    fix j
    have "client_inv h (ch_next w) i (ch_client w i)" "client_inv h (ch_next w) j (ch_client w j)" using v by blast+
    moreover have "x \<in> set (c_rooms (ch_client w i)) \<Longrightarrow> c_rooms (ch_client w i) \<noteq> []" for x by auto
    ultimately show "client_inv h (ch_next (joinRoom room i w)) j (ch_client (joinRoom room i w) j)"
      using assms(2-5) by (auto simp: joinRoom_def Let_def on_client_at client_inv_def list_all_iff)
  qed
qed

text \<open>Deleting a client from some of its rooms.\<close>

lemma room_delete_at: "room_delete i room rs r =
    (if r = room then (case rs r of None \<Rightarrow> None | Some ms \<Rightarrow> if removeAll i ms = [] then None else Some (removeAll i ms)) else rs r)"
  by (auto simp: room_delete_def Let_def split: option.splits)

lemma fold_room_delete_at: "fold (room_delete i) rooms rs r =
    (if r \<in> set rooms then (case rs r of None \<Rightarrow> None | Some ms \<Rightarrow> if removeAll i ms = [] then None else Some (removeAll i ms)) else rs r)"
  by (induction rooms arbitrary: rs) (auto simp: room_delete_at split: option.splits)

lemma hub_inv_depart:
  assumes "hub_inv h w" "set keep = set (c_rooms (ch_client w i)) - set gone" "distinct keep"
  shows "hub_inv h (on_client i (\<lambda>c. c\<lparr>c_rooms := keep\<rparr>) (w\<lparr>ch_rooms := fold (room_delete i) gone (ch_rooms w)\<rparr>))" (is "hub_inv h ?w")
proof -
  note v = assms(1) [unfolded hub_inv_def]
  have m: "members ?w r = (if r \<in> set gone then removeAll i (members w r) else members w r)" for r
    by (auto simp: members_def fold_room_delete_at split: option.splits)
  show ?thesis unfolding hub_inv_def
  proof (intro conjI allI impI)
    fix r ms assume "ch_rooms ?w r = Some ms"
    then show "ms \<noteq> []" "distinct ms"
      using v by (auto simp: fold_room_delete_at distinct_removeAll split: option.splits if_splits)
  next
    fix j r show "(j \<in> set (members ?w r)) = (r \<in> set (c_rooms (ch_client ?w j)))"
      unfolding m using v assms(2) by (auto simp: on_client_at)
  next
    fix j
    have sub: "set keep \<subseteq> set (c_rooms (ch_client w i))" using assms(2) by blast
    then have "keep \<noteq> [] \<Longrightarrow> c_rooms (ch_client w i) \<noteq> []" by auto
    moreover have "client_inv h (ch_next w) i (ch_client w i)" "client_inv h (ch_next w) j (ch_client w j)" using v by blast+
    ultimately show "client_inv h (ch_next ?w) j (ch_client ?w j)"
      using sub assms(3) by (auto simp: on_client_at client_inv_def list_all_iff)
  qed
qed

lemma hub_inv_unregister: "hub_inv h w \<Longrightarrow> hub_inv h (unregisterAll i w)"
  unfolding unregisterAll_def by (rule hub_inv_depart) simp_all

lemma hub_inv_distinct: "hub_inv h w \<Longrightarrow> distinct (c_rooms (ch_client w i))"
  by (simp add: hub_inv_def client_inv_def)

lemma leaveRoom_depart: "leaveRoom room i w =
    on_client i (\<lambda>c. c\<lparr>c_rooms := removeAll room (c_rooms (ch_client w i))\<rparr>) (w\<lparr>ch_rooms := fold (room_delete i) [room] (ch_rooms w)\<rparr>)"
  by (simp add: leaveRoom_def on_client_def)

lemma hub_inv_leave: "hub_inv h w \<Longrightarrow> hub_inv h (leaveRoom room i w)"
  unfolding leaveRoom_depart by (rule hub_inv_depart) (simp_all add: distinct_removeAll hub_inv_distinct)

subsection \<open>Handlers\<close>

lemma mild_facts:
  "mild h w w' \<Longrightarrow> c_authenticated (ch_client w i) \<Longrightarrow> c_authenticated (ch_client w' i)"
  "mild h w w' \<Longrightarrow> c_reading (ch_client w' i) = c_reading (ch_client w i)" "mild h w w' \<Longrightarrow> ch_next w' = ch_next w"
  by (simp_all add: mild_def mild_client_def)

lemma mild_live_check: "live_check h E room i w = (live, w1) \<Longrightarrow> mild h w w1"
  using mild_room_row [of h room w _ _ w]
  by (auto simp: live_check_def intro!: mild_intros split: prod.splits option.splits if_splits)

lemma mild_enter_room: "mild h (joinRoom room i w) (enter_room h E room live i w)"
  by (simp add: enter_room_def Let_def mild_intros)

lemma hub_inv_enter:
  assumes "hub_inv h w" "i < ch_next w" "c_reading (ch_client w i)"
  shows "hub_inv h (handleRoomEnter h E body i w)"
proof (cases "c_authenticated (ch_client w i) \<and> isSafeRoom (wb_RoomNum (body_of roomEnterBody body))")
  case True
  let ?room = "wb_RoomNum (body_of roomEnterBody body)"
  obtain live w1 where l: "live_check h E ?room i w = (live, w1)" by force
  note 1 = mild_live_check [OF l]
  have "hub_inv h (joinRoom ?room i w1)"
    using hub_inv_join [OF hub_inv_mild [OF assms(1) 1]] mild_facts [OF 1] assms(2,3) True by simp
  then have "hub_inv h (enter_room h E ?room live i w1)" using hub_inv_mild mild_enter_room by blast
  moreover have "?room \<noteq> []" using True by (auto simp: isSafeRoom_def)
  ultimately show ?thesis using True l by (simp add: handleRoomEnter_def Let_def)
next
  case False
  then have "\<exists>code msg. handleRoomEnter h E body i w = sendError h code msg i w" by (auto simp: handleRoomEnter_def Let_def)
  then show ?thesis using hub_inv_mild [OF assms(1)] mild_sendError [OF mild_refl] by metis
qed

lemma hub_inv_roomLeave: "hub_inv h w \<Longrightarrow> hub_inv h (handleRoomLeave h body i w)"
proof -
  assume v: "hub_inv h w"
  let ?room = "wb_RoomNum (body_of roomBody body)"
  let ?w1 = "if ?room \<noteq> [] then leaveRoom ?room i w else w"
  have "mild h ?w1 (handleRoomLeave h body i w)" by (simp add: handleRoomLeave_def Let_def mild_intros)
  moreover have "hub_inv h ?w1" using v hub_inv_leave [OF v] by simp
  ultimately show ?thesis using hub_inv_mild by blast
qed

lemma mild_close: "mild h u w \<Longrightarrow> mild h u (close_conn i w)"
  by (simp add: close_conn_def mild_on_client mild_client_def)

lemma hub_inv_logout: "hub_inv h w \<Longrightarrow> hub_inv h (handleLogout_ws h i w)"
  unfolding handleLogout_ws_def
  by (meson hub_inv_mild hub_inv_unregister mild_close mild_refl mild_sendBinary)

lemma hub_inv_dispatch:
  assumes "hub_inv h w" "i < ch_next w" "c_reading (ch_client w i)"
  shows "hub_inv h (dispatch_ws h E op body i w)"
proof -
  have m: "mild h w w' \<Longrightarrow> hub_inv h w'" for w' using hub_inv_mild [OF assms(1)] .
  have r: "mild h w (handleSessionResume h E body i w)"
    by (simp add: handleSessionResume_def mild_bind mild_sendError)
  show ?thesis unfolding dispatch_ws_def
    by (intro if_rule [where P = "hub_inv h"] m mild_sendBinary mild_sendError mild_refl mild_comment mild_like r
        hub_inv_logout hub_inv_enter hub_inv_roomLeave assms) (simp add: handleLogin_ws_def m mild_bind)
qed

lemma hub_inv_message:
  assumes "hub_inv h w" "i < ch_next w" "c_reading (ch_client w i)"
  shows "hub_inv h (readPump_message h E ty m i w)"
  using assms hub_inv_dispatch [OF assms] hub_inv_mild [OF assms(1) mild_sendError [OF mild_refl]]
  by (simp add: readPump_message_def handleBinaryFrame_def handleJSONTextFrame_def Let_def split: sum.splits prod.splits)

lemma hub_inv_readEnd: "hub_inv h w \<Longrightarrow> hub_inv h (readPump_end i w)"
proof -
  assume "hub_inv h w"
  then have v: "hub_inv h (unregisterAll i w)" by (rule hub_inv_unregister)
  have "c_rooms (ch_client (unregisterAll i w) i) = []" by (simp add: unregisterAll_def on_client_at)
  then show ?thesis using v
    by (simp add: hub_inv_def readPump_end_def on_client_at client_inv_def)
qed

lemma hub_inv_step:
  assumes "hub_step h w w'" "hub_inv h w" "0 \<le> h_ratePerMin h"
  shows "hub_inv h w'"
  using assms
proof (cases rule: hub_step.cases)
  case (connect upgraded xff xri remote)
  have "c_rooms (ch_client w (ch_next w)) = []" using assms(2) by (auto simp: hub_inv_def client_inv_def)
  then have "ch_next w \<notin> set (members w room)" for room using assms(2) by (simp add: hub_inv_def)
  then show ?thesis using assms connect
    by (auto simp: ServeWS_def hub_inv_def client_inv_def new_client_def members_def less_Suc_eq)
next
  case (written i wrote)
  have "mild h w (writePump_frame wrote i w)" unfolding writePump_frame_def
    by (rule mild_on_client [OF mild_refl]) (auto simp: mild_client_def split: list.splits)
  then show ?thesis using hub_inv_mild assms(2) written by blast
next
  case (ping i wrote)
  have "mild h w (writePump_ping wrote i w)" by (simp add: writePump_ping_def mild_on_client mild_client_def)
  then show ?thesis using hub_inv_mild assms(2) ping by blast
next
  case (unregister gs i gs')
  have "hub_inv h (w\<lparr>ch_going := gs @ gs'\<rparr>)" using hub_inv_mild [OF assms(2)] by simp
  then show ?thesis using hub_inv_unregister unregister by blast
next
  case (outside r d)
  then show ?thesis using hub_inv_mild [OF assms(2)] by simp
qed (use assms hub_inv_message hub_inv_readEnd in blast)+

lemma hub_inv_start: "0 \<le> h_ratePerMin h \<Longrightarrow> hub_inv h (chat_start r d)"
  by (simp add: hub_inv_def chat_start_def members_def client_inv_def new_client_def)

lemma hub_inv_reachable:
  assumes "hub_reachable h w" "0 \<le> h_ratePerMin h"
  shows "hub_inv h w"
proof -
  obtain r d where "(hub_step h)\<^sup>*\<^sup>* (chat_start r d) w" using assms(1) by (auto simp: hub_reachable_def)
  then show ?thesis by (induction rule: rtranclp_induct) (simp_all add: hub_inv_start hub_inv_step assms(2))
qed

section \<open>Frames\<close>

lemma length_Encrypt: "length key = 16 \<Longrightarrow> Encrypt body key = Inr ct \<Longrightarrow> length ct = 16 * (length body div 16 + 1)"
  using Encrypt_16 [of key body] by auto

lemma handleBinaryFrame_encoded:
  assumes "length (h_reqKey h) = 16" "length body < 2 ^ 32 - 16"
  shows "handleBinaryFrame h E (encodeBinaryFrame op body (h_reqKey h)) i w = dispatch_ws h E op body i w"
proof -
  obtain ct where ct: "Encrypt body (h_reqKey h) = Inr ct" "Decrypt ct (h_reqKey h) = Inr body"
    using Encrypt_16 [OF assms(1), of body] Decrypt_Encrypt_16 [OF assms(1), of body] by metis
  define c where "c = (if body = [] then [] else ct)"
  have len: "length c < 2 ^ 32" "c = [] \<longleftrightarrow> body = []"
    using length_Encrypt [OF assms(1) ct(1)] assms(2) by (auto simp: c_def)
  obtain o1 o2 where op: "put_uint16 op = [o1, o2]" by (simp add: put_uint16_def)
  obtain l1 l2 l3 l4 where l: "put_uint32 (of_nat (length c)) = [l1, l2, l3, l4]" by (rule put_uint32_cases)
  have f: "encodeBinaryFrame op body (h_reqKey h) = [frameByte0_ws, frameByte1_ws, o1, o2, l1, l2, l3, l4] @ c"
    using ct(1) op l by (simp add: encodeBinaryFrame_def encryptFrameBody_def Let_def c_def split: if_splits)
  have n: "unat (of_nat (length c) :: 32 word) = length c" using len(1) by (simp add: unsigned_of_nat take_bit_nat_eq_self_iff)
  have z: "(0 :: 32 word) < of_nat (length c) \<longleftrightarrow> c \<noteq> []" using n by (auto simp: word_less_nat_alt)
  show ?thesis unfolding f
    using n z len(2) ct(2) get_put_uint16 [OF op] get_put_uint32 [OF l]
    by (auto simp: handleBinaryFrame_def frameHeaderLen_ws_def decryptFrameBody_def Let_def c_def numeral_eq_Suc split: if_splits)
qed

section \<open>Who may speak\<close>

definition may_speak :: "Client \<Rightarrow> string \<Rightarrow> bool" where
  "may_speak c room \<longleftrightarrow> c_authenticated c \<and> room \<in> set (c_rooms c) \<and> \<not> c_isGuest c \<and> c_mutedRooms c room \<noteq> Some True"

lemma comment_refused_early:
  assumes "\<not> may_speak (ch_client w i) (wb_RoomNum (body_of commentBody body))"
  shows "\<exists>code msg. handleComment h E body i w = sendError h code msg i w"
  using assms by (auto simp: handleComment_def Let_def may_speak_def)

lemma encode_rune_high: "128 \<le> r \<Longrightarrow> c \<in> set (encode_rune r) \<Longrightarrow> 128 \<le> code_of c"
  by (auto simp: encode_rune_def Let_def RuneError_def split: if_splits)

definition markup :: "char set" where "markup = {CHR ''<'', CHR ''>'', CHR 0x22, CHR 0x27}"

lemma escape_rune_clean: "c \<in> set (escape_rune r) \<Longrightarrow> c \<notin> markup"
proof (cases "r < 128")
  case True
  assume c: "c \<in> set (escape_rune r)"
  show ?thesis
  proof (cases "r \<in> {0x3C, 0x3E, 0x26, 0x22, 0x27}")
    case True
    then show ?thesis using c by (auto simp: escape_rune_def markup_def)
  next
    case False
    then have "c = char_of r" using c \<open>r < 128\<close> by (simp add: escape_rune_def)
    then have "code_of c = r" using \<open>r < 128\<close> by simp
    then show ?thesis using False by (auto simp: markup_def)
  qed
next
  case False
  assume "c \<in> set (escape_rune r)"
  then have "128 \<le> code_of c" using False encode_rune_high [of r c] by (auto simp: escape_rune_def split: if_splits)
  then show ?thesis by (auto simp: markup_def)
qed

lemma sanitize_clean: "c \<in> set (sanitize s) \<Longrightarrow> c \<notin> markup"
  unfolding sanitize_def using escape_rune_clean by auto

lemma comment_content_clean: "c \<in> set (comment_content h s) \<Longrightarrow> c \<notin> markup"
  using sanitize_clean [of c s] by (auto simp: comment_content_def Let_def split: if_splits dest: in_set_takeD)

section \<open>What a comment does to the others\<close>

lemma chat_simps [simp]:
  "ch_client (w\<lparr>ch_redis := r\<rparr>) = ch_client w" "ch_client (w\<lparr>ch_db := d\<rparr>) = ch_client w"
  by simp_all

lemma sendBinary_other: "j \<noteq> i \<Longrightarrow> ch_client (sendBinary h op body i w) j = ch_client w j"
  by (simp add: sendBinary_def on_client_at)

lemma sendError_other: "j \<noteq> i \<Longrightarrow> ch_client (sendError h code msg i w) j = ch_client w j"
  by (simp add: sendError_def sendBinary_other)

lemma lookups_keep_clients:
  "account_disabled h i w = (b, w1) \<Longrightarrow> ch_client w1 = ch_client w \<and> ch_rooms w1 = ch_rooms w"
  "ip_banned h i w = (b, w1) \<Longrightarrow> ch_client w1 = ch_client w \<and> ch_rooms w1 = ch_rooms w"
  "next_msg_id h E w = (n, w1) \<Longrightarrow> ch_client w1 = ch_client w \<and> ch_rooms w1 = ch_rooms w"
  by (auto simp: account_disabled_def ip_banned_def in_ip_list_def next_msg_id_def Let_def split: option.splits prod.splits if_splits)

lemma stores_keep_clients [simp]:
  "ch_client (store_message h E m w) = ch_client w" "ch_client (persistHistory h room body w) = ch_client w"
  "ch_rooms (store_message h E m w) = ch_rooms w" "ch_rooms (persistHistory h room body w) = ch_rooms w"
  by (simp_all add: store_message_def persistHistory_def r_run_def Let_def split: option.splits prod.splits)

lemma push_or_drop_at: "ch_client (push_or_drop f i w) j = (if j = i then offer f (ch_client w i) else ch_client w j)"
  by (auto simp: push_or_drop_def on_client_at offer_def)

lemma fold_push_at: "distinct is \<Longrightarrow> ch_client (fold (push_or_drop f) is w) j = (if j \<in> set is then offer f (ch_client w j) else ch_client w j)"
  by (induction "is" arbitrary: w) (auto simp: push_or_drop_at)

lemma broadcast_at:
  "distinct (members w room) \<Longrightarrow> ch_client (broadcast h room op body w) j =
     (if j \<in> set (members w room) then offer (encodeBinaryFrame op body (h_respKey h)) (ch_client w j) else ch_client w j)"
  by (simp add: broadcast_def fold_push_at)

lemma members_eq: "ch_rooms w' = ch_rooms w \<Longrightarrow> members w' = members w"
  by (simp add: members_def fun_eq_iff)

lemma sendBinary_members [simp]: "members (sendBinary h op body i w) = members w"
  by (simp add: sendBinary_def)

lemma publish_at:
  assumes "distinct (members w room)" "j \<noteq> i"
  shows "\<exists>mt' msgID. ch_client (publish h E room mt content i w) j =
    (if j \<in> set (members w room)
     then offer (encodeBinaryFrame OpCommentPush (push_body (ch_client w i) room mt' (Instant (he_now E) div 1000000) content msgID) (h_respKey h)) (ch_client w j)
     else ch_client w j)"
proof -
  obtain msgID w1 where n: "next_msg_id h E w = (msgID, w1)" by force
  note k = lookups_keep_clients(3) [OF n]
  have m: "members w1 = members w" using k members_eq by blast
  have p: "members (persistHistory h room b (store_message h E x w1)) = members w" for b x using m members_eq stores_keep_clients(3,4) by metis
  show ?thesis
    by (intro exI [of _ "if mt = 0 then 1 else mt"] exI [of _ msgID])
      (simp add: publish_def n Let_def broadcast_at assms p k sendBinary_other)
qed

lemma if_cases: "(c \<Longrightarrow> P a) \<Longrightarrow> (\<not> c \<Longrightarrow> P b) \<Longrightarrow> P (if c then a else b)" by simp

lemma handleComment_published:
  assumes d: "account_disabled h i w = (b1, w1)" and p: "ip_banned h i w1 = (b2, w2)"
    and l: "allowSend h (he_allow E) (ch_client w2 i) = (ok, c3)"
    and "\<And>code msg. P (sendError h code msg i w)" "\<And>code msg. P (sendError h code msg i w1)" "\<And>code msg. P (sendError h code msg i w2)" "P w2"
    and "\<And>code msg. P (sendError h code msg i (on_client i (\<lambda>_. c3) w2))"
    and "may_speak (ch_client w i) (wb_RoomNum (body_of commentBody body)) \<Longrightarrow> \<not> b1 \<Longrightarrow> \<not> b2 \<Longrightarrow>
      matchBlockword (he_low E) (comment_content h (wb_Content (body_of commentBody body))) = None \<Longrightarrow>
      P (publish h E (wb_RoomNum (body_of commentBody body)) (wb_MsgType (body_of commentBody body))
          (comment_content h (wb_Content (body_of commentBody body))) i (on_client i (\<lambda>_. c3) w2))"
  shows "P (handleComment h E body i w)"
  unfolding handleComment_def Let_def d p l prod.case
  by (intro if_cases [where P = P] assms(4-9)) (simp_all add: may_speak_def)

lemma allowSend_identity:
  "allowSend h now c = (b, c') \<Longrightarrow> c_uid c' = c_uid c \<and> c_nickName c' = c_nickName c \<and> c_icon c' = c_icon c"
  by (auto simp: allowSend_def Let_def split: if_splits)

lemma push_body_cong:
  "c_uid c' = c_uid c \<and> c_nickName c' = c_nickName c \<and> c_icon c' = c_icon c \<Longrightarrow> push_body c' = push_body c"
  by (simp add: push_body_def fun_eq_iff)

lemma comment_reaches:
  assumes "hub_inv h w" "j \<noteq> i"
    and room_def: "room = wb_RoomNum (body_of commentBody body)"
  shows "ch_client (handleComment h E body i w) j = ch_client w j \<or>
    may_speak (ch_client w i) room \<and> j \<in> set (members w room) \<and>
    (\<exists>mt ms content msgID. ch_client (handleComment h E body i w) j =
       offer (encodeBinaryFrame OpCommentPush (push_body (ch_client w i) room mt ms content msgID) (h_respKey h)) (ch_client w j) \<and>
       set content \<inter> markup = {} \<and> matchBlockword (he_low E) content = None)" (is "?P (handleComment h E body i w)")
proof -
  obtain b1 w1 where d: "account_disabled h i w = (b1, w1)" by force
  obtain b2 w2 where p: "ip_banned h i w1 = (b2, w2)" by force
  obtain ok c3 where l: "allowSend h (he_allow E) (ch_client w2 i) = (ok, c3)" by force
  note k1 = lookups_keep_clients(1) [OF d] and k2 = lookups_keep_clients(2) [OF p]
  let ?w3 = "on_client i (\<lambda>_. c3) w2"
  have m: "members ?w3 = members w" using k1 k2 members_eq [of w2 w] by simp
  have dis: "distinct (members w room)" using assms(1) by (auto simp: hub_inv_def members_def split: option.splits)
  have j: "ch_client ?w3 j = ch_client w j" using k1 k2 assms(2) by (simp add: on_client_at)
  have pb: "push_body (ch_client ?w3 i) = push_body (ch_client w i)"
    using push_body_cong [OF allowSend_identity [OF l]] k1 k2 by (simp add: on_client_at)
  have "set (comment_content h (wb_Content (body_of commentBody body))) \<inter> markup = {}" using comment_content_clean by blast
  then have pub: "?P (publish h E room (wb_MsgType (body_of commentBody body)) (comment_content h (wb_Content (body_of commentBody body))) i ?w3)"
    if "may_speak (ch_client w i) room" "matchBlockword (he_low E) (comment_content h (wb_Content (body_of commentBody body))) = None"
    using publish_at [of ?w3 room j i h E "wb_MsgType (body_of commentBody body)" "comment_content h (wb_Content (body_of commentBody body))"]
      that dis assms(2) unfolding m j pb by (auto split: if_splits)
  show ?thesis
    by (rule handleComment_published [OF d p l, where P = ?P]) (use k1 k2 j pub in \<open>simp_all add: sendError_other assms(2) room_def\<close>)
qed

section \<open>The history as a bounded log\<close>

text \<open>The specification: a log that keeps its newest \<open>lim\<close> entries.\<close>

definition log_append :: "nat \<Rightarrow> 'a list \<Rightarrow> 'a \<Rightarrow> 'a list" where
  "log_append lim xs x = drop (Suc (length xs) - lim) (xs @ [x])"

lemma log_append_closed: "foldl (log_append lim) [] xs = drop (length xs - lim) xs"
proof (induction xs rule: rev_induct)
  case (snoc x xs)
  have "log_append lim (drop (length xs - lim) xs) x = drop (length (xs @ [x]) - lim) (xs @ [x])"
    by (cases "length xs \<le> lim") (auto simp: log_append_def not_le Suc_diff_le)
  then show ?case using snoc by simp
qed simp

text \<open>The history of a room that the server holds, oldest first.\<close>

definition history :: "keyspace \<Rightarrow> string \<Rightarrow> bytes list" where
  "history m room = (case list_at m (chatHistoryKeyPrefix @ room) of None \<Rightarrow> [] | Some l \<Rightarrow> map bytes_of (rev l))"

lemma list_at_put [simp]: "list_at (put_list k l t m) k = Some l"
  by (simp add: list_at_def put_list_def)

lemma list_at_expire: "list_at (m(k := map_option (\<lambda>(v, _). (v, t)) (m k))) k = list_at m k"
  by (auto simp: list_at_def split: option.splits rval.splits)

lemma rev_take_log: "0 < lim \<Longrightarrow> length l \<le> lim \<Longrightarrow> map bytes_of (rev (take lim (string_of b # l))) = log_append lim (map bytes_of (rev l)) b"
  by (simp add: log_append_def rev_take drop_map)

lemma replay_frames_all:
  "length (c_send (ch_client w i)) + length fs \<le> defaultSendQueueSize \<Longrightarrow>
   c_send (ch_client (replay_frames fs i w) i) = c_send (ch_client w i) @ fs"
  by (induction fs i w rule: replay_frames.induct) (simp_all add: on_client_at offer_def)

definition holds_history :: "('r \<Rightarrow> keyspace) \<Rightarrow> ('r \<Rightarrow> bool) \<Rightarrow> ('r, 'd) hub \<Rightarrow> string \<Rightarrow> bytes list \<Rightarrow> ('r, 'd) chat \<Rightarrow> bool" where
  "holds_history view live h room xs w \<longleftrightarrow>
     live (ch_redis w) \<and> list_at (view (ch_redis w)) (chatHistoryKeyPrefix @ room) \<noteq> None \<and> history (view (ch_redis w)) room = xs \<and>
     int (length xs) \<le> h_historyLim h"

context redis_server
begin

lemma persist_refines:
  assumes "h_rdb h = Some R" "0 < h_historyLim h" "holds_history view live h room xs w"
  shows "holds_history view live h room (log_append (nat (h_historyLim h)) xs body) (persistHistory h room body w)"
proof -
  let ?k = "chatHistoryKeyPrefix @ room" and ?lim = "nat (h_historyLim h)"
  obtain l where l: "live (ch_redis w)" "list_at (view (ch_redis w)) ?k = Some l" "xs = map bytes_of (rev l)" "length l \<le> ?lim"
    using assms(2,3) by (auto simp: holds_history_def history_def split: option.splits)
  define s1 where "s1 = snd (r_lpush R ?k (string_of body) (ch_redis w))"
  have 1: "live s1" "list_at (view s1) ?k = Some (string_of body # l)"
    using lpush_law [OF l(1,2), of "string_of body"] by (simp_all add: s1_def)
  define s2 where "s2 = snd (r_ltrim R ?k 0 (h_historyLim h - 1) s1)"
  have n: "nat (h_historyLim h - 1) + 1 = ?lim" using assms(2) by simp
  have 2: "live s2" "list_at (view s2) ?k = Some (take ?lim (string_of body # l))"
    using ltrim_law [OF 1, of "h_historyLim h - 1"] assms(2) unfolding n by (simp_all add: s2_def)
  define s3 where "s3 = snd (r_expire R ?k (24 * 3600) s2)"
  have 3: "live s3" "list_at (view s3) ?k = Some (take ?lim (string_of body # l))"
    using expire_law [OF 2(1), of "24 * 3600" ?k] 2(2) by (simp_all add: s3_def list_at_expire)
  have "ch_redis (persistHistory h room body w) = s3"
    by (simp add: persistHistory_def assms(1) r_run_def Let_def s1_def s2_def s3_def)
  then show ?thesis
    using 3 l(3,4) rev_take_log [of ?lim l body] assms(2)
    by (simp add: holds_history_def history_def log_append_def)
qed

lemma replay_refines:
  assumes "h_rdb h = Some R" "holds_history view live h room xs w" "xs \<noteq> []"
    and "length (c_send (ch_client w i)) + length xs \<le> defaultSendQueueSize"
  shows "c_send (ch_client (replayHistory h room i w) i) =
    c_send (ch_client w i) @ map (\<lambda>m. encodeBinaryFrame OpCommentPush m (h_respKey h)) xs"
proof -
  let ?k = "chatHistoryKeyPrefix @ room"
  obtain l where l: "live (ch_redis w)" "list_at (view (ch_redis w)) ?k = Some l" "xs = map bytes_of (rev l)" "int (length l) \<le> h_historyLim h"
    using assms(2) by (auto simp: holds_history_def history_def split: option.splits)
  have "r_lrange R ?k 0 (h_historyLim h) (ch_redis w) = (Inr l, ch_redis w)"
    using lrange_law [OF l(1,2), of "h_historyLim h"] l(4) by simp
  moreover have "l \<noteq> []" using l(3) assms(3) by simp
  then obtain v vs where "l = v # vs" by (cases l) auto
  moreover have "map (\<lambda>x. encodeBinaryFrame OpCommentPush (bytes_of x) (h_respKey h)) (rev l) = map (\<lambda>m. encodeBinaryFrame OpCommentPush m (h_respKey h)) xs"
    by (simp add: l(3))
  ultimately have "replayHistory h room i w = replay_frames (map (\<lambda>m. encodeBinaryFrame OpCommentPush m (h_respKey h)) xs) i w"
    by (simp add: replayHistory_def assms(1) del: rev.simps)
  then show ?thesis using replay_frames_all [of w i] assms(4) by simp
qed

lemma persists_refine:
  assumes "h_rdb h = Some R" "0 < h_historyLim h" "holds_history view live h room xs w"
  shows "holds_history view live h room (foldl (log_append (nat (h_historyLim h))) xs msgs) (fold (persistHistory h room) msgs w)"
  using assms(3) by (induction msgs arbitrary: xs w) (simp_all add: persist_refines [OF assms(1,2)])

end

section \<open>Properties\<close>

text \<open>C9: the index of the rooms.  However connections, messages, pumps, unregistering goroutines and the outside interleave, a
  client is in a room's set exactly when the room is in the client's own set; a room that exists is not empty; every member
  is authenticated, its read pump still runs and the room's name is alphanumeric; no send queue holds more than 256 frames
  and no client has sent more comments than the rate within its window.\<close>

theorem hub_rooms_consistent:
  assumes "hub_reachable (NewHub rdb respKey reqKey maxMsgLen historyLim ratePerMin cmod rmod umod) w"
  shows "(i \<in> set (members w room) \<longleftrightarrow> room \<in> set (c_rooms (ch_client w i))) \<and> ch_rooms w room \<noteq> Some [] \<and>
    (i \<in> set (members w room) \<longrightarrow> c_authenticated (ch_client w i) \<and> c_reading (ch_client w i) \<and> isSafeRoom room) \<and>
    length (c_send (ch_client w i)) \<le> 256 \<and>
    int (length (c_sendTimes (ch_client w i))) \<le> (if ratePerMin \<le> 0 then 60 else ratePerMin)"
proof -
  let ?h = "NewHub rdb respKey reqKey maxMsgLen historyLim ratePerMin cmod rmod umod"
  have "hub_inv ?h w" by (rule hub_inv_reachable [OF assms]) (simp add: NewHub_def)
  then have v: "i \<in> set (members w room) \<longleftrightarrow> room \<in> set (c_rooms (ch_client w i))" "ch_rooms w room \<noteq> Some []"
    "client_inv ?h (ch_next w) i (ch_client w i)"
    by (auto simp: hub_inv_def)
  moreover have "c_rooms (ch_client w i) \<noteq> []" if "room \<in> set (c_rooms (ch_client w i))" using that by auto
  ultimately show ?thesis by (auto simp: client_inv_def NewHub_def defaultSendQueueSize_def list_all_iff)
qed

text \<open>C10: what others see of a comment.  In a reachable state the only thing a comment frame of one client does to another client is to
  append to its queue one push frame with the sender's identity and text without HTML markup and without a
  blocked word, and only if the sender is logged in, no guest, not muted and in the room, and the other is in that room.\<close>

theorem comment_isolated:
  assumes "hub_reachable (NewHub rdb respKey reqKey maxMsgLen historyLim ratePerMin cmod rmod umod) w" and "j \<noteq> i"
    and "h = NewHub rdb respKey reqKey maxMsgLen historyLim ratePerMin cmod rmod umod" and "room = wb_RoomNum (body_of commentBody body)"
  shows "ch_client (handleComment h E body i w) j = ch_client w j \<or>
    may_speak (ch_client w i) room \<and> j \<in> set (members w room) \<and>
    (\<exists>mt ms content msgID. ch_client (handleComment h E body i w) j =
       offer (encodeBinaryFrame OpCommentPush (push_body (ch_client w i) room mt ms content msgID) (h_respKey h)) (ch_client w j) \<and>
       set content \<inter> markup = {} \<and> matchBlockword (he_low E) content = None)"
proof -
  have "hub_inv h w" unfolding assms(3) by (rule hub_inv_reachable [OF assms(1)]) (simp add: NewHub_def)
  then show ?thesis using comment_reaches [OF _ assms(2,4)] by blast
qed

text \<open>C34: a frame a client encodes with the request key is dispatched with its opcode and its body.\<close>

theorem frame_roundtrip_ws:
  assumes "length (h_reqKey h) = 16" and "length body < 2 ^ 32 - 16"
  shows "readPump_message h E BinaryMessage (encodeBinaryFrame op body (h_reqKey h)) i w = dispatch_ws h E op body i w"
proof -
  have "readPump_message h E BinaryMessage (encodeBinaryFrame op body (h_reqKey h)) i w =
      handleBinaryFrame h E (encodeBinaryFrame op body (h_reqKey h)) i w"
    by (simp add: readPump_message_def encodeBinaryFrame_def Let_def put_uint16_def)
  then show ?thesis using handleBinaryFrame_encoded [OF assms] by simp
qed

text \<open>C11: the room history refines a bounded log.  Over a reachable Redis whose list for the room is empty, storing messages
  and then replaying them to a client with room in its queue sends exactly the newest \<open>historyLim\<close> of them, oldest
  first.\<close>

theorem history_replays_log:
  assumes "redis_server R view live dbl" and "h_rdb h = Some R" and "0 < h_historyLim h"
    and "live (ch_redis w)" and "list_at (view (ch_redis w)) (chatHistoryKeyPrefix @ room) = Some []" and "msgs \<noteq> []"
    and "w' = fold (persistHistory h room) msgs w"
    and "int (length (c_send (ch_client w i))) + h_historyLim h \<le> int defaultSendQueueSize"
  shows "c_send (ch_client (replayHistory h room i w') i) = c_send (ch_client w i) @
    map (\<lambda>m. encodeBinaryFrame OpCommentPush m (h_respKey h)) (drop (length msgs - nat (h_historyLim h)) msgs)"
proof -
  let ?log = "drop (length msgs - nat (h_historyLim h)) msgs"
  have "holds_history view live h room [] w"
    using assms(1,3-5) by (simp add: holds_history_def history_def)
  from redis_server.persists_refine [OF assms(1-3) this, of msgs]
  have hold: "holds_history view live h room ?log w'" by (simp add: assms(7) log_append_closed)
  have len: "length ?log \<le> nat (h_historyLim h)" by simp
  have c: "ch_client w' = ch_client w" unfolding assms(7) by (induction msgs arbitrary: w) simp_all
  have ne: "?log \<noteq> []" using assms(3,6) by (cases msgs) auto
  have "length (c_send (ch_client w' i)) + length ?log \<le> defaultSendQueueSize" using len assms(3,8) unfolding c by linarith
  from redis_server.replay_refines [OF assms(1,2) hold ne this] show ?thesis unfolding c .
qed

end
