(* ===== verification/HubDemo.thy ===== *)
theory HubDemo
  imports HubProps
begin

text \<open>
  The chat on an in-memory Redis: a run in which two clients connect, log in and enter a room, and the properties of
  \<open>HubProps\<close> at it.
\<close>

section \<open>An instance\<close>

text \<open>Two clients log in and enter a room through the text protocol; the hub has a reachable Redis with their
  sessions, no database and no keys.\<close>

definition demo_hub :: "(mem, unit) hub" where
  "demo_hub = NewHub (Some mem_redis) [] [] 500 50 60 None None None"

definition demo_session :: "int \<Rightarrow> string \<Rightarrow> Session" where
  "demo_session uid nick = zero_session\<lparr>UID := uid, NickName := nick\<rparr>"

definition chat_redis :: mem where
  "chat_redis = mput (sessKeyPrefix @ ''a'') (Some (RStr (json_print (session_json (demo_session 1 ''ann''))), None))
     (mput (sessKeyPrefix @ ''b'') (Some (RStr (json_print (session_json (demo_session 2 ''bob''))), None)) mem_empty)"

definition chat_demo_env :: chat_env where
  "chat_demo_env = \<lparr>he_session = 0, he_notice = 0, he_enter = 0, he_allow = 0, he_now = \<lparr>Instant = 0, Rfc3339 = []\<rparr>,
     he_created = \<lparr>Instant = 0, Rfc3339 = []\<rparr>, he_low = id\<rparr>"

definition says :: "nat \<Rightarrow> json \<Rightarrow> (mem, unit) chat \<Rightarrow> (mem, unit) chat" where
  "says i j = readPump_message demo_hub chat_demo_env TextMessage (bytes_of (json_print j)) i"

definition log_in :: "string \<Rightarrow> json" where "log_in k = JObj [(''key'', JStr k), (''op'', jint 1001)]"
definition go_in :: json where "go_in = JObj [(''op'', jint 1003), (''roomNum'', JStr ''7'')]"
definition talk :: bytes where "talk = bytes_of (json_print (JObj [(''content'', JStr ''hi''), (''roomNum'', JStr ''7'')]))"

definition logged_in :: "(mem, unit) chat" where
  "logged_in = says 1 (log_in ''b'') (says 0 (log_in ''a'') (ServeWS True [] [] ''h:2'' (ServeWS True [] [] ''h:1'' (chat_start chat_redis ()))))"

definition demo_chat :: "(mem, unit) chat" where
  "demo_chat = says 1 go_in (says 0 go_in logged_in)"

lemma unmarshal_printed:
  "wf_json j \<Longrightarrow> jdepth j \<le> max_depth \<Longrightarrow> unmarshal_struct fs (string_of (bytes_of (json_print j))) z = decode_struct fs j z"
  by (simp add: unmarshal_struct_def json_parse_print)

lemma uint16_jint: "0 \<le> n \<Longrightarrow> n < 2 ^ 16 \<Longrightarrow> dec_uint16 upd (jint n) s = (False, upd n s)"
proof -
  assume n: "0 \<le> n" "n < 2 ^ 16"
  have "CHR ''-'' \<notin> set (itoa n)" using n(1) digits_nat_digits [of "nat n"] by (auto simp: itoa_def list_all_iff is_digit_def)
  then have "\<not> has_prefix (itoa n) ''-''" by (cases "itoa n") (auto simp: has_prefix_def)
  then show ?thesis using n parse_int_itoa [of n] by (simp add: dec_uint16_def jint_def)
qed

lemma says_log_in:
  assumes "ascii k" "k \<noteq> []"
  shows "says i (log_in k) w = bind_session demo_hub chat_demo_env OpLoginSuccess k i w"
proof -
  have v: "valid_utf8 k" using assms valid_utf8_ascii by blast
  have "unmarshal_struct textBody (string_of (bytes_of (json_print (log_in k)))) zero_body = (False, zero_body\<lparr>wb_Key := k, wb_Op := 1001\<rparr>)"
    using v by (subst unmarshal_printed)
      (simp_all add: log_in_def max_depth_def valid_utf8_ascii ascii_def decode_struct_def textBody_def lookup_field_def uint16_jint)
  moreover have "unmarshal_struct loginBody (string_of (bytes_of (json_print (JObj [(''key'', JStr k)])))) zero_body = (False, zero_body\<lparr>wb_Key := k\<rparr>)"
    using v by (subst unmarshal_printed) (simp_all add: max_depth_def valid_utf8_ascii ascii_def decode_struct_def loginBody_def lookup_field_def)
  ultimately show ?thesis using assms(2)
    by (simp add: says_def readPump_message_def handleJSONTextFrame_def text_members_def zero_body_def dispatch_ws_def opcode_defs
        handleLogin_ws_def body_of_def)
qed

lemma says_go_in:
  assumes "c_authenticated (ch_client w i)"
  shows "says i go_in w = enter_room demo_hub chat_demo_env ''7'' True i w"
proof -
  have "unmarshal_struct textBody (string_of (bytes_of (json_print go_in))) zero_body = (False, zero_body\<lparr>wb_Op := 1003, wb_RoomNum := ''7''\<rparr>)"
    by (subst unmarshal_printed)
      (simp_all add: go_in_def max_depth_def valid_utf8_ascii ascii_def decode_struct_def textBody_def lookup_field_def uint16_jint)
  moreover have "unmarshal_struct roomEnterBody (string_of (bytes_of (json_print (JObj [(''roomNum'', JStr ''7'')])))) zero_body =
      (False, zero_body\<lparr>wb_RoomNum := ''7''\<rparr>)"
    by (subst unmarshal_printed) (simp_all add: max_depth_def valid_utf8_ascii ascii_def decode_struct_def roomEnterBody_def lookup_field_def)
  moreover have "isSafeRoom ''7''" by (simp add: isSafeRoom_def runes_ascii ascii_def)
  ultimately show ?thesis using assms
    by (simp add: says_def readPump_message_def handleJSONTextFrame_def text_members_def zero_body_def dispatch_ws_def opcode_defs
        handleRoomEnter_def body_of_def live_check_def room_row_def demo_hub_def NewHub_def)
qed

lemma demo_Get:
  "ch_redis w = chat_redis \<Longrightarrow> Get (h_sessions demo_hub) 0 ''a'' (ch_redis w) = (Inr (demo_session 1 ''ann''), chat_redis)"
  "ch_redis w = chat_redis \<Longrightarrow> Get (h_sessions demo_hub) 0 ''b'' (ch_redis w) = (Inr (demo_session 2 ''bob''), chat_redis)"
proof -
  have ok: "session_ok (demo_session 1 ''ann'')" "session_ok (demo_session 2 ''bob'')"
    by (simp_all add: session_ok_def demo_session_def zero_session_def int64_def valid_utf8_ascii ascii_def)
  have st: "ss_rdb (h_sessions demo_hub) = Some mem_redis" by (simp add: demo_hub_def NewHub_def NewSessionStore_def)
  show "ch_redis w = chat_redis \<Longrightarrow> Get (h_sessions demo_hub) 0 ''a'' (ch_redis w) = (Inr (demo_session 1 ''ann''), chat_redis)"
    using memr.Get_stored [OF st _ ok(1), of chat_redis "''a''" None 0] by (simp add: chat_redis_def demo_session_def zero_session_def)
  show "ch_redis w = chat_redis \<Longrightarrow> Get (h_sessions demo_hub) 0 ''b'' (ch_redis w) = (Inr (demo_session 2 ''bob''), chat_redis)"
    using memr.Get_stored [OF st _ ok(2), of chat_redis "''b''" None 0] by (simp add: chat_redis_def demo_session_def zero_session_def)
qed

text \<open>Entering a room changes no client's connection, guest flag or mutes.\<close>

definition status :: "Client \<Rightarrow> bool \<times> bool \<times> (string \<Rightarrow> bool option)" where
  "status c = (c_open c, c_isGuest c, c_mutedRooms c)"

lemma status_offer: "status (offer f c) = status c" by (simp add: offer_def status_def)

lemma status_sendBinary: "status (ch_client (sendBinary h op body i w) j) = status (ch_client w j)"
  by (simp add: sendBinary_def on_client_at status_offer)

lemma status_fold: "status (ch_client (fold (push_or_drop f) is w) j) = status (ch_client w j)"
  by (induction "is" arbitrary: w) (auto simp: push_or_drop_at status_offer)

lemma status_broadcast: "status (ch_client (broadcast h room op body w) j) = status (ch_client w j)"
  by (simp add: broadcast_def status_fold)

lemma status_replay_frames: "status (ch_client (replay_frames fs i w) j) = status (ch_client w j)"
  by (induction fs i w rule: replay_frames.induct) (auto simp: on_client_at status_offer)

lemma status_replay: "status (ch_client (replayHistory h room i w) j) = status (ch_client w j)"
  by (simp add: replayHistory_def replay_database_def Let_def status_replay_frames split: option.splits prod.splits sum.splits list.splits)

lemma status_viewNum: "status (ch_client (broadcastViewNum h room w) j) = status (ch_client w j)"
  by (auto simp: broadcastViewNum_def room_row_def Let_def status_broadcast split: option.splits prod.splits)

lemma status_enter: "status (ch_client (enter_room h E room live i w) j) = status (ch_client w j)"
proof -
  have "status (ch_client (joinRoom room i w) j) = status (ch_client w j)" by (simp add: joinRoom_def Let_def on_client_at status_def)
  then show ?thesis
    by (simp add: enter_room_def Let_def status_replay status_viewNum status_sendBinary broadcastEnterNotice_def status_broadcast)
qed

lemma enter_facts:
  "members (enter_room h E room live i w) room' = members (joinRoom room i w) room'"
  "c_rooms (ch_client (enter_room h E room live i w) j) = c_rooms (ch_client (joinRoom room i w) j)"
  "c_authenticated (ch_client (joinRoom room i w) j) \<Longrightarrow> c_authenticated (ch_client (enter_room h E room live i w) j)"
  "c_reading (ch_client (enter_room h E room live i w) j) = c_reading (ch_client (joinRoom room i w) j)"
  "ch_next (enter_room h E room live i w) = ch_next w"
  using mild_enter_room [of h room i w E live]
  by (simp_all add: mild_def mild_client_def members_def joinRoom_def Let_def)

definition connected :: "(mem, unit) chat" where
  "connected = ServeWS True [] [] ''h:2'' (ServeWS True [] [] ''h:1'' (chat_start chat_redis ()))"

lemma same_redis: "ch_redis w = r \<Longrightarrow> w\<lparr>ch_redis := r\<rparr> = (w :: ('r, 'd) chat)"
  by (cases w) simp

lemma members_join: "members (joinRoom room i w) r = (if r = room then List.insert i (members w room) else members w r)"
  by (simp add: joinRoom_def Let_def members_def)

lemma says_a: "ch_redis w = chat_redis \<Longrightarrow> says 0 (log_in ''a'') w = sendBinary demo_hub OpLoginSuccess empty_object 0
    (on_client 0 (\<lambda>c. c\<lparr>c_uid := 1, c_nickName := ''ann'', c_icon := [], c_isGuest := False, c_authenticated := True\<rparr>) w)"
  using demo_Get(1) [of w] by (subst says_log_in)
    (auto simp: ascii_def bind_session_def chat_demo_env_def Let_def demo_session_def zero_session_def same_redis)

lemma says_b: "ch_redis w = chat_redis \<Longrightarrow> says 1 (log_in ''b'') w = sendBinary demo_hub OpLoginSuccess empty_object 1
    (on_client 1 (\<lambda>c. c\<lparr>c_uid := 2, c_nickName := ''bob'', c_icon := [], c_isGuest := False, c_authenticated := True\<rparr>) w)"
  using demo_Get(2) [of w] by (subst says_log_in)
    (auto simp: ascii_def bind_session_def chat_demo_env_def Let_def demo_session_def zero_session_def same_redis)

lemma connected_facts:
  "ch_redis connected = chat_redis" "ch_next connected = 2" "ch_rooms connected = (\<lambda>_. None)" "c_rooms (ch_client connected j) = []"
  "c_reading (ch_client connected j)" "status (ch_client connected j) = (True, False, \<lambda>_. None)" "c_send (ch_client connected j) = []"
  by (simp_all add: connected_def ServeWS_def chat_start_def new_client_def status_def)

definition ann_in :: "(mem, unit) chat" where "ann_in = says 0 (log_in ''a'') connected"

lemma logged_in_eq: "logged_in = says 1 (log_in ''b'') ann_in"
  by (simp add: logged_in_def ann_in_def connected_def)

lemma ann_in_facts:
  "ch_redis ann_in = chat_redis" "ch_next ann_in = 2" "ch_rooms ann_in = (\<lambda>_. None)" "c_rooms (ch_client ann_in j) = []"
  "c_authenticated (ch_client ann_in 0)" "c_reading (ch_client ann_in j)" "status (ch_client ann_in j) = (True, False, \<lambda>_. None)"
  using connected_facts says_a [OF connected_facts(1)]
  by (auto simp: ann_in_def sendBinary_def on_client_at offer_def status_def on_client_def)

lemma logged_in_facts:
  "ch_next logged_in = 2" "ch_rooms logged_in = (\<lambda>_. None)" "c_rooms (ch_client logged_in j) = []"
  "c_authenticated (ch_client logged_in 0)" "c_authenticated (ch_client logged_in 1)" "c_reading (ch_client logged_in j)"
  "status (ch_client logged_in j) = (True, False, \<lambda>_. None)"
  using ann_in_facts says_b [OF ann_in_facts(1)]
  by (auto simp: logged_in_eq sendBinary_def on_client_at offer_def status_def on_client_def)

definition ann_there :: "(mem, unit) chat" where "ann_there = says 0 go_in logged_in"

lemma ann_there_facts:
  "ch_next ann_there = 2" "members ann_there ''7'' = [0]" "c_rooms (ch_client ann_there 0) = [''7'']" "c_rooms (ch_client ann_there 1) = []"
  "c_authenticated (ch_client ann_there 0)" "c_authenticated (ch_client ann_there 1)" "c_reading (ch_client ann_there j)"
  "status (ch_client ann_there j) = (True, False, \<lambda>_. None)"
proof -
  have "members logged_in ''7'' = []" using logged_in_facts(2) by (simp add: members_def)
  then show "members ann_there ''7'' = [0]" using logged_in_facts by (simp add: ann_there_def says_go_in enter_facts members_join)
qed (use logged_in_facts in \<open>simp_all add: ann_there_def says_go_in enter_facts status_enter joinRoom_def Let_def on_client_at\<close>)

lemma demo_chat_facts:
  "ch_next demo_chat = 2" "members demo_chat ''7'' = [1, 0]" "c_authenticated (ch_client demo_chat 0)" "''7'' \<in> set (c_rooms (ch_client demo_chat 0))"
  "status (ch_client demo_chat j) = (True, False, \<lambda>_. None)"
  using ann_there_facts
  by (simp_all add: demo_chat_def ann_there_def [symmetric] says_go_in enter_facts(1,2,4,5) status_enter members_join)
    (simp_all add: enter_facts(3) joinRoom_def Let_def on_client_at)

lemma says_step:
  assumes "i < ch_next w" "status (ch_client w i) = (True, False, \<lambda>_. None)" "c_reading (ch_client w i)" "int (length (bytes_of (json_print j))) \<le> read_limit demo_hub"
  shows "hub_step demo_hub w (says i j w)"
  unfolding says_def using assms by (intro hub_step.incoming) (simp_all add: status_def)

lemma demo_reachable: "hub_reachable demo_hub demo_chat"
proof -
  have ops: "itoa 1001 = ''1001''" "itoa 1003 = ''1003''" by code_simp+
  have lens: "length (bytes_of (json_print (log_in ''a''))) = 21" "length (bytes_of (json_print (log_in ''b''))) = 21" "length (bytes_of (json_print go_in)) = 25"
    by (simp_all add: log_in_def go_in_def jint_def json_quote_def runes_ascii ascii_def esc_rune_def RuneError_def ops)
  have lim: "read_limit demo_hub = 756" by (simp add: read_limit_def demo_hub_def NewHub_def)
  let ?c1 = "ServeWS True [] [] ''h:1'' (chat_start chat_redis ())"
  have "hub_step demo_hub (chat_start chat_redis ()) ?c1" "hub_step demo_hub ?c1 connected"
    unfolding connected_def by (rule hub_step.connect)+
  moreover have "hub_step demo_hub connected ann_in" unfolding ann_in_def
    by (rule says_step) (simp_all add: connected_facts lens [simplified] lim)
  moreover have "hub_step demo_hub ann_in logged_in" unfolding logged_in_eq
    by (rule says_step) (simp_all add: ann_in_facts lens [simplified] lim)
  moreover have "hub_step demo_hub logged_in ann_there" unfolding ann_there_def
    by (rule says_step) (simp_all add: logged_in_facts lens [simplified] lim)
  moreover have "hub_step demo_hub ann_there demo_chat" unfolding demo_chat_def ann_there_def [symmetric]
    by (rule says_step) (simp_all add: ann_there_facts lens [simplified] lim)
  ultimately have "(hub_step demo_hub)\<^sup>*\<^sup>* (chat_start chat_redis ()) demo_chat"
    by (meson converse_rtranclp_into_rtranclp rtranclp.rtrancl_refl)
  then show ?thesis by (auto simp: hub_reachable_def)
qed

theorem hub_rooms_consistent_witness:
  "0 \<in> set (members demo_chat ''7'') \<and> ''7'' \<in> set (c_rooms (ch_client demo_chat 0)) \<and> c_authenticated (ch_client demo_chat 0) \<and>
    length (c_send (ch_client demo_chat 0)) \<le> 256"
  using hub_rooms_consistent [OF demo_reachable [unfolded demo_hub_def], of 0 "''7''"] demo_chat_facts(2) by simp

lemma talk_body: "body_of commentBody talk = zero_body\<lparr>wb_RoomNum := ''7'', wb_Content := ''hi''\<rparr>"
  unfolding body_of_def talk_def
  by (subst unmarshal_printed) (simp_all add: max_depth_def valid_utf8_ascii ascii_def decode_struct_def commentBody_def lookup_field_def)

lemma talk_allowed: "may_speak (ch_client demo_chat 0) ''7''"
  using demo_chat_facts(3-5) by (simp add: may_speak_def status_def)

theorem comment_isolated_witness:
  "ch_client (handleComment demo_hub chat_demo_env talk 0 demo_chat) 1 = ch_client demo_chat 1 \<or>
    may_speak (ch_client demo_chat 0) ''7'' \<and> 1 \<in> set (members demo_chat ''7'') \<and>
    (\<exists>mt ms content msgID. ch_client (handleComment demo_hub chat_demo_env talk 0 demo_chat) 1 =
       offer (encodeBinaryFrame OpCommentPush (push_body (ch_client demo_chat 0) ''7'' mt ms content msgID) []) (ch_client demo_chat 1) \<and>
       set content \<inter> markup = {} \<and> matchBlockword id content = None)"
proof -
  have "h_respKey demo_hub = []" "he_low chat_demo_env = id" "wb_RoomNum (body_of commentBody talk) = ''7''"
    by (simp_all add: demo_hub_def NewHub_def chat_demo_env_def talk_body)
  then show ?thesis
    using comment_isolated [OF demo_reachable [unfolded demo_hub_def], of 1 0 demo_hub "''7''" talk chat_demo_env] by (simp add: demo_hub_def)
qed

theorem frame_roundtrip_ws_witness:
  "readPump_message (demo_hub\<lparr>h_reqKey := replicate 16 0\<rparr>) chat_demo_env BinaryMessage (encodeBinaryFrame OpHeart [1, 2] (replicate 16 0)) 0 demo_chat =
    dispatch_ws (demo_hub\<lparr>h_reqKey := replicate 16 0\<rparr>) chat_demo_env OpHeart [1, 2] 0 demo_chat"
  using frame_roundtrip_ws [of "demo_hub\<lparr>h_reqKey := replicate 16 0\<rparr>" "[1, 2]" chat_demo_env OpHeart 0 demo_chat] by simp

theorem history_replays_log_witness:
  "c_send (ch_client (replayHistory (demo_hub\<lparr>h_historyLim := 2\<rparr>) ''7'' 0
      (fold (persistHistory (demo_hub\<lparr>h_historyLim := 2\<rparr>) ''7'') [[1], [2], [3]] connected)) 0) =
    [encodeBinaryFrame OpCommentPush [2] [], encodeBinaryFrame OpCommentPush [3] []]"
proof -
  have r: "ch_redis connected = chat_redis" "c_send (ch_client connected 0) = []" using connected_facts by simp_all
  have "list_at (mem_view chat_redis) (chatHistoryKeyPrefix @ ''7'') = Some []" "mem_up chat_redis"
    by (simp_all add: chat_redis_def chatHistoryKeyPrefix_def sessKeyPrefix_def list_at_def)
  then show ?thesis
    using history_replays_log [OF memr.redis_server_axioms, of "demo_hub\<lparr>h_historyLim := 2\<rparr>" connected "''7''" "[[1], [2], [3]]" _ 0] r
    by (simp add: demo_hub_def NewHub_def defaultSendQueueSize_def)
qed

end
