(* ===== verification/SessionSpec.thy ===== *)
theory SessionSpec
  imports Session
begin

text \<open>
  What the session store promises, as an abstract specification, and the proof that the store over Redis implements it.  The
  specification keeps a list of sessions; the store keeps two families of keys, JSON records under access tokens and
  access tokens under refresh tokens, and Redis drops either kind of key when its lifetime is over.
\<close>

section \<open>Calls of the store\<close>

text \<open>A client of the store, and Redis expiring keys between its calls.  Every call carries the readings of the clock it may make;
  \<open>CRefresh\<close> carries what the user-status callback returns.\<close>

datatype session_call =
    CIssue int string string int int
  | CGuest int
  | CGet string
  | CRevoke string
  | CRefresh string "unit + int"

datatype session_event = Op int int int session_call | Expired int "string list"

datatype session_answer = Answer "sess_error + Session" | Done

definition session_op :: "'r SessionStore \<Rightarrow> int \<Rightarrow> int \<Rightarrow> int \<Rightarrow> session_call \<Rightarrow> 'r \<times> rng \<Rightarrow> session_answer \<times> 'r \<times> rng" where
  "session_op st n1 n2 n3 c w =
     (case w of (s, t) \<Rightarrow>
        case c of
          CIssue uid nick icon ut plat \<Rightarrow> (case IssueUser st n1 uid nick icon ut plat (s, t) of (a, s', t') \<Rightarrow> (Answer a, s', t'))
        | CGuest plat \<Rightarrow> (case IssueGuest st n1 plat (s, t) of (a, s', t') \<Rightarrow> (Answer a, s', t'))
        | CGet tok \<Rightarrow> (case Get st n1 tok s of (a, s') \<Rightarrow> (Answer a, s', t))
        | CRevoke tok \<Rightarrow> (Done, Revoke st n1 tok s, t)
        | CRefresh tok status \<Rightarrow>
            (case Refresh st n1 n2 n3 tok (Some (\<lambda>uid u. (status, u))) (s, t, ()) of (a, s', t', _) \<Rightarrow> (Answer a, s', t')))"

fun session_run :: "'r redis \<Rightarrow> 'r SessionStore \<Rightarrow> session_event list \<Rightarrow> 'r \<times> rng \<Rightarrow> session_answer list" where
  "session_run R st [] w = []"
| "session_run R st (Op n1 n2 n3 c # es) w = (case session_op st n1 n2 n3 c w of (a, w') \<Rightarrow> a # session_run R st es w')"
| "session_run R st (Expired now ks # es) (s, t) = session_run R st es (snd (r_del R ks s), t)"

section \<open>The specification\<close>

definition alive_at :: "int \<Rightarrow> Session \<Rightarrow> bool" where
  "alive_at now x \<longleftrightarrow> \<not> (AccessExpireAt x > 0 \<and> now div second > AccessExpireAt x)"

definition guest :: "'r SessionStore \<Rightarrow> int \<Rightarrow> int \<Rightarrow> rng \<Rightarrow> Session" where
  "guest st now plat t =
     zero_session\<lparr>AccessToken := hex_EncodeToString (take 24 t), NickName := upperHex (take 3 (drop 24 t)), UserType := 1,
       DeviceType := platToDevice plat, Plat := plat, IsGuest := True, AccessExpireAt := (now + guestAccessTTL st) div second\<rparr>"

definition spec_find :: "int \<Rightarrow> string \<Rightarrow> Session list \<Rightarrow> Session option" where
  "spec_find now tok L = find (\<lambda>x. AccessToken x = tok \<and> alive_at now x) L"

definition spec_holder :: "int \<Rightarrow> string \<Rightarrow> Session list \<Rightarrow> Session option" where
  "spec_holder now tok L = find (\<lambda>x. \<not> IsGuest x \<and> RefreshToken x = tok \<and> alive_at now x) L"

definition spec_drop :: "Session \<Rightarrow> Session list \<Rightarrow> Session list" where
  "spec_drop x L = filter (\<lambda>y. AccessToken y \<noteq> AccessToken x) L"

definition spec_op ::
  "'r SessionStore \<Rightarrow> int \<Rightarrow> int \<Rightarrow> int \<Rightarrow> session_call \<Rightarrow> Session list \<times> rng \<Rightarrow> session_answer \<times> Session list \<times> rng" where
  "spec_op st n1 n2 n3 c w =
     (case w of (L, t) \<Rightarrow>
        case c of
          CIssue uid nick icon ut plat \<Rightarrow>
            (let x = issued st n1 uid nick icon ut plat t in (Answer (Inr x), L @ [x], drop 56 t))
        | CGuest plat \<Rightarrow> (let x = guest st n1 plat t in (Answer (Inr x), L @ [x], drop 27 t))
        | CGet tok \<Rightarrow> (Answer (case spec_find n1 tok L of None \<Rightarrow> Inl ErrSessionNotFound | Some x \<Rightarrow> Inr x), L, t)
        | CRevoke tok \<Rightarrow> (Done, (case spec_find n1 tok L of None \<Rightarrow> L | Some x \<Rightarrow> spec_drop x L), t)
        | CRefresh tok status \<Rightarrow>
            (case spec_holder n1 tok L of
               None \<Rightarrow> (Answer (Inl ErrRefreshDenied), L, t)
             | Some x \<Rightarrow>
                 if RefreshExpireAt x > 0 \<and> n2 div second > RefreshExpireAt x then (Answer (Inl ErrRefreshDenied), spec_drop x L, t)
                 else if status \<noteq> Inr 1 then (Answer (Inl ErrUserBanned), L, t)
                 else (let y = issued st n3 (UID x) (NickName x) (Icon x) (UserType x) (Plat x) t
                       in (Answer (Inr y), spec_drop x L @ [y], drop 56 t))))"

fun spec_run :: "'r SessionStore \<Rightarrow> session_event list \<Rightarrow> Session list \<times> rng \<Rightarrow> session_answer list" where
  "spec_run st [] w = []"
| "spec_run st (Op n1 n2 n3 c # es) w = (case spec_op st n1 n2 n3 c w of (a, w') \<Rightarrow> a # spec_run st es w')"
| "spec_run st (Expired now ks # es) w = spec_run st es w"

text \<open>The runs the specification is about: the clock does not go back, the values fit their fields, random tokens do not repeat
  those in the list, and Redis expires no key of a session that is still alive.\<close>

definition fresh_user :: "rng \<Rightarrow> Session list \<Rightarrow> bool" where
  "fresh_user t L \<longleftrightarrow> 56 \<le> length t \<and> list_all (\<lambda>x. AccessToken x \<noteq> hex_EncodeToString (take 24 t) \<and>
     RefreshToken x \<noteq> hex_EncodeToString (take 32 (drop 24 t))) L"

definition fresh_guest :: "rng \<Rightarrow> Session list \<Rightarrow> bool" where
  "fresh_guest t L \<longleftrightarrow> 27 \<le> length t \<and> list_all (\<lambda>x. AccessToken x \<noteq> hex_EncodeToString (take 24 t)) L"

definition clock_ok :: "int \<Rightarrow> bool" where "clock_ok n \<longleftrightarrow> 0 \<le> n \<and> n < 2 ^ 63"

definition call_ok :: "session_call \<Rightarrow> Session list \<times> rng \<Rightarrow> bool" where
  "call_ok c w =
     (case w of (L, t) \<Rightarrow>
        case c of
          CIssue uid nick icon ut plat \<Rightarrow> fresh_user t L \<and> valid_utf8 nick \<and> valid_utf8 icon \<and> list_all int64 [uid, ut, plat]
        | CGuest plat \<Rightarrow> fresh_guest t L \<and> int64 plat
        | CRefresh tok status \<Rightarrow> fresh_user t L
        | _ \<Rightarrow> True)"

definition expired_ok :: "int \<Rightarrow> string list \<Rightarrow> Session list \<Rightarrow> bool" where
  "expired_ok now ks L \<longleftrightarrow> list_all (\<lambda>x. alive_at now x \<longrightarrow>
     sessKeyPrefix @ AccessToken x \<notin> set ks \<and> refreshKeyPrefix @ RefreshToken x \<notin> set ks) L"

fun run_ok :: "'r SessionStore \<Rightarrow> int \<Rightarrow> session_event list \<Rightarrow> Session list \<times> rng \<Rightarrow> bool" where
  "run_ok st now [] w = True"
| "run_ok st now (Op n1 n2 n3 c # es) w \<longleftrightarrow>
     now \<le> n1 \<and> n1 \<le> n2 \<and> n2 \<le> n3 \<and> clock_ok n1 \<and> clock_ok n3 \<and> call_ok c w \<and> run_ok st n3 es (snd (spec_op st n1 n2 n3 c w))"
| "run_ok st now (Expired n ks # es) (L, t) \<longleftrightarrow> now \<le> n \<and> expired_ok n ks L \<and> run_ok st n es (L, t)"

section \<open>The simulation\<close>

text \<open>The sessions of the list: tokens are unique and the records can be stored.\<close>

definition sessions_ok :: "Session list \<Rightarrow> bool" where
  "sessions_ok L \<longleftrightarrow> distinct (map AccessToken L) \<and> distinct (map RefreshToken (filter (\<lambda>x. \<not> IsGuest x) L)) \<and>
     list_all (\<lambda>x. session_ok x \<and> AccessToken x \<noteq> [] \<and> (RefreshToken x = [] \<longleftrightarrow> IsGuest x)) L"

definition record_at :: "keyspace \<Rightarrow> Session \<Rightarrow> bool" where
  "record_at m x \<longleftrightarrow> (\<exists>t. m (sessKeyPrefix @ AccessToken x) = Some (RStr (json_print (session_json x)), t))"

definition pointer_at :: "keyspace \<Rightarrow> Session \<Rightarrow> bool" where
  "pointer_at m x \<longleftrightarrow> (\<exists>t. m (refreshKeyPrefix @ RefreshToken x) = Some (RStr (AccessToken x), t))"

text \<open>A keyspace represents the list at a time: what is alive is stored, and what is stored is in the list.\<close>

definition represents :: "int \<Rightarrow> Session list \<Rightarrow> keyspace \<Rightarrow> bool" where
  "represents now L m \<longleftrightarrow> sessions_ok L \<and>
     (\<forall>x \<in> set L. alive_at now x \<longrightarrow> record_at m x \<and> (\<not> IsGuest x \<longrightarrow> pointer_at m x)) \<and>
     (\<forall>a. m (sessKeyPrefix @ a) = None \<or> (\<exists>x \<in> set L. AccessToken x = a \<and> record_at m x)) \<and>
     (\<forall>r. m (refreshKeyPrefix @ r) = None \<or> (\<exists>x \<in> set L. \<not> IsGuest x \<and> RefreshToken x = r \<and> pointer_at m x))"

lemma alive_mono: "n \<le> n' \<Longrightarrow> alive_at n' x \<Longrightarrow> alive_at n x"
  using zdiv_mono1 [of n n' second] by (auto simp: alive_at_def second_def)

lemma represents_mono: "represents n L m \<Longrightarrow> n \<le> n' \<Longrightarrow> represents n' L m"
  unfolding represents_def using alive_mono [of n n'] by blast

text \<open>Tokens determine the session.\<close>

lemma access_unique: "sessions_ok L \<Longrightarrow> x \<in> set L \<Longrightarrow> y \<in> set L \<Longrightarrow> AccessToken x = AccessToken y \<Longrightarrow> x = y"
  by (auto simp: sessions_ok_def distinct_map inj_on_def)

lemma refresh_unique:
  "sessions_ok L \<Longrightarrow> x \<in> set L \<Longrightarrow> y \<in> set L \<Longrightarrow> \<not> IsGuest x \<Longrightarrow> \<not> IsGuest y \<Longrightarrow> RefreshToken x = RefreshToken y \<Longrightarrow> x = y"
  by (auto simp: sessions_ok_def distinct_map inj_on_def)

lemma find_Some_iff_unique:
  assumes "\<And>x y. x \<in> set L \<Longrightarrow> y \<in> set L \<Longrightarrow> P x \<Longrightarrow> P y \<Longrightarrow> x = y"
  shows "find P L = Some x \<longleftrightarrow> x \<in> set L \<and> P x"
  using assms by (induction L) auto

lemma spec_find_iff: "sessions_ok L \<Longrightarrow> spec_find now tok L = Some x \<longleftrightarrow> x \<in> set L \<and> AccessToken x = tok \<and> alive_at now x"
  unfolding spec_find_def by (rule find_Some_iff_unique) (auto intro: access_unique)

lemma spec_holder_iff:
  "sessions_ok L \<Longrightarrow> spec_holder now tok L = Some x \<longleftrightarrow> x \<in> set L \<and> \<not> IsGuest x \<and> RefreshToken x = tok \<and> alive_at now x"
  unfolding spec_holder_def by (rule find_Some_iff_unique) (auto intro: refresh_unique)

lemma sessions_ok_all:
  "sessions_ok L \<Longrightarrow> x \<in> set L \<Longrightarrow> session_ok x \<and> AccessToken x \<noteq> [] \<and> (RefreshToken x = [] \<longleftrightarrow> IsGuest x)"
  by (auto simp: sessions_ok_def list_all_iff)

lemma sessions_ok_drop: "sessions_ok L \<Longrightarrow> sessions_ok (spec_drop x L)"
  by (auto simp: sessions_ok_def spec_drop_def list_all_iff distinct_map inj_on_def)

definition session_keys :: "Session \<Rightarrow> string list" where
  "session_keys x = [sessKeyPrefix @ AccessToken x] @ (if RefreshToken x \<noteq> [] then [refreshKeyPrefix @ RefreshToken x] else [])"

lemma session_keys_iff:
  "sessKeyPrefix @ a \<in> set (session_keys x) \<longleftrightarrow> a = AccessToken x"
  "refreshKeyPrefix @ r \<in> set (session_keys x) \<longleftrightarrow> r = RefreshToken x \<and> r \<noteq> []"
  by (auto simp: session_keys_def sess_refresh_keys sess_refresh_keys [symmetric])

lemma drop_keeps:
  "record_at (drop_keys (session_keys x) m) y \<longleftrightarrow> record_at m y \<and> AccessToken y \<noteq> AccessToken x"
  "pointer_at (drop_keys (session_keys x) m) y \<longleftrightarrow> pointer_at m y \<and> \<not> (RefreshToken y = RefreshToken x \<and> RefreshToken y \<noteq> [])"
  by (auto simp: record_at_def pointer_at_def session_keys_iff)

lemma represents_drop:
  assumes "represents now L m" "x \<in> set L"
  shows "represents now (spec_drop x L) (drop_keys (session_keys x) m)"
proof -
  have L: "sessions_ok L" using assms(1) by (simp add: represents_def)
  note u = refresh_unique [OF L assms(2)] access_unique [OF L assms(2)]
  have d: "set (spec_drop x L) = {y \<in> set L. y \<noteq> x}" using u(2) by (fastforce simp: spec_drop_def)
  have "alive_at now y \<Longrightarrow> record_at (drop_keys (session_keys x) m) y \<and> (\<not> IsGuest y \<longrightarrow> pointer_at (drop_keys (session_keys x) m) y)"
    if "y \<in> set L" "y \<noteq> x" for y
    using assms(1) that u [of y] sessions_ok_all [OF L assms(2)] sessions_ok_all [OF L that(1)]
    unfolding represents_def drop_keeps by metis
  moreover have "drop_keys (session_keys x) m (sessKeyPrefix @ a) = None \<or>
      (\<exists>y \<in> set (spec_drop x L). AccessToken y = a \<and> record_at (drop_keys (session_keys x) m) y)" for a
    using assms(1) unfolding d drop_keeps represents_def drop_keys_apply session_keys_iff by (metis (mono_tags, lifting) mem_Collect_eq)
  moreover have "drop_keys (session_keys x) m (refreshKeyPrefix @ r) = None \<or>
      (\<exists>y \<in> set (spec_drop x L). \<not> IsGuest y \<and> RefreshToken y = r \<and> pointer_at (drop_keys (session_keys x) m) y)" for r
    using assms(1) sessions_ok_all [OF L] unfolding d drop_keeps represents_def drop_keys_apply session_keys_iff
    by (metis (mono_tags, lifting) mem_Collect_eq)
  ultimately show ?thesis unfolding represents_def using sessions_ok_drop [OF L] d by auto
qed

definition write_session :: "Session \<Rightarrow> int \<Rightarrow> keyspace \<Rightarrow> keyspace" where
  "write_session x ttl m =
     (if \<not> IsGuest x \<and> RefreshToken x \<noteq> []
      then m(sessKeyPrefix @ AccessToken x \<mapsto> (RStr (json_print (session_json x)), Some ttl),
             refreshKeyPrefix @ RefreshToken x \<mapsto> (RStr (AccessToken x), Some ttl))
      else m(sessKeyPrefix @ AccessToken x \<mapsto> (RStr (json_print (session_json x)), Some ttl)))"

text \<open>A session that can join the list.\<close>

definition admissible :: "Session \<Rightarrow> Session list \<Rightarrow> bool" where
  "admissible x L \<longleftrightarrow> session_ok x \<and> AccessToken x \<noteq> [] \<and> (RefreshToken x = [] \<longleftrightarrow> IsGuest x) \<and>
     (\<forall>y \<in> set L. AccessToken y \<noteq> AccessToken x \<and> (\<not> IsGuest x \<longrightarrow> RefreshToken y \<noteq> RefreshToken x))"

lemma write_session_keys:
  "write_session x ttl m (sessKeyPrefix @ a) =
     (if a = AccessToken x then Some (RStr (json_print (session_json x)), Some ttl) else m (sessKeyPrefix @ a))"
  "admissible x L \<Longrightarrow> write_session x ttl m (refreshKeyPrefix @ r) =
     (if \<not> IsGuest x \<and> r = RefreshToken x then Some (RStr (AccessToken x), Some ttl) else m (refreshKeyPrefix @ r))"
  by (auto simp: write_session_def admissible_def sess_refresh_keys sess_refresh_keys [symmetric])

lemma represents_add:
  assumes "represents now L m" "admissible x L"
  shows "represents now (L @ [x]) (write_session x ttl m)"
proof -
  let ?m = "write_session x ttl m"
  note k = write_session_keys(1) write_session_keys(2) [OF assms(2)]
  have L: "sessions_ok L" using assms(1) by (simp add: represents_def)
  have ok: "sessions_ok (L @ [x])" using L assms(2) by (auto simp: sessions_ok_def admissible_def)
  have new: "record_at ?m x" "\<not> IsGuest x \<Longrightarrow> pointer_at ?m x" by (auto simp: record_at_def pointer_at_def k)
  have old: "record_at ?m y \<longleftrightarrow> record_at m y" "\<not> IsGuest y \<Longrightarrow> pointer_at ?m y \<longleftrightarrow> pointer_at m y" if "y \<in> set L" for y
    using assms(2) that by (auto simp: record_at_def pointer_at_def k admissible_def)
  have "?m (sessKeyPrefix @ a) = None \<or> (\<exists>y \<in> set (L @ [x]). AccessToken y = a \<and> record_at ?m y)" for a
  proof (cases "a = AccessToken x")
    case False
    then show ?thesis using assms(1) old k(1) unfolding represents_def by (metis Un_iff set_append)
  qed (use new in auto)
  moreover have "?m (refreshKeyPrefix @ r) = None \<or> (\<exists>y \<in> set (L @ [x]). \<not> IsGuest y \<and> RefreshToken y = r \<and> pointer_at ?m y)" for r
  proof (cases "\<not> IsGuest x \<and> r = RefreshToken x")
    case False
    then show ?thesis using assms(1) old k(2) unfolding represents_def by (metis Un_iff set_append)
  qed (use new in auto)
  ultimately show ?thesis unfolding represents_def using ok new old assms(1) by (auto simp: represents_def)
qed

section \<open>Each call\<close>

lemma represents_ok: "represents now L m \<Longrightarrow> sessions_ok L" by (simp add: represents_def)

lemma hex_len_ne: "0 < n \<Longrightarrow> n \<le> length t \<Longrightarrow> hex_EncodeToString (take n t) \<noteq> []"
  by (intro hex_ne) auto

lemma expiry_int64:
  assumes "clock_ok now" "0 \<le> d" "d \<le> DefaultUserRefreshTTL"
  shows "int64 ((now + d) div second)"
proof -
  have n: "0 \<le> now" "now < 2 ^ 63" using assms(1) by (simp_all add: clock_ok_def)
  have "0 \<le> (now + d) div second" "(now + d) div second < 2 ^ 63"
    using n assms(2,3) by (simp_all add: ttl_defs div_less_iff_less_mult pos_imp_zdiv_nonneg_iff)
  then show ?thesis by (simp add: int64_def)
qed

lemma issued_admissible:
  assumes "fresh_user t L" "valid_utf8 nick" "valid_utf8 icon" "list_all int64 [uid, ut, plat]" "clock_ok now"
  shows "admissible (issued (NewSessionStore (Some R)) now uid nick icon ut plat t) L"
proof -
  have "int64 ((now + userAccessTTL (NewSessionStore (Some R))) div second)" "int64 ((now + userRefreshTTL (NewSessionStore (Some R))) div second)"
    using expiry_int64 [OF assms(5), of DefaultUserAccessTTL] expiry_int64 [OF assms(5), of DefaultUserRefreshTTL]
    by (simp_all add: NewSessionStore_def ttl_defs)
  moreover have "hex_EncodeToString (take 24 t) \<noteq> []" "hex_EncodeToString (take 32 (drop 24 t)) \<noteq> []"
    by (rule hex_len_ne; use assms(1) in \<open>auto simp: fresh_user_def\<close>)+
  ultimately show ?thesis using assms(1-4) by (auto simp: admissible_def session_ok_def issued_def fresh_user_def list_all_iff)
qed

lemma upperHex_valid: "valid_utf8 (upperHex b)"
proof (rule valid_utf8_ascii)
  have "ascii (hex_EncodeToString b)" using hex_never_space [of b] by (auto simp: ascii_def never_space_def list_all_iff)
  then show "ascii (upperHex b)" by (auto simp: upperHex_def ascii_def list_all_iff)
qed

lemma guest_admissible:
  assumes "fresh_guest t L" "int64 plat" "clock_ok now"
  shows "admissible (guest (NewSessionStore (Some R)) now plat t) L"
proof -
  have "int64 ((now + guestAccessTTL (NewSessionStore (Some R))) div second)"
    using expiry_int64 [OF assms(3), of DefaultGuestAccessTTL] by (simp add: NewSessionStore_def ttl_defs)
  moreover have "hex_EncodeToString (take 24 t) \<noteq> []" using assms(1) unfolding fresh_guest_def by (elim conjE) (simp add: hex_len_ne)
  ultimately show ?thesis using assms(1,2)
    by (auto simp: admissible_def session_ok_def guest_def zero_session_def fresh_guest_def list_all_iff upperHex_valid int64_def valid_utf8_ascii ascii_def)
qed

context redis_server
begin

lemma persist_writes:
  assumes "live s"
  obtains s' ttl where "persist (NewSessionStore (Some R)) x s = (None, s')" "live s'" "view s' = write_session x ttl (view s)"
  using persist_live [of "NewSessionStore (Some R)" s x] assms unfolding write_session_def by (metis NewSessionStore_def SessionStore.select_convs(1))

lemma IssueUser_represents:
  assumes "live s" "represents now L (view s)" "fresh_user t L" "valid_utf8 nick" "valid_utf8 icon" "list_all int64 [uid, ut, plat]" "clock_ok n"
  shows "\<exists>s'. IssueUser (NewSessionStore (Some R)) n uid nick icon ut plat (s, t) = (Inr (issued (NewSessionStore (Some R)) n uid nick icon ut plat t), s', drop 56 t) \<and>
    live s' \<and> represents now (L @ [issued (NewSessionStore (Some R)) n uid nick icon ut plat t]) (view s')"
proof -
  let ?x = "issued (NewSessionStore (Some R)) n uid nick icon ut plat t"
  obtain s' ttl where p: "persist (NewSessionStore (Some R)) ?x s = (None, s')" "live s'" "view s' = write_session ?x ttl (view s)"
    by (rule persist_writes [OF assms(1)])
  have "IssueUser (NewSessionStore (Some R)) n uid nick icon ut plat (s, t) = (Inr ?x, s', drop 56 t)"
    using assms(3) p(1) unfolding fresh_user_def by (elim conjE) (simp add: IssueUser_def randomHex_Some Let_def issued_def)
  then show ?thesis using p represents_add [OF assms(2) issued_admissible [OF assms(3-7)]] by auto
qed

lemma IssueGuest_represents:
  assumes "live s" "represents now L (view s)" "fresh_guest t L" "int64 plat" "clock_ok n"
  shows "\<exists>s'. IssueGuest (NewSessionStore (Some R)) n plat (s, t) = (Inr (guest (NewSessionStore (Some R)) n plat t), s', drop 27 t) \<and>
    live s' \<and> represents now (L @ [guest (NewSessionStore (Some R)) n plat t]) (view s')"
proof -
  let ?x = "guest (NewSessionStore (Some R)) n plat t"
  obtain s' ttl where p: "persist (NewSessionStore (Some R)) ?x s = (None, s')" "live s'" "view s' = write_session ?x ttl (view s)"
    by (rule persist_writes [OF assms(1)])
  have "27 \<le> length t" "3 \<le> length t - 24" using assms(3) by (auto simp: fresh_guest_def)
  then have "IssueGuest (NewSessionStore (Some R)) n plat (s, t) = (Inr ?x, s', drop 27 t)"
    using p(1) by (simp add: IssueGuest_def randomHex_Some GuestNickName_def rand_read_def Let_def guest_def zero_session_def)
  then show ?thesis using p represents_add [OF assms(2) guest_admissible [OF assms(3-5)]] by auto
qed

lemma Get_represents:
  assumes "live s" "represents now L (view s)" "now \<le> n"
  shows "Get (NewSessionStore (Some R)) n tok s = (case spec_find n tok L of None \<Rightarrow> Inl ErrSessionNotFound | Some x \<Rightarrow> Inr x, s)"
proof -
  have st: "ss_rdb (NewSessionStore (Some R)) = Some R" by (simp add: NewSessionStore_def)
  note rep = represents_mono [OF assms(2,3)]
  note ok = represents_ok [OF rep]
  consider (gone) "view s (sessKeyPrefix @ tok) = None" | (there) x where "x \<in> set L" "AccessToken x = tok" "record_at (view s) x"
    using rep by (metis represents_def)
  then show ?thesis
  proof cases
    case gone
    have "spec_find n tok L = None"
    proof (rule ccontr)
      assume "spec_find n tok L \<noteq> None"
      then obtain x where "x \<in> set L" "AccessToken x = tok" "alive_at n x" using spec_find_iff [OF ok] by (metis not_None_eq)
      then show False using rep gone by (auto simp: represents_def record_at_def)
    qed
    then show ?thesis using Get_missing [OF st assms(1) gone] by simp
  next
    case there
    then have "Get (NewSessionStore (Some R)) n tok s = (if alive_at n x then (Inr x, s) else (Inl ErrSessionNotFound, s))"
      using Get_stored [OF st assms(1), of x tok _ n] sessions_ok_all [OF ok there(1)] by (auto simp: record_at_def alive_at_def)
    moreover have "spec_find n tok L = (if alive_at n x then Some x else None)"
      using spec_find_iff [OF ok, of n tok] there access_unique [OF ok there(1)] by (metis not_None_eq)
    ultimately show ?thesis by simp
  qed
qed

lemma revoke_represents:
  assumes "live s" "represents now L (view s)" "x \<in> set L"
  shows "live (revoke (NewSessionStore (Some R)) (AccessToken x) (RefreshToken x) s)"
    "represents now (spec_drop x L) (view (revoke (NewSessionStore (Some R)) (AccessToken x) (RefreshToken x) s))"
  using revoke_view [of "NewSessionStore (Some R)" s "AccessToken x" "RefreshToken x"] represents_drop [OF assms(2,3)] assms(1)
  by (simp_all add: NewSessionStore_def session_keys_def)

lemma Revoke_represents:
  assumes "live s" "represents now L (view s)" "now \<le> n"
  shows "live (Revoke (NewSessionStore (Some R)) n tok s)"
    "represents n (case spec_find n tok L of None \<Rightarrow> L | Some x \<Rightarrow> spec_drop x L) (view (Revoke (NewSessionStore (Some R)) n tok s))"
proof -
  note rep = represents_mono [OF assms(2,3)]
  have st: "ss_rdb (NewSessionStore (Some R)) = Some R" by (simp add: NewSessionStore_def)
  have "tok = [] \<Longrightarrow> spec_find n tok L = None"
    using spec_find_iff [OF represents_ok [OF rep], of n tok] sessions_ok_all [OF represents_ok [OF rep]] by (metis not_None_eq)
  then have r: "Revoke (NewSessionStore (Some R)) n tok s =
      (case spec_find n tok L of None \<Rightarrow> s | Some x \<Rightarrow> revoke (NewSessionStore (Some R)) tok (RefreshToken x) s)"
    using st Get_represents [OF assms, of tok] by (auto simp: Revoke_def split: option.splits)
  have x: "spec_find n tok L = Some x \<Longrightarrow> x \<in> set L \<and> AccessToken x = tok" for x
    using spec_find_iff [OF represents_ok [OF rep]] by blast
  show "live (Revoke (NewSessionStore (Some R)) n tok s)"
    "represents n (case spec_find n tok L of None \<Rightarrow> L | Some x \<Rightarrow> spec_drop x L) (view (Revoke (NewSessionStore (Some R)) n tok s))"
    using rep assms(1) x revoke_represents [OF assms(1) rep] unfolding r by (auto split: option.splits)
qed

text \<open>The session a refresh token leads to: the two reads of \<open>Refresh\<close>.\<close>

lemma holder_reads:
  assumes "live s" "represents now L (view s)" "now \<le> n"
  shows "case spec_holder n tok L of
      Some x \<Rightarrow> tok \<noteq> [] \<and> r_get R (refreshKeyPrefix @ tok) s = (Inr (AccessToken x), s) \<and> AccessToken x \<noteq> [] \<and>
        Get (NewSessionStore (Some R)) n (AccessToken x) s = (Inr x, s) \<and> \<not> IsGuest x \<and> RefreshToken x = tok \<and> x \<in> set L
    | None \<Rightarrow> (\<exists>a. r_get R (refreshKeyPrefix @ tok) s = (Inr a, s) \<and> (a \<noteq> [] \<longrightarrow> Get (NewSessionStore (Some R)) n a s = (Inl ErrSessionNotFound, s)))"
proof -
  note rep = represents_mono [OF assms(2,3)]
  note ok = represents_ok [OF rep]
  consider (gone) "view s (refreshKeyPrefix @ tok) = None"
    | (there) x where "x \<in> set L" "\<not> IsGuest x" "RefreshToken x = tok" "pointer_at (view s) x"
    using rep by (metis represents_def)
  then show ?thesis
  proof cases
    case gone
    have "spec_holder n tok L = None"
    proof (rule ccontr)
      assume "spec_holder n tok L \<noteq> None"
      then obtain x where "x \<in> set L" "\<not> IsGuest x" "RefreshToken x = tok" "alive_at n x" using spec_holder_iff [OF ok] by (metis not_None_eq)
      then show False using rep gone by (auto simp: represents_def pointer_at_def)
    qed
    then show ?thesis using get_law [OF assms(1), of "refreshKeyPrefix @ tok" "[]"] gone by simp
  next
    case there
    then have g: "r_get R (refreshKeyPrefix @ tok) s = (Inr (AccessToken x), s)"
      using get_refresh_key [OF assms(1)] by (auto simp: pointer_at_def)
    have f: "spec_find n (AccessToken x) L = (if alive_at n x then Some x else None)"
      using spec_find_iff [OF ok, of n "AccessToken x"] there(1) access_unique [OF ok there(1)] by (metis not_None_eq)
    have h: "spec_holder n tok L = (if alive_at n x then Some x else None)"
      using spec_holder_iff [OF ok, of n tok] there refresh_unique [OF ok there(1)] by (metis not_None_eq)
    show ?thesis using g there sessions_ok_all [OF ok there(1)] by (auto simp: h Get_represents [OF assms] f)
  qed
qed

text \<open>A callback that leaves its own state alone.\<close>

lemma Refresh_by_reads:
  assumes "tok \<noteq> []" "r_get R (refreshKeyPrefix @ tok) s = (Inr a, s)" "a \<noteq> []" "Get (NewSessionStore (Some R)) n1 a s = (Inr x, s)" "\<not> IsGuest x"
  shows "Refresh (NewSessionStore (Some R)) n1 n2 n3 tok (Some (\<lambda>uid u. (status, u))) (s, t, ()) =
    (if RefreshExpireAt x > 0 \<and> n2 div second > RefreshExpireAt x
     then (Inl ErrRefreshDenied, revoke (NewSessionStore (Some R)) a (RefreshToken x) s, t, ())
     else if status \<noteq> Inr 1 then (Inl ErrUserBanned, s, t, ())
     else (case IssueUser (NewSessionStore (Some R)) n3 (UID x) (NickName x) (Icon x) (UserType x) (Plat x)
             (revoke (NewSessionStore (Some R)) a (RefreshToken x) s, t) of (r, s', t') \<Rightarrow> (r, s', t', ())))"
  using assms by (cases status) (simp_all add: Refresh_def RevokeAllForUID_def NewSessionStore_def Let_def)

lemma Refresh_represents:
  assumes "live s" "represents now L (view s)" "now \<le> n1" "n1 \<le> n2" "n2 \<le> n3" "clock_ok n3" "fresh_user t L"
    and "spec_op (NewSessionStore (Some R)) n1 n2 n3 (CRefresh tok status) (L, t) = (a, L', t')"
  shows "\<exists>s'. session_op (NewSessionStore (Some R)) n1 n2 n3 (CRefresh tok status) (s, t) = (a, s', t') \<and> live s' \<and> represents n3 L' (view s')"
proof -
  let ?st = "NewSessionStore (Some R)"
  have rep: "represents n3 L (view s)" by (rule represents_mono [OF assms(2)]) (use assms(3-5) in simp)
  note h = holder_reads [OF assms(1-3), of tok]
  show ?thesis
  proof (cases "spec_holder n1 tok L")
    case None
    then have "Refresh ?st n1 n2 n3 tok (Some (\<lambda>uid u. (status, u))) (s, t, ()) = (Inl ErrRefreshDenied, s, t, ())"
      using h by (auto simp: Refresh_def NewSessionStore_def)
    then show ?thesis using None assms(1,8) rep by (auto simp: session_op_def spec_op_def)
  next
    case (Some x)
    then have x: "tok \<noteq> []" "r_get R (refreshKeyPrefix @ tok) s = (Inr (AccessToken x), s)" "AccessToken x \<noteq> []"
      "Get ?st n1 (AccessToken x) s = (Inr x, s)" "\<not> IsGuest x" "RefreshToken x = tok" "x \<in> set L" using h by auto
    note r = Refresh_by_reads [OF x(1-5), of n2 n3 status t]
    note rv = revoke_represents [OF assms(1) rep x(7)]
    have f: "fresh_user t (spec_drop x L)" using assms(7) by (auto simp: fresh_user_def spec_drop_def list_all_iff)
    have "session_ok x" using sessions_ok_all [OF represents_ok [OF rep] x(7)] by blast
    then have v: "valid_utf8 (NickName x)" "valid_utf8 (Icon x)" "list_all int64 [UID x, UserType x, Plat x]" by (simp_all add: session_ok_def)
    note i = IssueUser_represents [OF rv f v assms(6)]
    show ?thesis using Some assms(1,8) rep rv i by (auto simp: session_op_def spec_op_def r Let_def split: if_splits)
  qed
qed

lemma session_op_simulates:
  assumes "live s" "represents now L (view s)" "now \<le> n1" "n1 \<le> n2" "n2 \<le> n3" "clock_ok n1" "clock_ok n3" "call_ok c (L, t)"
    and "spec_op (NewSessionStore (Some R)) n1 n2 n3 c (L, t) = (a, L', t')"
  shows "\<exists>s'. session_op (NewSessionStore (Some R)) n1 n2 n3 c (s, t) = (a, s', t') \<and> live s' \<and> represents n3 L' (view s')"
proof -
  let ?st = "NewSessionStore (Some R)"
  have rep: "represents n3 L (view s)" by (rule represents_mono [OF assms(2)]) (use assms(3-5) in simp)
  show ?thesis
  proof (cases c)
    case (CIssue uid nick icon ut plat)
    then show ?thesis using IssueUser_represents [OF assms(1) rep, of t nick icon uid ut plat n1] assms(6,8,9)
      by (auto simp: session_op_def spec_op_def call_ok_def Let_def)
  next
    case (CGuest plat)
    then show ?thesis using IssueGuest_represents [OF assms(1) rep, of t plat n1] assms(6,8,9)
      by (auto simp: session_op_def spec_op_def call_ok_def Let_def)
  next
    case (CGet tok)
    then show ?thesis using Get_represents [OF assms(1-3), of tok] assms(1,9) rep by (auto simp: session_op_def spec_op_def)
  next
    case (CRevoke tok)
    have "n1 \<le> n3" using assms(4,5) by simp
    then show ?thesis using CRevoke Revoke_represents [OF assms(1-3), of tok] represents_mono assms(9) by (auto simp: session_op_def spec_op_def)
  next
    case (CRefresh tok status)
    then show ?thesis using Refresh_represents [OF assms(1-5,7)] assms(8,9) by (simp add: call_ok_def)
  qed
qed

lemma expiry_simulates:
  assumes "live s" "represents now L (view s)" "now \<le> n" "expired_ok n ks L"
  shows "live (snd (r_del R ks s))" "represents n L (view (snd (r_del R ks s)))"
proof -
  have d: "live (snd (r_del R ks s))" "view (snd (r_del R ks s)) = drop_keys ks (view s)" using del_law [OF assms(1)] by auto
  note rep = represents_mono [OF assms(2,3)]
  have k: "record_at (drop_keys ks m) x \<longleftrightarrow> record_at m x \<and> sessKeyPrefix @ AccessToken x \<notin> set ks"
    "pointer_at (drop_keys ks m) x \<longleftrightarrow> pointer_at m x \<and> refreshKeyPrefix @ RefreshToken x \<notin> set ks" for m x
    by (auto simp: record_at_def pointer_at_def)
  show "live (snd (r_del R ks s))" by (rule d(1))
  show "represents n L (view (snd (r_del R ks s)))"
    using rep assms(4) unfolding represents_def d(2) k expired_ok_def list_all_iff drop_keys_apply by metis
qed

lemma session_run_refines:
  "live s \<Longrightarrow> represents now L (view s) \<Longrightarrow> run_ok (NewSessionStore (Some R)) now es (L, t) \<Longrightarrow>
   session_run R (NewSessionStore (Some R)) es (s, t) = spec_run (NewSessionStore (Some R)) es (L, t)"
proof (induction es arbitrary: now L s t)
  case (Cons e es)
  show ?case
  proof (cases e)
    case (Op n1 n2 n3 c)
    obtain a L' t' where sp: "spec_op (NewSessionStore (Some R)) n1 n2 n3 c (L, t) = (a, L', t')" by (metis prod_cases3)
    obtain s' where s': "session_op (NewSessionStore (Some R)) n1 n2 n3 c (s, t) = (a, s', t')" "live s'" "represents n3 L' (view s')"
      using session_op_simulates [OF Cons.prems(1,2) _ _ _ _ _ _ sp] Cons.prems(3) Op by auto
    then show ?thesis using Cons.IH [OF s'(2,3), of t'] Cons.prems(3) Op sp by simp
  next
    case (Expired n ks)
    then show ?thesis using Cons.IH expiry_simulates [OF Cons.prems(1,2), of n ks] Cons.prems(3) by simp
  qed
qed simp

end

section \<open>The refinement\<close>

text \<open>C5: the session store implements its specification.  Started on a Redis without sessions, every sequence of calls of the store, in
  which Redis may drop keys of dead sessions at any moment, returns exactly what a list of sessions returns: issuing adds a session,
  a token finds its session as long as it is alive, logging out removes it, and a refresh replaces the session that holds the
  refresh token.\<close>

theorem session_store_refines:
  assumes "redis_server R view live dbl" and "live s"
    and "\<forall>a. view s (sessKeyPrefix @ a) = None" and "\<forall>r. view s (refreshKeyPrefix @ r) = None"
    and "run_ok (NewSessionStore (Some R)) now es ([], t)"
  shows "session_run R (NewSessionStore (Some R)) es (s, t) = spec_run (NewSessionStore (Some R)) es ([], t)"
proof -
  have "represents now [] (view s)" using assms(3,4) by (simp add: represents_def sessions_ok_def)
  then show ?thesis by (rule redis_server.session_run_refines [OF assms(1,2) _ assms(5)])
qed

text \<open>A run: bob logs in, uses and refreshes his session, and Redis forgets his first session after the old token was tried.\<close>

definition bob_access :: "byte \<Rightarrow> string" where "bob_access b = hex_EncodeToString (replicate 24 b)"
definition bob_refresh :: "byte \<Rightarrow> string" where "bob_refresh b = hex_EncodeToString (replicate 32 b)"

definition demo_run :: "session_event list" where
  "demo_run =
    [Op 0 0 0 (CIssue 7 ''bob'' [] 1 4), Op second second second (CGet (bob_access 1)), Op second second second (CRefresh (bob_refresh 1) (Inr 1)),
     Op (2 * second) (2 * second) (2 * second) (CGet (bob_access 1)), Op (2 * second) (2 * second) (2 * second) (CRefresh (bob_refresh 1) (Inr 1)),
     Op (3 * second) (3 * second) (3 * second) (CGet (bob_access 2)), Expired (4000 * second) [sessKeyPrefix @ bob_access 2],
     Op (4000 * second) (4000 * second) (4000 * second) (CRefresh (bob_refresh 2) (Inr 1))]"

definition demo_bob :: "int \<Rightarrow> byte \<Rightarrow> Session" where
  "demo_bob now b = \<lparr>AccessToken = bob_access b, RefreshToken = bob_refresh b, UID = 7, NickName = ''bob'', Icon = [], UserType = 1,
     DeviceType = ''h5'', Plat = 4, IsGuest = False, AccessExpireAt = now + 1800, RefreshExpireAt = now + 2592000\<rparr>"

lemma demo_issued:
  "take 24 t = replicate 24 b \<Longrightarrow> take 32 (drop 24 t) = replicate 32 b \<Longrightarrow>
   issued (NewSessionStore (Some mem_redis)) (k * second) 7 ''bob'' [] 1 4 t = demo_bob k b"
  by (simp add: issued_def demo_bob_def bob_access_def bob_refresh_def NewSessionStore_def ttl_defs platToDevice_def)

lemma demo_tokens:
  "bob_access b = bob_access c \<longleftrightarrow> b = c" "bob_refresh b = bob_refresh c \<longleftrightarrow> b = c"
  "hex_EncodeToString (replicate 24 b) = bob_access b" "hex_EncodeToString (replicate 32 b) = bob_refresh b"
  by (simp_all add: bob_access_def bob_refresh_def hex_inject)

lemma demo_alive: "alive_at (k * second) (demo_bob n b) \<longleftrightarrow> n + 1800 \<le> 0 \<or> k \<le> n + 1800"
  by (auto simp: alive_at_def demo_bob_def second_def)

lemma demo_fields:
  "AccessToken (demo_bob n b) = bob_access b" "RefreshToken (demo_bob n b) = bob_refresh b" "\<not> IsGuest (demo_bob n b)"
  "UID (demo_bob n b) = 7" "NickName (demo_bob n b) = ''bob''" "Icon (demo_bob n b) = []" "UserType (demo_bob n b) = 1" "Plat (demo_bob n b) = 4"
  "RefreshExpireAt (demo_bob n b) = n + 2592000"
  by (simp_all add: demo_bob_def)

lemma demo_seconds: "second div second = 1" "k * second div second = k" by (simp_all add: second_def)

lemma demo_ordered: "0 \<le> second" "second \<le> 2 * second" "2 * second \<le> 3 * second" "3 * second \<le> 4000 * second" "clock_ok second"
  "clock_ok (2 * second)" "clock_ok (3 * second)" "clock_ok (4000 * second)" "clock_ok 0"
  by (simp_all add: second_def clock_ok_def)

lemmas demo_run_simps = demo_run_def spec_op_def demo_issued demo_issued [of _ _ 0, simplified] demo_issued [of _ _ 1, simplified]
  demo_tokens demo_alive demo_alive [of 0, simplified] demo_alive [of 1, simplified] demo_fields
  spec_find_def spec_holder_def spec_drop_def Let_def demo_seconds

lemma demo_run_ok: "run_ok (NewSessionStore (Some mem_redis)) 0 demo_run ([], replicate 56 1 @ replicate 56 2 @ replicate 56 3)"
  by (simp add: demo_run_simps call_ok_def demo_ordered fresh_user_def expired_ok_def bob_ok int64_def)

lemma demo_run_spec:
  "spec_run (NewSessionStore (Some mem_redis)) demo_run ([], replicate 56 1 @ replicate 56 2 @ replicate 56 3) =
    [Answer (Inr (demo_bob 0 1)), Answer (Inr (demo_bob 0 1)), Answer (Inr (demo_bob 1 2)), Answer (Inl ErrSessionNotFound),
     Answer (Inl ErrRefreshDenied), Answer (Inr (demo_bob 1 2)), Answer (Inl ErrRefreshDenied)]"
  by (simp add: demo_run_simps)

theorem session_store_refines_witness:
  "session_run mem_redis (NewSessionStore (Some mem_redis)) demo_run (mem_empty, replicate 56 1 @ replicate 56 2 @ replicate 56 3) =
    [Answer (Inr (demo_bob 0 1)), Answer (Inr (demo_bob 0 1)), Answer (Inr (demo_bob 1 2)), Answer (Inl ErrSessionNotFound),
     Answer (Inl ErrRefreshDenied), Answer (Inr (demo_bob 1 2)), Answer (Inl ErrRefreshDenied)]"
  using session_store_refines [OF memr.redis_server_axioms, of mem_empty 0 demo_run "replicate 56 1 @ replicate 56 2 @ replicate 56 3"]
    demo_run_ok demo_run_spec by simp

end
