(* ===== verification/Builders.thy ===== *)
theory Builders
  imports Models "HOL-Library.AList" "HOL-Library.Multiset" "HOL-Library.List_Lexorder" "HOL-Library.Char_ord"
begin

text \<open>
  The JSON builders (\<open>cmd/rpc/internal/svc/builders.go\<close>): the result records, what \<open>json.Marshal\<close>
  writes for each, and one definition per builder.  Three things the language leaves open are
  arguments: \<open>srt\<close> is \<open>sort.Slice\<close> by match time (not stable), \<open>its\<close> and \<open>iti\<close> give the iteration order
  of a map keyed by strings and by integers.
\<close>

subsection \<open>Result records\<close>

record MatchAnchorProfile =
  pr_RoomNum :: string
  pr_Detail :: string
  pr_Notice :: string

record MatchAnchorItem =
  ma_UID :: int
  ma_NickName :: string
  ma_Icon :: string
  ma_CutOutIcon :: string
  ma_Anchor :: MatchAnchorProfile

record MatchCatalogItem =
  mc_ScheduleID :: int
  mc_MatchTime :: int
  mc_HostName :: string
  mc_GuestName :: string
  mc_HostIcon :: string
  mc_GuestIcon :: string
  mc_SubCateName :: string
  mc_CategoryID :: int
  mc_CategoryName :: string
  mc_CategoryIcon :: string
  mc_HostScore :: int
  mc_GuestScore :: int
  mc_MatchStatus :: int
  mc_Status :: int
  mc_MatchStatusDesc :: string
  mc_Anchors :: "MatchAnchorItem list"

record MatchItem =
  mt_ScheduleID :: int
  mt_MatchTime :: int
  mt_HostName :: string
  mt_GuestName :: string
  mt_HostIcon :: string
  mt_GuestIcon :: string
  mt_SubCateName :: string
  mt_CategoryIcon :: string

record AnchorResult =
  ar_UID :: int
  ar_NickName :: string
  ar_Icon :: string
  ar_CutOutIcon :: string
  ar_RoomNum :: string
  ar_Notice :: string

record RoomResult =
  ro_RoomNum :: string
  ro_Title :: string
  ro_Cover :: string
  ro_CutOutCustomCoverURL :: string
  ro_MarkType :: int
  ro_LiveStatus :: int
  ro_HD :: int
  ro_ViewCount :: int
  ro_FocusCount :: int
  ro_Anchor :: AnchorResult

record LiveTypeJSON =
  lj_LiveTypeID :: int
  lj_TypeName :: string
  lj_ParentID :: int
  lj_Icon :: string

record AssistantUserResult =
  au_UID :: int
  au_NickName :: string
  au_Icon :: string

record RoomDetailResult =
  rd_RoomNum :: string
  rd_Title :: string
  rd_Contact :: string
  rd_HD :: int
  rd_Cover :: string
  rd_Notice :: string
  rd_Detail :: string
  rd_LiveFLV :: string
  rd_LiveM3U8 :: string
  rd_LiveStatus :: int
  rd_ViewCount :: int
  rd_FocusCount :: int
  rd_Anchor :: AnchorResult
  rd_AssistantUser :: "AssistantUserResult option"

record PlayStreamURLs =
  ps_FLV :: string
  ps_HdFLV :: string
  ps_M3U8 :: string
  ps_HdM3U8 :: string

record GrowDTOResult =
  gd_ID :: int
  gd_Name :: string
  gd_NextMinGrom :: int

record UserInfoResult =
  ui_UID :: int
  ui_NickName :: string
  ui_Icon :: string
  ui_CutOutIcon :: string
  ui_UserType :: int
  ui_Score :: int
  ui_Grow :: int
  ui_GrowDTO :: GrowDTOResult
  ui_Gender :: int
  ui_Birthday :: int
  ui_LoginName :: string
  ui_Phone :: string
  ui_CountryCode :: string

record GiftRankItem =
  gk_User :: UserInfoResult
  gk_Contribution :: int

text \<open>\<open>URLs\<close> is only ever absent or an empty map, and both are omitted by \<open>omitempty\<close>: it has no field
  here.\<close>

record AuthResponse =
  av_AccessToken :: string
  av_SessionID :: string
  av_RefreshToken :: string
  av_UserInfo :: UserInfoResult
  av_Phone :: string
  av_CountryCode :: int
  av_LoginName :: string

definition zero_growdto :: GrowDTOResult where
  "zero_growdto = \<lparr>gd_ID = 0, gd_Name = [], gd_NextMinGrom = 0\<rparr>"

definition zero_userinfo :: UserInfoResult where
  "zero_userinfo =
     \<lparr>ui_UID = 0, ui_NickName = [], ui_Icon = [], ui_CutOutIcon = [], ui_UserType = 0, ui_Score = 0, ui_Grow = 0,
      ui_GrowDTO = zero_growdto, ui_Gender = 0, ui_Birthday = 0, ui_LoginName = [], ui_Phone = [], ui_CountryCode = []\<rparr>"

subsection \<open>What \<open>json.Marshal\<close> writes\<close>

definition omit_s :: "string \<Rightarrow> string \<Rightarrow> (string \<times> json) list" where
  "omit_s k v = (if v = [] then [] else [(k, JStr v)])"

definition omit_i :: "string \<Rightarrow> int \<Rightarrow> (string \<times> json) list" where
  "omit_i k v = (if v = 0 then [] else [(k, jint v)])"

text \<open>A map is written with its keys in increasing order.\<close>

definition json_of_map :: "('a \<Rightarrow> json) \<Rightarrow> (string \<times> 'a) list \<Rightarrow> json" where
  "json_of_map enc m = JObj (sort_key fst (map (\<lambda>(k, v). (k, enc v)) m))"

definition profile_json :: "MatchAnchorProfile \<Rightarrow> json" where
  "profile_json p = JObj [(''roomNum'', JStr (pr_RoomNum p)), (''detail'', JStr (pr_Detail p)), (''notice'', JStr (pr_Notice p))]"

definition anchor_item_json :: "MatchAnchorItem \<Rightarrow> json" where
  "anchor_item_json a = JObj (
     [(''uid'', jint (ma_UID a)), (''nickName'', JStr (ma_NickName a)), (''icon'', JStr (ma_Icon a))] @
     omit_s ''cutOutIcon'' (ma_CutOutIcon a) @ [(''anchor'', profile_json (ma_Anchor a))])"

definition catalog_item_json :: "MatchCatalogItem \<Rightarrow> json" where
  "catalog_item_json m = JObj (
     [(''scheduleId'', jint (mc_ScheduleID m)), (''matchTime'', jint (mc_MatchTime m)), (''hostName'', JStr (mc_HostName m)),
      (''guestName'', JStr (mc_GuestName m)), (''hostIcon'', JStr (mc_HostIcon m)), (''guestIcon'', JStr (mc_GuestIcon m)),
      (''subCateName'', JStr (mc_SubCateName m)), (''categoryId'', jint (mc_CategoryID m))] @
     omit_s ''categoryName'' (mc_CategoryName m) @
     [(''categoryIcon'', JStr (mc_CategoryIcon m)), (''hostScore'', jint (mc_HostScore m)), (''guestScore'', jint (mc_GuestScore m))] @
     omit_i ''matchStatus'' (mc_MatchStatus m) @ omit_i ''status'' (mc_Status m) @
     [(''matchStatusDesc'', JStr (mc_MatchStatusDesc m)), (''anchors'', JArr (map anchor_item_json (mc_Anchors m)))])"

definition catalog_json :: "MatchCatalogItem list \<Rightarrow> json" where
  "catalog_json ms = JArr (map catalog_item_json ms)"

definition match_item_json :: "MatchItem \<Rightarrow> json" where
  "match_item_json m = JObj
     [(''scheduleId'', jint (mt_ScheduleID m)), (''matchTime'', jint (mt_MatchTime m)), (''hostName'', JStr (mt_HostName m)),
      (''guestName'', JStr (mt_GuestName m)), (''hostIcon'', JStr (mt_HostIcon m)), (''guestIcon'', JStr (mt_GuestIcon m)),
      (''subCateName'', JStr (mt_SubCateName m)), (''categoryIcon'', JStr (mt_CategoryIcon m))]"

definition anchor_result_json :: "AnchorResult \<Rightarrow> json" where
  "anchor_result_json a = JObj (
     [(''uid'', jint (ar_UID a)), (''nickName'', JStr (ar_NickName a)), (''icon'', JStr (ar_Icon a))] @
     omit_s ''cutOutIcon'' (ar_CutOutIcon a) @ [(''roomNum'', JStr (ar_RoomNum a)), (''notice'', JStr (ar_Notice a))])"

definition room_result_json :: "RoomResult \<Rightarrow> json" where
  "room_result_json r = JObj (
     [(''roomNum'', JStr (ro_RoomNum r)), (''title'', JStr (ro_Title r)), (''cover'', JStr (ro_Cover r)),
      (''cutOutCustomCoverUrl'', JStr (ro_CutOutCustomCoverURL r)), (''markType'', jint (ro_MarkType r))] @
     omit_i ''liveStatus'' (ro_LiveStatus r) @ omit_i ''hd'' (ro_HD r) @
     [(''viewCount'', jint (ro_ViewCount r)), (''focusCount'', jint (ro_FocusCount r)), (''anchor'', anchor_result_json (ro_Anchor r))])"

definition rooms_json :: "RoomResult list \<Rightarrow> json" where
  "rooms_json rs = JArr (map room_result_json rs)"

definition live_type_json :: "LiveTypeJSON \<Rightarrow> json" where
  "live_type_json t = JObj
     [(''liveTypeId'', jint (lj_LiveTypeID t)), (''typeName'', JStr (lj_TypeName t)), (''parentId'', jint (lj_ParentID t)),
      (''icon'', JStr (lj_Icon t))]"

definition assistant_json :: "AssistantUserResult \<Rightarrow> json" where
  "assistant_json u = JObj [(''uid'', jint (au_UID u)), (''nickName'', JStr (au_NickName u)), (''icon'', JStr (au_Icon u))]"

definition room_detail_json :: "RoomDetailResult \<Rightarrow> json" where
  "room_detail_json r = JObj (
     [(''roomNum'', JStr (rd_RoomNum r)), (''title'', JStr (rd_Title r)), (''contact'', JStr (rd_Contact r)), (''hd'', jint (rd_HD r)),
      (''cover'', JStr (rd_Cover r)), (''notice'', JStr (rd_Notice r)), (''detail'', JStr (rd_Detail r))] @
     omit_s ''liveFlv'' (rd_LiveFLV r) @ omit_s ''liveM3u8'' (rd_LiveM3U8 r) @ omit_i ''liveStatus'' (rd_LiveStatus r) @
     [(''viewCount'', jint (rd_ViewCount r)), (''focusCount'', jint (rd_FocusCount r)), (''anchor'', anchor_result_json (rd_Anchor r))] @
     (case rd_AssistantUser r of None \<Rightarrow> [] | Some u \<Rightarrow> [(''assistantUser'', assistant_json u)]))"

definition stream_json :: "PlayStreamURLs \<Rightarrow> json" where
  "stream_json p = JObj
     [(''flv'', JStr (ps_FLV p)), (''hdFlv'', JStr (ps_HdFLV p)), (''m3u8'', JStr (ps_M3U8 p)), (''hdM3u8'', JStr (ps_HdM3U8 p))]"

definition growdto_json :: "GrowDTOResult \<Rightarrow> json" where
  "growdto_json g = JObj [(''id'', jint (gd_ID g)), (''name'', JStr (gd_Name g)), (''nextMinGrom'', jint (gd_NextMinGrom g))]"

definition userinfo_json :: "UserInfoResult \<Rightarrow> json" where
  "userinfo_json u = JObj
     [(''uid'', jint (ui_UID u)), (''nickName'', JStr (ui_NickName u)), (''icon'', JStr (ui_Icon u)),
      (''cutOutIcon'', JStr (ui_CutOutIcon u)), (''userType'', jint (ui_UserType u)), (''score'', jint (ui_Score u)),
      (''grow'', jint (ui_Grow u)), (''growDto'', growdto_json (ui_GrowDTO u)), (''gender'', jint (ui_Gender u)),
      (''birthday'', jint (ui_Birthday u)), (''loginName'', JStr (ui_LoginName u)), (''phone'', JStr (ui_Phone u)),
      (''countryCode'', JStr (ui_CountryCode u))]"

definition gift_rank_json :: "GiftRankItem \<Rightarrow> json" where
  "gift_rank_json g = JObj [(''user'', userinfo_json (gk_User g)), (''contribution'', jint (gk_Contribution g))]"

definition auth_response_json :: "AuthResponse \<Rightarrow> json" where
  "auth_response_json a = JObj (
     [(''accessToken'', JStr (av_AccessToken a)), (''sessionId'', JStr (av_SessionID a))] @
     omit_s ''refreshToken'' (av_RefreshToken a) @ [(''userInfo'', userinfo_json (av_UserInfo a))] @
     omit_s ''phone'' (av_Phone a) @ omit_i ''countryCode'' (av_CountryCode a) @ omit_s ''loginName'' (av_LoginName a))"

subsection \<open>The match catalog\<close>

definition new_item :: "(int \<Rightarrow> int) \<Rightarrow> MatchCatalogRow \<Rightarrow> MatchCatalogItem" where
  "new_item loc r =
     \<lparr>mc_ScheduleID = mr_ScheduleID r, mc_MatchTime = MatchTimeToMS loc (mr_MatchTime r), mc_HostName = mr_HostName r,
      mc_GuestName = mr_GuestName r, mc_HostIcon = mr_HostIcon r, mc_GuestIcon = mr_GuestIcon r,
      mc_SubCateName = mr_SubCateName r, mc_CategoryID = mr_LiveTypeParent r, mc_CategoryName = mr_CategoryName r,
      mc_CategoryIcon = mr_CategoryIcon r, mc_HostScore = mr_HostScore r, mc_GuestScore = mr_GuestScore r,
      mc_MatchStatus = mr_MatchStatus r, mc_Status = 1, mc_MatchStatusDesc = [], mc_Anchors = []\<rparr>"

definition anchor_of :: "MatchCatalogRow \<Rightarrow> MatchAnchorItem" where
  "anchor_of r =
     \<lparr>ma_UID = mr_AnchorUID r, ma_NickName = mr_AnchorNickName r, ma_Icon = mr_AnchorIcon r, ma_CutOutIcon = mr_AnchorIcon r,
      ma_Anchor = \<lparr>pr_RoomNum = mr_RoomNum r, pr_Detail = mr_RoomDetail r, pr_Notice = mr_RoomNotice r\<rparr>\<rparr>"

text \<open>One turn of the loop over the rows: the map \<open>byID\<close> and the list \<open>order\<close> of its keys.\<close>

definition group_step ::
  "(int \<Rightarrow> int) \<Rightarrow> MatchCatalogRow \<Rightarrow> (int \<rightharpoonup> MatchCatalogItem) \<times> int list \<Rightarrow> (int \<rightharpoonup> MatchCatalogItem) \<times> int list" where
  "group_step loc r st =
     (case st of (byID, order) \<Rightarrow>
        (let (it, byID, order) = (case byID (mr_ScheduleID r) of
                 Some it \<Rightarrow> (it, byID, order)
               | None \<Rightarrow> (new_item loc r, byID(mr_ScheduleID r \<mapsto> new_item loc r), order @ [mr_ScheduleID r]))
         in if mr_AnchorUID r > 0
            then (byID(mr_ScheduleID r \<mapsto> it\<lparr>mc_Anchors := mc_Anchors it @ [anchor_of r]\<rparr>), order)
            else (byID, order)))"

definition GroupCatalogRows ::
  "(MatchCatalogItem list \<Rightarrow> MatchCatalogItem list) \<Rightarrow> (int \<Rightarrow> int) \<Rightarrow> MatchCatalogRow list \<Rightarrow> MatchCatalogItem list" where
  "GroupCatalogRows srt loc rows =
     (let (byID, order) = fold (group_step loc) rows (Map.empty, [])
      in srt (map (\<lambda>i. the (byID i)) order))"

definition BuildRecommend ::
  "(MatchCatalogItem list \<Rightarrow> MatchCatalogItem list) \<Rightarrow> (int \<Rightarrow> int) \<Rightarrow> 'd sql_db \<Rightarrow> Schema \<Rightarrow> 'd \<Rightarrow> MatchCatalogItem list \<times> 'd" where
  "BuildRecommend srt loc D sc d =
     (let ((rows, err), d') = ListRecommend D sc 8 d
      in (if err \<noteq> None then [] else GroupCatalogRows srt loc rows, d'))"

definition BuildMatchByDate ::
  "(MatchCatalogItem list \<Rightarrow> MatchCatalogItem list) \<Rightarrow> (int \<Rightarrow> int) \<Rightarrow> 'd sql_db \<Rightarrow> Schema \<Rightarrow> string \<Rightarrow> 'd \<Rightarrow>
   MatchCatalogItem list \<times> 'd" where
  "BuildMatchByDate srt loc D sc date d =
     (let ((rows, err), d') = ListByDate D sc date 100 d
      in (if err \<noteq> None then [] else GroupCatalogRows srt loc rows, d'))"

type_synonym catalog = "(string \<times> MatchCatalogItem list) list"

definition catalog_step ::
  "(MatchCatalogItem list \<Rightarrow> MatchCatalogItem list) \<Rightarrow> (int \<Rightarrow> int) \<Rightarrow> 'd sql_db \<Rightarrow> Schema \<Rightarrow> int \<Rightarrow> catalog \<times> 'd \<Rightarrow> catalog \<times> 'd" where
  "catalog_step srt loc D sc parent st =
     (case st of (out, d) \<Rightarrow>
        (let ((rows, err), d') = ListCatalog D sc [parent] 30 d
         in (AList.update (itoa parent) (if err \<noteq> None then [] else GroupCatalogRows srt loc rows) out, d')))"

definition merge_item :: "MatchCatalogItem \<Rightarrow> (int \<times> MatchCatalogItem) list \<Rightarrow> (int \<times> MatchCatalogItem) list" where
  "merge_item it all = (if map_of all (mc_ScheduleID it) = None then all @ [(mc_ScheduleID it, it)] else all)"

definition BuildMatchCatalog ::
  "(MatchCatalogItem list \<Rightarrow> MatchCatalogItem list) \<Rightarrow> (string list \<Rightarrow> string list) \<Rightarrow> (int list \<Rightarrow> int list) \<Rightarrow> (int \<Rightarrow> int) \<Rightarrow>
   'd sql_db \<Rightarrow> Schema \<Rightarrow> 'd \<Rightarrow> catalog \<times> 'd" where
  "BuildMatchCatalog srt its iti loc D sc d =
     (let (out, d1) = fold (catalog_step srt loc D sc) [1, 2, 5] ([], d);
          all = fold (\<lambda>k. fold merge_item (the (map_of out k))) (its (map fst out)) [];
          allList = map (\<lambda>i. the (map_of all i)) (iti (map fst all));
          allList = take 30 (srt allList);
          out = AList.update ''0'' allList out;
          (hot, d2) = BuildRecommend srt loc D sc d1
      in (AList.update ''hot'' hot out, d2))"

subsection \<open>Rooms, types, ranks and users\<close>

definition anchor_result :: "LiveRoom \<Rightarrow> AnchorResult" where
  "anchor_result r =
     \<lparr>ar_UID = lr_UID r, ar_NickName = lr_AnchorNickName r, ar_Icon = lr_AnchorIcon r, ar_CutOutIcon = lr_AnchorIcon r,
      ar_RoomNum = lr_RoomNum r, ar_Notice = lr_Notice r\<rparr>"

definition room_result :: "LiveRoom \<Rightarrow> RoomResult" where
  "room_result r =
     \<lparr>ro_RoomNum = lr_RoomNum r, ro_Title = lr_Title r, ro_Cover = lr_Cover r, ro_CutOutCustomCoverURL = [],
      ro_MarkType = lr_MarkType r, ro_LiveStatus = lr_LiveStatus r, ro_HD = lr_HD r,
      ro_ViewCount = wrap64 (lr_VisitCount r + lr_FictitiousVisitCount r),
      ro_FocusCount = wrap64 (lr_FocusCount r + lr_FictitiousFocusCount r), ro_Anchor = anchor_result r\<rparr>"

definition RoomsToResults :: "LiveRoom list \<Rightarrow> RoomResult list" where
  "RoomsToResults rooms = map room_result rooms"

definition type_step ::
  "'d sql_db \<Rightarrow> Schema \<Rightarrow> LiveType \<Rightarrow> (string \<times> RoomResult list) list \<times> 'd \<Rightarrow> (string \<times> RoomResult list) list \<times> 'd" where
  "type_step D sc lt st =
     (case st of (out, d) \<Rightarrow>
        (let ((rooms, _), d') = ListByType D sc (lt_LiveTypeID lt) 50 d
         in (AList.update (itoa (lt_LiveTypeID lt)) (RoomsToResults rooms) out, d')))"

definition BuildAllLiveRooms :: "'d sql_db \<Rightarrow> Schema \<Rightarrow> 'd \<Rightarrow> (string \<times> RoomResult list) list \<times> 'd" where
  "BuildAllLiveRooms D sc d =
     (let ((hot, e1), d1) = ListHot D sc 50 d;
          out = [(''hot'', if e1 = None then RoomsToResults hot else [])];
          ((lts, e2), d2) = ListTopLevel D sc d1;
          (out, d3) = (if e2 = None then fold (type_step D sc) lts (out, d2) else (out, d2));
          ((all, e3), d4) = ListAllVisible D sc 200 d3
      in (AList.update ''0'' (if e3 = None then RoomsToResults all else []) out, d4))"

definition BuildLiveTypesJSON :: "LiveType list \<Rightarrow> LiveTypeJSON list" where
  "BuildLiveTypesJSON lts =
     map (\<lambda>lt. \<lparr>lj_LiveTypeID = lt_LiveTypeID lt, lj_TypeName = lt_TypeName lt, lj_ParentID = lt_ParentID lt, lj_Icon = lt_Icon lt\<rparr>) lts"

definition BuildRoomDetail :: "'d sql_db \<Rightarrow> Schema \<Rightarrow> string \<Rightarrow> 'd \<Rightarrow> (RoomDetailResult \<times> PlayStreamURLs) option \<times> 'd" where
  "BuildRoomDetail D sc roomNum d =
     (case room_FindByRoomNum D sc roomNum d of
        (Inl _, d') \<Rightarrow> (None, d')
      | (Inr r, d') \<Rightarrow>
          (Some
            (\<lparr>rd_RoomNum = lr_RoomNum r, rd_Title = lr_Title r, rd_Contact = lr_Contact r, rd_HD = lr_HD r, rd_Cover = lr_Cover r,
              rd_Notice = lr_Notice r, rd_Detail = lr_Detail r, rd_LiveFLV = lr_LiveFLV r, rd_LiveM3U8 = lr_LiveM3U8 r,
              rd_LiveStatus = lr_LiveStatus r, rd_ViewCount = wrap64 (lr_VisitCount r + lr_FictitiousVisitCount r),
              rd_FocusCount = wrap64 (lr_FocusCount r + lr_FictitiousFocusCount r), rd_Anchor = anchor_result r,
              rd_AssistantUser =
                (if lr_AssistantUID r > 0
                 then Some \<lparr>au_UID = lr_AssistantUID r, au_NickName = lr_AssistantNickName r, au_Icon = lr_AssistantIcon r\<rparr>
                 else None)\<rparr>,
             \<lparr>ps_FLV = lr_LiveFLV r, ps_HdFLV = lr_LiveFLV r, ps_M3U8 = lr_LiveM3U8 r, ps_HdM3U8 = lr_LiveM3U8 r\<rparr>), d'))"

definition room_detail_map_json :: "RoomDetailResult \<times> PlayStreamURLs \<Rightarrow> json" where
  "room_detail_map_json p = JObj [(''room'', room_detail_json (fst p)), (''stream'', stream_json (snd p))]"

definition match_item_of_row :: "(int \<Rightarrow> int) \<Rightarrow> MatchCatalogRow \<Rightarrow> MatchItem" where
  "match_item_of_row loc r =
     \<lparr>mt_ScheduleID = mr_ScheduleID r, mt_MatchTime = MatchTimeToMS loc (mr_MatchTime r), mt_HostName = mr_HostName r,
      mt_GuestName = mr_GuestName r, mt_HostIcon = mr_HostIcon r, mt_GuestIcon = mr_GuestIcon r,
      mt_SubCateName = mr_SubCateName r, mt_CategoryIcon = mr_CategoryIcon r\<rparr>"

fun schedule_loop :: "(int \<Rightarrow> int) \<Rightarrow> MatchCatalogRow list \<Rightarrow> int set \<Rightarrow> MatchItem list" where
  "schedule_loop loc [] seen = []"
| "schedule_loop loc (r # rs) seen =
     (if mr_ScheduleID r \<in> seen then schedule_loop loc rs seen
      else match_item_of_row loc r # schedule_loop loc rs (insert (mr_ScheduleID r) seen))"

definition BuildRoomSchedule :: "(int \<Rightarrow> int) \<Rightarrow> 'd sql_db \<Rightarrow> Schema \<Rightarrow> string \<Rightarrow> 'd \<Rightarrow> (string \<times> MatchItem list) list \<times> 'd" where
  "BuildRoomSchedule loc D sc roomNum d =
     (let ((rows, err), d') = ListByRoom D sc roomNum 50 d
      in ([(''matches'', if err \<noteq> None then [] else schedule_loop loc rows {})], d'))"

definition BuildGiftRank :: "'d sql_db \<Rightarrow> Schema \<Rightarrow> string \<Rightarrow> 'd \<Rightarrow> GiftRankItem list \<times> 'd" where
  "BuildGiftRank D sc roomNum d =
     (let ((ranks, err), d') = ListTopByRoom D sc roomNum 10 d
      in (if err \<noteq> None then []
          else map (\<lambda>r. \<lparr>gk_User = zero_userinfo\<lparr>ui_UID := gr_UID r, ui_NickName := gr_NickName r, ui_Icon := gr_Icon r\<rparr>,
                         gk_Contribution = gr_Score r\<rparr>) ranks, d'))"

definition BuildUserInfo :: "'d sql_db \<Rightarrow> Schema \<Rightarrow> User \<Rightarrow> 'd \<Rightarrow> UserInfoResult \<times> 'd" where
  "BuildUserInfo D sc u d =
     (let (grow, d') = FindUserGrowForValue D sc (us_Grow u) d;
          birthdayMS = (case us_Birthday u of Some t \<Rightarrow> Instant t div 1000000 | None \<Rightarrow> 0);
          ccStr = us_CountryCode u;
          ccStr = (if ccStr \<noteq> [] \<and> hd ccStr \<noteq> CHR ''+'' then ''+'' @ ccStr else ccStr);
          growDTO = (case grow of
                       Inr g \<Rightarrow> \<lparr>gd_ID = ug_ID g, gd_Name = ug_Name g, gd_NextMinGrom = ug_NextMinGrow g\<rparr>
                     | Inl _ \<Rightarrow> zero_growdto)
      in (\<lparr>ui_UID = us_UID u, ui_NickName = us_NickName u, ui_Icon = us_Icon u, ui_CutOutIcon = [], ui_UserType = us_UserType u,
           ui_Score = us_Score u, ui_Grow = us_Grow u, ui_GrowDTO = growDTO, ui_Gender = us_Gender u, ui_Birthday = birthdayMS,
           ui_LoginName = us_LoginName u, ui_Phone = us_Phone u, ui_CountryCode = ccStr\<rparr>, d'))"

text \<open>\<open>jsonBytes\<close>: none of the values above fails to marshal.  \<open>todayKey\<close> takes the wall-clock reading.\<close>

definition jsonBytes :: "json \<Rightarrow> string" where
  "jsonBytes v = json_print v"

definition todayKey :: "int \<Rightarrow> string" where
  "todayKey now = format_date now"

section \<open>What the catalog builders compute\<close>

text \<open>The contract of \<open>sort.Slice\<close>, and of a map iteration.\<close>

locale slice_sort =
  fixes srt :: "MatchCatalogItem list \<Rightarrow> MatchCatalogItem list"
  assumes sorted_srt: "sorted (map mc_MatchTime (srt xs))"
    and mset_srt: "mset (srt xs) = mset xs"
begin

lemma set_srt [simp]: "set (srt xs) = set xs"
  by (metis mset_srt set_mset_mset)

lemma distinct_map_srt: "distinct (map f (srt xs)) = distinct (map f xs)"
  by (metis mset_srt mset_map mset_eq_imp_distinct_iff)

end

interpretation stable_sort: slice_sort "sort_key mc_MatchTime"
  by unfold_locales simp_all

locale map_order =
  fixes ord :: "'k list \<Rightarrow> 'k list"
  assumes mset_ord: "mset (ord ks) = mset ks"
begin

lemma set_ord [simp]: "set (ord ks) = set ks"
  by (metis mset_ord set_mset_mset)

lemma distinct_ord [simp]: "distinct (ord ks) = distinct ks"
  by (metis mset_ord mset_eq_imp_distinct_iff)

end

interpretation insertion_order: map_order id
  by unfold_locales simp

text \<open>The reference: the distinct schedule ids in order of first occurrence, each with the data of its
  first row and the anchors of all its rows.\<close>

definition first_occ :: "'a list \<Rightarrow> 'a list" where
  "first_occ xs = rev (remdups (rev xs))"

lemma first_occ_simps [simp]:
  "first_occ [] = []" "first_occ (xs @ [x]) = (if x \<in> set xs then first_occ xs else first_occ xs @ [x])"
  by (simp_all add: first_occ_def)

lemma set_first_occ [simp]: "set (first_occ xs) = set xs" and distinct_first_occ [simp]: "distinct (first_occ xs)"
  by (simp_all add: first_occ_def)

definition group_of :: "(int \<Rightarrow> int) \<Rightarrow> MatchCatalogRow list \<Rightarrow> int \<Rightarrow> MatchCatalogItem" where
  "group_of loc rows i =
     (let rs = filter (\<lambda>r. mr_ScheduleID r = i) rows
      in (new_item loc (hd rs))\<lparr>mc_Anchors := map anchor_of (filter (\<lambda>r. mr_AnchorUID r > 0) rs)\<rparr>)"

definition groups :: "(int \<Rightarrow> int) \<Rightarrow> MatchCatalogRow list \<Rightarrow> int \<rightharpoonup> MatchCatalogItem" where
  "groups loc rows = (\<lambda>i. if i \<in> mr_ScheduleID ` set rows then Some (group_of loc rows i) else None)"

lemma groups_snoc:
  "groups loc (rows @ [r]) = (groups loc rows)(mr_ScheduleID r \<mapsto>
     (let it = (case groups loc rows (mr_ScheduleID r) of Some it \<Rightarrow> it | None \<Rightarrow> new_item loc r)
      in if mr_AnchorUID r > 0 then it\<lparr>mc_Anchors := mc_Anchors it @ [anchor_of r]\<rparr> else it))"
proof (cases "mr_ScheduleID r \<in> mr_ScheduleID ` set rows")
  case True
  then have "filter (\<lambda>q. mr_ScheduleID q = mr_ScheduleID r) rows \<noteq> []" by (auto simp: filter_empty_conv)
  with True show ?thesis
    by (auto simp: groups_def group_of_def Let_def fun_eq_iff)
next
  case False
  then have "filter (\<lambda>q. mr_ScheduleID q = mr_ScheduleID r) rows = []" by (metis (mono_tags, lifting) filter_False image_eqI)
  with False show ?thesis
    by (auto simp: groups_def group_of_def Let_def fun_eq_iff new_item_def)
qed

lemma group_step_groups:
  "group_step loc r (groups loc rows, first_occ (map mr_ScheduleID rows)) =
   (groups loc (rows @ [r]), first_occ (map mr_ScheduleID (rows @ [r])))"
proof -
  have m: "mr_ScheduleID r \<in> mr_ScheduleID ` set rows \<longleftrightarrow> groups loc rows (mr_ScheduleID r) \<noteq> None"
    by (simp add: groups_def)
  show ?thesis
    by (cases "groups loc rows (mr_ScheduleID r)") (use m in \<open>auto simp: group_step_def groups_snoc Let_def\<close>)
qed

lemma fold_group_step:
  "fold (group_step loc) rows (Map.empty, []) = (groups loc rows, first_occ (map mr_ScheduleID rows))"
proof (induction rows rule: rev_induct)
  case Nil
  show ?case by (simp add: groups_def)
next
  case (snoc r rows)
  then show ?case using group_step_groups [of loc r rows] by simp
qed

lemma group_of_id: "i \<in> mr_ScheduleID ` set rows \<Longrightarrow> mc_ScheduleID (group_of loc rows i) = i"
proof -
  assume "i \<in> mr_ScheduleID ` set rows"
  then have "hd (filter (\<lambda>r. mr_ScheduleID r = i) rows) \<in> set (filter (\<lambda>r. mr_ScheduleID r = i) rows)"
    by (intro hd_in_set) (auto simp: filter_empty_conv)
  then show ?thesis by (simp add: group_of_def new_item_def Let_def)
qed

lemma GroupCatalogRows_srt:
  "GroupCatalogRows srt loc rows = srt (map (group_of loc rows) (first_occ (map mr_ScheduleID rows)))"
  by (auto simp: GroupCatalogRows_def fold_group_step groups_def intro!: arg_cong [of _ _ srt])



text \<open>C17: whatever order \<open>sort.Slice\<close> gives to equal match times, \<open>GroupCatalogRows\<close> returns exactly one item
  per schedule id of the rows, with the data of the id's first row and the anchors of all its rows in
  row order (rows without an anchor add none), sorted by match time.\<close>

theorem GroupCatalogRows_groups:
  assumes "slice_sort srt"
  shows "mset (GroupCatalogRows srt loc rows) = mset (map (group_of loc rows) (remdups (map mr_ScheduleID rows))) \<and>
    sorted (map mc_MatchTime (GroupCatalogRows srt loc rows)) \<and>
    distinct (map mc_ScheduleID (GroupCatalogRows srt loc rows)) \<and>
    mc_ScheduleID ` set (GroupCatalogRows srt loc rows) = mr_ScheduleID ` set rows"
proof -
  let ?ids = "map mr_ScheduleID rows" and ?G = "GroupCatalogRows srt loc rows"
  have G: "?G = srt (map (group_of loc rows) (first_occ ?ids))" by (rule GroupCatalogRows_srt)
  have perm: "mset (first_occ ?ids) = mset (remdups ?ids)"
    by (simp add: set_eq_iff_mset_eq_distinct [symmetric])
  have ids: "map mc_ScheduleID (map (group_of loc rows) (first_occ ?ids)) = first_occ ?ids"
    by (rule map_idI [THEN trans [OF map_map]]) (simp add: group_of_id)
  have "mset ?G = mset (map (group_of loc rows) (remdups ?ids))"
    using perm by (simp add: G slice_sort.mset_srt [OF assms])
  moreover have "distinct (map mc_ScheduleID ?G)"
    unfolding G slice_sort.distinct_map_srt [OF assms] ids by simp
  moreover have "mc_ScheduleID ` set ?G = mr_ScheduleID ` set rows"
    using arg_cong [OF ids, of set] by (simp add: G slice_sort.set_srt [OF assms] image_image)
  ultimately show ?thesis by (simp add: G slice_sort.sorted_srt [OF assms])
qed

abbreviation demo_match :: "int \<Rightarrow> MatchCatalogRow" where
  "demo_match uid \<equiv>
     \<lparr>mr_ScheduleID = 7, mr_MatchTime = ''2026-08-08 05:02:28'', mr_HostName = ''A'', mr_GuestName = ''B'', mr_HostScore = 0,
      mr_GuestScore = 0, mr_MatchStatus = 1, mr_HostIcon = [], mr_GuestIcon = [], mr_SubCateName = ''cup'', mr_LiveType = 11,
      mr_LiveTypeParent = 1, mr_CategoryIcon = [], mr_CategoryName = ''football'', mr_AnchorUID = uid, mr_AnchorNickName = ''host'',
      mr_AnchorIcon = [], mr_RoomNum = ''88'', mr_RoomDetail = [], mr_RoomNotice = []\<rparr>"

theorem GroupCatalogRows_witness:
  "\<exists>it. mset (GroupCatalogRows (sort_key mc_MatchTime) id [demo_match 1001, demo_match 0, demo_match 1002]) = {#it#} \<and>
     mc_ScheduleID it = 7 \<and> map ma_UID (mc_Anchors it) = [1001, 1002]"
  using GroupCatalogRows_groups [OF stable_sort.slice_sort_axioms, of id "[demo_match 1001, demo_match 0, demo_match 1002]"]
  by (simp add: group_of_def new_item_def anchor_of_def Let_def)

text \<open>The merged group.\<close>

definition merged :: "(int \<times> MatchCatalogItem) list \<Rightarrow> bool" where
  "merged all \<longleftrightarrow> distinct (map fst all) \<and> (\<forall>(i, it) \<in> set all. mc_ScheduleID it = i)"

lemma merged_merge_item:
  "merged all \<Longrightarrow> merged (merge_item it all) \<and>
     fst ` set (merge_item it all) = insert (mc_ScheduleID it) (fst ` set all) \<and>
     snd ` set (merge_item it all) \<subseteq> insert it (snd ` set all)"
  by (auto simp: merged_def merge_item_def map_of_eq_None_iff intro: rev_image_eqI)

lemma merged_fold_items:
  "merged all \<Longrightarrow> merged (fold merge_item its all) \<and>
     fst ` set (fold merge_item its all) = mc_ScheduleID ` set its \<union> fst ` set all \<and>
     snd ` set (fold merge_item its all) \<subseteq> set its \<union> snd ` set all"
proof (induction its arbitrary: all)
  case (Cons it its)
  note m = merged_merge_item [OF Cons.prems, of it]
  show ?case using Cons.IH [OF conjunct1 [OF m]] m by simp blast
qed simp

lemma merged_fold_groups:
  "merged all \<Longrightarrow> merged (fold (\<lambda>k. fold merge_item (g k)) ks all) \<and>
     fst ` set (fold (\<lambda>k. fold merge_item (g k)) ks all) = (\<Union>k\<in>set ks. mc_ScheduleID ` set (g k)) \<union> fst ` set all \<and>
     snd ` set (fold (\<lambda>k. fold merge_item (g k)) ks all) \<subseteq> (\<Union>k\<in>set ks. set (g k)) \<union> snd ` set all"
proof (induction ks arbitrary: all)
  case (Cons k ks)
  note m = merged_fold_items [OF Cons.prems, of "g k"]
  note ih = Cons.IH [OF conjunct1 [OF m]]
  have "(\<Union>k\<in>set ks. set (g k)) \<union> snd ` set (fold merge_item (g k) all) \<subseteq> (\<Union>k\<in>set (k # ks). set (g k)) \<union> snd ` set all"
    using m by (simp add: le_supI1 le_supI2) blast
  with ih have "snd ` set (fold (\<lambda>k. fold merge_item (g k)) (k # ks) all) \<subseteq> (\<Union>k\<in>set (k # ks). set (g k)) \<union> snd ` set all"
    by (simp only: fold_simps comp_apply) (rule order_trans [rotated], assumption, elim conjE)
  moreover have "fst ` set (fold (\<lambda>k. fold merge_item (g k)) (k # ks) all) = (\<Union>k\<in>set (k # ks). mc_ScheduleID ` set (g k)) \<union> fst ` set all"
    using ih m by (simp add: Un_ac)
  ultimately show ?case using ih by simp
qed simp

lemma itoa_group_keys: "itoa 1 = ''1''" "itoa 2 = ''2''" "itoa 5 = ''5''"
  by code_simp+

lemma catalog_step_keys:
  "\<exists>g1 g2 g5 d'. fold (catalog_step srt loc D sc) [1, 2, 5] ([], d) = ([(''1'', g1), (''2'', g2), (''5'', g5)], d')"
  by (simp add: catalog_step_def itoa_group_keys split: prod.splits)


text \<open>A database that answers every query with one row of a match with one anchor.\<close>

definition demo_row :: "sqlval list" where
  "demo_row =
     [VInt 7, VText ''2026-08-08 05:02:28'', VText ''A'', VText ''B'', VInt 0, VInt 0, VInt 1, VText [], VText [], VText ''cup'',
      VInt 11, VInt 1, VText [], VText ''football'', VInt 1001, VText ''host'', VText [], VText ''88'', VNull, VNull]"

definition demo_db :: "unit sql_db" where
  "demo_db = \<lparr>ExecContext = (\<lambda>_ _ d. (None, d)), QueryContext = (\<lambda>_ _ d. (Inr ([demo_row], None), d))\<rparr>"


end
