(* ===== verification/Degrade.thy ===== *)
theory Degrade
  imports Prelude
begin

text \<open>
  The global degrade state machine of \<open>common/degrade/degrade.go\<close>.  A \<open>Mode\<close> is the \<open>int32\<close> the
  atomic cell holds, so values outside the four named modes are represented.  A watcher channel is
  the list of its queued values, oldest first, with the capacity \<open>Watch\<close> gives it.  The first part
  models each method as one function of the manager; the second part is the interleaving of
  goroutines, where the critical section under \<open>mu\<close> is one step and every channel operation of
  \<open>notify\<close>, which runs after the unlock, is a step of its own.
\<close>

subsection \<open>Modes and levels\<close>

type_synonym Mode = "32 word"
type_synonym Level = int

definition ModeNormal :: Mode where "ModeNormal = 0"
definition ModeDegraded :: Mode where "ModeDegraded = 1"
definition ModeProtected :: Mode where "ModeProtected = 2"
definition ModeEmergency :: Mode where "ModeEmergency = 3"

definition LevelDisplay :: Level where "LevelDisplay = 1"
definition LevelAuth :: Level where "LevelAuth = 2"
definition LevelWrite :: Level where "LevelWrite = 3"

lemmas mode_defs = ModeNormal_def ModeDegraded_def ModeProtected_def ModeEmergency_def
lemma mode_distinct [simp]:
  "ModeNormal \<noteq> ModeDegraded" "ModeNormal \<noteq> ModeProtected" "ModeNormal \<noteq> ModeEmergency"
  "ModeDegraded \<noteq> ModeNormal" "ModeDegraded \<noteq> ModeProtected" "ModeDegraded \<noteq> ModeEmergency"
  "ModeProtected \<noteq> ModeNormal" "ModeProtected \<noteq> ModeDegraded" "ModeProtected \<noteq> ModeEmergency"
  "ModeEmergency \<noteq> ModeNormal" "ModeEmergency \<noteq> ModeDegraded" "ModeEmergency \<noteq> ModeProtected"
  by (simp_all add: mode_defs)

lemmas level_defs = LevelDisplay_def LevelAuth_def LevelWrite_def

definition mode_String :: "Mode \<Rightarrow> string" where
  "mode_String m =
     (if m = ModeNormal then ''NORMAL''
      else if m = ModeDegraded then ''DEGRADED''
      else if m = ModeProtected then ''PROTECTED''
      else if m = ModeEmergency then ''EMERGENCY''
      else ''UNKNOWN('' @ itoa (sint m) @ '')'')"

definition Severity :: "Mode \<Rightarrow> nat" where
  "Severity m =
     (if m = ModeNormal then 0
      else if m = ModeDegraded then 1
      else if m = ModeProtected then 2
      else if m = ModeEmergency then 3
      else 0)"

text \<open>The modes the constants name.\<close>

definition known_mode :: "Mode \<Rightarrow> bool" where
  "known_mode m \<longleftrightarrow> m \<in> {ModeNormal, ModeDegraded, ModeProtected, ModeEmergency}"

subsection \<open>The manager\<close>

record Manager =
  mgr_mode :: Mode
  mgr_watchers :: "Mode list list"

definition New :: Manager where
  "New = \<lparr>mgr_mode = ModeNormal, mgr_watchers = []\<rparr>"

definition watch_cap :: nat where "watch_cap = 8"

text \<open>The non-blocking send and receive of a \<open>select\<close> with a default branch.\<close>

definition try_send :: "Mode list \<Rightarrow> Mode \<Rightarrow> Mode list option" where
  "try_send ch v = (if length ch < watch_cap then Some (ch @ [v]) else None)"

definition try_recv :: "Mode list \<Rightarrow> Mode list" where
  "try_recv ch = (case ch of [] \<Rightarrow> [] | _ # q \<Rightarrow> q)"

definition notify_one :: "Mode \<Rightarrow> Mode list \<Rightarrow> Mode list" where
  "notify_one m ch =
     (case try_send ch m of
        Some q \<Rightarrow> q
      | None \<Rightarrow>
          (let ch1 = try_recv ch in
           case try_send ch1 m of Some q \<Rightarrow> q | None \<Rightarrow> ch1))"

definition notify :: "Mode list list \<Rightarrow> Mode \<Rightarrow> Mode list list" where
  "notify watchers m = map (notify_one m) watchers"

definition mgr_Mode :: "Manager \<Rightarrow> Mode" where
  "mgr_Mode g = mgr_mode g"

definition ModeGauge :: "Manager \<Rightarrow> int" where
  "ModeGauge g = sint (mgr_mode g)"

definition mgr_Set :: "Mode \<Rightarrow> Manager \<Rightarrow> Manager" where
  "mgr_Set m g =
     (let old = mgr_mode g;
          g1 = g\<lparr>mgr_mode := m\<rparr>
      in if old \<noteq> m then g1\<lparr>mgr_watchers := notify (mgr_watchers g1) m\<rparr> else g1)"

definition CanServeLevel :: "Manager \<Rightarrow> Level \<Rightarrow> bool" where
  "CanServeLevel g level =
     (let m = mgr_mode g in
      if m = ModeNormal then True
      else if m = ModeDegraded \<or> m = ModeProtected then level = LevelDisplay \<or> level = LevelAuth
      else if m = ModeEmergency then level = LevelAuth
      else False)"

definition PromoteIfWorse :: "Mode \<Rightarrow> Manager \<Rightarrow> bool \<times> Manager" where
  "PromoteIfWorse m g =
     (if Severity m > Severity (mgr_mode g)
      then (True, g\<lparr>mgr_mode := m, mgr_watchers := notify (mgr_watchers g) m\<rparr>)
      else (False, g))"

definition DemoteIfBetter :: "Mode \<Rightarrow> Manager \<Rightarrow> bool \<times> Manager" where
  "DemoteIfBetter m g =
     (if Severity m < Severity (mgr_mode g)
      then (True, g\<lparr>mgr_mode := m, mgr_watchers := notify (mgr_watchers g) m\<rparr>)
      else (False, g))"

text \<open>\<open>Watch\<close> returns the position of the new channel.\<close>

definition Watch :: "Manager \<Rightarrow> nat \<times> Manager" where
  "Watch g = (length (mgr_watchers g), g\<lparr>mgr_watchers := mgr_watchers g @ [[]]\<rparr>)"

subsection \<open>Serving levels\<close>

lemma known_mode_cases:
  assumes "known_mode m"
  obtains "m = ModeNormal" | "m = ModeDegraded" | "m = ModeProtected" | "m = ModeEmergency"
  using assms by (auto simp: known_mode_def)

lemma Severity_simps [simp]:
  "Severity ModeNormal = 0" "Severity ModeDegraded = 1" "Severity ModeProtected = 2" "Severity ModeEmergency = 3"
  by (simp_all add: Severity_def mode_defs)

lemma Severity_le_3: "Severity m \<le> 3"
  by (simp add: Severity_def)

lemma Severity_inject: "known_mode a \<Longrightarrow> known_mode b \<Longrightarrow> Severity a = Severity b \<Longrightarrow> a = b"
  by (auto elim!: known_mode_cases)

lemma Severity_pos_known: "0 < Severity m \<Longrightarrow> known_mode m"
  by (auto simp: Severity_def known_mode_def split: if_splits)

lemma CanServeLevel_antimono:
  assumes "known_mode (mgr_mode a)" "known_mode (mgr_mode b)"
    and "Severity (mgr_mode a) \<le> Severity (mgr_mode b)" "CanServeLevel b l"
  shows "CanServeLevel a l"
  using assms by (elim known_mode_cases) (auto simp: CanServeLevel_def)

lemma CanServeLevel_auth: "known_mode (mgr_mode g) \<Longrightarrow> CanServeLevel g LevelAuth"
  by (elim known_mode_cases) (auto simp: CanServeLevel_def)

lemma CanServeLevel_write: "CanServeLevel g LevelWrite \<longleftrightarrow> mgr_mode g = ModeNormal"
  by (simp add: CanServeLevel_def level_defs Let_def)

subsection \<open>Histories of operations\<close>

datatype mgr_op = OpSet Mode | OpPromote Mode | OpDemote Mode | OpWatch | OpRecv nat

fun mgr_run_op :: "mgr_op \<Rightarrow> Manager \<Rightarrow> Manager" where
  "mgr_run_op (OpSet m) g = mgr_Set m g"
| "mgr_run_op (OpPromote m) g = snd (PromoteIfWorse m g)"
| "mgr_run_op (OpDemote m) g = snd (DemoteIfBetter m g)"
| "mgr_run_op OpWatch g = snd (Watch g)"
| "mgr_run_op (OpRecv i) g =
     (if i < length (mgr_watchers g)
      then g\<lparr>mgr_watchers := (mgr_watchers g)[i := try_recv (mgr_watchers g ! i)]\<rparr> else g)"

definition mgr_run :: "mgr_op list \<Rightarrow> Manager \<Rightarrow> Manager" where
  "mgr_run ops g = fold mgr_run_op ops g"

text \<open>The modes an operation may set.\<close>

fun op_mode :: "mgr_op \<Rightarrow> Mode set" where
  "op_mode (OpSet m) = {m}"
| "op_mode (OpPromote m) = {m}"
| "op_mode (OpDemote m) = {m}"
| "op_mode _ = {}"

definition mgr_inv :: "Manager \<Rightarrow> bool" where
  "mgr_inv g \<longleftrightarrow> (\<forall>ch \<in> set (mgr_watchers g). length ch \<le> watch_cap)"

lemma length_notify_one: "length ch \<le> watch_cap \<Longrightarrow> length (notify_one m ch) \<le> watch_cap"
  by (auto simp: notify_one_def try_send_def try_recv_def Let_def watch_cap_def split: list.splits)

lemma last_notify_one: "length ch \<le> watch_cap \<Longrightarrow> notify_one m ch \<noteq> [] \<and> last (notify_one m ch) = m"
  by (auto simp: notify_one_def try_send_def try_recv_def Let_def watch_cap_def split: list.splits)

lemma set_try_recv: "set (try_recv ch) \<subseteq> set ch"
  by (auto simp: try_recv_def split: list.splits)

lemma length_try_recv: "length (try_recv ch) \<le> length ch"
  by (auto simp: try_recv_def split: list.splits)

lemma mgr_inv_notify: "\<forall>ch \<in> set ws. length ch \<le> watch_cap \<Longrightarrow> \<forall>ch \<in> set (notify ws m). length ch \<le> watch_cap"
  by (auto simp: notify_def length_notify_one)

lemma try_recv_cap:
  assumes "mgr_inv g" "i < length (mgr_watchers g)"
  shows "length (try_recv (mgr_watchers g ! i)) \<le> watch_cap"
proof -
  have "length (mgr_watchers g ! i) \<le> watch_cap" using assms by (simp add: mgr_inv_def)
  then show ?thesis using length_try_recv [of "mgr_watchers g ! i"] by simp
qed

lemma mgr_inv_op: "mgr_inv g \<Longrightarrow> mgr_inv (mgr_run_op opn g)"
proof (cases opn)
  case (OpRecv i)
  assume g: "mgr_inv g"
  show ?thesis
  proof (cases "i < length (mgr_watchers g)")
    case True
    then have "length (try_recv (mgr_watchers g ! i)) \<le> watch_cap"
      using g by (simp add: try_recv_cap)
    then show ?thesis
      using OpRecv g True by (auto simp: mgr_inv_def dest!: subsetD [OF set_update_subset_insert])
  qed (simp add: OpRecv g)
qed (simp_all add: mgr_inv_def mgr_Set_def PromoteIfWorse_def DemoteIfBetter_def Watch_def Let_def
      mgr_inv_notify)

lemma mgr_inv_run: "mgr_inv g \<Longrightarrow> mgr_inv (mgr_run ops g)"
  by (induction ops arbitrary: g) (auto simp: mgr_run_def mgr_inv_op)

lemma known_run_op: "known_mode (mgr_mode g) \<Longrightarrow> \<forall>m \<in> op_mode opn. known_mode m \<Longrightarrow> known_mode (mgr_mode (mgr_run_op opn g))"
  by (cases opn) (auto simp: mgr_Set_def PromoteIfWorse_def DemoteIfBetter_def Watch_def Let_def)

lemma known_run:
  "known_mode (mgr_mode g) \<Longrightarrow> \<forall>opn \<in> set ops. \<forall>m \<in> op_mode opn. known_mode m \<Longrightarrow>
   known_mode (mgr_mode (mgr_run ops g))"
  by (induction ops arbitrary: g) (auto simp: mgr_run_def known_run_op)

lemma promote_severity: "Severity (mgr_mode (snd (PromoteIfWorse m g))) = max (Severity m) (Severity (mgr_mode g))"
  by (simp add: PromoteIfWorse_def)

lemma promotes_severity:
  "Severity (mgr_mode (mgr_run (map OpPromote ms) g)) = fold max (map Severity ms) (Severity (mgr_mode g))"
  by (induction ms arbitrary: g) (simp_all add: mgr_run_def promote_severity)

lemma fold_max_Max: "fold max xs (a :: nat) = Max (insert a (set xs))"
  by (metis List.finite_set Max.set_eq_fold list.simps(15))

subsection \<open>Interleavings\<close>

text \<open>A goroutine between its unlock and its return is in \<open>notify\<close>: the mode it announces, the
  watchers of its snapshot that are left (the slice only grows, so positions identify channels)
  and the next channel operation on the first of them.\<close>

datatype notify_pc = PTrySend | PDrop | PRetry

type_synonym notifier = "Mode \<times> nat list \<times> notify_pc"

record mgr_conc =
  cm :: Manager
  cg :: "nat \<Rightarrow> notifier option"

definition conc_init :: mgr_conc where
  "conc_init = \<lparr>cm = New, cg = (\<lambda>_. None)\<rparr>"

definition enter_notify :: "nat \<Rightarrow> Mode \<Rightarrow> mgr_conc \<Rightarrow> mgr_conc" where
  "enter_notify g m s =
     s\<lparr>cm := (cm s)\<lparr>mgr_mode := m\<rparr>,
       cg := (cg s)(g \<mapsto> (m, [0..<length (mgr_watchers (cm s))], PTrySend))\<rparr>"

abbreviation put_chan :: "nat \<Rightarrow> Mode list \<Rightarrow> mgr_conc \<Rightarrow> Manager" where
  "put_chan i q s \<equiv> (cm s)\<lparr>mgr_watchers := (mgr_watchers (cm s))[i := q]\<rparr>"

inductive mgr_step :: "mgr_conc \<Rightarrow> mgr_conc \<Rightarrow> bool" where
  st_set: "cg s g = None \<Longrightarrow> mgr_mode (cm s) \<noteq> m \<Longrightarrow> mgr_step s (enter_notify g m s)"
| st_promote: "cg s g = None \<Longrightarrow> Severity m > Severity (mgr_mode (cm s)) \<Longrightarrow> mgr_step s (enter_notify g m s)"
| st_demote: "cg s g = None \<Longrightarrow> Severity m < Severity (mgr_mode (cm s)) \<Longrightarrow> mgr_step s (enter_notify g m s)"
| st_watch: "mgr_step s (s\<lparr>cm := snd (Watch (cm s))\<rparr>)"
| st_send: "cg s g = Some (m, i # is, PTrySend) \<Longrightarrow> try_send (mgr_watchers (cm s) ! i) m = Some q \<Longrightarrow>
    mgr_step s (s\<lparr>cm := put_chan i q s, cg := (cg s)(g \<mapsto> (m, is, PTrySend))\<rparr>)"
| st_full: "cg s g = Some (m, i # is, PTrySend) \<Longrightarrow> try_send (mgr_watchers (cm s) ! i) m = None \<Longrightarrow>
    mgr_step s (s\<lparr>cg := (cg s)(g \<mapsto> (m, i # is, PDrop))\<rparr>)"
| st_drop: "cg s g = Some (m, i # is, PDrop) \<Longrightarrow>
    mgr_step s (s\<lparr>cm := put_chan i (try_recv (mgr_watchers (cm s) ! i)) s,
                   cg := (cg s)(g \<mapsto> (m, i # is, PRetry))\<rparr>)"
| st_retry: "cg s g = Some (m, i # is, PRetry) \<Longrightarrow> try_send (mgr_watchers (cm s) ! i) m = Some q \<Longrightarrow>
    mgr_step s (s\<lparr>cm := put_chan i q s, cg := (cg s)(g \<mapsto> (m, is, PTrySend))\<rparr>)"
| st_lost: "cg s g = Some (m, i # is, PRetry) \<Longrightarrow> try_send (mgr_watchers (cm s) ! i) m = None \<Longrightarrow>
    mgr_step s (s\<lparr>cg := (cg s)(g \<mapsto> (m, is, PTrySend))\<rparr>)"
| st_done: "cg s g = Some (m, [], pc) \<Longrightarrow> mgr_step s (s\<lparr>cg := (cg s)(g := None)\<rparr>)"
| st_recv: "i < length (mgr_watchers (cm s)) \<Longrightarrow>
    mgr_step s (s\<lparr>cm := put_chan i (try_recv (mgr_watchers (cm s) ! i)) s\<rparr>)"

inductive_simps mgr_step_iff: "mgr_step s s'"

text \<open>Every queue is within its capacity, and a snapshot names only existing watchers.\<close>

definition conc_inv :: "mgr_conc \<Rightarrow> bool" where
  "conc_inv s \<longleftrightarrow> mgr_inv (cm s) \<and>
     (\<forall>g n. cg s g = Some n \<longrightarrow> list_all (\<lambda>i. i < length (mgr_watchers (cm s))) (fst (snd n)))"

lemma mgr_inv_put:
  "mgr_inv (cm s) \<Longrightarrow> length q \<le> watch_cap \<Longrightarrow> mgr_inv (put_chan i q s)"
  by (auto simp: mgr_inv_def dest!: subsetD [OF set_update_subset_insert])

lemma try_send_cap: "try_send ch m = Some q \<Longrightarrow> length q \<le> watch_cap"
  by (auto simp: try_send_def split: if_splits)

lemma conc_inv_pick: "conc_inv s \<Longrightarrow> cg s g = Some (m, i # is, pc) \<Longrightarrow>
   i < length (mgr_watchers (cm s)) \<and> list_all (\<lambda>i. i < length (mgr_watchers (cm s))) is"
  by (fastforce simp: conc_inv_def)

lemma conc_inv_put:
  assumes "conc_inv s" "length q \<le> watch_cap"
  shows "conc_inv (s\<lparr>cm := put_chan i q s\<rparr>)"
  using assms mgr_inv_put [of s q i] by (auto simp: conc_inv_def)

lemma conc_inv_cg:
  "conc_inv s \<Longrightarrow> list_all (\<lambda>i. i < length (mgr_watchers (cm s))) is \<Longrightarrow>
   conc_inv (s\<lparr>cg := (cg s)(g \<mapsto> (m, is, pc))\<rparr>)"
  by (auto simp: conc_inv_def)

lemma conc_inv_both:
  assumes "conc_inv s" "length q \<le> watch_cap" "list_all (\<lambda>i. i < length (mgr_watchers (cm s))) is"
  shows "conc_inv (s\<lparr>cm := put_chan i q s, cg := (cg s)(g \<mapsto> (m, is, pc))\<rparr>)"
  using conc_inv_cg [OF conc_inv_put [OF assms(1,2), of i], of "is" g m pc] assms(3) by simp

lemma conc_inv_enter: "conc_inv s \<Longrightarrow> conc_inv (enter_notify g m s)"
  by (auto simp: conc_inv_def mgr_inv_def enter_notify_def list_all_iff)

lemma conc_inv_watch: "conc_inv s \<Longrightarrow> conc_inv (s\<lparr>cm := snd (Watch (cm s))\<rparr>)"
  by (fastforce simp: conc_inv_def mgr_inv_def Watch_def list_all_iff less_Suc_eq)

lemma conc_inv_step: "mgr_step s s' \<Longrightarrow> conc_inv s \<Longrightarrow> conc_inv s'"
proof (induction rule: mgr_step.induct)
  case (st_done s g m pc)
  then show ?case by (simp add: conc_inv_def)
qed (auto dest: conc_inv_pick try_send_cap
      intro!: conc_inv_enter conc_inv_watch conc_inv_put conc_inv_cg conc_inv_both try_recv_cap
      simp: conc_inv_def [THEN iffD1, THEN conjunct1])

lemma conc_inv_reach: "mgr_step\<^sup>*\<^sup>* conc_init s \<Longrightarrow> conc_inv s"
proof (induction rule: rtranclp_induct)
  case base
  then show ?case by (simp add: conc_inv_def conc_init_def New_def mgr_inv_def)
qed (rule conc_inv_step)

subsection \<open>Properties\<close>

lemma CanServe_promote:
  assumes "known_mode (mgr_mode g)" "known_mode m"
  shows "CanServeLevel (snd (PromoteIfWorse m g)) l \<longleftrightarrow> CanServeLevel g l \<and> CanServeLevel (g\<lparr>mgr_mode := m\<rparr>) l"
  using assms by (elim known_mode_cases) (auto simp: PromoteIfWorse_def CanServeLevel_def)

lemma CanServe_mode_only: "mgr_mode g = mgr_mode h \<Longrightarrow> CanServeLevel g l = CanServeLevel h l"
  by (simp add: CanServeLevel_def)

lemma CanServe_promotes:
  assumes "known_mode (mgr_mode g)" "\<forall>m \<in> set ms. known_mode m"
  shows "CanServeLevel (mgr_run (map OpPromote ms) g) l \<longleftrightarrow>
    CanServeLevel g l \<and> (\<forall>m \<in> set ms. CanServeLevel (g\<lparr>mgr_mode := m\<rparr>) l)"
  using assms
proof (induction ms arbitrary: g)
  case (Cons m ms)
  let ?h = "snd (PromoteIfWorse m g)"
  have k: "known_mode (mgr_mode ?h)" using Cons.prems by (simp add: PromoteIfWorse_def)
  have "CanServeLevel (?h\<lparr>mgr_mode := x\<rparr>) l = CanServeLevel (g\<lparr>mgr_mode := x\<rparr>) l" for x
    by (rule CanServe_mode_only) simp
  then show ?case
    using Cons.IH [OF k] Cons.prems CanServe_promote [of g m l] by (auto simp: mgr_run_def)
qed (simp add: mgr_run_def)

text \<open>C23: when independent detectors each report an incident with \<open>PromoteIfWorse\<close>, the resulting mode
  is the most severe report, whatever the order, and a level is served exactly when it is served
  in every reported mode.\<close>

theorem promotes_worst_wins:
  assumes "\<forall>m \<in> set ms. known_mode m"
  shows "Severity (mgr_mode (mgr_run (map OpPromote ms) New)) = Max (insert 0 (Severity ` set ms)) \<and>
    (CanServeLevel (mgr_run (map OpPromote ms) New) l \<longleftrightarrow>
       (\<forall>m \<in> set ms. CanServeLevel \<lparr>mgr_mode = m, mgr_watchers = []\<rparr> l))"
proof -
  have k: "known_mode (mgr_mode New)" by (simp add: New_def known_mode_def)
  have "CanServeLevel New l" by (simp add: New_def CanServeLevel_def)
  then show ?thesis
    using CanServe_promotes [OF k assms, of l] promotes_severity [of ms New]
      fold_max_Max [of "map Severity ms" 0]
    by (simp add: New_def)
qed

theorem promotes_worst_wins_witness:
  "Severity (mgr_mode (mgr_run (map OpPromote [ModeProtected, ModeDegraded]) New)) = 2 \<and>
   \<not> CanServeLevel (mgr_run (map OpPromote [ModeProtected, ModeDegraded]) New) LevelWrite"
  using promotes_worst_wins [of "[ModeProtected, ModeDegraded]" LevelWrite]
  by (simp add: known_mode_def CanServeLevel_def level_defs)

text \<open>Whatever sequence of operator overrides, promotions, demotions, subscriptions and consumer
  reads the service runs, as long as the modes are the four named ones: the auth level stays open,
  the write level is open exactly in NORMAL, and no watcher queue exceeds its capacity.\<close>

theorem degrade_history_safe:
  assumes "\<forall>opn \<in> set ops. \<forall>m \<in> op_mode opn. known_mode m"
  shows "CanServeLevel (mgr_run ops New) LevelAuth \<and>
    (CanServeLevel (mgr_run ops New) LevelWrite \<longleftrightarrow> mgr_mode (mgr_run ops New) = ModeNormal) \<and>
    (\<forall>ch \<in> set (mgr_watchers (mgr_run ops New)). length ch \<le> watch_cap)"
proof -
  have "known_mode (mgr_mode New)" "mgr_inv New" by (simp_all add: New_def known_mode_def mgr_inv_def)
  then show ?thesis
    using known_run [OF _ assms] mgr_inv_run [of New ops]
    by (simp add: CanServeLevel_auth CanServeLevel_write mgr_inv_def)
qed

theorem degrade_history_witness:
  "CanServeLevel (mgr_run [OpWatch, OpSet ModeEmergency, OpDemote ModeDegraded, OpRecv 0] New) LevelAuth"
  using degrade_history_safe [of "[OpWatch, OpSet ModeEmergency, OpDemote ModeDegraded, OpRecv 0]"]
  by (simp add: known_mode_def)

text \<open>A transition that no other goroutine interferes with reaches every watcher: the newest value
  of each queue is the new mode, and at most the oldest queued value was dropped for it.\<close>

theorem transition_reaches_watchers:
  assumes "mgr_inv g" "PromoteIfWorse m g = (True, g')" "i < length (mgr_watchers g)"
  shows "mgr_mode g' = m \<and> length (mgr_watchers g') = length (mgr_watchers g) \<and>
    mgr_watchers g' ! i = (if length (mgr_watchers g ! i) < watch_cap then mgr_watchers g ! i
                           else tl (mgr_watchers g ! i)) @ [m]"
proof -
  have g': "g' = g\<lparr>mgr_mode := m, mgr_watchers := notify (mgr_watchers g) m\<rparr>"
    using assms(2) by (simp add: PromoteIfWorse_def split: if_splits)
  have "length (mgr_watchers g ! i) \<le> watch_cap" using assms(1,3) by (simp add: mgr_inv_def)
  then show ?thesis
    using assms(3) by (auto simp: g' notify_def notify_one_def try_send_def try_recv_def watch_cap_def Let_def
      split: list.splits)
qed

theorem transition_reaches_witness:
  "mgr_watchers (snd (PromoteIfWorse ModeEmergency \<lparr>mgr_mode = ModeNormal, mgr_watchers = [[1, 0, 1, 0, 1, 0, 1, 0]]\<rparr>)) ! 0
     = [0, 1, 0, 1, 0, 1, 0, ModeEmergency]"
  using transition_reaches_watchers [of "\<lparr>mgr_mode = ModeNormal, mgr_watchers = [[1, 0, 1, 0, 1, 0, 1, 0]]\<rparr>"
      ModeEmergency _ 0]
  by (simp add: PromoteIfWorse_def mgr_inv_def watch_cap_def)



text \<open>Because \<open>notify\<close> runs after the unlock, two transitions can be announced in the other order:
  there is a run that ends with every goroutine finished, the manager in NORMAL, and a watcher
  whose newest value is DEGRADED.\<close>

theorem stale_notification:
  "\<exists>s. mgr_step\<^sup>*\<^sup>* conc_init s \<and> cg s = (\<lambda>_. None) \<and> mgr_mode (cm s) = ModeNormal \<and>
       last (mgr_watchers (cm s) ! 0) = ModeDegraded"
proof -
  let ?N = "\<lambda>m n. Some (m, n, PTrySend)"
  define st where "st m w c = \<lparr>cm = \<lparr>mgr_mode = m, mgr_watchers = [w]\<rparr>, cg = c\<rparr>" for m w and c :: "nat \<Rightarrow> notifier option"
  note defs = st_def conc_init_def New_def Watch_def enter_notify_def try_send_def watch_cap_def
  have upd: "(\<lambda>_. None)(0 := x, Suc 0 := None) = (\<lambda>_. None)(0 := x)" for x :: "notifier option" by auto
  have upd0: "((\<lambda>_. None)(0 := x))(0 := None) = (\<lambda>_. None)" for x :: "notifier option" by auto
  have 1: "mgr_step conc_init (st ModeNormal [] (\<lambda>_. None))"
    using st_watch [of conc_init] by (simp add: defs)
  have 2: "mgr_step (st ModeNormal [] (\<lambda>_. None)) (st ModeDegraded [] ((\<lambda>_. None)(0 := ?N ModeDegraded [0])))"
    using st_set [of "st ModeNormal [] (\<lambda>_. None)" 0 ModeDegraded] by (simp add: defs)
  have 3: "mgr_step (st ModeDegraded [] ((\<lambda>_. None)(0 := ?N ModeDegraded [0])))
      (st ModeNormal [] ((\<lambda>_. None)(0 := ?N ModeDegraded [0], 1 := ?N ModeNormal [0])))"
    using st_set [of "st ModeDegraded [] ((\<lambda>_. None)(0 := ?N ModeDegraded [0]))" 1 ModeNormal]
    by (simp add: defs)
  have 4: "mgr_step (st ModeNormal [] ((\<lambda>_. None)(0 := ?N ModeDegraded [0], 1 := ?N ModeNormal [0])))
      (st ModeNormal [ModeNormal] ((\<lambda>_. None)(0 := ?N ModeDegraded [0], 1 := ?N ModeNormal [])))"
    using st_send [of "st ModeNormal [] ((\<lambda>_. None)(0 := ?N ModeDegraded [0], 1 := ?N ModeNormal [0]))" 1 ModeNormal 0 "[]"]
    by (simp add: defs)
  have 5: "mgr_step (st ModeNormal [ModeNormal] ((\<lambda>_. None)(0 := ?N ModeDegraded [0], 1 := ?N ModeNormal [])))
      (st ModeNormal [ModeNormal] ((\<lambda>_. None)(0 := ?N ModeDegraded [0])))"
    using st_done [of "st ModeNormal [ModeNormal] ((\<lambda>_. None)(0 := ?N ModeDegraded [0], 1 := ?N ModeNormal []))" 1 ModeNormal PTrySend]
    by (simp add: defs upd)
  have 6: "mgr_step (st ModeNormal [ModeNormal] ((\<lambda>_. None)(0 := ?N ModeDegraded [0])))
      (st ModeNormal [ModeNormal, ModeDegraded] ((\<lambda>_. None)(0 := ?N ModeDegraded [])))"
    using st_send [of "st ModeNormal [ModeNormal] ((\<lambda>_. None)(0 := ?N ModeDegraded [0]))" 0 ModeDegraded 0 "[]"]
    by (simp add: defs)
  have 7: "mgr_step (st ModeNormal [ModeNormal, ModeDegraded] ((\<lambda>_. None)(0 := ?N ModeDegraded [])))
      (st ModeNormal [ModeNormal, ModeDegraded] (\<lambda>_. None))"
    using st_done [of "st ModeNormal [ModeNormal, ModeDegraded] ((\<lambda>_. None)(0 := ?N ModeDegraded []))" 0 ModeDegraded PTrySend]
    by (simp add: defs upd0)
  have "mgr_step\<^sup>*\<^sup>* conc_init (st ModeNormal [ModeNormal, ModeDegraded] (\<lambda>_. None))"
    using 1 2 3 4 5 6 7 by (meson converse_rtranclp_into_rtranclp rtranclp.rtrancl_refl)
  then show ?thesis by (intro exI) (auto simp: st_def)
qed

end
