(* ===== verification/Cache.thy ===== *)
theory Cache
  imports Builders Redis Degrade
begin

text \<open>
  The cache layer (\<open>common/cache\<close>): the read-through Redis cache (\<open>cache.go\<close>), the fallback chain
  (\<open>fallback.go\<close>) and the manager that combines the in-process cache, Redis, singleflight, circuit
  breaker, fallback, degradation gate and metrics (\<open>manager.go\<close>).

  freecache, the breaker, singleflight and the snapshot server are parameters.  Writes that the code
  starts in a goroutine are queued in the state as pending writes, to be run at any later time.
\<close>

section \<open>Statistics\<close>

record Stats =
  st_hits :: "string \<rightharpoonup> int"
  st_misses :: "string \<rightharpoonup> int"

definition newStats :: Stats where
  "newStats = \<lparr>st_hits = Map.empty, st_misses = Map.empty\<rparr>"

definition bump :: "(string \<rightharpoonup> int) \<Rightarrow> string \<Rightarrow> (string \<rightharpoonup> int)" where
  "bump m k = m(k \<mapsto> wrap64 ((case m k of Some n \<Rightarrow> n | None \<Rightarrow> 0) + 1))"

definition Hit :: "string \<Rightarrow> Stats \<Rightarrow> Stats" where
  "Hit family s = s\<lparr>st_hits := bump (st_hits s) family\<rparr>"

definition Miss :: "string \<Rightarrow> Stats \<Rightarrow> Stats" where
  "Miss family s = s\<lparr>st_misses := bump (st_misses s) family\<rparr>"

definition Snapshot :: "Stats \<Rightarrow> (string \<rightharpoonup> int) \<times> (string \<rightharpoonup> int)" where
  "Snapshot s = (st_hits s, st_misses s)"

definition buildKey :: "string \<Rightarrow> string \<Rightarrow> string" where
  "buildKey family key = ''apipro:'' @ family @ '':'' @ TrimSpace key"

section \<open>Values of type \<open>any\<close>\<close>

text \<open>A generic instance \<open>T\<close> as the code uses it: how it is marshalled, how a JSON text is unmarshalled
  into it, and when a decoded \<open>any\<close> is already of that type.\<close>

record 'a gotype =
  t_enc :: "'a \<Rightarrow> json"
  t_dec :: "json \<Rightarrow> 'a option"
  t_asserts :: "json \<Rightarrow> 'a option"

definition unmarshal_T :: "'a gotype \<Rightarrow> string \<Rightarrow> 'a option" where
  "unmarshal_T T text = Option.bind (json_parse text) (t_dec T)"

definition marshal_T :: "'a gotype \<Rightarrow> 'a \<Rightarrow> string" where
  "marshal_T T v = json_print (t_enc T v)"

text \<open>Unmarshalling into \<open>any\<close>: numbers become \<open>float64\<close> (\<open>fl\<close> is the text of a literal after that
  conversion, none when it overflows) and objects become maps, which lose duplicates and order.\<close>

fun to_any :: "(string \<Rightarrow> string option) \<Rightarrow> json \<Rightarrow> json option"
  and to_anys :: "(string \<Rightarrow> string option) \<Rightarrow> json list \<Rightarrow> json list option"
  and to_anym :: "(string \<Rightarrow> string option) \<Rightarrow> (string \<times> json) list \<Rightarrow> (string \<times> json) list option" where
  "to_any fl (JNum n) = map_option JNum (fl n)"
| "to_any fl (JArr xs) = map_option JArr (to_anys fl xs)"
| "to_any fl (JObj ms) = map_option (\<lambda>m. JObj (sort_key fst (AList.clearjunk (rev m)))) (to_anym fl ms)"
| "to_any fl j = Some j"
| "to_anys fl [] = Some []"
| "to_anys fl (x # xs) = Option.bind (to_any fl x) (\<lambda>y. map_option ((#) y) (to_anys fl xs))"
| "to_anym fl [] = Some []"
| "to_anym fl ((k, v) # ms) = Option.bind (to_any fl v) (\<lambda>w. map_option ((#) (k, w)) (to_anym fl ms))"

datatype 'a anyval = Typed 'a | Decoded json

section \<open>The read-through Redis cache\<close>

text \<open>A cache holds the client; a nil cache or client is \<open>None\<close>.\<close>

type_synonym seconds = int

definition secs :: "int \<Rightarrow> seconds" where "secs ttl = ttl div 1000000000"

text \<open>A write that runs in its own goroutine.\<close>

datatype pending =
    SetRedis string string seconds
  | SetL1 string string int
  | SetBoth string string int

record 'r cache_state =
  cs_redis :: 'r
  cs_stats :: Stats
  cs_pending :: "pending list"

text \<open>\<open>GetOrLoad\<close>.  The first component of a loader's result is its error or value; \<open>shared\<close> is the result
  of a load of the same key that is already in flight, which singleflight hands to this caller.\<close>

definition cached_value :: "'r redis \<Rightarrow> 'a gotype \<Rightarrow> string \<Rightarrow> 'r \<Rightarrow> (string + string) \<times> 'a option \<times> 'r" where
  "cached_value R T k s =
     (case r_get R k s of
        (Inr raw, s') \<Rightarrow> (Inr raw, if raw \<noteq> [] then unmarshal_T T raw else None, s')
      | (Inl e, s') \<Rightarrow> (Inl e, None, s'))"

definition GetOrLoad ::
  "'r redis option \<Rightarrow> 'a gotype \<Rightarrow> string \<Rightarrow> string \<Rightarrow> int \<Rightarrow> ('e + 'a) option \<Rightarrow> ('d \<Rightarrow> ('e + 'a) \<times> 'd) \<Rightarrow>
   'r cache_state \<times> 'd \<Rightarrow> ('e + 'a) \<times> 'r cache_state \<times> 'd" where
  "GetOrLoad rdb T family key ttl shared loader w =
     (case w of (c, d) \<Rightarrow>
        case rdb of
          None \<Rightarrow> (let (r, d') = loader d in (r, c, d'))
        | Some R \<Rightarrow>
            (let k = buildKey family key;
                 (raw, v, s1) = cached_value R T k (cs_redis c);
                 c1 = c\<lparr>cs_redis := s1, cs_stats := (if \<exists>t. raw = Inr t \<and> t \<noteq> [] then Hit family (cs_stats c) else cs_stats c)\<rparr>
             in case v of
                  Some x \<Rightarrow> (Inr x, c1, d)
                | None \<Rightarrow>
                    (let c2 = c1\<lparr>cs_stats := Miss family (cs_stats c1)\<rparr>
                     in case shared of
                          Some r \<Rightarrow> (r, c2, d)
                        | None \<Rightarrow>
                            (let (_, v', s2) = cached_value R T k (cs_redis c2); c3 = c2\<lparr>cs_redis := s2\<rparr>
                             in case v' of
                                  Some x \<Rightarrow> (Inr x, c3, d)
                                | None \<Rightarrow>
                                    (case loader d of
                                       (Inl e, d') \<Rightarrow> (Inl e, c3, d')
                                     | (Inr x, d') \<Rightarrow>
                                         (Inr x, c3\<lparr>cs_pending := cs_pending c3 @ [SetRedis k (marshal_T T x) (secs ttl)]\<rparr>, d'))))))"

text \<open>\<open>Refresh\<close>: the result is the error, if any.\<close>

datatype 'e refresh_error = RefreshLoad 'e | RefreshSet string

definition cache_Refresh ::
  "'r redis option \<Rightarrow> 'a gotype \<Rightarrow> string \<Rightarrow> string \<Rightarrow> int \<Rightarrow> ('d \<Rightarrow> ('e + 'a) \<times> 'd) \<Rightarrow> 'r \<times> 'd \<Rightarrow> 'e refresh_error option \<times> 'r \<times> 'd" where
  "cache_Refresh rdb T family key ttl loader w =
     (case w of (s, d) \<Rightarrow>
        case loader d of
          (Inl e, d') \<Rightarrow> (Some (RefreshLoad e), s, d')
        | (Inr v, d') \<Rightarrow>
            (case rdb of
               None \<Rightarrow> (None, s, d')
             | Some R \<Rightarrow>
                 (case r_setex R (buildKey family key) (marshal_T T v) (secs ttl) s of
                    (Inl e, s') \<Rightarrow> (Some (RefreshSet e), s', d')
                  | (Inr _, s') \<Rightarrow> (None, s', d'))))"

definition cache_Invalidate :: "'r redis option \<Rightarrow> string \<Rightarrow> string \<Rightarrow> 'r \<Rightarrow> string option \<times> 'r" where
  "cache_Invalidate rdb family key s =
     (case rdb of
        None \<Rightarrow> (None, s)
      | Some R \<Rightarrow> (case r_del R [buildKey family key] s of (Inl e, s') \<Rightarrow> (Some e, s') | (Inr _, s') \<Rightarrow> (None, s')))"

definition cache_InvalidateFamily :: "'r redis option \<Rightarrow> string \<Rightarrow> 'r \<Rightarrow> (string + int) \<times> 'r" where
  "cache_InvalidateFamily rdb family s =
     (case rdb of
        None \<Rightarrow> (Inr 0, s)
      | Some R \<Rightarrow>
          (case r_keys R (''apipro:'' @ family @ '':*'') s of
             (Inl e, s1) \<Rightarrow> (Inl e, s1)
           | (Inr keys, s1) \<Rightarrow> if length keys = 0 then (Inr 0, s1) else r_del R keys s1))"

definition count_pattern :: "'r redis option \<Rightarrow> string \<Rightarrow> 'r \<Rightarrow> int \<times> 'r" where
  "count_pattern rdb p s =
     (case rdb of
        None \<Rightarrow> (0, s)
      | Some R \<Rightarrow> (case r_keys R p s of (Inl _, s') \<Rightarrow> (0, s') | (Inr keys, s') \<Rightarrow> (int (length keys), s')))"

definition CountKeys :: "'r redis option \<Rightarrow> 'r \<Rightarrow> int \<times> 'r" where
  "CountKeys rdb = count_pattern rdb ''apipro:*''"

definition CountFamily :: "'r redis option \<Rightarrow> string \<Rightarrow> 'r \<Rightarrow> int \<times> 'r" where
  "CountFamily rdb family = count_pattern rdb (''apipro:'' @ family @ '':*'')"

section \<open>The scheduler\<close>

record 'w RefreshJob =
  rj_Family :: string
  rj_Run :: "'w \<Rightarrow> 'w"
  rj_Every :: int

type_synonym 'w Scheduler = "'w RefreshJob list"

definition NewScheduler :: "'w Scheduler" where "NewScheduler = []"

definition sched_Add :: "'w RefreshJob \<Rightarrow> 'w Scheduler \<Rightarrow> 'w Scheduler" where
  "sched_Add job s = (if rj_Every job \<le> 0 then s else s @ [job])"

text \<open>After \<open>Start\<close> each job has its own goroutine: it runs once, then at each tick until the scheduler is
  stopped.  A state is the world, the phase of each goroutine and whether \<open>stop\<close> is closed; an event
  names the job whose goroutine moves.\<close>

datatype job_phase = JStart | JWaiting | JEnded

datatype sched_event = RunFirst nat | Tick nat | SeeStop nat | StopAll

fun sched_step :: "'w Scheduler \<Rightarrow> sched_event \<Rightarrow> 'w \<times> (nat \<Rightarrow> job_phase) \<times> bool \<Rightarrow> ('w \<times> (nat \<Rightarrow> job_phase) \<times> bool) option" where
  "sched_step js (RunFirst i) (w, ph, stop) =
     (if i < length js \<and> ph i = JStart then Some (rj_Run (js ! i) w, ph(i := JWaiting), stop) else None)"
| "sched_step js (Tick i) (w, ph, stop) =
     (if i < length js \<and> ph i = JWaiting then Some (rj_Run (js ! i) w, ph, stop) else None)"
| "sched_step js (SeeStop i) (w, ph, stop) =
     (if i < length js \<and> ph i = JWaiting \<and> stop then Some (w, ph(i := JEnded), stop) else None)"
| "sched_step js StopAll (w, ph, stop) = (if stop then None else Some (w, ph, True))"

section \<open>The in-process cache and the fallback chain\<close>

datatype fc_error = FcNotFound | FcOther string

record 'l freecache =
  fc_Get :: "string \<Rightarrow> 'l \<Rightarrow> (fc_error + string) \<times> 'l"
  fc_GetWithExpiration :: "string \<Rightarrow> 'l \<Rightarrow> (fc_error + string) \<times> 'l"
  fc_Set :: "string \<Rightarrow> string \<Rightarrow> seconds \<Rightarrow> 'l \<Rightarrow> 'l"
  fc_Del :: "string \<Rightarrow> 'l \<Rightarrow> 'l"
  fc_Clear :: "'l \<Rightarrow> 'l"
  fc_New :: "int \<Rightarrow> 'l"

text \<open>freecache instances are objects: sources and managers hold a reference, and the store gives each
  reference its contents.\<close>

type_synonym l1ref = nat

datatype source = L1StaleSource "l1ref option" | OSSSnapshotSource string | CDNSource string

definition trim_right_slash :: "string \<Rightarrow> string" where
  "trim_right_slash s = rev (dropWhile (\<lambda>c. c = CHR ''/'') (rev s))"

definition NewL1StaleSource :: "l1ref option \<Rightarrow> source" where "NewL1StaleSource l1 = L1StaleSource l1"
definition NewOSSSnapshotSource :: "string \<Rightarrow> source" where "NewOSSSnapshotSource b = OSSSnapshotSource (trim_right_slash b)"
definition NewCDNSource :: "string \<Rightarrow> source" where "NewCDNSource b = CDNSource (trim_right_slash b)"

fun source_Name :: "source \<Rightarrow> string" where
  "source_Name (L1StaleSource _) = ''l1_stale''"
| "source_Name (OSSSnapshotSource _) = ''oss''"
| "source_Name (CDNSource _) = ''cdn''"

text \<open>The reply of the snapshot server: a transport error, or a status with a body that may fail to be
  read.\<close>

datatype http_reply = HttpFail string | HttpReply int "string + string"

text \<open>An error of freecache comes with no data, and the length test precedes the error test: every error
  is a clean miss.\<close>

definition L1Stale_Get :: "'l freecache \<Rightarrow> l1ref option \<Rightarrow> string \<Rightarrow> string \<Rightarrow> (l1ref \<Rightarrow> 'l) \<Rightarrow> string option \<times> (l1ref \<Rightarrow> 'l)" where
  "L1Stale_Get F l1 family key st =
     (case l1 of
        None \<Rightarrow> (None, st)
      | Some h \<Rightarrow>
          (case fc_GetWithExpiration F (''apipro:'' @ family @ '':'' @ key) (st h) of
             (Inl e, l) \<Rightarrow> (None, st(h := l))
           | (Inr data, l) \<Rightarrow> (if data = [] then None else Some data, st(h := l))))"

definition snapshot_url :: "string \<Rightarrow> string \<Rightarrow> string \<Rightarrow> string" where
  "snapshot_url base family key = base @ ''/'' @ family @ ''/'' @ replace_char (CHR '':'') (CHR ''/'') key @ ''.json''"

definition OSS_Get :: "(string \<Rightarrow> http_reply) \<Rightarrow> string \<Rightarrow> string \<Rightarrow> string \<Rightarrow> string + string option" where
  "OSS_Get http base family key =
     (if base = [] then Inr None
      else (case http (snapshot_url base family key) of
              HttpFail e \<Rightarrow> Inl e
            | HttpReply code body \<Rightarrow>
                if code = 200 then (case body of Inl e \<Rightarrow> Inl e | Inr b \<Rightarrow> Inr (if b = [] then None else Some b))
                else if code = 404 then Inr None
                else Inl (''oss snapshot '' @ snapshot_url base family key @ '': unexpected status '' @ itoa code)))"

definition CDN_Get :: "string \<Rightarrow> string \<Rightarrow> string \<Rightarrow> string" where
  "CDN_Get base family key =
     ''{'' @ [dquote] @ ''cdn_redirect'' @ [dquote] @ '':'' @ [dquote] @ snapshot_url base family key @ [dquote] @ ''}''"

definition source_Get ::
  "'l freecache \<Rightarrow> (string \<Rightarrow> http_reply) \<Rightarrow> source \<Rightarrow> string \<Rightarrow> string \<Rightarrow> (l1ref \<Rightarrow> 'l) \<Rightarrow> (string + string option) \<times> (l1ref \<Rightarrow> 'l)" where
  "source_Get F http src family key st =
     (case src of
        L1StaleSource l1 \<Rightarrow> (let (r, st') = L1Stale_Get F l1 family key st in (Inr r, st'))
      | OSSSnapshotSource b \<Rightarrow> (OSS_Get http b family key, st)
      | CDNSource b \<Rightarrow> (Inr (Some (CDN_Get b family key)), st))"

text \<open>The manager: its sources (nil sources are \<open>None\<close>) and the counters \<open>hits, misses, errors\<close> by name.\<close>

record FallbackManager =
  fm_sources :: "source option list"
  fm_counts :: "string \<rightharpoonup> int \<times> int \<times> int"

fun init_counts :: "source option list \<Rightarrow> (string \<rightharpoonup> int \<times> int \<times> int) \<Rightarrow> (string \<rightharpoonup> int \<times> int \<times> int)" where
  "init_counts [] m = m"
| "init_counts (None # ss) m = init_counts ss m"
| "init_counts (Some s # ss) m =
     init_counts ss (if m (source_Name s) = None then m(source_Name s \<mapsto> (0, 0, 0)) else m)"

definition NewFallbackManager :: "source option list \<Rightarrow> FallbackManager" where
  "NewFallbackManager ss = \<lparr>fm_sources = ss, fm_counts = init_counts ss Map.empty\<rparr>"

definition count3 :: "string \<Rightarrow> int \<times> int \<times> int \<Rightarrow> FallbackManager \<Rightarrow> FallbackManager" where
  "count3 name dv fm =
     (case fm_counts fm name of
        None \<Rightarrow> fm
      | Some (h, m, e) \<Rightarrow>
          (case dv of (dh, dm, de) \<Rightarrow>
             fm\<lparr>fm_counts := (fm_counts fm)(name \<mapsto> (wrap64 (h + dh), wrap64 (m + dm), wrap64 (e + de)))\<rparr>))"

fun fallback_loop ::
  "'l freecache \<Rightarrow> (string \<Rightarrow> http_reply) \<Rightarrow> string \<Rightarrow> string \<Rightarrow> source option list \<Rightarrow> FallbackManager \<Rightarrow> (l1ref \<Rightarrow> 'l) \<Rightarrow>
   (string \<times> string) option \<times> FallbackManager \<times> (l1ref \<Rightarrow> 'l)" where
  "fallback_loop F http family key [] fm st = (None, fm, st)"
| "fallback_loop F http family key (None # ss) fm st = fallback_loop F http family key ss fm st"
| "fallback_loop F http family key (Some src # ss) fm st =
     (case source_Get F http src family key st of
        (Inl _, st') \<Rightarrow> fallback_loop F http family key ss (count3 (source_Name src) (0, 0, 1) fm) st'
      | (Inr (Some data), st') \<Rightarrow> (Some (data, source_Name src), count3 (source_Name src) (1, 0, 0) fm, st')
      | (Inr None, st') \<Rightarrow> fallback_loop F http family key ss (count3 (source_Name src) (0, 1, 0) fm) st')"

text \<open>\<open>GetOrError\<close>: no result is \<open>ErrNoFallback\<close>.\<close>

definition GetOrError ::
  "'l freecache \<Rightarrow> (string \<Rightarrow> http_reply) \<Rightarrow> string \<Rightarrow> string \<Rightarrow> FallbackManager \<Rightarrow> (l1ref \<Rightarrow> 'l) \<Rightarrow>
   (string \<times> string) option \<times> FallbackManager \<times> (l1ref \<Rightarrow> 'l)" where
  "GetOrError F http family key fm st = fallback_loop F http family key (fm_sources fm) fm st"

definition fm_Sources :: "FallbackManager \<Rightarrow> string list" where
  "fm_Sources fm = map source_Name (List.map_filter id (fm_sources fm))"

definition fm_Stats :: "FallbackManager \<Rightarrow> string \<rightharpoonup> int \<times> int \<times> int" where
  "fm_Stats fm =
     (\<lambda>n. if n \<in> set (fm_Sources fm) then Some (case fm_counts fm n of Some c \<Rightarrow> c | None \<Rightarrow> (0, 0, 0)) else None)"

end
