(* ===== verification/CacheManager.thy ===== *)
theory CacheManager
  imports Cache
begin

text \<open>
  The cache manager (\<open>common/cache/manager.go\<close>).  A manager is its fixed parts (references and
  handles) together with a state: Redis, the store of freecache instances, the breakers, the
  degradation manager, the fallback counters, statistics, metrics and pending writes.
\<close>

text \<open>Loaders of this program fail only with errors of the SQL layer.\<close>

datatype cache_error =
    ErrDegradeClosed
  | ErrCircuitOpen
  | ErrServiceUnavailable
  | ErrFamilyEmpty
  | ErrUnmarshal
  | ErrUnmarshalT
  | ErrLoad sql_error

text \<open>go-zero's breakers: whether the named breaker accepts a request, and the report of an accepted
  request's outcome.\<close>

record 'b breakers =
  brk_accept :: "string \<Rightarrow> 'b \<Rightarrow> bool \<times> 'b"
  brk_mark :: "string \<Rightarrow> bool \<Rightarrow> 'b \<Rightarrow> 'b"

record CacheMetrics =
  cmt_Hits :: int
  cmt_Misses :: int
  cmt_Errors :: int
  cmt_Latency :: "int list"

record ('r, 'l, 'b) CManager =
  cm_F :: "'l freecache"
  cm_l1 :: "l1ref option"
  cm_rdb :: "'r redis option"
  cm_B :: "'b breakers"
  cm_fl :: "string \<Rightarrow> string option"
  cm_http :: "string \<Rightarrow> http_reply"
  cm_hasfb :: bool
  cm_l1TTLMin :: int
  cm_l1TTLMax :: int

record ('r, 'l, 'b) mstate =
  ms_redis :: 'r
  ms_l1s :: "l1ref \<Rightarrow> 'l"
  ms_brk :: 'b
  ms_dgr :: Manager
  ms_fb :: FallbackManager
  ms_stats :: Stats
  ms_metrics :: "string \<rightharpoonup> CacheMetrics"
  ms_pending :: "pending list"

text \<open>\<open>NewManager\<close>: \<open>h\<close> is the reference of the new freecache instance, whose initial contents go into the
  store.  A nil degradation manager is replaced by a new one.\<close>

definition NewManager ::
  "'l freecache \<Rightarrow> 'b breakers \<Rightarrow> (string \<Rightarrow> string option) \<Rightarrow> (string \<Rightarrow> http_reply) \<Rightarrow> l1ref \<Rightarrow> int \<Rightarrow> 'r redis option \<Rightarrow> Manager option \<Rightarrow>
   FallbackManager option \<Rightarrow> 'r \<Rightarrow> 'b \<Rightarrow> (l1ref \<Rightarrow> 'l) \<Rightarrow> ('r, 'l, 'b) CManager \<times> ('r, 'l, 'b) mstate" where
  "NewManager F B fl http h l1SizeMB rdb dgr fb r b st =
     (let size = (if l1SizeMB \<le> 0 then 64 else l1SizeMB)
      in (\<lparr>cm_F = F, cm_l1 = Some h, cm_rdb = rdb, cm_B = B, cm_fl = fl, cm_http = http, cm_hasfb = (fb \<noteq> None),
           cm_l1TTLMin = 5 * 1000000000, cm_l1TTLMax = 60 * 1000000000\<rparr>,
          \<lparr>ms_redis = r, ms_l1s = st(h := fc_New F (size * 1024 * 1024)), ms_brk = b,
           ms_dgr = (case dgr of Some m \<Rightarrow> m | None \<Rightarrow> New),
           ms_fb = (case fb of Some f \<Rightarrow> f | None \<Rightarrow> NewFallbackManager []), ms_stats = newStats, ms_metrics = Map.empty,
           ms_pending = []\<rparr>))"

definition getOrCreateMetrics :: "string \<Rightarrow> (string \<rightharpoonup> CacheMetrics) \<Rightarrow> CacheMetrics" where
  "getOrCreateMetrics family m =
     (case m family of Some x \<Rightarrow> x | None \<Rightarrow> \<lparr>cmt_Hits = 0, cmt_Misses = 0, cmt_Errors = 0, cmt_Latency = []\<rparr>)"

definition observeMetrics :: "string \<Rightarrow> bool \<Rightarrow> bool \<Rightarrow> int \<Rightarrow> ('r, 'l, 'b) mstate \<Rightarrow> ('r, 'l, 'b) mstate" where
  "observeMetrics family hit err latency s =
     (let mm = getOrCreateMetrics family (ms_metrics s);
          mm = (if hit then mm\<lparr>cmt_Hits := cmt_Hits mm + 1\<rparr> else mm\<lparr>cmt_Misses := cmt_Misses mm + 1\<rparr>);
          mm = (if err then mm\<lparr>cmt_Errors := cmt_Errors mm + 1\<rparr> else mm);
          mm = (if latency > 0 then mm\<lparr>cmt_Latency := cmt_Latency mm @ [latency]\<rparr> else mm)
      in s\<lparr>ms_metrics := (ms_metrics s)(family \<mapsto> mm)\<rparr>)"

text \<open>\<open>now\<close> is \<open>time.Now().UnixNano()\<close>.\<close>

definition l1TTLOf :: "('r, 'l, 'b) CManager \<Rightarrow> int \<Rightarrow> int \<Rightarrow> int" where
  "l1TTLOf m now l2TTL =
     (let half = l2TTL div 2;
          half = (if half < cm_l1TTLMin m then cm_l1TTLMin m else half);
          half = (if half > cm_l1TTLMax m then cm_l1TTLMax m else half);
          jitter = half div 10
      in if jitter > 0 then half - jitter + now mod (jitter * 2) else half)"

definition l1_write :: "('r, 'l, 'b) CManager \<Rightarrow> int \<Rightarrow> string \<Rightarrow> string \<Rightarrow> int \<Rightarrow> ('r, 'l, 'b) mstate \<Rightarrow> ('r, 'l, 'b) mstate" where
  "l1_write m now key val ttl s =
     (case cm_l1 m of
        None \<Rightarrow> s
      | Some h \<Rightarrow> s\<lparr>ms_l1s := (ms_l1s s)(h := fc_Set (cm_F m) key val (secs (l1TTLOf m now ttl)) (ms_l1s s h))\<rparr>)"

text \<open>Running the \<open>i\<close>-th pending goroutine: \<open>l1Set\<close>, or the two writes of \<open>writeBack\<close> and of the fallback
  fill.\<close>

definition run_pending :: "('r, 'l, 'b) CManager \<Rightarrow> int \<Rightarrow> nat \<Rightarrow> ('r, 'l, 'b) mstate \<Rightarrow> ('r, 'l, 'b) mstate" where
  "run_pending m now i s =
     (if i < length (ms_pending s) then
        (let s1 = s\<lparr>ms_pending := take i (ms_pending s) @ drop (Suc i) (ms_pending s)\<rparr>
         in case ms_pending s ! i of
              SetL1 key val ttl \<Rightarrow> l1_write m now key val ttl s1
            | SetBoth key val ttl \<Rightarrow>
                (let s2 = l1_write m now key val ttl s1
                 in case cm_rdb m of
                      None \<Rightarrow> s2
                    | Some R \<Rightarrow> s2\<lparr>ms_redis := snd (r_setex R key val (secs ttl) (ms_redis s2))\<rparr>)
            | SetRedis key val ttl \<Rightarrow>
                (case cm_rdb m of None \<Rightarrow> s1 | Some R \<Rightarrow> s1\<lparr>ms_redis := snd (r_setex R key val ttl (ms_redis s1))\<rparr>))
      else s)"

record Options =
  op_Family :: string
  op_Key :: string
  op_TTL :: int
  op_Level :: Level
  op_BreakerName :: string

definition writeBack :: "'a gotype \<Rightarrow> Options \<Rightarrow> 'a \<Rightarrow> pending" where
  "writeBack T opts v = SetBoth (buildKey (op_Family opts) (op_Key opts)) (marshal_T T v) (op_TTL opts)"

definition queue :: "pending \<Rightarrow> ('r, 'l, 'b) mstate \<Rightarrow> ('r, 'l, 'b) mstate" where
  "queue p s = s\<lparr>ms_pending := ms_pending s @ [p]\<rparr>"

text \<open>\<open>tryFallback\<close> answers with an error whether or not a source hit; a hit queues a write of the
  source's data to both caches.\<close>

definition tryFallback ::
  "('r, 'l, 'b) CManager \<Rightarrow> Options \<Rightarrow> cache_error \<Rightarrow> ('r, 'l, 'b) mstate \<Rightarrow> cache_error \<times> ('r, 'l, 'b) mstate" where
  "tryFallback m opts originalErr s =
     (let mapped = (if originalErr = ErrServiceUnavailable then ErrCircuitOpen else originalErr)
      in if \<not> cm_hasfb m then (mapped, s)
         else (case GetOrError (cm_F m) (cm_http m) (op_Family opts) (op_Key opts) (ms_fb s) (ms_l1s s) of
                 (None, fb, st) \<Rightarrow> (mapped, s\<lparr>ms_fb := fb, ms_l1s := st\<rparr>)
               | (Some (data, _), fb, st) \<Rightarrow>
                   (mapped, queue (SetBoth (buildKey (op_Family opts) (op_Key opts)) data (op_TTL opts))
                              (s\<lparr>ms_fb := fb, ms_l1s := st\<rparr>))))"

text \<open>\<open>loadThroughBreaker\<close>.  When the breaker accepts, the request runs (or shares the result of a load in
  flight) and its outcome is reported; when it rejects, the fallback function runs.  \<open>latency\<close> is the
  measured duration.\<close>

definition loadThroughBreaker ::
  "('r, 'l, 'b) CManager \<Rightarrow> 'a gotype \<Rightarrow> Options \<Rightarrow> (string \<Rightarrow> (sql_error + 'a anyval) option) \<Rightarrow> int \<Rightarrow>
   ('d \<Rightarrow> (sql_error + 'a) \<times> 'd) \<Rightarrow> ('r, 'l, 'b) mstate \<times> 'd \<Rightarrow> (cache_error + 'a anyval) \<times> ('r, 'l, 'b) mstate \<times> 'd" where
  "loadThroughBreaker m T opts inflight latency loader w =
     (case w of (s, d) \<Rightarrow>
        (let breakerName = (if op_BreakerName opts = [] then op_Family opts else op_BreakerName opts);
             sfKey = breakerName @ '':'' @ op_Key opts;
             (ok, brk) = brk_accept (cm_B m) breakerName (ms_brk s);
             s0 = s\<lparr>ms_brk := brk\<rparr>
         in if ok then
              (let (r, s1, d1) =
                     (case inflight sfKey of
                        Some r \<Rightarrow> (r, s0, d)
                      | None \<Rightarrow>
                          (case loader d of
                             (Inl e, d') \<Rightarrow> (Inl e, s0, d')
                           | (Inr v, d') \<Rightarrow> (Inr (Typed v), queue (writeBack T opts v) s0, d')));
                   s2 = s1\<lparr>ms_brk := brk_mark (cm_B m) breakerName (\<exists>v. r = Inr v) (ms_brk s1)\<rparr>
               in case r of
                    Inl e \<Rightarrow> (Inl (ErrLoad e), observeMetrics (op_Family opts) False True latency s2, d1)
                  | Inr v \<Rightarrow> (Inr v, observeMetrics (op_Family opts) True False latency s2, d1))
            else
              (let (e, s1) = (if op_Level opts = LevelWrite then (ErrCircuitOpen, s0) else tryFallback m opts ErrServiceUnavailable s0)
               in (Inl e, observeMetrics (op_Family opts) False True latency s1, d))))"

definition jsonUnmarshalAny :: "('r, 'l, 'b) CManager \<Rightarrow> string \<Rightarrow> cache_error + 'a anyval" where
  "jsonUnmarshalAny m raw =
     (if raw = [] then Inr (Decoded JNull)
      else (case Option.bind (json_parse raw) (to_any (cm_fl m)) of
              None \<Rightarrow> Inl ErrUnmarshal
            | Some j \<Rightarrow> Inr (Decoded j)))"

text \<open>\<open>Manager.GetOrLoad\<close> (its loader is never nil here).\<close>

definition mgr_GetOrLoad ::
  "('r, 'l, 'b) CManager \<Rightarrow> 'a gotype \<Rightarrow> Options \<Rightarrow> (string \<Rightarrow> (sql_error + 'a anyval) option) \<Rightarrow> int \<Rightarrow>
   ('d \<Rightarrow> (sql_error + 'a) \<times> 'd) \<Rightarrow> ('r, 'l, 'b) mstate \<times> 'd \<Rightarrow> (cache_error + 'a anyval) \<times> ('r, 'l, 'b) mstate \<times> 'd" where
  "mgr_GetOrLoad m T opts inflight latency loader w =
     (case w of (s, d) \<Rightarrow>
        if op_Family opts = [] then (Inl ErrFamilyEmpty, s, d)
        else if \<not> CanServeLevel (ms_dgr s) (op_Level opts) then (Inl ErrDegradeClosed, s, d)
        else if op_Level opts = LevelWrite then loadThroughBreaker m T opts inflight latency loader (s, d)
        else
          (let redisKey = buildKey (op_Family opts) (op_Key opts);
               (hit1, s1) = (case cm_l1 m of
                   None \<Rightarrow> (None, s)
                 | Some h \<Rightarrow>
                     (case fc_Get (cm_F m) redisKey (ms_l1s s h) of
                        (Inr raw, l) \<Rightarrow> (if length raw > 0 then Some raw else None, s\<lparr>ms_l1s := (ms_l1s s)(h := l)\<rparr>)
                      | (Inl _, l) \<Rightarrow> (None, s\<lparr>ms_l1s := (ms_l1s s)(h := l)\<rparr>)))
           in case hit1 of
                Some raw \<Rightarrow>
                  (jsonUnmarshalAny m raw,
                   observeMetrics (op_Family opts) True False 0 (s1\<lparr>ms_stats := Hit (op_Family opts @ '':l1'') (ms_stats s1)\<rparr>), d)
              | None \<Rightarrow>
                  (let (hit2, s2) = (case cm_rdb m of
                         None \<Rightarrow> (None, s1)
                       | Some R \<Rightarrow>
                           (case r_get R redisKey (ms_redis s1) of
                              (Inr raw, r) \<Rightarrow> (if raw \<noteq> [] then Some raw else None, s1\<lparr>ms_redis := r\<rparr>)
                            | (Inl _, r) \<Rightarrow> (None, s1\<lparr>ms_redis := r\<rparr>)))
                   in case hit2 of
                        Some raw \<Rightarrow>
                          (jsonUnmarshalAny m raw,
                           queue (SetL1 redisKey raw (op_TTL opts))
                             (observeMetrics (op_Family opts) True False 0
                                (s2\<lparr>ms_stats := Hit (op_Family opts @ '':l2'') (ms_stats s2)\<rparr>)), d)
                      | None \<Rightarrow>
                          loadThroughBreaker m T opts inflight latency loader
                            (s2\<lparr>ms_stats := Miss (op_Family opts) (ms_stats s2)\<rparr>, d))))"

text \<open>\<open>GetOrLoadT\<close>: a value that is not yet of type \<open>T\<close> is marshalled and unmarshalled again.\<close>

definition GetOrLoadT ::
  "('r, 'l, 'b) CManager \<Rightarrow> 'a gotype \<Rightarrow> string \<Rightarrow> string \<Rightarrow> int \<Rightarrow> Level \<Rightarrow> (string \<Rightarrow> (sql_error + 'a anyval) option) \<Rightarrow> int \<Rightarrow>
   ('d \<Rightarrow> (sql_error + 'a) \<times> 'd) \<Rightarrow> ('r, 'l, 'b) mstate \<times> 'd \<Rightarrow> (cache_error + 'a) \<times> ('r, 'l, 'b) mstate \<times> 'd" where
  "GetOrLoadT m T family key ttl level inflight latency loader w =
     (case mgr_GetOrLoad m T \<lparr>op_Family = family, op_Key = key, op_TTL = ttl, op_Level = level, op_BreakerName = []\<rparr>
             inflight latency loader w of
        (Inl e, w') \<Rightarrow> (Inl e, w')
      | (Inr (Typed v), w') \<Rightarrow> (Inr v, w')
      | (Inr (Decoded j), w') \<Rightarrow>
          (case t_asserts T j of
             Some v \<Rightarrow> (Inr v, w')
           | None \<Rightarrow>
               (case unmarshal_T T (json_print j) of
                  None \<Rightarrow> (Inl ErrUnmarshalT, w')
                | Some v \<Rightarrow> (Inr v, w'))))"

definition mgr_Invalidate :: "('r, 'l, 'b) CManager \<Rightarrow> string \<Rightarrow> string \<Rightarrow> ('r, 'l, 'b) mstate \<Rightarrow> string option \<times> ('r, 'l, 'b) mstate" where
  "mgr_Invalidate m family key s =
     (let redisKey = buildKey family key;
          s1 = (case cm_l1 m of None \<Rightarrow> s | Some h \<Rightarrow> s\<lparr>ms_l1s := (ms_l1s s)(h := fc_Del (cm_F m) redisKey (ms_l1s s h))\<rparr>)
      in case cm_rdb m of
           None \<Rightarrow> (None, s1)
         | Some R \<Rightarrow>
             (case r_del R [redisKey] (ms_redis s1) of
                (Inl e, r) \<Rightarrow> (Some e, s1\<lparr>ms_redis := r\<rparr>)
              | (Inr _, r) \<Rightarrow> (None, s1\<lparr>ms_redis := r\<rparr>)))"

definition mgr_InvalidateFamily :: "('r, 'l, 'b) CManager \<Rightarrow> string \<Rightarrow> ('r, 'l, 'b) mstate \<Rightarrow> (string + int) \<times> ('r, 'l, 'b) mstate" where
  "mgr_InvalidateFamily m family s =
     (let s1 = (case cm_l1 m of None \<Rightarrow> s | Some h \<Rightarrow> s\<lparr>ms_l1s := (ms_l1s s)(h := fc_Clear (cm_F m) (ms_l1s s h))\<rparr>);
          (r, rs) = cache_InvalidateFamily (cm_rdb m) family (ms_redis s1)
      in (r, s1\<lparr>ms_redis := rs\<rparr>))"

text \<open>\<open>Legacy\<close> shares the client and the statistics.\<close>

definition Legacy :: "('r, 'l, 'b) CManager \<Rightarrow> ('r, 'l, 'b) mstate \<Rightarrow> 'r redis option \<times> Stats" where
  "Legacy m s = (cm_rdb m, ms_stats s)"

definition SelfTest :: "('r, 'l, 'b) CManager \<Rightarrow> int \<Rightarrow> ('r, 'l, 'b) mstate \<Rightarrow> (bool \<times> bool \<times> bool) \<times> ('r, 'l, 'b) mstate" where
  "SelfTest m now s =
     (let l1OK = (cm_l1 m \<noteq> None);
          (l2OK, r) = (case cm_rdb m of
              None \<Rightarrow> (False, ms_redis s)
            | Some R \<Rightarrow>
                (let testKey = ''apipro:_selftest:'' @ itoa now
                 in case r_setex R testKey ''ok'' 5 (ms_redis s) of
                      (Inl _, r1) \<Rightarrow> (False, r1)
                    | (Inr _, r1) \<Rightarrow>
                        (case r_get R testKey r1 of
                           (v, r2) \<Rightarrow> (v = Inr ''ok'', snd (r_del R [testKey] r2)))));
          fbOK = (cm_hasfb m \<and> length (fm_Sources (ms_fb s)) > 0)
      in ((l1OK, l2OK, fbOK), s\<lparr>ms_redis := r\<rparr>))"

section \<open>Lifetimes in the in-process cache\<close>

definition default_ttls :: "('r, 'l, 'b) CManager \<Rightarrow> bool" where
  "default_ttls m \<longleftrightarrow> cm_l1TTLMin m = 5 * 1000000000 \<and> cm_l1TTLMax m = 60 * 1000000000"

lemma NewManager_ttls: "default_ttls (fst (NewManager F B fl http h n rdb dgr fb r b st))"
  by (simp add: NewManager_def default_ttls_def Let_def)

text \<open>C31: the jittered L1 lifetime stays within ten percent of half the Redis lifetime clamped to five
  seconds and one minute; in whole seconds it is between 4 and 65 and in particular never 0, which
  freecache takes for no expiry.\<close>

theorem l1TTLOf_bounds:
  assumes "default_ttls m"
  shows "let c = max 5000000000 (min 60000000000 (ttl div 2))
         in c - c div 10 \<le> l1TTLOf m now ttl \<and> l1TTLOf m now ttl < c + c div 10 \<and>
            4 \<le> secs (l1TTLOf m now ttl) \<and> secs (l1TTLOf m now ttl) \<le> 65"
proof -
  define c where "c = max 5000000000 (min 60000000000 (ttl div 2))"
  have c: "5000000000 \<le> c" "c \<le> 60000000000" by (auto simp: c_def)
  then have j: "500000000 \<le> c div 10" "c div 10 \<le> 6000000000" by presburger+
  have ttl: "l1TTLOf m now ttl = c - c div 10 + now mod (c div 10 * 2)"
  proof -
    have mn: "cm_l1TTLMin m = 5000000000" "cm_l1TTLMax m = 60000000000" using assms by (simp_all add: default_ttls_def)
    have eq: "(if (if ttl div 2 < 5000000000 then 5000000000 else ttl div 2) > 60000000000 then 60000000000
           else (if ttl div 2 < 5000000000 then 5000000000 else ttl div 2)) = c"
      by (simp add: c_def max_def min_def)
    show ?thesis unfolding l1TTLOf_def Let_def mn eq using j by simp
  qed
  have r: "0 \<le> now mod (c div 10 * 2)" "now mod (c div 10 * 2) < c div 10 * 2" using j by auto
  then have b: "c - c div 10 \<le> l1TTLOf m now ttl" "l1TTLOf m now ttl < c + c div 10" by (simp_all add: ttl)
  have "4500000000 \<le> c - c div 10" "c + c div 10 \<le> 66000000000" using c by presburger+
  with b have "4500000000 \<le> l1TTLOf m now ttl" "l1TTLOf m now ttl < 66000000000" by linarith+
  then have "4 \<le> secs (l1TTLOf m now ttl)" "secs (l1TTLOf m now ttl) \<le> 65"
    using zdiv_mono1 [of 4500000000 "l1TTLOf m now ttl" 1000000000] zdiv_mono1 [of "l1TTLOf m now ttl" 65999999999 1000000000]
    unfolding secs_def by simp_all
  with b show ?thesis by (simp only: c_def Let_def)
qed

section \<open>The contracts of freecache and of an accepting breaker\<close>

text \<open>freecache may evict at any write, so a lookup after an insertion finds that value or nothing.\<close>

locale l1_cache =
  fixes F :: "'l freecache" and contents :: "'l \<Rightarrow> string \<rightharpoonup> string"
  assumes get_sound: "fst (fc_Get F k l) = Inr v \<Longrightarrow> contents l k = Some v"
    and get_keeps: "contents (snd (fc_Get F k l)) = contents l"
    and getx_sound: "fst (fc_GetWithExpiration F k l) = Inr v \<Longrightarrow> contents l k = Some v"
    and getx_keeps: "contents (snd (fc_GetWithExpiration F k l)) = contents l"
    and set_here: "contents (fc_Set F k v t l) k \<in> {None, Some v}"
    and set_there: "j \<noteq> k \<Longrightarrow> contents (fc_Set F k v t l) j \<in> {None, contents l j}"

definition mem_l1 :: "(string \<times> string) list freecache" where
  "mem_l1 =
    \<lparr>fc_Get = (\<lambda>k l. (case map_of l k of Some v \<Rightarrow> Inr v | None \<Rightarrow> Inl FcNotFound, l)),
     fc_GetWithExpiration = (\<lambda>k l. (case map_of l k of Some v \<Rightarrow> Inr v | None \<Rightarrow> Inl FcNotFound, l)),
     fc_Set = (\<lambda>k v t l. AList.update k v l),
     fc_Del = (\<lambda>k l. AList.delete k l),
     fc_Clear = (\<lambda>l. []),
     fc_New = (\<lambda>n. [])\<rparr>"

interpretation meml1: l1_cache mem_l1 map_of
  by unfold_locales (auto simp: mem_l1_def update_conv' split: option.splits)

definition closed_breakers :: "unit breakers" where
  "closed_breakers = \<lparr>brk_accept = (\<lambda>_ b. (True, b)), brk_mark = (\<lambda>_ _ b. b)\<rparr>"

definition open_breakers :: "unit breakers" where
  "open_breakers = \<lparr>brk_accept = (\<lambda>_ b. (False, b)), brk_mark = (\<lambda>_ _ b. b)\<rparr>"

section \<open>Reading through\<close>

lemma observeMetrics_frame [simp]:
  "ms_redis (observeMetrics f h e t s) = ms_redis s" "ms_dgr (observeMetrics f h e t s) = ms_dgr s"
  "ms_pending (observeMetrics f h e t s) = ms_pending s" "ms_l1s (observeMetrics f h e t s) = ms_l1s s"
  by (simp_all add: observeMetrics_def Let_def)

text \<open>Where a text under a key can be found: in Redis, and in L1 that text or nothing.\<close>

definition cached_at :: "('l \<Rightarrow> string \<rightharpoonup> string) \<Rightarrow> ('r \<Rightarrow> keyspace) \<Rightarrow> ('r, 'l, 'b) CManager \<Rightarrow> string \<Rightarrow> string \<Rightarrow> ('r, 'l, 'b) mstate \<Rightarrow> bool" where
  "cached_at contents view m k raw s \<longleftrightarrow>
     raw \<noteq> [] \<and> str_at (view (ms_redis s)) k = Some raw \<and>
     (\<forall>h. cm_l1 m = Some h \<longrightarrow> contents (ms_l1s s h) k \<in> {None, Some raw})"

definition readable :: "('r, 'l, 'b) mstate \<Rightarrow> Options \<Rightarrow> bool" where
  "readable s opts \<longleftrightarrow> op_Family opts \<noteq> [] \<and> CanServeLevel (ms_dgr s) (op_Level opts) \<and> op_Level opts \<noteq> LevelWrite"

lemma mgr_GetOrLoad_cached:
  assumes "redis_server R view live dbl" "l1_cache F contents" "cm_rdb m = Some R" "cm_F m = F" "live (ms_redis s)"
    and "readable s opts" "cached_at contents view m (buildKey (op_Family opts) (op_Key opts)) raw s"
  shows "\<exists>s'. mgr_GetOrLoad m T opts inflight latency loader (s, d) = (jsonUnmarshalAny m raw, s', d)"
proof -
  let ?k = "buildKey (op_Family opts) (op_Key opts)"
  have get: "r_get R ?k (ms_redis s) = (Inr raw, ms_redis s)" and ne: "raw \<noteq> []"
    using redis_server.get_law [OF assms(1) assms(5)] assms(7) by (auto simp: cached_at_def)
  note rd = assms(6) [unfolded readable_def]
  show ?thesis
  proof (cases "cm_l1 m")
    case None
    then show ?thesis using rd get ne assms(3) by (simp add: mgr_GetOrLoad_def)
  next
    case (Some h)
    obtain r l where f: "fc_Get F ?k (ms_l1s s h) = (r, l)" by fastforce
    have "v = raw" if "r = Inr v" for v
      using l1_cache.get_sound [OF assms(2), of ?k "ms_l1s s h" v] f that assms(7) Some by (auto simp: cached_at_def)
    then show ?thesis using rd get ne f Some assms(3,4) by (cases r) (auto simp: mgr_GetOrLoad_def)
  qed
qed

lemma run_writeback_cached:
  assumes "redis_server R view live dbl" "l1_cache F contents" "cm_rdb m = Some R" "cm_F m = F" "live (ms_redis s)"
    and "ms_pending s ! i = SetBoth k raw ttl" "i < length (ms_pending s)" "raw \<noteq> []" "0 < secs ttl"
  shows "cached_at contents view m k raw (run_pending m now i s) \<and> live (ms_redis (run_pending m now i s)) \<and>
    ms_dgr (run_pending m now i s) = ms_dgr s"
  using assms redis_server.setex_law [OF assms(1) assms(5) assms(9), of k raw]
    l1_cache.set_here [OF assms(2)]
  by (auto simp: run_pending_def cached_at_def l1_write_def Let_def split: option.splits)

lemma mgr_GetOrLoad_miss:
  assumes "redis_server R view live dbl" "l1_cache F contents" "cm_rdb m = Some R" "cm_F m = F" "live (ms_redis s)"
    and "readable s opts" "view (ms_redis s) (buildKey (op_Family opts) (op_Key opts)) = None"
    and "\<forall>h. cm_l1 m = Some h \<longrightarrow> contents (ms_l1s s h) (buildKey (op_Family opts) (op_Key opts)) = None"
  shows "\<exists>s'. mgr_GetOrLoad m T opts inflight latency loader (s, d) = loadThroughBreaker m T opts inflight latency loader (s', d) \<and>
    ms_redis s' = ms_redis s \<and> ms_dgr s' = ms_dgr s \<and> ms_brk s' = ms_brk s \<and> ms_pending s' = ms_pending s \<and> ms_fb s' = ms_fb s \<and>
    (\<forall>h. contents (ms_l1s s' h) = contents (ms_l1s s h))"
proof -
  let ?k = "buildKey (op_Family opts) (op_Key opts)"
  have get: "r_get R ?k (ms_redis s) = (Inr [], ms_redis s)"
    using redis_server.get_law [OF assms(1) assms(5), of ?k "[]"] assms(7) by simp
  note rd = assms(6) [unfolded readable_def]
  show ?thesis
  proof (cases "cm_l1 m")
    case None
    then show ?thesis using rd get assms(3)
      by (intro exI [of _ "s\<lparr>ms_stats := Miss (op_Family opts) (ms_stats s)\<rparr>"]) (simp add: mgr_GetOrLoad_def)
  next
    case (Some h)
    obtain r l where f: "fc_Get F ?k (ms_l1s s h) = (r, l)" by fastforce
    have "r \<noteq> Inr v" for v
      using l1_cache.get_sound [OF assms(2), of ?k "ms_l1s s h" v] f assms(8) Some by auto
    moreover have "contents l = contents (ms_l1s s h)" using l1_cache.get_keeps [OF assms(2), of ?k "ms_l1s s h"] f by simp
    ultimately show ?thesis using rd get f Some assms(3,4)
      by (intro exI [of _ "s\<lparr>ms_l1s := (ms_l1s s)(h := l), ms_stats := Miss (op_Family opts) (ms_stats s)\<rparr>"], cases r)
        (auto simp: mgr_GetOrLoad_def)
  qed
qed


section \<open>What callers see\<close>

text \<open>A value survives the cache when decoding its own JSON text gives it back.\<close>

definition survives :: "('r, 'l, 'b) CManager \<Rightarrow> 'a gotype \<Rightarrow> 'a \<Rightarrow> bool" where
  "survives m T v \<longleftrightarrow>
     (case jsonUnmarshalAny m (marshal_T T v) :: cache_error + 'a anyval of
        Inr (Decoded j) \<Rightarrow> (case t_asserts T j of Some x \<Rightarrow> x = v | None \<Rightarrow> unmarshal_T T (json_print j) = Some v)
      | _ \<Rightarrow> False)"

abbreviation entry :: "string \<Rightarrow> string \<Rightarrow> int \<Rightarrow> Level \<Rightarrow> Options" where
  "entry family key ttl level \<equiv> \<lparr>op_Family = family, op_Key = key, op_TTL = ttl, op_Level = level, op_BreakerName = []\<rparr>"

lemma GetOrLoadT_cached:
  fixes T :: "'a gotype"
  assumes "redis_server R view live dbl" "l1_cache F contents" "cm_rdb m = Some R" "cm_F m = F" "live (ms_redis s)"
    and "readable s (entry family key ttl level)" "survives m T v"
    and "cached_at contents view m (buildKey family key) (marshal_T T v) s"
  shows "\<exists>s'. GetOrLoadT m T family key ttl level inflight latency loader (s, d) = (Inr v, s', d)"
proof -
  obtain s' where g: "mgr_GetOrLoad m T (entry family key ttl level) inflight latency loader (s, d) =
      (jsonUnmarshalAny m (marshal_T T v), s', d)"
    using mgr_GetOrLoad_cached [OF assms(1-6)] assms(8) by fastforce
  show ?thesis
  proof (cases "jsonUnmarshalAny m (marshal_T T v) :: cache_error + 'a anyval")
    case (Inr x)
    then show ?thesis using g assms(7) by (cases x) (auto simp: GetOrLoadT_def survives_def split: option.splits)
  qed (use assms(7) in \<open>simp add: survives_def\<close>)
qed

lemma GetOrLoadT_load:
  assumes "redis_server R view live dbl" "l1_cache F contents" "cm_rdb m = Some R" "cm_F m = F" "live (ms_redis s)"
    and "readable s (entry family key ttl level)" "view (ms_redis s) (buildKey family key) = None"
    and "\<forall>h. cm_l1 m = Some h \<longrightarrow> contents (ms_l1s s h) (buildKey family key) = None"
    and "fst (brk_accept (cm_B m) family (ms_brk s))" "inflight (family @ '':'' @ key) = None" "loader d = (Inr v, d')"
  shows "\<exists>s'. GetOrLoadT m T family key ttl level inflight latency loader (s, d) = (Inr v, s', d') \<and>
    ms_pending s' = ms_pending s @ [SetBoth (buildKey family key) (marshal_T T v) ttl] \<and> ms_redis s' = ms_redis s \<and> ms_dgr s' = ms_dgr s"
proof -
  obtain s1 where s1: "mgr_GetOrLoad m T (entry family key ttl level) inflight latency loader (s, d) =
      loadThroughBreaker m T (entry family key ttl level) inflight latency loader (s1, d)"
    and eq: "ms_redis s1 = ms_redis s" "ms_dgr s1 = ms_dgr s" "ms_brk s1 = ms_brk s" "ms_pending s1 = ms_pending s"
    using mgr_GetOrLoad_miss [OF assms(1-6), where T = T and inflight = inflight and latency = latency and loader = loader and d = d] assms(7,8)
    by auto
  show ?thesis using s1 eq assms(9-11)
    by (cases "brk_accept (cm_B m) family (ms_brk s)")
      (simp add: GetOrLoadT_def loadThroughBreaker_def writeBack_def queue_def Let_def)
qed

lemma GetOrLoadT_twice:
  assumes "redis_server R view live dbl" "l1_cache F contents" "cm_rdb m = Some R" "cm_F m = F" "live (ms_redis s)"
    and "readable s (entry family key ttl level)" "view (ms_redis s) (buildKey family key) = None"
    and "\<forall>h. cm_l1 m = Some h \<longrightarrow> contents (ms_l1s s h) (buildKey family key) = None"
    and "fst (brk_accept (cm_B m) family (ms_brk s))" "inflight (family @ '':'' @ key) = None" "loader d = (Inr v, d')"
    and "ms_pending s = []" "0 < secs ttl" "survives m T v" "marshal_T T v \<noteq> []"
  shows "\<exists>s1. GetOrLoadT m T family key ttl level inflight latency loader (s, d) = (Inr v, s1, d') \<and>
    (\<exists>s2. GetOrLoadT m T family key ttl level inflight' latency' loader' (run_pending m now 0 s1, e) = (Inr v, s2, e))"
proof -
  obtain s1 where s1: "GetOrLoadT m T family key ttl level inflight latency loader (s, d) = (Inr v, s1, d')"
    "ms_pending s1 = [SetBoth (buildKey family key) (marshal_T T v) ttl]" "ms_redis s1 = ms_redis s" "ms_dgr s1 = ms_dgr s"
    using GetOrLoadT_load [where inflight = inflight and loader = loader and key = key and T = T and latency = latency, OF assms(1-11)] assms(12) by auto
  note w = run_writeback_cached [OF assms(1-4), of s1 0 "buildKey family key" "marshal_T T v" ttl now]
  have "readable (run_pending m now 0 s1) (entry family key ttl level)"
    using w s1 assms(5,6,13,15) by (simp add: readable_def)
  then show ?thesis
    using GetOrLoadT_cached [OF assms(1-4), of "run_pending m now 0 s1" family key ttl level T v inflight' latency' loader' e]
      w s1 assms(5,13-15) by auto
qed

text \<open>C16: reading through.  On a miss with a closed breaker the caller gets the loader's value; once the
  write-back has run, the same request, with whatever loader and at whatever clock reading, gets that
  same value without running its loader, whether or not freecache has kept the entry.\<close>

theorem GetOrLoadT_read_through:
  assumes "redis_server R view live dbl" "l1_cache F contents" "cm_rdb m = Some R" "cm_F m = F" "live (ms_redis s)"
    and "readable s (entry family key ttl level)" "view (ms_redis s) (buildKey family key) = None"
    and "\<forall>h. cm_l1 m = Some h \<longrightarrow> contents (ms_l1s s h) (buildKey family key) = None"
    and "fst (brk_accept (cm_B m) family (ms_brk s))" "inflight (family @ '':'' @ key) = None" "loader d = (Inr v, d')"
    and "ms_pending s = []" "0 < secs ttl" "survives m T v" "marshal_T T v \<noteq> []"
  shows "\<exists>s1. GetOrLoadT m T family key ttl level inflight latency loader (s, d) = (Inr v, s1, d') \<and>
    (\<exists>s2. GetOrLoadT m T family key ttl level inflight' latency' loader' (run_pending m now 0 s1, e) = (Inr v, s2, e))"
  by (rule GetOrLoadT_twice [where loader = loader and inflight = inflight, OF assms])


text \<open>Go's \<open>string\<close> as an instance, and a manager over the in-memory servers for the witnesses.\<close>

definition go_string :: "string gotype" where
  "go_string =
    \<lparr>t_enc = JStr, t_dec = (\<lambda>j. case j of JStr s \<Rightarrow> Some s | JNull \<Rightarrow> Some [] | _ \<Rightarrow> None),
     t_asserts = (\<lambda>j. case j of JStr s \<Rightarrow> Some s | _ \<Rightarrow> None)\<rparr>"

definition demo_chain :: FallbackManager where
  "demo_chain = NewFallbackManager
     [Some (NewL1StaleSource (Some 0)), Some (NewOSSSnapshotSource []), Some (NewCDNSource ''https://cdn.example.com/apipro'')]"

definition demo_manager :: "unit breakers \<Rightarrow> (mem, (string \<times> string) list, unit) CManager \<times> (mem, (string \<times> string) list, unit) mstate" where
  "demo_manager B = NewManager mem_l1 B Some (\<lambda>_. HttpFail ''unreachable'') 1 64 (Some mem_redis) None (Some demo_chain) mem_empty () (\<lambda>_. [])"

lemma demo_manager_simps:
  "cm_rdb (fst (demo_manager B)) = Some mem_redis" "cm_F (fst (demo_manager B)) = mem_l1" "cm_B (fst (demo_manager B)) = B"
  "cm_l1 (fst (demo_manager B)) = Some 1" "cm_fl (fst (demo_manager B)) = Some" "cm_hasfb (fst (demo_manager B))"
  "ms_redis (snd (demo_manager B)) = mem_empty" "ms_l1s (snd (demo_manager B)) = (\<lambda>_. [])" "ms_pending (snd (demo_manager B)) = []"
  "ms_dgr (snd (demo_manager B)) = New" "ms_brk (snd (demo_manager B)) = ()" "ms_fb (snd (demo_manager B)) = demo_chain"
  by (auto simp: demo_manager_def NewManager_def Let_def mem_l1_def)

lemma demo_readable: "readable (snd (demo_manager B)) (entry ''room'' ''k'' 60000000000 LevelDisplay)"
  by (simp add: readable_def demo_manager_simps CanServeLevel_def New_def LevelDisplay_def LevelWrite_def ModeNormal_def)

lemma demo_survives: "survives (fst (demo_manager B)) go_string ''v''" "marshal_T go_string ''v'' \<noteq> []"
proof -
  have m: "marshal_T go_string ''v'' = json_print (JStr ''v'')" by (simp add: marshal_T_def go_string_def)
  then show ne: "marshal_T go_string ''v'' \<noteq> []" by (simp add: json_quote_def)
  have "json_parse (json_print (JStr ''v'')) = Some (JStr ''v'')"
    by (rule json_parse_print) (simp_all add: valid_utf8_ascii ascii_def max_depth_def)
  then have p: "json_parse (marshal_T go_string ''v'') = Some (JStr ''v'')" by (simp only: m)
  have "t_asserts go_string (JStr ''v'') = Some ''v''" by (simp add: go_string_def)
  then show "survives (fst (demo_manager B)) go_string ''v''"
    using ne p by (simp add: survives_def jsonUnmarshalAny_def)
qed

theorem l1TTLOf_bounds_witness:
  "4 \<le> secs (l1TTLOf (fst (demo_manager closed_breakers)) 1700000000123456789 (15 * 1000000000)) \<and>
   secs (l1TTLOf (fst (demo_manager closed_breakers)) 1700000000123456789 (15 * 1000000000)) \<le> 65"
  using l1TTLOf_bounds [of "fst (demo_manager closed_breakers)" "15 * 1000000000" 1700000000123456789]
  by (simp add: demo_manager_def NewManager_ttls Let_def)

theorem GetOrLoadT_read_through_witness:
  "\<exists>s1. GetOrLoadT (fst (demo_manager closed_breakers)) go_string ''room'' ''k'' 60000000000 LevelDisplay (\<lambda>_. None) 5
      (\<lambda>n. (Inr ''v'', n + 1)) (snd (demo_manager closed_breakers), 0 :: nat) = (Inr ''v'', s1, 1) \<and>
    (\<exists>s2. GetOrLoadT (fst (demo_manager closed_breakers)) go_string ''room'' ''k'' 60000000000 LevelDisplay (\<lambda>_. None) 5
      (\<lambda>n. (Inr ''w'', n + 1)) (run_pending (fst (demo_manager closed_breakers)) 0 0 s1, 1 :: nat) = (Inr ''v'', s2, 1))"
  by (rule GetOrLoadT_read_through [where R = mem_redis and view = mem_view and live = mem_up and dbl = id and F = mem_l1 and contents = map_of])
    (simp_all add: memr.redis_server_axioms meml1.l1_cache_axioms demo_manager_simps demo_readable demo_survives mem_empty_simps
      closed_breakers_def secs_def)

text \<open>An open breaker.  Although the CDN source always has an answer, the caller gets
  \<open>ErrCircuitOpen\<close> and the loader does not run; the source's redirect document is then written to both
  caches under the key, and the next request is served that document as if it were the value.\<close>

theorem open_breaker_poisons_cache:
  assumes "redis_server R view live dbl" "l1_cache F contents" "cm_rdb m = Some R" "cm_F m = F" "live (ms_redis s)"
    and "readable s (entry family key ttl level)" "view (ms_redis s) (buildKey family key) = None"
    and "\<forall>h. cm_l1 m = Some h \<longrightarrow> contents (ms_l1s s h) (buildKey family key) = None"
    and "\<not> fst (brk_accept (cm_B m) family (ms_brk s))" "cm_hasfb m" "ms_pending s = []" "0 < secs ttl"
    and "fm_sources (ms_fb s) = [Some (L1StaleSource (Some h)), Some (OSSSnapshotSource []), Some (CDNSource url)]"
    and "contents (ms_l1s s h) (''apipro:'' @ family @ '':'' @ key) = None"
  shows "\<exists>s1. GetOrLoadT m T family key ttl level inflight latency loader (s, d) = (Inl ErrCircuitOpen, s1, d) \<and>
    ms_pending s1 = [SetBoth (buildKey family key) (CDN_Get url family key) ttl] \<and>
    (\<exists>s2. mgr_GetOrLoad m T' (entry family key ttl level) inflight' latency' loader' (run_pending m now 0 s1, e) =
       (jsonUnmarshalAny m (CDN_Get url family key), s2, e))"
proof -
  let ?o = "entry family key ttl level" and ?k = "''apipro:'' @ family @ '':'' @ key"
  obtain s0 where s0: "mgr_GetOrLoad m T ?o inflight latency loader (s, d) = loadThroughBreaker m T ?o inflight latency loader (s0, d)"
    and eq: "ms_redis s0 = ms_redis s" "ms_dgr s0 = ms_dgr s" "ms_brk s0 = ms_brk s" "ms_pending s0 = []" "ms_fb s0 = ms_fb s"
      "contents (ms_l1s s0 h) = contents (ms_l1s s h)"
    using mgr_GetOrLoad_miss [OF assms(1-6), where T = T and inflight = inflight and latency = latency and loader = loader and d = d] assms(7,8,11)
    by auto
  obtain r l where f: "fc_GetWithExpiration F ?k (ms_l1s s0 h) = (r, l)" by fastforce
  have "r \<noteq> Inr v" for v
    using l1_cache.getx_sound [OF assms(2), of ?k "ms_l1s s0 h" v] f assms(14) eq(6) by auto
  then obtain er where r: "r = Inl er" by (cases r) auto
  have "\<exists>fb st. GetOrError F (cm_http m) family key (ms_fb s) (ms_l1s s0) = (Some (CDN_Get url family key, ''cdn''), fb, st)"
    using f r by (simp add: GetOrError_def assms(13) source_Get_def L1Stale_Get_def OSS_Get_def)
  then obtain fb st where g: "GetOrError F (cm_http m) family key (ms_fb s) (ms_l1s s0) = (Some (CDN_Get url family key, ''cdn''), fb, st)"
    by blast
  have nw: "level \<noteq> LevelWrite" using assms(6) by (simp add: readable_def)
  have "\<exists>s1. GetOrLoadT m T family key ttl level inflight latency loader (s, d) = (Inl ErrCircuitOpen, s1, d) \<and>
      ms_pending s1 = [SetBoth (buildKey family key) (CDN_Get url family key) ttl] \<and> ms_redis s1 = ms_redis s \<and> ms_dgr s1 = ms_dgr s"
    using s0 eq assms(4,9,10) nw g
    by (cases "brk_accept (cm_B m) family (ms_brk s)") (simp add: GetOrLoadT_def loadThroughBreaker_def tryFallback_def queue_def Let_def)
  then obtain s1 where s1: "GetOrLoadT m T family key ttl level inflight latency loader (s, d) = (Inl ErrCircuitOpen, s1, d)"
      "ms_pending s1 = [SetBoth (buildKey family key) (CDN_Get url family key) ttl]" "ms_redis s1 = ms_redis s" "ms_dgr s1 = ms_dgr s"
    by blast
  note w = run_writeback_cached [OF assms(1-4), of s1 0 "buildKey family key" "CDN_Get url family key" ttl now]
  have "readable (run_pending m now 0 s1) ?o" using w s1 assms(5,6,12) by (simp add: readable_def CDN_Get_def)
  moreover have "cached_at contents view m (buildKey family key) (CDN_Get url family key) (run_pending m now 0 s1)"
    "live (ms_redis (run_pending m now 0 s1))"
    using w s1 assms(5,12) by (simp_all add: CDN_Get_def)
  ultimately show ?thesis
    using mgr_GetOrLoad_cached [OF assms(1-4), of "run_pending m now 0 s1" ?o "CDN_Get url family key" T' inflight' latency' loader' e] s1(1,2)
    by simp
qed

theorem open_breaker_witness:
  "\<exists>s1. GetOrLoadT (fst (demo_manager open_breakers)) go_string ''room'' ''k'' 60000000000 LevelDisplay (\<lambda>_. None) 5
      (\<lambda>n. (Inr ''v'', n + 1)) (snd (demo_manager open_breakers), 0 :: nat) = (Inl ErrCircuitOpen, s1, 0) \<and>
    ms_pending s1 = [SetBoth (buildKey ''room'' ''k'') (CDN_Get ''https://cdn.example.com/apipro'' ''room'' ''k'') 60000000000] \<and>
    (\<exists>s2. mgr_GetOrLoad (fst (demo_manager open_breakers)) go_string (entry ''room'' ''k'' 60000000000 LevelDisplay) (\<lambda>_. None) 5
      (\<lambda>n. (Inr ''w'', n + 1)) (run_pending (fst (demo_manager open_breakers)) 0 0 s1, 1 :: nat) =
      (jsonUnmarshalAny (fst (demo_manager open_breakers)) (CDN_Get ''https://cdn.example.com/apipro'' ''room'' ''k''), s2, 1))"
  by (rule open_breaker_poisons_cache [where R = mem_redis and view = mem_view and live = mem_up and dbl = id and F = mem_l1 and contents = map_of and h = 0])
    (simp_all add: memr.redis_server_axioms meml1.l1_cache_axioms demo_manager_simps demo_readable mem_empty_simps
      open_breakers_def secs_def demo_chain_def NewFallbackManager_def NewL1StaleSource_def NewOSSSnapshotSource_def NewCDNSource_def trim_right_slash_def)

end
