(* ===== verification/Sms.thy ===== *)
theory Sms
  imports GoText Redis
begin

text \<open>
  The SMS code store (\<open>cmd/rpc/internal/svc/sms_store.go\<close>): four random digits under a key of
  country code, phone and purpose, checked once.  \<open>low\<close> is the lower-case mapping of runes beyond ASCII.
\<close>

definition smsKeyPrefix :: string where "smsKeyPrefix = ''yuyan:sms:''"
definition smsTTL_seconds :: int where "smsTTL_seconds = 5 * 60"

record 'r SmsStore =
  sms_rdb :: "'r redis option"
  sms_mode :: string
  sms_bypass :: string

definition NewSmsStore :: "(nat \<Rightarrow> nat) \<Rightarrow> 'r redis option \<Rightarrow> string \<Rightarrow> string \<Rightarrow> 'r SmsStore" where
  "NewSmsStore low rdb mode bypass =
     \<lparr>sms_rdb = rdb, sms_mode = ToLower low (TrimSpace mode), sms_bypass = TrimSpace bypass\<rparr>"

definition sms_key :: "string \<Rightarrow> string \<Rightarrow> int \<Rightarrow> string" where
  "sms_key cc phone smsType =
     (let cc = trim_prefix (TrimSpace cc) ''+''; phone = TrimSpace phone
      in smsKeyPrefix @ cc @ '':'' @ phone @ '':'' @ itoa smsType)"

text \<open>One byte per digit; a failed read leaves the byte zero.\<close>

fun randomDigits :: "nat \<Rightarrow> rng \<Rightarrow> string \<times> rng" where
  "randomDigits 0 t = ([], t)"
| "randomDigits (Suc n) t =
     (let (b, t1) = (case rand_read 1 t of (Some [b], t1) \<Rightarrow> (unat b, t1) | (_, t1) \<Rightarrow> (0, t1));
          (r, t2) = randomDigits n t1
      in (char_of (48 + b mod 10) # r, t2))"

text \<open>\<open>Issue\<close> dereferences the client, so a nil client is a panic.\<close>

datatype sms_error = SmsSet string | SmsNilPanic

definition Issue :: "'r SmsStore \<Rightarrow> string \<Rightarrow> string \<Rightarrow> int \<Rightarrow> 'r \<times> rng \<Rightarrow> (sms_error + string) \<times> 'r \<times> rng" where
  "Issue st cc phone smsType w =
     (case w of (s, t) \<Rightarrow>
        case randomDigits 4 t of (code, t1) \<Rightarrow>
          (case sms_rdb st of
             None \<Rightarrow> (Inl SmsNilPanic, s, t1)
           | Some R \<Rightarrow>
               (case r_setex R (sms_key cc phone smsType) code smsTTL_seconds s of
                  (Inl e, s1) \<Rightarrow> (Inl (SmsSet e), s1, t1)
                | (Inr _, s1) \<Rightarrow> (Inr code, s1, t1))))"

definition Verify :: "'r SmsStore \<Rightarrow> string \<Rightarrow> string \<Rightarrow> int \<Rightarrow> string \<Rightarrow> 'r \<Rightarrow> bool \<times> 'r" where
  "Verify st cc phone smsType inp s =
     (if inp = [] then (False, s)
      else if sms_mode st = ''dev'' \<and> sms_bypass st \<noteq> [] \<and> inp = sms_bypass st then (True, s)
      else case sms_rdb st of
        None \<Rightarrow> (False, s)
      | Some R \<Rightarrow>
          (let key = sms_key cc phone smsType in
           case r_get R key s of
             (Inl _, s1) \<Rightarrow> (False, s1)
           | (Inr stored, s1) \<Rightarrow>
               if stored = [] then (False, s1)
               else if stored \<noteq> inp then (False, s1)
               else (True, snd (r_del R [key] s1))))"

lemma randomDigits_digits: "list_all is_digit (fst (randomDigits n t)) \<and> length (fst (randomDigits n t)) = n"
proof (induction n arbitrary: t)
  case (Suc n)
  then show ?case by (auto simp: Let_def case_prod_beta is_digit_def split: option.splits)
qed simp

context redis_server
begin

lemma Issue_live:
  assumes "sms_rdb st = Some R" "live s"
  obtains s' where "Issue st cc phone ty (s, t) = (Inr (fst (randomDigits 4 t)), s', snd (randomDigits 4 t))" "live s'"
    "view s' = (view s)(sms_key cc phone ty \<mapsto> (RStr (fst (randomDigits 4 t)), Some smsTTL_seconds))"
proof -
  have t: "0 < smsTTL_seconds" by (simp add: smsTTL_seconds_def)
  obtain s' where "r_setex R (sms_key cc phone ty) (fst (randomDigits 4 t)) smsTTL_seconds s = (Inr (), s')" "live s'"
    "view s' = (view s)(sms_key cc phone ty \<mapsto> (RStr (fst (randomDigits 4 t)), Some smsTTL_seconds))"
    using setex_law [OF assms(2) t] by (metis prod.collapse)
  then show ?thesis using that assms(1) by (simp add: Issue_def case_prod_beta)
qed

text \<open>Outside the bypass, verification is a comparison with the stored code followed by its removal.\<close>

lemma Verify_live:
  assumes "sms_rdb st = Some R" "live s" "str_at (view s) (sms_key cc phone ty) = Some v"
    and "\<not> (sms_mode st = ''dev'' \<and> sms_bypass st \<noteq> [] \<and> inp = sms_bypass st)"
  shows "Verify st cc phone ty inp s =
     (if inp \<noteq> [] \<and> inp = v then (True, snd (r_del R [sms_key cc phone ty] s)) else (False, s))"
  using assms get_law [OF assms(2,3)] by (auto simp: Verify_def Let_def)

end

subsection \<open>Properties\<close>

text \<open>C28: outside the development bypass an issued code verifies exactly once: the four digits sent are
  accepted, every other input is refused and changes nothing, and after the accepted one the same
  code is refused.\<close>

theorem sms_code_one_shot:
  assumes "redis_server R view live dbl" and "sms_rdb st = Some R" and "live s" and "sms_mode st \<noteq> ''dev''"
    and "Issue st cc phone ty (s, t) = (Inr code, s1, t1)"
  shows "length code = 4 \<and> list_all is_digit code \<and>
    (\<forall>inp. inp \<noteq> code \<longrightarrow> Verify st cc phone ty inp s1 = (False, s1)) \<and>
    fst (Verify st cc phone ty code s1) \<and>
    (\<forall>inp. \<not> fst (Verify st cc phone ty inp (snd (Verify st cc phone ty code s1))))"
proof -
  let ?k = "sms_key cc phone ty"
  obtain s' where i: "Issue st cc phone ty (s, t) = (Inr (fst (randomDigits 4 t)), s', snd (randomDigits 4 t))" "live s'"
    "view s' = (view s)(?k \<mapsto> (RStr (fst (randomDigits 4 t)), Some smsTTL_seconds))"
    by (rule redis_server.Issue_live [OF assms(1-3)])
  then have e: "code = fst (randomDigits 4 t)" "s1 = s'" using assms(5) by simp_all
  note d = randomDigits_digits [of 4 t, folded e(1)]
  have ne: "code \<noteq> []" using d by auto
  have v: "str_at (view s1) ?k = Some code" using i(3) e by simp
  note ver = redis_server.Verify_live [OF assms(1,2) i(2) v [unfolded e(2)], folded e(2)]
  define s2 where "s2 = snd (r_del R [?k] s1)"
  have s2: "live s2" "str_at (view s2) ?k = Some []"
    using redis_server.del_law [OF assms(1) i(2), of "[?k]"] by (simp_all add: s2_def e(2))
  have "Verify st cc phone ty code s1 = (True, s2)" using ver [of code] assms(4) ne by (simp add: s2_def)
  moreover have "\<not> fst (Verify st cc phone ty inp s2)" for inp
    using redis_server.Verify_live [OF assms(1,2) s2, of inp] assms(4) by simp
  ultimately show ?thesis using d ver assms(4) by simp
qed

theorem sms_code_witness:
  "fst (Verify (NewSmsStore id (Some mem_redis) ''prod'' []) ''+86'' ''13800000000'' 1 ''1234''
     (fst (snd (Issue (NewSmsStore id (Some mem_redis) ''prod'' []) ''86'' ''13800000000'' 1 (mem_empty, [1, 2, 3, 4])))))"
proof -
  let ?st = "NewSmsStore id (Some mem_redis) ''prod'' []"
  have m: "sms_mode ?st \<noteq> ''dev''"
    by (simp add: NewSmsStore_def TrimSpace_id never_space_def ToLower_ascii ascii_def)
  have k: "sms_key ''86'' ''13800000000'' 1 = sms_key ''+86'' ''13800000000'' 1"
    by (simp add: sms_key_def TrimSpace_id never_space_def trim_prefix_def has_prefix_def)
  have r: "fst (randomDigits 4 [1, 2, 3, 4]) = ''1234''" by code_simp
  have st: "sms_rdb ?st = Some mem_redis" by (simp add: NewSmsStore_def)
  obtain s1 where i: "Issue ?st ''86'' ''13800000000'' 1 (mem_empty, [1, 2, 3, 4]) = (Inr ''1234'', s1, snd (randomDigits 4 [1, 2, 3, 4]))"
    using memr.Issue_live [OF st, of mem_empty "''86''" "''13800000000''" 1 "[1, 2, 3, 4]"] r by (metis mem_empty_simps(1))
  have "fst (Verify ?st ''86'' ''13800000000'' 1 ''1234'' s1)"
    using sms_code_one_shot [OF memr.redis_server_axioms st _ _ i] m by simp
  moreover have "Verify ?st ''+86'' ''13800000000'' 1 ''1234'' s1 = Verify ?st ''86'' ''13800000000'' 1 ''1234'' s1"
    by (simp only: Verify_def k)
  ultimately show ?thesis by (simp add: i)
qed

end
