(* ===== verification/Db.thy ===== *)
theory Db
  imports Sql
begin

text \<open>
  Opening the database (\<open>common/db/db.go\<close>).  \<open>sql.Open\<close>, the ping and the driver are parameters; the
  schema script that the build embeds is an argument.
\<close>

datatype db_error =
    EmptyDatasource string
  | UnsupportedDriver string
  | OpenFailed string string
  | PingFailed string string
  | SchemaFailed sql_error string

text \<open>\<open>splitSQLStatements\<close>: one pass over the script; the accumulator is the statement read so far and
  the two flags say whether the position is inside a single or double quoted literal.\<close>

definition emit :: "string \<Rightarrow> string list \<Rightarrow> string list" where
  "emit buf out = (let stmt = TrimSpace buf in if stmt \<noteq> [] then out @ [stmt] else out)"

fun split_loop :: "string \<Rightarrow> bool \<Rightarrow> bool \<Rightarrow> string \<Rightarrow> string list \<Rightarrow> string list" where
  "split_loop [] inSingle inDouble buf out = (if 0 < length buf then emit buf out else out)"
| "split_loop (c # cs) inSingle inDouble buf out =
     (if c = CHR 0x27 \<and> \<not> inDouble then split_loop cs (\<not> inSingle) inDouble (buf @ [c]) out
      else if c = CHR 0x22 \<and> \<not> inSingle then split_loop cs inSingle (\<not> inDouble) (buf @ [c]) out
      else if c = CHR '';'' \<and> \<not> inSingle \<and> \<not> inDouble then split_loop cs inSingle inDouble [] (emit buf out)
      else split_loop cs inSingle inDouble (buf @ [c]) out)"

definition splitSQLStatements :: "string \<Rightarrow> string list" where
  "splitSQLStatements script = split_loop script False False [] []"

definition db_truncate :: "string \<Rightarrow> nat \<Rightarrow> string" where
  "db_truncate s n = (if length s \<le> n then s else take n s @ ''...'')"

fun apply_schema :: "'d sql_db \<Rightarrow> string list \<Rightarrow> 'd \<Rightarrow> db_error option \<times> 'd" where
  "apply_schema D [] d = (None, d)"
| "apply_schema D (s # ss) d =
     (let stmt = TrimSpace s in
      if stmt = [] then apply_schema D ss d
      else (case ExecContext D stmt [] d of
              (Some e, d') \<Rightarrow> (Some (SchemaFailed e (db_truncate stmt 200)), d')
            | (None, d') \<Rightarrow> apply_schema D ss d'))"

text \<open>\<open>New\<close>.  \<open>sql_open\<close> is \<open>sql.Open\<close> (a driver name and a data source name, to an error text or an
  open handle) and \<open>ping\<close> is \<open>PingContext\<close>.\<close>

definition db_New ::
  "(string \<Rightarrow> string \<Rightarrow> string + 'd) \<Rightarrow> ('d \<Rightarrow> string option \<times> 'd) \<Rightarrow> 'd sql_db \<Rightarrow> string \<Rightarrow> string \<Rightarrow> string \<Rightarrow>
   db_error + 'd" where
  "db_New sql_open ping D sqliteSchema driver0 dsn =
     (let driver = (if driver0 = [] then ''mysql'' else driver0) in
      if dsn = [] then Inl (EmptyDatasource driver)
      else if driver \<notin> {''mysql'', ''sqlite'', ''sqlite3''} then Inl (UnsupportedDriver driver)
      else (case sql_open (if driver = ''mysql'' then ''mysql'' else ''sqlite'') dsn of
              Inl e \<Rightarrow> Inl (OpenFailed driver e)
            | Inr d \<Rightarrow>
                (let (perr, d1) = ping d in
                 if perr \<noteq> None \<and> driver \<noteq> ''mysql'' then Inl (PingFailed driver (the perr))
                 else if driver = ''sqlite'' \<or> driver = ''sqlite3'' then
                   (case apply_schema D (splitSQLStatements sqliteSchema) d1 of
                      (Some e, _) \<Rightarrow> Inl e
                    | (None, d2) \<Rightarrow>
                        Inr (snd (ExecContext D ''PRAGMA foreign_keys=ON;'' []
                              (snd (ExecContext D ''PRAGMA journal_mode=WAL;'' [] d2)))))
                 else Inr d1)))"

text \<open>\<open>MustNew\<close> panics where \<open>New\<close> fails.\<close>

definition MustNew ::
  "(string \<Rightarrow> string \<Rightarrow> string + 'd) \<Rightarrow> ('d \<Rightarrow> string option \<times> 'd) \<Rightarrow> 'd sql_db \<Rightarrow> string \<Rightarrow> string \<Rightarrow> string \<Rightarrow>
   'd option" where
  "MustNew sql_open ping D sqliteSchema driver dsn =
     (case db_New sql_open ping D sqliteSchema driver dsn of Inl _ \<Rightarrow> None | Inr d \<Rightarrow> Some d)"

subsection \<open>Quoting\<close>

text \<open>The quoting state after a text, and whether a semicolon of the text stands outside quotes.\<close>

fun quoting :: "string \<Rightarrow> bool \<times> bool \<Rightarrow> bool \<times> bool" where
  "quoting [] q = q"
| "quoting (c # cs) (sg, db) =
     quoting cs (if c = CHR 0x27 \<and> \<not> db then (\<not> sg, db) else if c = CHR 0x22 \<and> \<not> sg then (sg, \<not> db) else (sg, db))"

fun bare_semi :: "string \<Rightarrow> bool \<times> bool \<Rightarrow> bool" where
  "bare_semi [] q = False"
| "bare_semi (c # cs) (sg, db) =
     (if c = CHR 0x27 \<and> \<not> db then bare_semi cs (\<not> sg, db)
      else if c = CHR 0x22 \<and> \<not> sg then bare_semi cs (sg, \<not> db)
      else c = CHR '';'' \<and> \<not> sg \<and> \<not> db \<or> bare_semi cs (sg, db))"

definition statement :: "string \<Rightarrow> bool" where
  "statement s \<longleftrightarrow> s \<noteq> [] \<and> TrimSpace s = s \<and> quoting s (False, False) = (False, False) \<and> \<not> bare_semi s (False, False)"

lemma split_loop_text:
  "\<not> bare_semi t (sg, db) \<Longrightarrow>
   split_loop (t @ rest) sg db buf out = split_loop rest (fst (quoting t (sg, db))) (snd (quoting t (sg, db))) (buf @ t) out"
  by (induction t arbitrary: sg db buf) (auto split: if_splits)

text \<open>A script is laid out as statements, each after some white space and before a semicolon.\<close>

definition script_of :: "(string \<times> string) list \<Rightarrow> string" where
  "script_of ps = concat (map (\<lambda>(w, s). w @ s @ '';'') ps)"

lemma split_loop_piece:
  assumes "list_all ascii_space w" "statement s"
  shows "split_loop (w @ s @ '';'' @ rest) False False [] out = split_loop rest False False [] (out @ [s])"
proof -
  have "c \<noteq> CHR 0x27 \<and> c \<noteq> CHR 0x22 \<and> c \<noteq> CHR '';''" if "ascii_space c" for c
    using that by (auto simp: ascii_space_def)
  then have w: "split_loop (w @ t) False False b out = split_loop t False False (b @ w) out" for t b
    using assms(1) by (induction w arbitrary: b) auto
  show ?thesis using assms by (simp add: w split_loop_text statement_def emit_def TrimSpace_spaces)
qed

lemma split_loop_script:
  "list_all (\<lambda>(w, s). list_all ascii_space w \<and> statement s) ps \<Longrightarrow>
   split_loop (script_of ps @ rest) False False [] out = split_loop rest False False [] (out @ map snd ps)"
proof (induction ps arbitrary: out)
  case (Cons p ps)
  then show ?case
    using split_loop_piece [of "fst p" "snd p" "script_of ps @ rest" out]
    by (cases p) (simp add: script_of_def)
qed (simp add: script_of_def)

text \<open>C33: \<open>splitSQLStatements\<close> recovers a script's statements: whatever white space separates them and
  whatever semicolons their quoted literals hold, it returns exactly the statements, in order.\<close>

theorem splitSQLStatements_script:
  assumes "list_all (\<lambda>(w, s). list_all ascii_space w \<and> statement s) ps" "list_all ascii_space w"
  shows "splitSQLStatements (script_of ps @ w) = map snd ps"
proof -
  have sp: "c \<noteq> CHR 0x27 \<and> c \<noteq> CHR 0x22 \<and> c \<noteq> CHR '';''" if "ascii_space c" for c
    using that by (auto simp: ascii_space_def)
  have "split_loop w False False b out = (if b @ w = [] then out else emit (b @ w) out)" for b out
    using assms(2) sp by (induction w arbitrary: b) auto
  moreover have "TrimSpace w = []"
    using TrimSpace_spaces [of "[]" w] assms(2) by (simp add: TrimSpace_id)
  ultimately show ?thesis using assms(1) by (simp add: splitSQLStatements_def split_loop_script emit_def)
qed

theorem splitSQLStatements_witness:
  "splitSQLStatements (script_of [([], ''PRAGMA a''), (nl, ''INSERT INTO t VALUES ('' @ [CHR 0x27, CHR '';'', CHR 0x27] @ '')'')] @ nl)
   = [''PRAGMA a'', ''INSERT INTO t VALUES ('' @ [CHR 0x27, CHR '';'', CHR 0x27] @ '')'']"
proof -
  have 1: "statement ''PRAGMA a''"
    by (simp add: statement_def TrimSpace_id never_space_def)
  have 2: "statement (''INSERT INTO t VALUES ('' @ [CHR 0x27, CHR '';'', CHR 0x27] @ '')'')"
    by (simp add: statement_def TrimSpace_id never_space_def)
  show ?thesis
    using splitSQLStatements_script [of "[([], ''PRAGMA a''), (nl, ''INSERT INTO t VALUES ('' @ [CHR 0x27, CHR '';'', CHR 0x27] @ '')'')]" nl]
      1 2 by (simp add: ascii_space_def)
qed

end
