(* ===== verification/Semaphore.thy ===== *)
theory Semaphore
  imports Prelude
begin

text \<open>
  The counting semaphore above the database pool (\<open>common/db/semaphore.go\<close>).  The first part has
  the methods as functions: a \<open>nil\<close> receiver is \<open>None\<close>, the outcome of the \<open>select\<close> in \<open>Acquire\<close>
  (a token, or the context's error) is an argument, since the runtime chooses it.  The second part
  runs any number of goroutines, each calling \<open>WithToken\<close>, with every atomic operation of the source
  as a step of its own.
\<close>

subsection \<open>The methods\<close>

record Semaphore =
  sem_name :: string
  sem_cap :: nat      \<comment> \<open>capacity of the channel \<open>tokens\<close>\<close>
  sem_tokens :: nat   \<comment> \<open>\<open>len(tokens)\<close>, the held tokens\<close>
  sem_total :: "32 word"
  sem_waiting :: int
  sem_acquired :: int
  sem_rejected :: int

definition NewSemaphore :: "string \<Rightarrow> int \<Rightarrow> Semaphore option" where
  "NewSemaphore name maxConcurrent =
     (if maxConcurrent \<le> 0 then None
      else Some \<lparr>sem_name = name, sem_cap = nat maxConcurrent, sem_tokens = 0,
                 sem_total = of_int maxConcurrent, sem_waiting = 0, sem_acquired = 0, sem_rejected = 0\<rparr>)"

text \<open>How the \<open>select\<close> of \<open>Acquire\<close> ends: a send on the token channel, or the context is done with
  the given error.  A send is possible only while the channel has room.\<close>

datatype 'e select_outcome = GotToken | CtxDone 'e

text \<open>\<open>None\<close> when the outcome is not one the runtime can take in this state.\<close>

definition Acquire :: "Semaphore option \<Rightarrow> 'e select_outcome \<Rightarrow> ('e option \<times> Semaphore option) option" where
  "Acquire so out =
     (case so of
        None \<Rightarrow> Some (None, None)
      | Some s \<Rightarrow>
          (let s1 = s\<lparr>sem_waiting := sem_waiting s + 1\<rparr> in
           case out of
             GotToken \<Rightarrow>
               (if sem_tokens s1 < sem_cap s1
                then (let s2 = s1\<lparr>sem_tokens := sem_tokens s1 + 1, sem_acquired := sem_acquired s1 + 1\<rparr>
                      in Some (None, Some (s2\<lparr>sem_waiting := sem_waiting s2 - 1\<rparr>)))
                else None)
           | CtxDone e \<Rightarrow>
               (let s2 = s1\<lparr>sem_rejected := sem_rejected s1 + 1\<rparr>
                in Some (Some e, Some (s2\<lparr>sem_waiting := sem_waiting s2 - 1\<rparr>)))))"

definition TryAcquire :: "Semaphore option \<Rightarrow> bool \<times> Semaphore option" where
  "TryAcquire so =
     (case so of
        None \<Rightarrow> (True, None)
      | Some s \<Rightarrow>
          (if sem_tokens s < sem_cap s
           then (True, Some (s\<lparr>sem_tokens := sem_tokens s + 1, sem_acquired := sem_acquired s + 1\<rparr>))
           else (False, Some s)))"

definition Release :: "Semaphore option \<Rightarrow> Semaphore option" where
  "Release so =
     (case so of
        None \<Rightarrow> None
      | Some s \<Rightarrow> (if sem_tokens s > 0 then Some (s\<lparr>sem_tokens := sem_tokens s - 1\<rparr>) else Some s))"

text \<open>\<open>WithToken\<close> around a body that may itself use the semaphore; the body returns its error (if
  any) or panics, and \<open>Release\<close> runs in both cases.\<close>

datatype 'e body_result = Returned "'e option" | Panicked

definition WithToken ::
  "Semaphore option \<Rightarrow> 'e select_outcome \<Rightarrow> (Semaphore option \<Rightarrow> 's \<Rightarrow> 'e body_result \<times> Semaphore option \<times> 's) \<Rightarrow> 's \<Rightarrow>
   ('e body_result \<times> Semaphore option \<times> 's) option" where
  "WithToken so out f w =
     (case so of
        None \<Rightarrow> Some (f None w)
      | Some _ \<Rightarrow>
          (case Acquire so out of
             None \<Rightarrow> None
           | Some (Some e, so1) \<Rightarrow> Some (Returned (Some e), so1, w)
           | Some (None, so1) \<Rightarrow> (case f so1 w of (r, so2, w2) \<Rightarrow> Some (r, Release so2, w2))))"

definition Stats :: "Semaphore option \<Rightarrow> int \<times> int \<times> int \<times> int \<times> int" where
  "Stats so =
     (case so of
        None \<Rightarrow> (0, 0, 0, 0, 0)
      | Some s \<Rightarrow>
          (let held = (of_nat (sem_tokens s) :: 32 word);
               avail = sem_total s - held;
               avail = (if sint avail < 0 then 0 else avail)
           in (sint avail, sint (sem_total s), sem_waiting s, sem_acquired s, sem_rejected s)))"

definition Name :: "Semaphore option \<Rightarrow> string" where
  "Name so = (case so of None \<Rightarrow> [] | Some s \<Rightarrow> sem_name s)"

definition sem_String :: "Semaphore option \<Rightarrow> string" where
  "sem_String so =
     (case so of
        None \<Rightarrow> ''Semaphore(nil)''
      | Some s \<Rightarrow>
          (case Stats so of (avail, tot, waiting, acquired, rejected) \<Rightarrow>
             ''Semaphore(name='' @ sem_name s @ '', available='' @ itoa avail @ ''/'' @ itoa tot @
             '', waiting='' @ itoa waiting @ '', acquired='' @ itoa acquired @
             '', rejected='' @ itoa rejected @ '')''))"

subsection \<open>Goroutines calling WithToken\<close>

text \<open>Where a goroutine is: outside, after the increment of \<open>waiting\<close> (parked in the \<open>select\<close>), after
  the send, after \<open>acquired\<close> was counted, in the body, after the context's error, after
  \<open>rejected\<close> was counted.\<close>

datatype sem_pc = Outside | Parked | GotIt | Counted | InBody | GaveUp | CountedReject

record sem_state =
  sm :: Semaphore
  pc :: "nat \<Rightarrow> sem_pc"

abbreviation goto :: "nat \<Rightarrow> sem_pc \<Rightarrow> Semaphore \<Rightarrow> sem_state \<Rightarrow> sem_state" where
  "goto g p m s \<equiv> s\<lparr>sm := m, pc := (pc s)(g := p)\<rparr>"

inductive sem_step :: "sem_state \<Rightarrow> sem_state \<Rightarrow> bool" where
  enter: "pc s g = Outside \<Longrightarrow> sem_step s (goto g Parked ((sm s)\<lparr>sem_waiting := sem_waiting (sm s) + 1\<rparr>) s)"
| send: "pc s g = Parked \<Longrightarrow> sem_tokens (sm s) < sem_cap (sm s) \<Longrightarrow>
    sem_step s (goto g GotIt ((sm s)\<lparr>sem_tokens := sem_tokens (sm s) + 1\<rparr>) s)"
| count: "pc s g = GotIt \<Longrightarrow> sem_step s (goto g Counted ((sm s)\<lparr>sem_acquired := sem_acquired (sm s) + 1\<rparr>) s)"
| leave: "pc s g = Counted \<Longrightarrow> sem_step s (goto g InBody ((sm s)\<lparr>sem_waiting := sem_waiting (sm s) - 1\<rparr>) s)"
| release: "pc s g = InBody \<Longrightarrow> sem_tokens (sm s) > 0 \<Longrightarrow>
    sem_step s (goto g Outside ((sm s)\<lparr>sem_tokens := sem_tokens (sm s) - 1\<rparr>) s)"
| release_none: "pc s g = InBody \<Longrightarrow> sem_tokens (sm s) = 0 \<Longrightarrow> sem_step s (goto g Outside (sm s) s)"
| cancel: "pc s g = Parked \<Longrightarrow> sem_step s (goto g GaveUp (sm s) s)"
| count_reject: "pc s g = GaveUp \<Longrightarrow>
    sem_step s (goto g CountedReject ((sm s)\<lparr>sem_rejected := sem_rejected (sm s) + 1\<rparr>) s)"
| leave_reject: "pc s g = CountedReject \<Longrightarrow>
    sem_step s (goto g Outside ((sm s)\<lparr>sem_waiting := sem_waiting (sm s) - 1\<rparr>) s)"

definition sem_start :: "Semaphore \<Rightarrow> sem_state" where
  "sem_start m = \<lparr>sm = m, pc = (\<lambda>_. Outside)\<rparr>"

definition those_at :: "sem_pc set \<Rightarrow> sem_state \<Rightarrow> nat set" where
  "those_at P s = {g. pc s g \<in> P}"

abbreviation "holding \<equiv> {GotIt, Counted, InBody}"
abbreviation "queued \<equiv> {Parked, GotIt, Counted, GaveUp, CountedReject}"

text \<open>The counters are exactly what their comments say.\<close>

definition sem_inv :: "nat \<Rightarrow> sem_state \<Rightarrow> bool" where
  "sem_inv n s \<longleftrightarrow> finite {g. pc s g \<noteq> Outside} \<and> sem_cap (sm s) = n \<and> sem_tokens (sm s) \<le> n \<and>
     card (those_at holding s) = sem_tokens (sm s) \<and> int (card (those_at queued s)) = sem_waiting (sm s)"

lemma at_goto: "those_at P (goto g p m s) = (if p \<in> P then insert g (those_at P s) else those_at P s - {g})"
  by (auto simp: those_at_def)

lemma at_mem: "g \<in> those_at P s \<longleftrightarrow> pc s g \<in> P"
  by (simp add: those_at_def)

lemma at_finite: "finite {g. pc s g \<noteq> Outside} \<Longrightarrow> Outside \<notin> P \<Longrightarrow> finite (those_at P s)"
  by (rule finite_subset [of _ "{g. pc s g \<noteq> Outside}"]) (auto simp: those_at_def)

lemma finite_goto: "finite {g. pc s g \<noteq> Outside} \<Longrightarrow> finite {g'. pc (goto g p m s) g' \<noteq> Outside}"
  by (rule finite_subset [of _ "insert g {g. pc s g \<noteq> Outside}"]) auto

lemma card_at_goto:
  assumes "finite {g. pc s g \<noteq> Outside}" "Outside \<notin> P"
  shows "card (those_at P (goto g p m s)) + (if pc s g \<in> P then 1 else 0) = card (those_at P s) + (if p \<in> P then 1 else 0)"
  using at_finite [OF assms] card_Suc_Diff1 [of "those_at P s" g]
  by (auto simp: at_goto at_mem insert_absorb card_insert_if)

lemma sem_inv_goto:
  assumes "sem_inv n s" "sem_cap m = n" "sem_tokens m \<le> n"
    and "sem_tokens m + (if pc s g \<in> holding then 1 else 0) = sem_tokens (sm s) + (if p \<in> holding then 1 else 0)"
    and "sem_waiting m + (if pc s g \<in> queued then 1 else 0) = sem_waiting (sm s) + (if p \<in> queued then 1 else 0)"
  shows "sem_inv n (goto g p m s)"
proof -
  have f: "finite {g. pc s g \<noteq> Outside}" and h: "card (those_at holding s) = sem_tokens (sm s)"
    and q: "int (card (those_at queued s)) = sem_waiting (sm s)"
    using assms(1) by (simp_all add: sem_inv_def)
  have "card (those_at holding (goto g p m s)) = sem_tokens m"
    using card_at_goto [OF f, of holding g p m] assms(4) h by simp
  moreover have "int (card (those_at queued (goto g p m s))) = sem_waiting m"
    using card_at_goto [OF f, of queued g p m] assms(5) q by (cases "pc s g \<in> queued"; cases "p \<in> queued") auto
  ultimately show ?thesis using finite_goto [OF f, of g p m] assms(2,3) by (simp add: sem_inv_def)
qed

lemma holder_token:
  assumes "sem_inv n s" "pc s g \<in> holding"
  shows "0 < sem_tokens (sm s)"
proof -
  have "finite (those_at holding s)" using assms(1) by (intro at_finite) (simp_all add: sem_inv_def)
  then have "card (those_at holding s) \<noteq> 0" using assms(2) at_mem [of g holding s] by auto
  then show ?thesis using assms(1) by (simp add: sem_inv_def)
qed

lemma sem_inv_step: "sem_step s s' \<Longrightarrow> sem_inv n s \<Longrightarrow> sem_inv n s'"
proof (induction rule: sem_step.induct)
  case (release_none s g)
  then show ?case using holder_token [of n s g] by simp
next
  case (release s g)
  have "sem_tokens (sm s) - 1 \<le> n" using release(3) by (simp add: sem_inv_def le_diff_conv)
  then show ?case using release by (intro sem_inv_goto) (simp_all add: sem_inv_def)
qed (intro sem_inv_goto; simp add: sem_inv_def; fail)+

lemma sem_inv_start:
  "sem_tokens m = 0 \<Longrightarrow> sem_waiting m = 0 \<Longrightarrow> sem_inv (sem_cap m) (sem_start m)"
  by (simp add: sem_inv_def sem_start_def those_at_def)

lemma sem_inv_reach:
  "sem_step\<^sup>*\<^sup>* (sem_start m) s \<Longrightarrow> sem_tokens m = 0 \<Longrightarrow> sem_waiting m = 0 \<Longrightarrow> sem_inv (sem_cap m) s"
  by (induction rule: rtranclp_induct) (auto intro: sem_inv_start sem_inv_step)

lemma NewSemaphore_fresh:
  "NewSemaphore name k = Some m \<Longrightarrow> 0 < k \<and> sem_cap m = nat k \<and> sem_tokens m = 0 \<and> sem_waiting m = 0"
  by (auto simp: NewSemaphore_def split: if_splits)

subsection \<open>Properties\<close>

text \<open>C14: however goroutines interleave, at most \<open>maxConcurrent\<close> of them are past \<open>Acquire\<close> and not
  yet past \<open>Release\<close>, the channel holds exactly one token for each of those, and \<open>waiting\<close> counts
  exactly the goroutines inside \<open>Acquire\<close>.\<close>

theorem semaphore_bounded:
  assumes "NewSemaphore name k = Some m" "sem_step\<^sup>*\<^sup>* (sem_start m) s"
  shows "card {g. pc s g \<in> holding} = sem_tokens (sm s) \<and> sem_tokens (sm s) \<le> nat k \<and>
    int (card {g. pc s g \<in> queued}) = sem_waiting (sm s)"
  using sem_inv_reach [OF assms(2)] NewSemaphore_fresh [OF assms(1)]
  by (simp add: sem_inv_def those_at_def)

theorem semaphore_bounded_witness:
  "card {g. pc (goto 7 Parked ((the (NewSemaphore ''mysql'' 2))\<lparr>sem_waiting := 1\<rparr>) (sem_start (the (NewSemaphore ''mysql'' 2)))) g \<in> queued} = 1"
proof -
  let ?m = "the (NewSemaphore ''mysql'' 2)"
  have 1: "NewSemaphore ''mysql'' 2 = Some ?m" by (simp add: NewSemaphore_def)
  have "sem_step (sem_start ?m) (goto 7 Parked ((sm (sem_start ?m))\<lparr>sem_waiting := sem_waiting (sm (sem_start ?m)) + 1\<rparr>) (sem_start ?m))"
    by (rule enter) (simp add: sem_start_def)
  then have 2: "sem_step\<^sup>*\<^sup>* (sem_start ?m) (goto 7 Parked (?m\<lparr>sem_waiting := 1\<rparr>) (sem_start ?m))"
    by (simp add: r_into_rtranclp sem_start_def NewSemaphore_def)
  from semaphore_bounded [OF 1 2] show ?thesis by simp
qed



text \<open>\<open>WithToken\<close> gives back the token it took whether the body returns, fails or panics, and when
  \<open>Acquire\<close> fails the body is not run at all and its error is the result.\<close>

theorem WithToken_balanced:
  assumes "WithToken (Some s) out f w = Some (r, so, w')"
    and "\<And>s1 w1 r1 so2 w2. f (Some s1) w1 = (r1, so2, w2) \<Longrightarrow> \<exists>s2. so2 = Some s2 \<and> sem_tokens s2 = sem_tokens s1"
  shows "map_option sem_tokens so = Some (sem_tokens s) \<and>
    (case out of CtxDone e \<Rightarrow> r = Returned (Some e) \<and> w' = w
               | GotToken \<Rightarrow> sem_tokens s < sem_cap s \<and> (\<exists>s1 so2. f (Some s1) w = (r, so2, w') \<and> sem_tokens s1 = sem_tokens s + 1))"
proof (cases out)
  case GotToken
  define s1 where "s1 = s\<lparr>sem_tokens := sem_tokens s + 1, sem_acquired := sem_acquired s + 1\<rparr>"
  have c: "sem_tokens s < sem_cap s" using assms(1) GotToken
    by (auto simp: WithToken_def Acquire_def Let_def split: if_splits)
  obtain r1 so2 w2 where f: "f (Some s1) w = (r1, so2, w2)" by (metis prod_cases3)
  obtain s2 where s2: "so2 = Some s2" "sem_tokens s2 = sem_tokens s1" using assms(2) [OF f] by blast
  have "Some (r, so, w') = Some (r1, Release so2, w2)"
    using assms(1) GotToken c f by (simp add: WithToken_def Acquire_def Let_def s1_def)
  then show ?thesis using s2 f c GotToken by (auto simp: Release_def s1_def)
next
  case (CtxDone e)
  then show ?thesis using assms(1) by (auto simp: WithToken_def Acquire_def Let_def)
qed

theorem WithToken_balanced_witness:
  "map_option sem_tokens (fst (snd (the (WithToken (NewSemaphore ''mysql'' 1) GotToken
     (\<lambda>so u. (Panicked :: unit body_result, so, u)) ())))) = Some 0"
proof -
  let ?f = "\<lambda>so u. (Panicked :: unit body_result, so, u :: unit)"
  let ?m = "\<lparr>sem_name = ''mysql'', sem_cap = 1, sem_tokens = 0, sem_total = 1, sem_waiting = 0,
      sem_acquired = 0, sem_rejected = 0\<rparr>"
  have n: "NewSemaphore ''mysql'' 1 = Some ?m" by (simp add: NewSemaphore_def)
  obtain r so w where 1: "WithToken (Some ?m) GotToken ?f () = Some (r, so, w)"
    by (auto simp: WithToken_def Acquire_def)
  have "map_option sem_tokens so = Some (sem_tokens ?m)"
    by (rule WithToken_balanced [OF 1, THEN conjunct1]) simp
  then show ?thesis using 1 n by simp
qed

end
