(* ===== verification/ServiceCtx.thy ===== *)
theory ServiceCtx
  imports CacheManager Session Sms Db Semaphore
begin

text \<open>
  The wiring of the RPC service (\<open>cmd/rpc/internal/svc/serviceContext.go\<close>): asset URLs, the two Redis
  counters and their bootstrap from the database, the cache warmers, and the construction of the
  cache manager with its fallback chain.
\<close>

section \<open>Helpers\<close>

definition trim_left_slash :: "string \<Rightarrow> string" where
  "trim_left_slash s = dropWhile (\<lambda>c. c = CHR ''/'') s"

definition asset_URL :: "string \<Rightarrow> string \<Rightarrow> string" where
  "asset_URL base p =
     (if p = [] then []
      else if has_prefix p ''http://'' \<or> has_prefix p ''https://'' then p
      else if base = [] then p
      else trim_right_slash base @ ''/'' @ trim_left_slash p)"

definition dur :: "int \<Rightarrow> int \<Rightarrow> int" where
  "dur seconds fallback = wrap64 ((if seconds \<le> 0 then fallback else seconds) * 1000000000)"

section \<open>Counters\<close>

definition uidKey :: string where "uidKey = ''yuyan:uid:next''"
definition chatIdKey :: string where "chatIdKey = ''yuyan:chat:message_id''"

definition bootChatMsgIDCounter :: "'r redis option \<Rightarrow> 'd sql_db \<Rightarrow> Schema \<Rightarrow> 'r \<times> 'd \<Rightarrow> 'r \<times> 'd" where
  "bootChatMsgIDCounter rdb D sc w =
     (case w of (s, d) \<Rightarrow>
        case rdb of
          None \<Rightarrow> (s, d)
        | Some R \<Rightarrow>
            (case MaxID D sc d of
               (Inl _, d') \<Rightarrow> (s, d')
             | (Inr maxID, d') \<Rightarrow> (if maxID > 0 then snd (r_set R chatIdKey (itoa maxID) s) else s, d')))"

definition bootUIDCounter :: "'r redis option \<Rightarrow> 'd sql_db \<Rightarrow> Schema \<Rightarrow> 'r \<times> 'd \<Rightarrow> 'r \<times> 'd" where
  "bootUIDCounter rdb D sc w =
     (case w of (s, d) \<Rightarrow>
        case rdb of
          None \<Rightarrow> (s, d)
        | Some R \<Rightarrow>
            (case MaxUID D sc d of
               (Inl _, d') \<Rightarrow> (s, d')
             | (Inr maxUID, d') \<Rightarrow>
                 (snd (r_setnx R uidKey (itoa (if maxUID < 5000 then 5000 else maxUID)) s), d')))"

text \<open>\<open>AllocUID\<close>: the counter, or the largest uid of the table plus one when Redis fails.\<close>

definition AllocUID :: "'r redis option \<Rightarrow> 'd sql_db \<Rightarrow> Schema \<Rightarrow> 'r \<times> 'd \<Rightarrow> int \<times> 'r \<times> 'd" where
  "AllocUID rdb D sc w =
     (case w of (s, d) \<Rightarrow>
        case rdb of
          None \<Rightarrow> (let (uid, d') = NextUID D sc d in (uid, s, d'))
        | Some R \<Rightarrow>
            (case r_incr R uidKey s of
               (Inr uid, s') \<Rightarrow> (uid, s', d)
             | (Inl _, s') \<Rightarrow> (let (uid, d') = NextUID D sc d in (uid, s', d'))))"

section \<open>Cache warmers\<close>

text \<open>\<open>[]byte\<close> as a type argument of \<open>cache.Refresh\<close>: \<open>json.Marshal\<close> writes a byte slice as a base64
  string.  The other warmers pass a slice, which is represented by its JSON value.\<close>

definition go_bytes :: "string gotype" where
  "go_bytes =
    \<lparr>t_enc = (\<lambda>b. JStr (base64_EncodeToString (bytes_of b))), t_dec = (\<lambda>_. None), t_asserts = (\<lambda>_. None)\<rparr>"

definition go_encoded :: "json gotype" where
  "go_encoded = \<lparr>t_enc = (\<lambda>j. j), t_dec = Some, t_asserts = (\<lambda>_. None)\<rparr>"

type_synonym 'd ldr = "'d \<Rightarrow> (sql_error + json) \<times> 'd"

definition total_loader :: "('d \<Rightarrow> 'x \<times> 'd) \<Rightarrow> ('x \<Rightarrow> json) \<Rightarrow> 'd ldr" where
  "total_loader f enc d = (let (x, d') = f d in (Inr (enc x), d'))"

definition as_bytes :: "'d ldr \<Rightarrow> 'd \<Rightarrow> (sql_error + string) \<times> 'd" where
  "as_bytes f d = (case f d of (Inl e, d') \<Rightarrow> (Inl e, d') | (Inr j, d') \<Rightarrow> (Inr (json_print j), d'))"

definition load_types :: "'d sql_db \<Rightarrow> Schema \<Rightarrow> 'd ldr" where
  "load_types D sc d =
     (case ListTopLevel D sc d of
        ((_, Some e), d') \<Rightarrow> (Inl e, d')
      | ((lts, None), d') \<Rightarrow> (Inr (JArr (map live_type_json (BuildLiveTypesJSON lts))), d'))"

record params =
  pm_srt :: "MatchCatalogItem list \<Rightarrow> MatchCatalogItem list"
  pm_its :: "string list \<Rightarrow> string list"
  pm_iti :: "int list \<Rightarrow> int list"
  pm_loc :: "int \<Rightarrow> int"

definition catalog_loader :: "params \<Rightarrow> 'd sql_db \<Rightarrow> Schema \<Rightarrow> 'd ldr" where
  "catalog_loader P D sc = total_loader (BuildMatchCatalog (pm_srt P) (pm_its P) (pm_iti P) (pm_loc P) D sc) (json_of_map catalog_json)"

definition recommend_loader :: "params \<Rightarrow> 'd sql_db \<Rightarrow> Schema \<Rightarrow> 'd ldr" where
  "recommend_loader P D sc = total_loader (BuildRecommend (pm_srt P) (pm_loc P) D sc) catalog_json"

definition date_loader :: "params \<Rightarrow> 'd sql_db \<Rightarrow> Schema \<Rightarrow> string \<Rightarrow> 'd ldr" where
  "date_loader P D sc date = total_loader (BuildMatchByDate (pm_srt P) (pm_loc P) D sc date) catalog_json"

definition rooms_loader :: "'d sql_db \<Rightarrow> Schema \<Rightarrow> 'd ldr" where
  "rooms_loader D sc = total_loader (BuildAllLiveRooms D sc) (json_of_map rooms_json)"

definition warmMatchCatalog :: "'r redis option \<Rightarrow> params \<Rightarrow> 'd sql_db \<Rightarrow> Schema \<Rightarrow> int \<Rightarrow> 'r \<times> 'd \<Rightarrow> sql_error refresh_error option \<times> 'r \<times> 'd" where
  "warmMatchCatalog rdb P D sc ttl = cache_Refresh rdb go_bytes ''match'' ''catalog'' ttl (as_bytes (catalog_loader P D sc))"

definition warmRecommend :: "'r redis option \<Rightarrow> params \<Rightarrow> 'd sql_db \<Rightarrow> Schema \<Rightarrow> int \<Rightarrow> 'r \<times> 'd \<Rightarrow> sql_error refresh_error option \<times> 'r \<times> 'd" where
  "warmRecommend rdb P D sc ttl = cache_Refresh rdb go_encoded ''match'' ''recommend'' ttl (recommend_loader P D sc)"

definition warmMatchByDate :: "'r redis option \<Rightarrow> params \<Rightarrow> 'd sql_db \<Rightarrow> Schema \<Rightarrow> string \<Rightarrow> int \<Rightarrow> 'r \<times> 'd \<Rightarrow> sql_error refresh_error option \<times> 'r \<times> 'd" where
  "warmMatchByDate rdb P D sc date ttl = cache_Refresh rdb go_encoded ''match'' (''date:'' @ date) ttl (date_loader P D sc date)"

definition warmLiveRooms :: "'r redis option \<Rightarrow> 'd sql_db \<Rightarrow> Schema \<Rightarrow> int \<Rightarrow> 'r \<times> 'd \<Rightarrow> sql_error refresh_error option \<times> 'r \<times> 'd" where
  "warmLiveRooms rdb D sc ttl = cache_Refresh rdb go_bytes ''live'' ''all'' ttl (as_bytes (rooms_loader D sc))"

definition warmLiveTypes :: "'r redis option \<Rightarrow> 'd sql_db \<Rightarrow> Schema \<Rightarrow> int \<Rightarrow> 'r \<times> 'd \<Rightarrow> sql_error refresh_error option \<times> 'r \<times> 'd" where
  "warmLiveTypes rdb D sc ttl = cache_Refresh rdb go_bytes ''live'' ''types'' ttl (as_bytes (load_types D sc))"

section \<open>The refresh jobs\<close>

text \<open>The configured lifetimes in seconds (\<open>cmd/rpc/internal/config/config.go\<close>).\<close>

record rpc_ttls =
  RefreshMatchListTtl :: int
  CacheMatchListTtl :: int
  RefreshLiveTtl :: int
  CacheLiveTtl :: int
  RefreshCommentatorTtl :: int
  CacheCommentatorTtl :: int

text \<open>An anchor has no JSON tags; a slice that never grew is nil, which marshals as \<open>null\<close>.\<close>

definition anchor_json :: "Anchor \<Rightarrow> json" where
  "anchor_json a = JObj
     [(''UID'', jint (an_UID a)), (''NickName'', JStr (an_NickName a)), (''Icon'', JStr (an_Icon a)),
      (''CutOutIcon'', JStr (an_CutOutIcon a)), (''Intro'', JStr (an_Intro a)), (''Fans'', jint (an_Fans a)),
      (''Follow'', jint (an_Follow a)), (''Hot'', jint (an_Hot a)), (''RoomNum'', JStr (an_RoomNum a)),
      (''Detail'', JStr (an_Detail a)), (''Notice'', JStr (an_Notice a)), (''Live'', JBool (an_Live a)),
      (''CreatedAt'', jint (an_CreatedAt a))]"

definition anchors_loader :: "'d sql_db \<Rightarrow> Schema \<Rightarrow> 'd ldr" where
  "anchors_loader D sc d =
     (case anchor_ListAll D sc d of
        ((_, Some e), d') \<Rightarrow> (Inl e, d')
      | ((as, None), d') \<Rightarrow> (Inr (if as = [] then JNull else JArr (map anchor_json as)), d'))"

text \<open>\<open>wc d\<close> is the local wall-clock reading, in seconds, of the \<open>d\<close>-th round of the date loop.\<close>

definition match_job ::
  "'r redis option \<Rightarrow> params \<Rightarrow> 'd sql_db \<Rightarrow> Schema \<Rightarrow> rpc_ttls \<Rightarrow> (nat \<Rightarrow> int) \<Rightarrow> 'r \<times> 'd \<Rightarrow> 'r \<times> 'd" where
  "match_job rdb P D sc c wc w =
     (let ttl = dur (CacheMatchListTtl c) 60;
          (_, w1) = warmMatchCatalog rdb P D sc ttl w;
          (_, w2) = warmRecommend rdb P D sc ttl w1
      in fold (\<lambda>d w. snd (warmMatchByDate rdb P D sc (format_date (wc d + 86400 * int d)) ttl w)) [0..<7] w2)"

definition live_job :: "'r redis option \<Rightarrow> 'd sql_db \<Rightarrow> Schema \<Rightarrow> rpc_ttls \<Rightarrow> 'r \<times> 'd \<Rightarrow> 'r \<times> 'd" where
  "live_job rdb D sc c w =
     (let ttl = dur (CacheLiveTtl c) 15;
          (_, w1) = warmLiveRooms rdb D sc ttl w
      in snd (warmLiveTypes rdb D sc ttl w1))"

definition commentator_job :: "'r redis option \<Rightarrow> 'd sql_db \<Rightarrow> Schema \<Rightarrow> rpc_ttls \<Rightarrow> 'r \<times> 'd \<Rightarrow> 'r \<times> 'd" where
  "commentator_job rdb D sc c w =
     snd (cache_Refresh rdb go_encoded ''commentator'' ''list'' (dur (CacheCommentatorTtl c) 120) (anchors_loader D sc) w)"

definition refresh_jobs ::
  "'r redis option \<Rightarrow> params \<Rightarrow> 'd sql_db \<Rightarrow> Schema \<Rightarrow> rpc_ttls \<Rightarrow> (nat \<Rightarrow> int) \<Rightarrow> ('r \<times> 'd) Scheduler" where
  "refresh_jobs rdb P D sc c wc =
     sched_Add \<lparr>rj_Family = ''commentator'', rj_Run = commentator_job rdb D sc c, rj_Every = dur (RefreshCommentatorTtl c) 120\<rparr>
      (sched_Add \<lparr>rj_Family = ''live'', rj_Run = live_job rdb D sc c, rj_Every = dur (RefreshLiveTtl c) 15\<rparr>
        (sched_Add \<lparr>rj_Family = ''match'', rj_Run = match_job rdb P D sc c wc, rj_Every = dur (RefreshMatchListTtl c) 60\<rparr>
          NewScheduler))"

section \<open>Construction\<close>

text \<open>The schema settings chosen from the configured driver and prefix; \<open>low\<close> is \<open>unicode.ToLower\<close> beyond
  ASCII.\<close>

definition configured_schema :: "(nat \<Rightarrow> nat) \<Rightarrow> string \<Rightarrow> string \<Rightarrow> Schema" where
  "configured_schema low driver prefix =
     (if ToLower low (TrimSpace driver) \<in> {''sqlite'', ''sqlite3''} then SetNoSchemaPrefix initial_schema
      else if TrimSpace prefix \<noteq> [] then SetSchemaPrefix (TrimSpace prefix) initial_schema
      else initial_schema)"

definition fallback_chain :: "l1ref option \<Rightarrow> FallbackManager" where
  "fallback_chain l1 =
     NewFallbackManager [Some (NewL1StaleSource l1), Some (NewOSSSnapshotSource []), Some (NewCDNSource ''https://cdn.example.com/apipro'')]"

text \<open>The manager is built twice: the second chain is given the in-process cache of the first manager,
  and the second manager, which the service keeps, creates a cache of its own.  The self-test then
  decides the initial mode.  The references 0 and 1 are the two freecache instances.\<close>

definition build_manager ::
  "'l freecache \<Rightarrow> 'b breakers \<Rightarrow> (string \<Rightarrow> string option) \<Rightarrow> (string \<Rightarrow> http_reply) \<Rightarrow> 'r redis \<Rightarrow> int \<Rightarrow> 'r \<Rightarrow> 'b \<Rightarrow> (l1ref \<Rightarrow> 'l) \<Rightarrow>
   ('r, 'l, 'b) CManager \<times> ('r, 'l, 'b) mstate" where
  "build_manager F B fl http R now r b st =
     (let dgr = New;
          (m0, s0) = NewManager F B fl http 0 64 (Some R) (Some dgr) (Some (fallback_chain None)) r b st;
          fb = fallback_chain (cm_l1 m0);
          (m, s) = NewManager F B fl http 1 64 (Some R) (Some dgr) (Some fb) r b (ms_l1s s0);
          ((_, l2OK, _), s') = SelfTest m now s
      in (m, if \<not> l2OK then s'\<lparr>ms_dgr := mgr_Set ModeDegraded (ms_dgr s')\<rparr> else s'))"

text \<open>The service that the handlers use and the state it works on.  \<open>redis.MustNewRedis\<close> never returns nil.\<close>

record ('r, 'l, 'b, 'd) service =
  sv_rdb :: "'r redis"
  sv_D :: "'d sql_db"
  sv_sc :: Schema
  sv_sessions :: "'r SessionStore"
  sv_sms :: "'r SmsStore"
  sv_asset :: string
  sv_mgr :: "('r, 'l, 'b) CManager"
  sv_sched :: "('r \<times> 'd) Scheduler"

record ('r, 'l, 'b, 'd) world =
  w_ms :: "('r, 'l, 'b) mstate"
  w_db :: 'd
  w_rng :: rng
  w_sem :: "Semaphore option"

record rpc_config =
  c_DBDriver :: string
  c_DataSource :: string
  c_SchemaPrefix :: string
  c_AppMode :: string
  c_SmsDevBypassCode :: string
  c_FileBaseURL :: string
  c_ttls :: rpc_ttls

text \<open>\<open>NewServiceContext\<close>; \<open>None\<close> is the panic of \<open>db.MustNew\<close>.\<close>

definition NewServiceContext ::
  "'l freecache \<Rightarrow> 'b breakers \<Rightarrow> (string \<Rightarrow> string option) \<Rightarrow> (string \<Rightarrow> http_reply) \<Rightarrow> (nat \<Rightarrow> nat) \<Rightarrow>
   (string \<Rightarrow> string \<Rightarrow> string + 'd) \<Rightarrow> ('d \<Rightarrow> string option \<times> 'd) \<Rightarrow> 'd sql_db \<Rightarrow> string \<Rightarrow> 'r redis \<Rightarrow> params \<Rightarrow> (nat \<Rightarrow> int) \<Rightarrow> int \<Rightarrow>
   rpc_config \<Rightarrow> 'r \<Rightarrow> 'b \<Rightarrow> (l1ref \<Rightarrow> 'l) \<Rightarrow> rng \<Rightarrow> (('r, 'l, 'b, 'd) service \<times> ('r, 'l, 'b, 'd) world) option" where
  "NewServiceContext F B fl http low sql_open ping D sqliteSchema R P wc now c r b st t =
     (let sc = configured_schema low (c_DBDriver c) (c_SchemaPrefix c)
      in case MustNew sql_open ping D sqliteSchema (c_DBDriver c) (c_DataSource c) of
           None \<Rightarrow> None
         | Some d \<Rightarrow>
             (let w1 = bootChatMsgIDCounter (Some R) D sc (r, d);
                  (r2, d2) = bootUIDCounter (Some R) D sc w1;
                  (m, s) = build_manager F B fl http R now r2 b st
              in Some (\<lparr>sv_rdb = R, sv_D = D, sv_sc = sc, sv_sessions = NewSessionStore (Some R),
                        sv_sms = NewSmsStore low (Some R) (c_AppMode c) (c_SmsDevBypassCode c), sv_asset = c_FileBaseURL c, sv_mgr = m,
                        sv_sched = refresh_jobs (Some R) P D sc (c_ttls c) wc\<rparr>,
                       \<lparr>w_ms = s, w_db = d2, w_rng = t, w_sem = NewSemaphore ''mysql-main'' 50\<rparr>)))"

section \<open>Allocated uids are fresh\<close>

fun alloc_many :: "nat \<Rightarrow> 'r redis option \<Rightarrow> 'd sql_db \<Rightarrow> Schema \<Rightarrow> 'r \<times> 'd \<Rightarrow> int list \<times> 'r \<times> 'd" where
  "alloc_many 0 rdb D sc w = ([], w)"
| "alloc_many (Suc n) rdb D sc w =
     (let (u, w1) = AllocUID rdb D sc w; (us, w2) = alloc_many n rdb D sc w1 in (u # us, w2))"

lemma AllocUID_live:
  assumes "redis_server R view live dbl" "live s" "counter_at (view s) uidKey = Some c" "c < 2 ^ 63 - 1"
  obtains s' where "AllocUID (Some R) D sc (s, d) = (c + 1, s', d)" "live s'" "counter_at (view s') uidKey = Some (c + 1)"
proof -
  note l = redis_server.incr_law [OF assms]
  have r: "- (2 ^ 63) \<le> c" using counter_at_range [OF assms(3)] by simp
  show ?thesis
  proof
    show "AllocUID (Some R) D sc (s, d) = (c + 1, snd (r_incr R uidKey s), d)"
      using l by (cases "r_incr R uidKey s") (simp add: AllocUID_def)
    show "live (snd (r_incr R uidKey s))" using l by simp
    show "counter_at (view (snd (r_incr R uidKey s))) uidKey = Some (c + 1)"
      using l r assms(4) parse_int_itoa [of "c + 1"] by simp
  qed
qed

lemma alloc_many_live:
  assumes "redis_server R view live dbl" "live s" "counter_at (view s) uidKey = Some c" "c + int n < 2 ^ 63"
  shows "fst (alloc_many n (Some R) D sc (s, d)) = [c + 1..c + int n]"
  using assms(2-)
proof (induction n arbitrary: s c)
  case (Suc n)
  have "c < 2 ^ 63 - 1" using Suc.prems(3) by simp
  then obtain s' where a: "AllocUID (Some R) D sc (s, d) = (c + 1, s', d)" "live s'" "counter_at (view s') uidKey = Some (c + 1)"
    using AllocUID_live [OF assms(1) Suc.prems(1,2)] by metis
  have "fst (alloc_many n (Some R) D sc (s', d)) = [c + 1 + 1..c + 1 + int n]"
    using Suc.IH [OF a(2,3)] Suc.prems(3) by simp
  moreover have "[c + 1..c + int (Suc n)] = (c + 1) # [c + 1 + 1..c + 1 + int n]"
    by (subst upto_rec1) (simp_all add: add.commute add.left_commute)
  ultimately show ?case using a(1) by (simp add: Let_def case_prod_beta)
qed simp

lemma bootUIDCounter_live:
  assumes "redis_server R view live dbl" "live s" "MaxUID D sc d = (Inr m, d')" "m < 2 ^ 63"
  obtains s' where "bootUIDCounter (Some R) D sc (s, d) = (s', d')" "live s'"
    "counter_at (view s') uidKey = (if view s uidKey = None then Some (max m 5000) else counter_at (view s) uidKey)"
proof -
  let ?s' = "snd (r_setnx R uidKey (itoa (if m < 5000 then 5000 else m)) s)"
  note l = redis_server.setnx_law [OF assms(1,2), of uidKey "itoa (if m < 5000 then 5000 else m)"]
  have p: "parse_int (itoa (if m < 5000 then 5000 else m)) = Some (max m 5000)"
    using assms(4) parse_int_itoa [of "if m < 5000 then 5000 else m"] by auto
  show ?thesis
  proof
    show "bootUIDCounter (Some R) D sc (s, d) = (?s', d')" by (simp add: bootUIDCounter_def assms(3))
    show "live ?s'" using l by simp
    show "counter_at (view ?s') uidKey = (if view s uidKey = None then Some (max m 5000) else counter_at (view s) uidKey)"
      using l p by (simp add: counter_at_def)
  qed
qed


definition uid_db :: "int \<Rightarrow> unit sql_db" where
  "uid_db m = \<lparr>ExecContext = (\<lambda>_ _ d. (None, d)), QueryContext = (\<lambda>_ _ d. (Inr ([[VInt m]], None), d))\<rparr>"


end
