(* ===== verification/GoType.thy ===== *)
theory GoType
  imports Builders CacheManager
begin

text \<open>
  \<open>encoding/json\<close> driven by a static type, for the types the RPC handlers keep in the cache.  A Go value is
  a tree \<open>gov\<close>; \<open>dec\<close> assigns a JSON value to a variable of a type (the flag reports a type error, which
  does not stop the other assignments) and \<open>emit\<close> marshals it.  A handler's value of type \<open>T\<close> is then
  represented by its encoding, and reading a cached text into \<open>T\<close> is \<open>emit\<close> after \<open>dec\<close>.
\<close>

datatype ty = TInt | TStr | TAny | TSlice ty | TMap ty | TStruct "(string \<times> bool \<times> ty) list"

datatype gov = GInt int | GStr string | GAny json | GNil | GList "gov list" | GMap "(string \<times> gov) list" | GStruct "gov list"

fun zero :: "ty \<Rightarrow> gov" and zeros :: "(string \<times> bool \<times> ty) list \<Rightarrow> gov list" where
  "zero TInt = GInt 0"
| "zero TStr = GStr []"
| "zero TAny = GNil"
| "zero (TSlice t) = GNil"
| "zero (TMap t) = GNil"
| "zero (TStruct fs) = GStruct (zeros fs)"
| "zeros [] = []"
| "zeros ((n, om, t) # fs) = zero t # zeros fs"

fun find_index :: "('a \<Rightarrow> bool) \<Rightarrow> 'a list \<Rightarrow> nat option" where
  "find_index P [] = None"
| "find_index P (x # xs) = (if P x then Some 0 else map_option Suc (find_index P xs))"

text \<open>A member goes to the field of its name, or else to the first field whose name folds to the same
  letters.\<close>

definition field_index :: "(string \<times> bool \<times> ty) list \<Rightarrow> string \<Rightarrow> nat option" where
  "field_index fs k =
     (case find_index (\<lambda>f. fst f = k) fs of
        Some i \<Rightarrow> Some i
      | None \<Rightarrow> find_index (\<lambda>f. fold_name (fst f) = fold_name k) fs)"

function (sequential) dec :: "ty \<Rightarrow> json \<Rightarrow> gov \<Rightarrow> bool \<times> gov"
  and dec_elems :: "ty \<Rightarrow> json list \<Rightarrow> bool \<times> gov list"
  and dec_entries :: "ty \<Rightarrow> (string \<times> json) list \<Rightarrow> bool \<times> (string \<times> gov) list \<Rightarrow> bool \<times> (string \<times> gov) list"
  and dec_members :: "(string \<times> bool \<times> ty) list \<Rightarrow> (string \<times> json) list \<Rightarrow> bool \<times> gov list \<Rightarrow> bool \<times> gov list" where
  "dec TAny JNull v = (False, GNil)"
| "dec TAny j v = (False, GAny j)"
| "dec (TSlice t) JNull v = (False, GNil)"
| "dec (TMap t) JNull v = (False, GNil)"
| "dec t JNull v = (False, v)"
| "dec TInt (JNum n) v = (case parse_int n of Some i \<Rightarrow> (False, GInt i) | None \<Rightarrow> (True, v))"
| "dec TStr (JStr s) v = (False, GStr s)"
| "dec (TSlice t) (JArr xs) v = map_prod id GList (dec_elems t xs)"
| "dec (TMap t) (JObj ms) v = map_prod id GMap (dec_entries t ms (False, case v of GMap m \<Rightarrow> m | _ \<Rightarrow> []))"
| "dec (TStruct fs) (JObj ms) v = map_prod id GStruct (dec_members fs ms (False, case v of GStruct vs \<Rightarrow> vs | _ \<Rightarrow> zeros fs))"
| "dec t j v = (True, v)"
| "dec_elems t [] = (False, [])"
| "dec_elems t (x # xs) = (case dec t x (zero t) of (e, v) \<Rightarrow> case dec_elems t xs of (e2, vs) \<Rightarrow> (e \<or> e2, v # vs))"
| "dec_entries t [] em = em"
| "dec_entries t ((k, x) # ms) (e, m) =
     (case dec t x (zero t) of (e2, v) \<Rightarrow> dec_entries t ms (e \<or> e2, AList.update k v m))"
| "dec_members fs [] ev = ev"
| "dec_members fs ((k, x) # ms) (e, vs) =
     (case field_index fs k of
        None \<Rightarrow> dec_members fs ms (e, vs)
      | Some i \<Rightarrow> (case dec (snd (snd (fs ! i))) x (vs ! i) of (e2, v) \<Rightarrow> dec_members fs ms (e \<or> e2, vs[i := v])))"
  by pat_completeness auto
termination
  by (relation "measure (\<lambda>x. case x of Inl (Inl (_, j, _)) \<Rightarrow> size j | Inl (Inr (_, xs)) \<Rightarrow> size_list size xs
        | Inr (Inl (_, ms, _)) \<Rightarrow> size_list (size_prod (\<lambda>_. 0) size) ms
        | Inr (Inr (_, ms, _)) \<Rightarrow> size_list (size_prod (\<lambda>_. 0) size) ms)") auto

definition empty_value :: "gov \<Rightarrow> bool" where
  "empty_value v \<longleftrightarrow> v \<in> {GInt 0, GStr [], GNil, GList [], GMap []}"

fun emit :: "ty \<Rightarrow> gov \<Rightarrow> json"
  and emit_members :: "(string \<times> bool \<times> ty) list \<Rightarrow> gov list \<Rightarrow> (string \<times> json) list" where
  "emit TInt (GInt i) = jint i"
| "emit TStr (GStr s) = JStr s"
| "emit TAny (GAny j) = j"
| "emit (TSlice t) (GList vs) = JArr (map (emit t) vs)"
| "emit (TMap t) (GMap m) = JObj (sort_key fst (map (\<lambda>(k, v). (k, emit t v)) m))"
| "emit (TStruct fs) (GStruct vs) = JObj (emit_members fs vs)"
| "emit t v = JNull"
| "emit_members ((n, om, t) # fs) (v # vs) =
     (if om \<and> empty_value v then [] else [(n, emit t v)]) @ emit_members fs vs"
| "emit_members fs vs = []"

text \<open>The type argument of \<open>GetOrLoadT\<close>.  An object decoded into \<open>any\<close> is a \<open>map[string]any\<close>, so only that
  type is recovered by the assertion \<open>v.(T)\<close>.\<close>

definition go_type :: "ty \<Rightarrow> json gotype" where
  "go_type t =
    \<lparr>t_enc = (\<lambda>j. j),
     t_dec = (\<lambda>j. case dec t j (zero t) of (e, v) \<Rightarrow> if e then None else Some (emit t v)),
     t_asserts = (\<lambda>j. case j of JObj ms \<Rightarrow> if t = TMap TAny then Some j else None | _ \<Rightarrow> None)\<rparr>"

section \<open>Values that come back from the cache\<close>

text \<open>\<open>rep t v j\<close>: \<open>j\<close> is an encoding of \<open>v\<close> at type \<open>t\<close>, up to the order of a struct's members and the
  omission of zero members.  Numbers are integers a \<open>float64\<close> holds exactly.\<close>

definition exact :: "int \<Rightarrow> bool" where "exact i \<longleftrightarrow> \<bar>i\<bar> \<le> 2 ^ 53"

inductive rep :: "ty \<Rightarrow> gov \<Rightarrow> json \<Rightarrow> bool" where
  rep_int: "exact i \<Longrightarrow> rep TInt (GInt i) (jint i)"
| rep_str: "valid_utf8 s \<Longrightarrow> rep TStr (GStr s) (JStr s)"
| rep_nil_slice: "rep (TSlice t) GNil JNull"
| rep_nil_map: "rep (TMap t) GNil JNull"
| rep_slice: "list_all2 (rep t) vs xs \<Longrightarrow> rep (TSlice t) (GList vs) (JArr xs)"
| rep_map: "map fst m = map fst ms \<Longrightarrow> distinct (map fst m) \<Longrightarrow> sorted (map fst m) \<Longrightarrow> list_all valid_utf8 (map fst m) \<Longrightarrow>
    list_all2 (rep t) (map snd m) (map snd ms) \<Longrightarrow> rep (TMap t) (GMap m) (JObj ms)"
| rep_struct: "length vs = length fs \<Longrightarrow> distinct (map fst fs) \<Longrightarrow> list_all valid_utf8 (map fst fs) \<Longrightarrow>
    distinct (map fst ms) \<Longrightarrow> set (map fst ms) \<subseteq> set (map fst fs) \<Longrightarrow>
    (\<forall>i < length fs. (map_of ms (fst (fs ! i)) = None \<longrightarrow> vs ! i = zero (snd (snd (fs ! i)))) \<and>
       (\<forall>x. map_of ms (fst (fs ! i)) = Some x \<longrightarrow> rep (snd (snd (fs ! i))) (vs ! i) x)) \<Longrightarrow>
    rep (TStruct fs) (GStruct vs) (JObj ms)"

lemma length_zeros [simp]: "length (zeros fs) = length fs"
  by (induction fs) auto

lemma nth_zeros: "i < length fs \<Longrightarrow> zeros fs ! i = zero (snd (snd (fs ! i)))"
proof (induction fs arbitrary: i)
  case (Cons f fs)
  then show ?case by (cases f; cases i) auto
qed simp

lemma find_index_distinct:
  "distinct (map fst fs) \<Longrightarrow> i < length fs \<Longrightarrow> find_index (\<lambda>f. fst f = fst (fs ! i)) fs = Some i"
proof (induction fs arbitrary: i)
  case (Cons f fs)
  then show ?case by (cases i) (use nth_mem in \<open>fastforce+\<close>)
qed simp

lemma field_index_nth: "distinct (map fst fs) \<Longrightarrow> i < length fs \<Longrightarrow> field_index fs (fst (fs ! i)) = Some i"
  by (simp add: field_index_def find_index_distinct)

text \<open>Decoding members with distinct known names assigns each field on its own.\<close>

lemma dec_members_nth:
  assumes "distinct (map fst fs)" "length vs = length fs"
    and "distinct (map fst ms)" "set (map fst ms) \<subseteq> set (map fst fs)"
    and "\<And>i x. i < length fs \<Longrightarrow> map_of ms (fst (fs ! i)) = Some x \<Longrightarrow> dec (snd (snd (fs ! i))) x (vs ! i) = (False, ws ! i)"
    and "\<And>i. i < length fs \<Longrightarrow> map_of ms (fst (fs ! i)) = None \<Longrightarrow> vs ! i = ws ! i" and "length ws = length fs"
  shows "dec_members fs ms (False, vs) = (False, ws)"
  using assms
proof (induction ms arbitrary: vs)
  case Nil
  then show ?case by (auto intro: nth_equalityI)
next
  case (Cons m ms)
  obtain k x where m: "m = (k, x)" by force
  obtain i where i: "i < length fs" "fst (fs ! i) = k" using Cons.prems(4) m by (auto simp: in_set_conv_nth image_def)
  have f: "field_index fs k = Some i" using field_index_nth [OF Cons.prems(1) i(1)] i(2) by simp
  have d: "dec (snd (snd (fs ! i))) x (vs ! i) = (False, ws ! i)" using Cons.prems(5) [of i x] i m by simp
  have other: "fst (fs ! j) \<noteq> k" if "j < length fs" "j \<noteq> i" for j
    using that i Cons.prems(1) by (metis distinct_conv_nth length_map nth_map)
  have k: "map_of ms k = None" using Cons.prems(3) m by (auto simp: map_of_eq_None_iff)
  have "dec_members fs ms (False, vs[i := ws ! i]) = (False, ws)"
  proof (rule Cons.IH)
    fix j y assume "j < length fs" "map_of ms (fst (fs ! j)) = Some y"
    then show "dec (snd (snd (fs ! j))) y (vs[i := ws ! i] ! j) = (False, ws ! j)"
      using Cons.prems(5) [of j y] other [of j] k i m by (cases "j = i") auto
  next
    fix j assume "j < length fs" "map_of ms (fst (fs ! j)) = None"
    then show "vs[i := ws ! i] ! j = ws ! j"
      using Cons.prems(6) [of j] other [of j] i Cons.prems(2) m by (cases "j = i") auto
  qed (use Cons.prems in auto)
  then show ?case using f d m by simp
qed

lemma update_fresh: "k \<notin> fst ` set m \<Longrightarrow> AList.update k v m = m @ [(k, v)]"
  by (induction m) auto

lemma dec_entries_fresh:
  "list_all2 (\<lambda>v x. dec t x (zero t) = (False, v)) (map snd m) (map snd ms) \<Longrightarrow> map fst m = map fst ms \<Longrightarrow>
   distinct (map fst (acc @ m)) \<Longrightarrow> dec_entries t ms (False, acc) = (False, acc @ m)"
proof (induction ms arbitrary: m acc)
  case (Cons x ms)
  obtain k j where x: "x = (k, j)" by force
  obtain v m' where m: "m = (k, v) # m'" using Cons.prems(2) x by (cases m) auto
  have "AList.update k v acc = acc @ [(k, v)]" using Cons.prems(3) m by (intro update_fresh) auto
  then show ?case using Cons.IH [of m' "acc @ [(k, v)]"] Cons.prems m x by simp
qed auto


lemma dec_elems_all2: "list_all2 (\<lambda>v x. dec t x (zero t) = (False, v)) vs xs \<Longrightarrow> dec_elems t xs = (False, vs)"
  by (induction rule: list_all2_induct) auto

lemma rep_dec: "rep t v j \<Longrightarrow> dec t j (zero t) = (False, v)"
proof (induction rule: rep.induct)
  case (rep_int i)
  then show ?case using parse_int_itoa [of i] by (simp add: exact_def jint_def)
next
  case (rep_slice t vs xs)
  then show ?case using dec_elems_all2 [of t vs xs] by (simp add: list_all2_conv_all_nth)
next
  case (rep_map m ms t)
  have "list_all2 (\<lambda>v x. dec t x (zero t) = (False, v)) (map snd m) (map snd ms)"
    using rep_map(5) by (rule list_all2_mono) simp
  then show ?case using dec_entries_fresh [of t m ms "[]"] rep_map by simp
next
  case (rep_struct vs fs ms)
  have "dec_members fs ms (False, zeros fs) = (False, vs)"
    by (rule dec_members_nth) (use rep_struct in \<open>auto simp: nth_zeros\<close>)
  then show ?case by simp
qed auto

lemma to_anys_all2:
  "list_all2 (\<lambda>v x. \<exists>y. to_any fl x = Some y \<and> P v y) vs xs \<Longrightarrow> \<exists>ys. to_anys fl xs = Some ys \<and> list_all2 P vs ys"
  by (induction rule: list_all2_induct) fastforce+

lemma to_anym_some:
  "\<forall>x \<in> snd ` set ms. \<exists>y. to_any fl x = Some y \<Longrightarrow>
   to_anym fl ms = Some (map (\<lambda>(k, x). (k, the (to_any fl x))) ms)"
  by (induction ms) auto

lemma sort_rev_sorted:
  assumes "sorted (map fst m)" "distinct (map fst m)"
  shows "sort_key fst (rev m) = m"
proof (rule map_sorted_distinct_set_unique [of fst])
  show "inj_on fst (set (sort_key fst (rev m)) \<union> set m)" using assms(2) by (simp add: distinct_map)
  have "mset (map fst (sort_key fst (rev m))) = mset (map fst m)" by simp
  then show "distinct (map fst (sort_key fst (rev m)))" using assms(2) by (metis mset_eq_imp_distinct_iff)
qed (use assms in auto)

lemma map_of_sorted_any:
  assumes "distinct (map fst m)"
  shows "map_of (sort_key fst (AList.clearjunk (rev m))) = map_of m"
    "distinct (map fst (sort_key fst (AList.clearjunk (rev m))))"
    "set (map fst (sort_key fst (AList.clearjunk (rev m)))) = set (map fst m)"
proof -
  have c: "AList.clearjunk (rev m) = rev m" using assms by (intro distinct_clearjunk_id) (simp add: rev_map [symmetric])
  have "mset (map fst (sort_key fst (rev m))) = mset (map fst m)" by simp
  then show d: "distinct (map fst (sort_key fst (AList.clearjunk (rev m))))"
    unfolding c using assms by (metis mset_eq_imp_distinct_iff)
  then show "map_of (sort_key fst (AList.clearjunk (rev m))) = map_of m"
    unfolding c using assms by (intro map_of_eqI) (auto simp: map_of_eq_Some_iff)
  show "set (map fst (sort_key fst (AList.clearjunk (rev m)))) = set (map fst m)" unfolding c by simp
qed


fun ty_depth :: "ty \<Rightarrow> nat" and tys_depth :: "(string \<times> bool \<times> ty) list \<Rightarrow> nat" where
  "ty_depth (TSlice t) = Suc (ty_depth t)"
| "ty_depth (TMap t) = Suc (ty_depth t)"
| "ty_depth (TStruct fs) = Suc (tys_depth fs)"
| "ty_depth t = 0"
| "tys_depth [] = 0"
| "tys_depth ((n, om, t) # fs) = max (ty_depth t) (tys_depth fs)"

lemma tys_depth_nth: "i < length fs \<Longrightarrow> ty_depth (snd (snd (fs ! i))) \<le> tys_depth fs"
proof (induction fs arbitrary: i)
  case (Cons f fs)
  then show ?case by (cases f; cases i) (auto simp: le_max_iff_disj)
qed simp

lemma jdepths_le: "(\<And>x. x \<in> set xs \<Longrightarrow> jdepth x \<le> n) \<Longrightarrow> jdepths xs \<le> n"
  by (induction xs) auto

lemma jdepthm_le: "(\<And>k x. (k, x) \<in> set ms \<Longrightarrow> jdepth x \<le> n) \<Longrightarrow> jdepthm ms \<le> n"
  by (induction ms) fastforce+

lemma member_field:
  assumes "distinct (map fst ms)" "set (map fst ms) \<subseteq> set (map fst fs)" "(k, x) \<in> set ms"
  obtains i where "i < length fs" "fst (fs ! i) = k" "map_of ms (fst (fs ! i)) = Some x"
proof -
  have "k \<in> fst ` set ms" using assms(3) by force
  then have "k \<in> set (map fst fs)" using assms(2) by auto
  then obtain i where "i < length fs" "fst (fs ! i) = k" by (auto simp: in_set_conv_nth)
  then show ?thesis using that assms(1,3) by (simp add: map_of_is_SomeI)
qed

lemma rep_wf: "rep t v j \<Longrightarrow> wf_json j \<and> jdepth j \<le> ty_depth t"
proof (induction rule: rep.induct)
  case (rep_slice t vs xs)
  then have "wf_json x \<and> jdepth x \<le> ty_depth t" if "x \<in> set xs" for x
    using that by (auto simp: list_all2_conv_all_nth in_set_conv_nth)
  then show ?case using jdepths_le [of xs "ty_depth t"] by auto
next
  case (rep_map m ms t)
  have "wf_json x \<and> jdepth x \<le> ty_depth t \<and> valid_utf8 k" if x: "(k, x) \<in> set ms" for k x
  proof -
    obtain i where i: "i < length ms" "ms ! i = (k, x)" using x by (auto simp: in_set_conv_nth)
    have "k \<in> set (map fst ms)" using x by force
    then have "valid_utf8 k" using rep_map(1,4) by (auto simp: list_all_iff)
    then show ?thesis using list_all2_nthD2 [OF rep_map(5), of i] i by simp
  qed
  then show ?case using jdepthm_le [of ms "ty_depth t"] by auto
next
  case (rep_struct vs fs ms)
  have "wf_json x \<and> jdepth x \<le> tys_depth fs \<and> valid_utf8 k" if x: "(k, x) \<in> set ms" for k x
  proof -
    obtain i where i: "i < length fs" "fst (fs ! i) = k" "map_of ms (fst (fs ! i)) = Some x"
      by (rule member_field [OF rep_struct(4,5) x])
    then show ?thesis using rep_struct(3,6) tys_depth_nth [OF i(1)] by (auto simp: list_all_length)
  qed
  then show ?case using jdepthm_le [of ms "tys_depth fs"] by auto
qed auto

text \<open>An object with sorted distinct names keeps its order.\<close>

lemma to_any_sorted:
  assumes "sorted (map fst ms)" "distinct (map fst ms)" "\<And>k x. (k, x) \<in> set ms \<Longrightarrow> \<exists>y. to_any fl x = Some y"
  shows "to_any fl (JObj ms) = Some (JObj (map (\<lambda>(k, x). (k, the (to_any fl x))) ms))"
proof -
  let ?f = "\<lambda>(k, x). (k, the (to_any fl x))"
  have all: "to_anym fl ms = Some (map ?f ms)" by (rule to_anym_some) (use assms(3) in auto)
  have k: "map fst (map ?f ms) = map fst ms" by auto
  have "AList.clearjunk (rev (map ?f ms)) = rev (map ?f ms)" by (rule distinct_clearjunk_id) (metis assms(2) k distinct_rev rev_map)
  moreover have "sort_key fst (rev (map ?f ms)) = map ?f ms" by (rule sort_rev_sorted) (unfold k, use assms(1,2) in simp_all)
  ultimately show ?thesis using all by simp
qed

lemma rep_to_any:
  assumes "\<And>i. exact i \<Longrightarrow> fl (itoa i) = Some (itoa i)"
  shows "rep t v j \<Longrightarrow> \<exists>j'. to_any fl j = Some j' \<and> rep t v j'"
proof (induction rule: rep.induct)
  case (rep_int i)
  then show ?case using assms [of i] rep.rep_int [of i] by (simp add: jint_def)
next
  case (rep_slice t vs xs)
  then have "list_all2 (\<lambda>v x. \<exists>y. to_any fl x = Some y \<and> rep t v y) vs xs" by (auto elim: list_all2_mono)
  then obtain ys where "to_anys fl xs = Some ys" "list_all2 (rep t) vs ys"
    using to_anys_all2 [of fl "rep t" vs xs] by blast
  then show ?case by (auto intro: rep.intros)
next
  case (rep_map m ms t)
  let ?f = "\<lambda>(k, x). (k, the (to_any fl x))"
  have a: "\<exists>y. to_any fl (snd (ms ! i)) = Some y \<and> rep t (snd (m ! i)) y" if "i < length ms" for i
    using list_all2_nthD2 [OF rep_map(5), of i] that rep_map(1) by (auto dest: map_eq_imp_length_eq)
  have k: "map fst (map ?f ms) = map fst ms" by auto
  have t: "to_any fl (JObj ms) = Some (JObj (map ?f ms))"
    by (rule to_any_sorted) (use rep_map(1-3) a in \<open>auto simp: in_set_conv_nth, metis snd_conv\<close>)
  have "list_all2 (rep t) (map snd m) (map snd (map ?f ms))"
  proof -
    have l: "length m = length ms" using rep_map(1) by (metis length_map)
    then show ?thesis using a by (fastforce simp: list_all2_conv_all_nth case_prod_beta)
  qed
  then have "rep (TMap t) (GMap m) (JObj (map ?f ms))" using rep_map k by (intro rep.rep_map) auto
  then show ?case using t by blast
next
  case (rep_struct vs fs ms)
  let ?f = "\<lambda>(k, x). (k, the (to_any fl x))"
  let ?o = "sort_key fst (AList.clearjunk (rev (map ?f ms)))"
  have a: "\<exists>y. to_any fl x = Some y \<and> rep (snd (snd (fs ! i))) (vs ! i) y"
    if "i < length fs" "map_of ms (fst (fs ! i)) = Some x" for i x
    using rep_struct(6) that by blast
  have "\<exists>y. to_any fl x = Some y" if x: "(k, x) \<in> set ms" for k x
  proof -
    obtain i where "i < length fs" "map_of ms (fst (fs ! i)) = Some x" by (rule member_field [OF rep_struct(4,5) x])
    then show ?thesis using a by blast
  qed
  then have all: "to_anym fl ms = Some (map ?f ms)" by (intro to_anym_some) auto
  have k: "map fst (map ?f ms) = map fst ms" by auto
  note so = map_of_sorted_any [of "map ?f ms", unfolded k, OF rep_struct(4)]
  have m: "map_of (map ?f ms) q = map_option (\<lambda>x. the (to_any fl x)) (map_of ms q)" for q
    by (induction ms) auto
  have "rep (TStruct fs) (GStruct vs) (JObj ?o)"
  proof (rule rep.rep_struct)
    show "\<forall>i<length fs. (map_of ?o (fst (fs ! i)) = None \<longrightarrow> vs ! i = zero (snd (snd (fs ! i)))) \<and>
       (\<forall>x. map_of ?o (fst (fs ! i)) = Some x \<longrightarrow> rep (snd (snd (fs ! i))) (vs ! i) x)"
      unfolding so(1) m using rep_struct(6) a by fastforce
  qed (use rep_struct so in auto)
  then show ?case using all by simp
qed (auto intro: rep.intros)

text \<open>The law of \<open>fl\<close> used here: an integer of at most 53 bits has the same text after its conversion to
  \<open>float64\<close>.\<close>

definition fl_exact :: "(string \<Rightarrow> string option) \<Rightarrow> bool" where
  "fl_exact fl \<longleftrightarrow> (\<forall>i. exact i \<longrightarrow> fl (itoa i) = Some (itoa i))"

lemma rep_survives:
  assumes "fl_exact (cm_fl m)" "rep t v (emit t v)" "ty_depth t \<le> max_depth" "t \<noteq> TMap TAny"
  shows "survives m (go_type t) (emit t v)"
proof -
  obtain j where j: "to_any (cm_fl m) (emit t v) = Some j" "rep t v j"
    using rep_to_any [OF _ assms(2), of "cm_fl m"] assms(1) by (auto simp: fl_exact_def)
  have p: "json_parse (json_print (emit t v)) = Some (emit t v)" "json_parse (json_print j) = Some j"
    using rep_wf [OF assms(2)] rep_wf [OF j(2)] assms(3) by (auto intro: json_parse_print)
  have "json_print (emit t v) \<noteq> []" using json_print_start rep_wf [OF assms(2)] by fastforce
  then have "jsonUnmarshalAny m (marshal_T (go_type t) (emit t v)) = (Inr (Decoded j) :: cache_error + json anyval)"
    using p j(1) by (simp add: jsonUnmarshalAny_def marshal_T_def go_type_def)
  moreover have "t_asserts (go_type t) j = None" using assms(4) by (simp add: go_type_def split: json.splits)
  moreover have "unmarshal_T (go_type t) (json_print j) = Some (emit t v)"
    using p(2) rep_dec [OF j(2)] by (simp add: unmarshal_T_def go_type_def)
  ultimately show ?thesis by (simp add: survives_def)
qed

text \<open>An executable sufficient condition.\<close>

fun holds :: "ty \<Rightarrow> gov \<Rightarrow> bool" and holds_fields :: "(string \<times> bool \<times> ty) list \<Rightarrow> gov list \<Rightarrow> bool" where
  "holds TInt (GInt i) = exact i"
| "holds TStr (GStr s) = valid_utf8 s"
| "holds (TSlice t) GNil = True"
| "holds (TMap t) GNil = True"
| "holds (TSlice t) (GList vs) = list_all (holds t) vs"
| "holds (TMap t) (GMap m) = (sorted (map fst m) \<and> distinct (map fst m) \<and> list_all (\<lambda>(k, v). valid_utf8 k \<and> holds t v) m)"
| "holds (TStruct fs) (GStruct vs) = (distinct (map fst fs) \<and> list_all valid_utf8 (map fst fs) \<and> holds_fields fs vs)"
| "holds t v = False"
| "holds_fields [] [] = True"
| "holds_fields ((n, om, t) # fs) (v # vs) = ((if om \<and> empty_value v then v = zero t else holds t v) \<and> holds_fields fs vs)"
| "holds_fields fs vs = False"

lemma emit_members_names: "set (map fst (emit_members fs vs)) \<subseteq> set (map fst fs)"
proof (induction fs arbitrary: vs)
  case (Cons f fs)
  then show ?case by (cases f; cases vs) auto
qed simp

lemma emit_members_distinct: "distinct (map fst fs) \<Longrightarrow> distinct (map fst (emit_members fs vs))"
proof (induction fs arbitrary: vs)
  case (Cons f fs)
  then show ?case using emit_members_names [of fs "tl vs"] by (cases f; cases vs) auto
qed simp

lemma emit_members_nth:
  "distinct (map fst fs) \<Longrightarrow> i < length fs \<Longrightarrow> length vs = length fs \<Longrightarrow>
   map_of (emit_members fs vs) (fst (fs ! i)) =
     (if fst (snd (fs ! i)) \<and> empty_value (vs ! i) then None else Some (emit (snd (snd (fs ! i))) (vs ! i)))"
proof (induction fs arbitrary: vs i)
  case (Cons f fs)
  obtain n om t where f: "f = (n, om, t)" by (cases f)
  obtain v vs' where vs: "vs = v # vs'" using Cons.prems(3) by (cases vs) auto
  have n: "map_of (emit_members fs vs') n = None"
    using emit_members_names [of fs vs'] Cons.prems(1) f by (force simp: map_of_eq_None_iff)
  show ?case
  proof (cases i)
    case 0
    then show ?thesis using n f vs by simp
  next
    case (Suc j)
    then have "fst (fs ! j) \<noteq> n" using Cons.prems f by (metis distinct.simps(2) fst_conv length_map less_Suc_eq_le
          list.simps(9) nth_map nth_mem length_Cons not_less_eq)
    then show ?thesis using Cons.IH [of j vs'] Cons.prems Suc f vs by simp
  qed
qed simp

lemma holds_fields_nth:
  "holds_fields fs vs \<Longrightarrow> length vs = length fs \<and> (\<forall>i < length fs.
     if fst (snd (fs ! i)) \<and> empty_value (vs ! i) then vs ! i = zero (snd (snd (fs ! i))) else holds (snd (snd (fs ! i))) (vs ! i))"
proof (induction fs arbitrary: vs)
  case (Cons f fs)
  obtain n om t where f: "f = (n, om, t)" by (cases f)
  obtain v vs' where vs: "vs = v # vs'" using Cons.prems f by (cases vs) auto
  show ?case using Cons.IH [of vs'] Cons.prems f vs by (auto simp: nth_Cons split: nat.splits)
next
  case Nil
  then show ?case by (cases vs) auto
qed

lemma holds_rep: "holds t v \<Longrightarrow> rep t v (emit t v)"
proof (induction v arbitrary: t rule: measure_induct_rule [of size])
  case (less v)
  show ?case
  proof (cases t)
    case (TSlice t')
    have "rep t' x (emit t' x)" if "v = GList vs" "x \<in> set vs" for vs x
      using less that TSlice by (auto simp: list_all_iff less_Suc_eq_le size_list_estimation')
    then show ?thesis using less.prems TSlice
      by (cases v) (auto intro!: rep.intros list_all2_all_nthI)
  next
    case (TMap t')
    show ?thesis
    proof (cases v)
      case (GMap m)
      have b: "holds t' x" "size x < size v" if "(k, x) \<in> set m" for k x
        using less.prems that unfolding TMap GMap
        by (auto simp: list_all_iff less_Suc_eq_le split: prod.splits
            dest: size_list_estimation' [where f = "size_prod (\<lambda>_. 0) size" and y = "size x"])
      have s: "sort_key fst (map (\<lambda>(k, v). (k, emit t' v)) m) = map (\<lambda>(k, v). (k, emit t' v)) m"
        by (rule sort_key_id_if_sorted) (use less.prems TMap GMap in \<open>auto simp: case_prod_beta comp_def\<close>)
      have r: "rep t' (snd (m ! i)) (emit t' (snd (m ! i)))" if "i < length m" for i
        using b [of "fst (m ! i)" "snd (m ! i)"] less.IH nth_mem [OF that] by simp
      show ?thesis unfolding TMap GMap emit.simps s
        by (rule rep.rep_map) (use less.prems TMap GMap r in
            \<open>auto simp: case_prod_beta comp_def list_all_iff list_all2_conv_all_nth\<close>)
    qed (use less.prems TMap in \<open>auto intro: rep.intros\<close>)
  next
    case (TStruct fs)
    then obtain vs where v: "v = GStruct vs" using less.prems by (cases v) auto
    note p = less.prems [unfolded TStruct v, simplified]
    note f = holds_fields_nth [of fs vs]
    have "rep (snd (snd (fs ! i))) (vs ! i) (emit (snd (snd (fs ! i))) (vs ! i))"
      if "i < length fs" "\<not> (fst (snd (fs ! i)) \<and> empty_value (vs ! i))" for i
    proof (rule less.IH)
      have "i < length vs" using p f that by simp
      then show "size (vs ! i) < size v" using size_list_estimation' [OF nth_mem, of i vs "size (vs ! i)" size] v by simp
      show "holds (snd (snd (fs ! i))) (vs ! i)" using p f that by auto
    qed
    then show ?thesis unfolding TStruct v emit.simps
      using p f emit_members_names [of fs vs]
      by (intro rep.rep_struct) (auto simp: emit_members_distinct emit_members_nth split: if_splits)
  qed (use less.prems in \<open>cases v; auto intro: rep.intros\<close>)+
qed


section \<open>The types the handlers cache\<close>

abbreviation "int_field n \<equiv> (n, False, TInt)"
abbreviation "str_field n \<equiv> (n, False, TStr)"

definition ty_MatchAnchorProfile :: ty where
  "ty_MatchAnchorProfile = TStruct [str_field ''roomNum'', str_field ''detail'', str_field ''notice'']"

definition ty_MatchAnchorItem :: ty where
  "ty_MatchAnchorItem = TStruct
     [int_field ''uid'', str_field ''nickName'', str_field ''icon'', (''cutOutIcon'', True, TStr),
      (''anchor'', False, ty_MatchAnchorProfile)]"

definition ty_MatchCatalogItem :: ty where
  "ty_MatchCatalogItem = TStruct
     [int_field ''scheduleId'', int_field ''matchTime'', str_field ''hostName'', str_field ''guestName'', str_field ''hostIcon'',
      str_field ''guestIcon'', str_field ''subCateName'', int_field ''categoryId'', (''categoryName'', True, TStr),
      str_field ''categoryIcon'', int_field ''hostScore'', int_field ''guestScore'', (''matchStatus'', True, TInt),
      (''status'', True, TInt), str_field ''matchStatusDesc'', (''anchors'', False, TSlice ty_MatchAnchorItem)]"

definition ty_MatchItem :: ty where
  "ty_MatchItem = TStruct
     [int_field ''scheduleId'', int_field ''matchTime'', str_field ''hostName'', str_field ''guestName'', str_field ''hostIcon'',
      str_field ''guestIcon'', str_field ''subCateName'', str_field ''categoryIcon'']"

definition ty_LiveTypeJSON :: ty where
  "ty_LiveTypeJSON = TStruct [int_field ''liveTypeId'', str_field ''typeName'', int_field ''parentId'', str_field ''icon'']"

definition ty_GrowDTOResult :: ty where
  "ty_GrowDTOResult = TStruct [int_field ''id'', str_field ''name'', int_field ''nextMinGrom'']"

definition ty_UserInfoResult :: ty where
  "ty_UserInfoResult = TStruct
     [int_field ''uid'', str_field ''nickName'', str_field ''icon'', str_field ''cutOutIcon'', int_field ''userType'',
      int_field ''score'', int_field ''grow'', (''growDto'', False, ty_GrowDTOResult), int_field ''gender'',
      int_field ''birthday'', str_field ''loginName'', str_field ''phone'', str_field ''countryCode'']"

definition ty_GiftRankItem :: ty where
  "ty_GiftRankItem = TStruct [(''user'', False, ty_UserInfoResult), int_field ''contribution'']"

lemmas ty_defs = ty_MatchAnchorProfile_def ty_MatchAnchorItem_def ty_MatchCatalogItem_def ty_MatchItem_def ty_LiveTypeJSON_def
  ty_GrowDTOResult_def ty_UserInfoResult_def ty_GiftRankItem_def

definition gov_profile :: "MatchAnchorProfile \<Rightarrow> gov" where
  "gov_profile p = GStruct [GStr (pr_RoomNum p), GStr (pr_Detail p), GStr (pr_Notice p)]"

definition gov_anchor :: "MatchAnchorItem \<Rightarrow> gov" where
  "gov_anchor a = GStruct [GInt (ma_UID a), GStr (ma_NickName a), GStr (ma_Icon a), GStr (ma_CutOutIcon a), gov_profile (ma_Anchor a)]"

definition gov_catalog :: "MatchCatalogItem \<Rightarrow> gov" where
  "gov_catalog m = GStruct
     [GInt (mc_ScheduleID m), GInt (mc_MatchTime m), GStr (mc_HostName m), GStr (mc_GuestName m), GStr (mc_HostIcon m),
      GStr (mc_GuestIcon m), GStr (mc_SubCateName m), GInt (mc_CategoryID m), GStr (mc_CategoryName m), GStr (mc_CategoryIcon m),
      GInt (mc_HostScore m), GInt (mc_GuestScore m), GInt (mc_MatchStatus m), GInt (mc_Status m), GStr (mc_MatchStatusDesc m),
      GList (map gov_anchor (mc_Anchors m))]"

lemma emit_profile: "emit ty_MatchAnchorProfile (gov_profile p) = profile_json p"
  by (simp add: ty_defs gov_profile_def profile_json_def)

lemma emit_anchor: "emit ty_MatchAnchorItem (gov_anchor a) = anchor_item_json a"
  unfolding ty_MatchAnchorItem_def gov_anchor_def
  by (simp add: emit_profile anchor_item_json_def omit_s_def empty_value_def)

lemma emit_catalog: "emit ty_MatchCatalogItem (gov_catalog m) = catalog_item_json m"
  unfolding ty_MatchCatalogItem_def gov_catalog_def
  by (simp add: emit_anchor catalog_item_json_def omit_s_def omit_i_def empty_value_def comp_def)

text \<open>An item whose numbers have at most 53 bits and whose strings are UTF-8.\<close>

definition plain_item :: "MatchCatalogItem \<Rightarrow> bool" where
  "plain_item m \<longleftrightarrow> holds ty_MatchCatalogItem (gov_catalog m)"

lemma catalog_survives:
  assumes "fl_exact (cm_fl m)" "list_all plain_item items"
  shows "survives m (go_type (TSlice ty_MatchCatalogItem)) (catalog_json items)"
proof -
  have "holds (TSlice ty_MatchCatalogItem) (GList (map gov_catalog items))"
    using assms(2) by (simp add: list_all_iff plain_item_def)
  note r = rep_survives [OF assms(1) holds_rep [OF this]]
  have "ty_depth (TSlice ty_MatchCatalogItem) \<le> max_depth" by (simp add: ty_defs max_depth_def)
  then show ?thesis using r by (simp add: emit_catalog catalog_json_def comp_def)
qed

end
