(* ===== verification/RateLimit.thy ===== *)
theory RateLimit
  imports Redis
begin

text \<open>
  The two Redis-backed limiters: the sliding window of \<open>common/ratelimit/ratelimit.go\<close> and the
  multi-dimensional limiter of \<open>common/ratelimit/multi.go\<close>.  A \<open>nil\<close> client is \<open>None\<close>; each reading
  of the clock (\<open>time.Now().UnixNano()\<close>) is an argument.
\<close>

subsection \<open>Limiter\<close>

record 'r Limiter =
  lim_rdb :: "'r redis option"
  lim_perMin :: int
  lim_window :: int
  lim_keyPref :: string

definition minute :: int where "minute = 60000000000"

definition NewLimiter :: "'r redis option \<Rightarrow> int \<Rightarrow> string \<Rightarrow> 'r Limiter" where
  "NewLimiter rdb perMinute keyPrefix =
     (let perMinute = (if perMinute \<le> 0 then 120 else perMinute)
      in \<lparr>lim_rdb = rdb, lim_perMin = perMinute, lim_window = minute, lim_keyPref = keyPrefix\<rparr>)"

definition rl_key :: "'r Limiter \<Rightarrow> string \<Rightarrow> string" where
  "rl_key l ident = lim_keyPref l @ '':rl:'' @ ident"

definition Allow :: "'r Limiter option \<Rightarrow> int \<Rightarrow> string \<Rightarrow> 'r \<Rightarrow> bool \<times> 'r" where
  "Allow lo now ident s =
     (case lo of
        None \<Rightarrow> (True, s)
      | Some l \<Rightarrow>
          (case lim_rdb l of
             None \<Rightarrow> (True, s)
           | Some R \<Rightarrow>
               (let member = itoa now;
                    key = rl_key l ident;
                    s1 = snd (r_zremrangebyscore R key 0 (now - lim_window l) s)
                in case r_zcard R key s1 of
                     (Inl _, s2) \<Rightarrow> (True, s2)
                   | (Inr cnt, s2) \<Rightarrow>
                       if cnt \<ge> lim_perMin l then (False, s2)
                       else (let s3 = snd (r_zadd R key now member s2);
                                 s4 = snd (r_expire R key (lim_window l div 1000000000 + 1) s3)
                             in (True, s4)))))"

text \<open>The address of a request: first entry of \<open>X-Forwarded-For\<close>, \<open>X-Real-IP\<close>, or the remote address
  without its port.  Absent headers read as the empty string.\<close>

definition before_comma :: "string \<Rightarrow> string" where
  "before_comma s = takeWhile (\<lambda>c. c \<noteq> CHR '','') s"

definition before_last_colon :: "string \<Rightarrow> string" where
  "before_last_colon host =
     (if CHR '':'' \<in> set host then rev (tl (dropWhile (\<lambda>c. c \<noteq> CHR '':'') (rev host))) else host)"

definition clientIP :: "string \<Rightarrow> string \<Rightarrow> string \<Rightarrow> string" where
  "clientIP xff xri remoteAddr =
     (if xff \<noteq> [] then before_comma xff
      else if xri \<noteq> [] then xri
      else before_last_colon remoteAddr)"

text \<open>The middleware: the wrapped handler runs exactly when \<open>Allow\<close> says so; otherwise a
  \<open>Retry-After\<close> header and an error are written.\<close>

datatype 'o mw_result = Refused string string | Served 'o

definition Limiter_HTTPMiddleware ::
  "'r Limiter option \<Rightarrow> int \<Rightarrow> string \<Rightarrow> ('r \<Rightarrow> 'o \<times> 'r) \<Rightarrow> 'r \<Rightarrow> 'o mw_result \<times> 'r" where
  "Limiter_HTTPMiddleware l now ip nxt s =
     (case Allow l now ip s of
        (False, s1) \<Rightarrow> (Refused ''60'' (''rate limit exceeded for '' @ ip), s1)
      | (True, s1) \<Rightarrow> (case nxt s1 of (r, s2) \<Rightarrow> (Served r, s2)))"

subsection \<open>MultiLimiter\<close>

definition DimIP :: string where "DimIP = ''ip''"
definition DimUser :: string where "DimUser = ''user''"
definition DimDevice :: string where "DimDevice = ''device''"
definition DimAPI :: string where "DimAPI = ''api''"
definition DimGlobal :: string where "DimGlobal = ''global''"
definition DimConcurrent :: string where "DimConcurrent = ''concurrent''"

record Rule =
  Dimension :: string
  Key :: string
  PerMinute :: int
  MaxConcurrent :: int

definition multiKeyPrefix :: string where "multiKeyPrefix = ''apipro:rl''"
definition concurrentTTL :: int where "concurrentTTL = 300"
definition slidingWindowTTL :: int where "slidingWindowTTL = 61"

definition redisKey :: "string \<Rightarrow> string \<Rightarrow> string" where
  "redisKey dim key = multiKeyPrefix @ '':'' @ dim @ '':'' @ key"

definition active :: "Rule \<Rightarrow> bool" where
  "active r = (if Dimension r = DimConcurrent then MaxConcurrent r > 0 else PerMinute r > 0)"

text \<open>\<open>Inl\<close> is a Redis error.\<close>

definition checkOne :: "'r redis \<Rightarrow> int \<Rightarrow> Rule \<Rightarrow> 'r \<Rightarrow> (string + bool) \<times> 'r" where
  "checkOne R now r s =
     (let key = redisKey (Dimension r) (Key r) in
      if Dimension r = DimConcurrent then
        (case r_get R key s of
           (Inl e, s1) \<Rightarrow> (Inl e, s1)
         | (Inr v, s1) \<Rightarrow>
             if v = [] then (Inr True, s1)
             else (case parse_int v of None \<Rightarrow> (Inr True, s1) | Some n \<Rightarrow> (Inr (n < MaxConcurrent r), s1)))
      else
        (case r_zremrangebyscore R key 0 (now - minute) s of
           (Inl e, s1) \<Rightarrow> (Inl e, s1)
         | (Inr _, s1) \<Rightarrow>
             (case r_zcard R key s1 of
                (Inl e, s2) \<Rightarrow> (Inl e, s2)
              | (Inr cnt, s2) \<Rightarrow> (Inr (cnt < PerMinute r), s2))))"

text \<open>The first refused rule, if any; \<open>ts\<close> has the clock reading of each rule's turn.\<close>

fun check_loop :: "'r redis \<Rightarrow> int list \<Rightarrow> Rule list \<Rightarrow> 'r \<Rightarrow> Rule option \<times> 'r" where
  "check_loop R ts [] s = (None, s)"
| "check_loop R ts (r # rs) s =
     (if \<not> active r then check_loop R (tl ts) rs s
      else (case checkOne R (hd ts) r s of
              (Inl _, s1) \<Rightarrow> (None, s1)
            | (Inr ok, s1) \<Rightarrow> if \<not> ok then (Some r, s1) else check_loop R (tl ts) rs s1))"

definition Check :: "'r redis option \<Rightarrow> int list \<Rightarrow> Rule list \<Rightarrow> 'r \<Rightarrow> Rule option \<times> 'r" where
  "Check rdb ts rules s = (case rdb of None \<Rightarrow> (None, s) | Some R \<Rightarrow> check_loop R ts rules s)"

definition acquireOne :: "'r redis \<Rightarrow> int \<Rightarrow> Rule \<Rightarrow> 'r \<Rightarrow> string option \<times> 'r" where
  "acquireOne R now r s =
     (let key = redisKey (Dimension r) (Key r) in
      if Dimension r = DimConcurrent then
        (case r_incr R key s of
           (Inl e, s1) \<Rightarrow> (Some e, s1)
         | (Inr n, s1) \<Rightarrow>
             if n = 1 then (case r_expire R key concurrentTTL s1 of
                              (Inl e, s2) \<Rightarrow> (Some e, s2) | (Inr _, s2) \<Rightarrow> (None, s2))
             else (None, s1))
      else
        (case r_zremrangebyscore R key 0 (now - minute) s of
           (Inl e, s1) \<Rightarrow> (Some e, s1)
         | (Inr _, s1) \<Rightarrow>
             (case r_zadd R key now (itoa now) s1 of
                (Inl e, s2) \<Rightarrow> (Some e, s2)
              | (Inr _, s2) \<Rightarrow>
                  (case r_expire R key slidingWindowTTL s2 of
                     (Inl e, s3) \<Rightarrow> (Some e, s3) | (Inr _, s3) \<Rightarrow> (None, s3)))))"

fun rollback :: "'r redis \<Rightarrow> Rule list \<Rightarrow> 'r \<Rightarrow> 'r" where
  "rollback R [] s = s"
| "rollback R (r # rs) s =
     (if Dimension r \<noteq> DimConcurrent \<or> MaxConcurrent r \<le> 0 then rollback R rs s
      else rollback R rs (snd (r_decr R (redisKey (Dimension r) (Key r)) s)))"

text \<open>The second loop of \<open>Acquire\<close>: \<open>done\<close> are the rules before the current one.\<close>

fun acquire_loop :: "'r redis \<Rightarrow> int list \<Rightarrow> Rule list \<Rightarrow> Rule list \<Rightarrow> 'r \<Rightarrow> 'r" where
  "acquire_loop R ts before [] s = s"
| "acquire_loop R ts before (r # rs) s =
     (if \<not> active r then acquire_loop R (tl ts) (before @ [r]) rs s
      else (case acquireOne R (hd ts) r s of
              (Some _, s1) \<Rightarrow> rollback R before s1
            | (None, s1) \<Rightarrow> acquire_loop R (tl ts) (before @ [r]) rs s1))"

definition ml_Acquire :: "'r redis option \<Rightarrow> int list \<Rightarrow> int list \<Rightarrow> Rule list \<Rightarrow> 'r \<Rightarrow> (bool \<times> Rule option) \<times> 'r" where
  "ml_Acquire rdb ts1 ts2 rules s =
     (case rdb of
        None \<Rightarrow> ((True, None), s)
      | Some R \<Rightarrow>
          (case Check rdb ts1 rules s of
             (Some d, s1) \<Rightarrow> ((False, Some d), s1)
           | (None, s1) \<Rightarrow> ((True, None), acquire_loop R ts2 [] rules s1)))"

fun release_loop :: "'r redis \<Rightarrow> Rule list \<Rightarrow> 'r \<Rightarrow> 'r" where
  "release_loop R [] s = s"
| "release_loop R (r # rs) s =
     (if Dimension r \<noteq> DimConcurrent \<or> MaxConcurrent r \<le> 0 then release_loop R rs s
      else (let key = redisKey (Dimension r) (Key r) in
            case r_decr R key s of
              (Inl _, s1) \<Rightarrow> release_loop R rs s1
            | (Inr n, s1) \<Rightarrow> release_loop R rs (if n < 0 then snd (r_set R key ''0'' s1) else s1)))"

definition ml_Release :: "'r redis option \<Rightarrow> Rule list \<Rightarrow> 'r \<Rightarrow> 'r" where
  "ml_Release rdb rules s = (case rdb of None \<Rightarrow> s | Some R \<Rightarrow> release_loop R rules s)"

definition Multi_HTTPMiddleware ::
  "'r redis option \<Rightarrow> int list \<Rightarrow> int list \<Rightarrow> ('q \<Rightarrow> Rule list) \<Rightarrow> 'q \<Rightarrow> ('r \<Rightarrow> 'o \<times> 'r) \<Rightarrow> 'r \<Rightarrow> 'o mw_result \<times> 'r" where
  "Multi_HTTPMiddleware rdb ts1 ts2 ruleGen req nxt s =
     (let rules = ruleGen req in
      if rules = [] then (case nxt s of (r, s1) \<Rightarrow> (Served r, s1))
      else (case ml_Acquire rdb ts1 ts2 rules s of
              ((False, d), s1) \<Rightarrow>
                (Refused ''60'' (''rate limit: '' @ (case d of Some r \<Rightarrow> Dimension r @ '' '' @ Key r | None \<Rightarrow> [])), s1)
            | ((True, _), s1) \<Rightarrow>
                (case nxt s1 of (r, s2) \<Rightarrow> (Served r, ml_Release rdb rules s2))))"

subsection \<open>The sliding window\<close>

text \<open>A sequence of requests of one identifier at the given times: the times that were let through.\<close>

fun allow_run :: "'r Limiter \<Rightarrow> string \<Rightarrow> int list \<Rightarrow> 'r \<Rightarrow> int list \<times> 'r" where
  "allow_run l ident [] s = ([], s)"
| "allow_run l ident (t # ts) s =
     (case Allow (Some l) t ident s of
        (b, s1) \<Rightarrow> (case allow_run l ident ts s1 of (acc, s2) \<Rightarrow> (if b then t # acc else acc, s2)))"

lemma allow_run_subset: "set (fst (allow_run l ident ts s)) \<subseteq> set ts"
proof (induction ts arbitrary: s)
  case (Cons t ts)
  then show ?case using Cons [of "snd (Allow (Some l) t ident s)"] by (auto simp: case_prod_beta)
qed simp

context redis_server
begin

text \<open>The sorted set after the accepted requests \<open>A\<close>, the last request being at \<open>T\<close>.\<close>

definition window_inv :: "'r Limiter \<Rightarrow> string \<Rightarrow> int set \<Rightarrow> int \<Rightarrow> 'r \<Rightarrow> bool" where
  "window_inv l ident A T s \<longleftrightarrow> live s \<and>
     (\<exists>z. zset_at (view s) (rl_key l ident) = Some z \<and> distinct z \<and>
        set z = (\<lambda>t. (itoa t, dbl t)) ` {t \<in> A. dbl t > dbl (T - lim_window l) \<or> t = T})"

lemma zset_at_put [simp]: "zset_at (put_zset k z t m) k = Some z"
  by (simp add: zset_at_def put_zset_def)

lemma zset_at_expire: "zset_at (m(k := map_option (\<lambda>(v, _). (v, t)) (m k))) k = zset_at m k"
  by (auto simp: zset_at_def split: option.splits rval.splits)

lemma entry_inj: "inj_on (\<lambda>t. (itoa t, dbl t)) A"
  by (rule inj_onI) (simp add: itoa_inject)

text \<open>What one call does to the sorted set.\<close>

lemma Allow_live:
  assumes "lim_rdb l = Some R" "lim_window l = minute" "live s" "zset_at (view s) (rl_key l ident) = Some z"
    and z1_def: "z1 = zrem (dbl 0) (dbl (now - minute)) z"
  shows "fst (Allow (Some l) now ident s) \<longleftrightarrow> int (length z1) < lim_perMin l"
    and "live (snd (Allow (Some l) now ident s))"
    and "zset_at (view (snd (Allow (Some l) now ident s))) (rl_key l ident) =
      Some (if int (length z1) < lim_perMin l then zput (itoa now) (dbl now) z1 else z1)"
proof -
  let ?k = "rl_key l ident"
  define s1 where "s1 = snd (r_zremrangebyscore R ?k 0 (now - minute) s)"
  have 1: "live s1" "zset_at (view s1) ?k = Some z1"
    using zrem_law [OF assms(3,4), of 0 "now - minute"] by (simp_all add: s1_def z1_def)
  note c = zcard_law [OF 1]
  define s3 where "s3 = snd (r_zadd R ?k now (itoa now) s1)"
  have 3: "live s3" "zset_at (view s3) ?k = Some (zput (itoa now) (dbl now) z1)"
    using zadd_law [OF 1, of now "itoa now"] by (simp_all add: s3_def)
  define s4 where "s4 = snd (r_expire R ?k (minute div 1000000000 + 1) s3)"
  have 4: "live s4" "zset_at (view s4) ?k = Some (zput (itoa now) (dbl now) z1)"
    using expire_law [OF 3(1), of "minute div 1000000000 + 1" ?k] 3(2)
    by (simp_all add: s4_def minute_def zset_at_expire)
  have a: "Allow (Some l) now ident s = (if int (length z1) < lim_perMin l then (True, s4) else (False, s1))"
    using assms(1,2) c by (simp add: Allow_def Let_def s1_def s3_def s4_def)
  show "fst (Allow (Some l) now ident s) \<longleftrightarrow> int (length z1) < lim_perMin l"
    "live (snd (Allow (Some l) now ident s))"
    "zset_at (view (snd (Allow (Some l) now ident s))) ?k =
      Some (if int (length z1) < lim_perMin l then zput (itoa now) (dbl now) z1 else z1)"
    unfolding a using 1 4 by simp_all
qed

lemma Allow_window:
  assumes l: "lim_rdb l = Some R" "lim_window l = minute"
    and inv: "window_inv l ident A T s" and A: "\<forall>t \<in> A. 0 \<le> t \<and> t \<le> T" and now: "T < now"
    and W_def: "W = {t \<in> A. dbl t > dbl (now - minute)}"
  shows "fst (Allow (Some l) now ident s) \<longleftrightarrow> int (card W) < lim_perMin l"
    and "window_inv l ident (if fst (Allow (Some l) now ident s) then insert now A else A) now (snd (Allow (Some l) now ident s))"
proof -
  obtain z where z: "live s" "zset_at (view s) (rl_key l ident) = Some z" "distinct z"
    "set z = (\<lambda>t. (itoa t, dbl t)) ` {t \<in> A. dbl t > dbl (T - minute) \<or> t = T}"
    using inv l(2) by (auto simp: window_inv_def)
  define z1 where "z1 = zrem (dbl 0) (dbl (now - minute)) z"
  note al = Allow_live [OF l z(1,2) z1_def]
  have "dbl (T - minute) \<le> dbl (now - minute)" using now by (intro dbl_mono) simp
  moreover have "dbl 0 \<le> dbl t" if "t \<in> A" for t using A that by (intro dbl_mono) simp
  ultimately have sz: "set z1 = (\<lambda>t. (itoa t, dbl t)) ` W"
    using z(4) by (fastforce simp: z1_def zrem_def W_def)
  have d1: "distinct z1" using z(3) by (simp add: z1_def zrem_def)
  have len: "length z1 = card W"
    using distinct_card [OF d1] card_image [OF entry_inj, of W] sz by simp
  show f: "fst (Allow (Some l) now ident s) \<longleftrightarrow> int (card W) < lim_perMin l"
    using al(1) len by simp
  have now_notin: "now \<notin> A" using A now by auto
  have zp: "zput (itoa now) (dbl now) z1 = (itoa now, dbl now) # z1"
  proof -
    have "\<forall>p \<in> set z1. fst p \<noteq> itoa now"
      using sz now_notin by (auto simp: W_def itoa_inject)
    then show ?thesis by (auto simp: zput_def filter_id_conv)
  qed
  have "(itoa now, dbl now) \<notin> set z1" using sz now_notin by (auto simp: W_def itoa_inject)
  then have "distinct ((itoa now, dbl now) # z1)" using d1 by simp
  moreover have "set ((itoa now, dbl now) # z1) =
      (\<lambda>t. (itoa t, dbl t)) ` {t \<in> insert now A. dbl t > dbl (now - minute) \<or> t = now}"
    using sz by (auto simp: W_def)
  moreover have "set z1 = (\<lambda>t. (itoa t, dbl t)) ` {t \<in> A. dbl t > dbl (now - minute) \<or> t = now}"
    using sz now_notin by (auto simp: W_def)
  ultimately show "window_inv l ident (if fst (Allow (Some l) now ident s) then insert now A else A) now
      (snd (Allow (Some l) now ident s))"
    using al(2,3) f len l(2) d1 zp by (simp add: window_inv_def)
qed

lemma allow_run_window:
  assumes l: "lim_rdb l = Some R" "lim_window l = minute"
  shows "window_inv l ident A T s \<Longrightarrow> \<forall>t \<in> A. 0 \<le> t \<and> t \<le> T \<Longrightarrow> 0 \<le> T \<Longrightarrow> sorted_wrt (<) (T # ts) \<Longrightarrow>
    \<forall>t0 \<in> set (fst (allow_run l ident ts s)).
      int (card {t \<in> A \<union> set (fst (allow_run l ident ts s)). t \<le> t0 \<and> dbl t > dbl (t0 - minute)}) \<le> lim_perMin l"
proof (induction ts arbitrary: A T s)
  case (Cons t ts)
  define b s1 where "b = fst (Allow (Some l) t ident s)" and "s1 = snd (Allow (Some l) t ident s)"
  define A1 where "A1 = (if b then insert t A else A)"
  have Tt: "T < t" and srt: "sorted_wrt (<) (t # ts)" using Cons.prems(4) by auto
  note w = Allow_window [OF l Cons.prems(1,2) Tt refl]
  have inv: "window_inv l ident A1 t s1" using w(2) by (simp add: A1_def b_def s1_def)
  have A1: "\<forall>x \<in> A1. 0 \<le> x \<and> x \<le> t" using Cons.prems(2,3) Tt by (auto simp: A1_def)
  define B where "B = set (fst (allow_run l ident ts s1))"
  have Bge: "\<forall>x \<in> B. t < x"
    using srt allow_run_subset [of l ident ts s1] by (auto simp: B_def)
  have run: "set (fst (allow_run l ident (t # ts) s)) = (if b then insert t B else B)"
    by (simp add: b_def s1_def B_def case_prod_beta)
  have ih: "\<forall>t0 \<in> B. int (card {x \<in> A1 \<union> B. x \<le> t0 \<and> dbl x > dbl (t0 - minute)}) \<le> lim_perMin l"
    using Cons.IH [OF inv A1 _ srt] Tt Cons.prems(3) by (simp add: B_def)
  have u: "A \<union> (if b then insert t B else B) = A1 \<union> B" by (auto simp: A1_def)
  have "int (card {x \<in> A1 \<union> B. x \<le> t \<and> dbl x > dbl (t - minute)}) \<le> lim_perMin l" if b
  proof -
    let ?W = "{x \<in> A. dbl x > dbl (t - minute)}"
    have sub: "{x \<in> A1 \<union> B. x \<le> t \<and> dbl x > dbl (t - minute)} \<subseteq> insert t ?W"
      using Bge that by (auto simp: A1_def)
    have lt: "int (card ?W) < lim_perMin l" using w(1) that by (simp add: b_def)
    have "finite ?W"
    proof (rule ccontr)
      assume "infinite ?W"
      obtain z where z: "set z = (\<lambda>t. (itoa t, dbl t)) ` {t \<in> A. dbl t > dbl (T - minute) \<or> t = T}"
        using Cons.prems(1) l(2) by (auto simp: window_inv_def)
      have "finite {t \<in> A. dbl t > dbl (T - minute) \<or> t = T}"
        using finite_imageD [OF _ entry_inj] z by (metis List.finite_set)
      moreover have "?W \<subseteq> {t \<in> A. dbl t > dbl (T - minute) \<or> t = T}"
        using dbl_mono [of "T - minute" "t - minute"] Tt by auto
      ultimately show False using \<open>infinite ?W\<close> finite_subset by blast
    qed
    then have "card {x \<in> A1 \<union> B. x \<le> t \<and> dbl x > dbl (t - minute)} \<le> card (insert t ?W)"
      and "card (insert t ?W) \<le> Suc (card ?W)"
      using card_mono [OF _ sub] by (simp_all add: card_insert_if)
    then show ?thesis using lt by simp
  qed
  then show ?case unfolding run u using ih by auto
qed simp

end

subsection \<open>Counters of in-flight requests\<close>

definition rule_key :: "Rule \<Rightarrow> string" where
  "rule_key r = redisKey (Dimension r) (Key r)"

definition concurrent :: "Rule \<Rightarrow> bool" where
  "concurrent r \<longleftrightarrow> Dimension r = DimConcurrent \<and> MaxConcurrent r > 0"

definition known_dim :: "string \<Rightarrow> bool" where
  "known_dim d \<longleftrightarrow> d \<in> {DimIP, DimUser, DimDevice, DimAPI, DimGlobal, DimConcurrent}"

lemmas dim_defs = DimIP_def DimUser_def DimDevice_def DimAPI_def DimGlobal_def DimConcurrent_def

text \<open>How many of the rules count on a key.\<close>

definition uses :: "Rule list \<Rightarrow> string \<Rightarrow> int" where
  "uses rs k = int (length (filter (\<lambda>r. concurrent r \<and> rule_key r = k) rs))"

lemma uses_simps [simp]: "uses [] k = 0"
  "uses (r # rs) k = (if concurrent r \<and> rule_key r = k then 1 else 0) + uses rs k"
  by (simp_all add: uses_def)

lemma uses_nonneg: "0 \<le> uses rs k"
  by (simp add: uses_def)

lemma append_colon_inject:
  "CHR '':'' \<notin> set a \<Longrightarrow> CHR '':'' \<notin> set b \<Longrightarrow> a @ CHR '':'' # x = b @ CHR '':'' # y \<longleftrightarrow> a = b \<and> x = y"
proof (induction a arbitrary: b)
  case Nil
  then show ?case by (cases b) auto
next
  case (Cons z a)
  show ?case
  proof (cases b)
    case (Cons w c)
    then show ?thesis using Cons.IH [of c] Cons.prems by auto
  qed (use Cons.prems in auto)
qed

lemma rule_key_dim:
  "known_dim (Dimension a) \<Longrightarrow> known_dim (Dimension b) \<Longrightarrow> rule_key a = rule_key b \<Longrightarrow> Dimension a = Dimension b"
  by (auto simp: rule_key_def redisKey_def append_colon_inject known_dim_def dim_defs)

text \<open>The keys of a rule list hold what the limiter itself puts there: a counter with the value \<open>c\<close>
  says, or a sorted set.\<close>

definition rule_ok :: "(string \<Rightarrow> int) \<Rightarrow> keyspace \<Rightarrow> Rule \<Rightarrow> bool" where
  "rule_ok c m r \<longleftrightarrow> known_dim (Dimension r) \<and>
     (active r \<longrightarrow>
        (if Dimension r = DimConcurrent then counter_at m (rule_key r) = Some (c (rule_key r)) \<and> 0 \<le> c (rule_key r)
         else zset_at m (rule_key r) \<noteq> None))"

definition counters_ok :: "Rule list \<Rightarrow> (string \<Rightarrow> int) \<Rightarrow> keyspace \<Rightarrow> bool" where
  "counters_ok rules c m \<longleftrightarrow> (\<forall>r \<in> set rules. rule_ok c m r)"

lemma active_concurrent: "active r \<Longrightarrow> Dimension r = DimConcurrent \<Longrightarrow> concurrent r"
  by (simp add: active_def concurrent_def)

lemma rule_ok_cong:
  "m' (rule_key r) = m (rule_key r) \<Longrightarrow> c' (rule_key r) = c (rule_key r) \<Longrightarrow> rule_ok c' m' r = rule_ok c m r"
  by (simp add: rule_ok_def counter_at_def zset_at_def)

text \<open>Rules of different kinds have different keys, so a change at one kind's key is invisible to the
  other.\<close>

lemma rule_ok_zset:
  assumes "rule_ok c m r" "rule_ok c m r'" "Dimension r \<noteq> DimConcurrent"
  shows "rule_ok c (put_zset (rule_key r) z t m) r'"
proof (cases "rule_key r' = rule_key r")
  case True
  then have "Dimension r' \<noteq> DimConcurrent"
    using assms rule_key_dim [of r' r] by (auto simp: rule_ok_def)
  then show ?thesis using assms True by (simp add: rule_ok_def put_zset_def zset_at_def)
next
  case False
  then show ?thesis using assms(2) rule_ok_cong [of "put_zset (rule_key r) z t m" r' m c c] by (simp add: put_zset_def)
qed

lemma rule_ok_counter:
  assumes "rule_ok c m r" "rule_ok c m r'" "concurrent r" "0 \<le> n" "n < 2 ^ 63"
  shows "rule_ok (c(rule_key r := n)) (m(rule_key r \<mapsto> (RStr (itoa n), t))) r'"
proof (cases "rule_key r' = rule_key r")
  case True
  then have "Dimension r' = DimConcurrent"
    using assms rule_key_dim [of r' r] by (auto simp: rule_ok_def concurrent_def)
  then show ?thesis using assms True parse_int_itoa [of n] by (simp add: rule_ok_def counter_at_def)
next
  case False
  then show ?thesis
    using assms(2) rule_ok_cong [of "m(rule_key r \<mapsto> (RStr (itoa n), t))" r' m "c(rule_key r := n)" c] by simp
qed

lemma at_expire:
  "counter_at (m(k := map_option (\<lambda>(v, _). (v, t)) (m k))) k' = counter_at m k'"
  "zset_at (m(k := map_option (\<lambda>(v, _). (v, t)) (m k))) k' = zset_at m k'"
  by (auto simp: counter_at_def zset_at_def split: option.splits rval.splits)

lemma rule_ok_expire: "rule_ok c (m(k := map_option (\<lambda>(v, _). (v, t)) (m k))) r = rule_ok c m r"
  by (simp add: rule_ok_def at_expire)

lemma counters_ok_zset:
  "counters_ok rules c m \<Longrightarrow> r \<in> set rules \<Longrightarrow> Dimension r \<noteq> DimConcurrent \<Longrightarrow>
   counters_ok rules c (put_zset (rule_key r) z t m)"
  by (auto simp: counters_ok_def intro: rule_ok_zset)

lemma counters_ok_expire:
  "counters_ok rules c (m(k := map_option (\<lambda>(v, _). (v, t)) (m k))) = counters_ok rules c m"
  by (simp add: counters_ok_def rule_ok_expire)

lemma counters_ok_counter:
  "counters_ok rules c m \<Longrightarrow> r \<in> set rules \<Longrightarrow> concurrent r \<Longrightarrow> 0 \<le> n \<Longrightarrow> n < 2 ^ 63 \<Longrightarrow>
   counters_ok rules (c(rule_key r := n)) (m(rule_key r \<mapsto> (RStr (itoa n), t)))"
  by (auto simp: counters_ok_def intro: rule_ok_counter)

lemma counters_ok_get:
  assumes "counters_ok rules c m" "r \<in> set rules" "active r"
  shows "Dimension r = DimConcurrent \<Longrightarrow> counter_at m (rule_key r) = Some (c (rule_key r)) \<and> 0 \<le> c (rule_key r)"
    and "Dimension r \<noteq> DimConcurrent \<Longrightarrow> \<exists>z. zset_at m (rule_key r) = Some z"
  using assms by (auto simp: counters_ok_def rule_ok_def)

context redis_server
begin

lemma checkOne_live:
  assumes l: "live s" and ok: "counters_ok rules c (view s)" and r: "r \<in> set rules" "active r"
  obtains b s' where "checkOne R now r s = (Inr b, s')" "live s'" "counters_ok rules c (view s')"
    "Dimension r = DimConcurrent \<Longrightarrow> b = (c (rule_key r) < MaxConcurrent r)"
proof (cases "Dimension r = DimConcurrent")
  case True
  note k = counters_ok_get(1) [OF ok r True]
  have max: "0 < MaxConcurrent r" using r(2) True by (simp add: active_def)
  show ?thesis
  proof (cases "view s (rule_key r)")
    case None
    then have "c (rule_key r) = 0" "r_get R (rule_key r) s = (Inr [], s)"
      using k get_law [OF l, of "rule_key r"] by simp_all
    then show ?thesis using that [of True s] True l ok max by (simp add: checkOne_def rule_key_def Let_def)
  next
    case (Some p)
    then obtain v t where v: "view s (rule_key r) = Some (RStr v, t)" "parse_int v = Some (c (rule_key r))"
      using k by (cases p) (auto simp: counter_at_def split: rval.splits)
    then have "v \<noteq> []" "r_get R (rule_key r) s = (Inr v, s)"
      using get_law [OF l, of "rule_key r" v] by (auto simp: parse_int_def)
    then show ?thesis
      using that [of "c (rule_key r) < MaxConcurrent r" s] True l ok v(2)
      by (simp add: checkOne_def rule_key_def Let_def)
  qed
next
  case False
  obtain z where z: "zset_at (view s) (rule_key r) = Some z" using counters_ok_get(2) [OF ok r False] by blast
  obtain n s1 where s1: "r_zremrangebyscore R (rule_key r) 0 (now - minute) s = (Inr n, s1)" "live s1"
    "view s1 = put_zset (rule_key r) (zrem (dbl 0) (dbl (now - minute)) z) (ttl_of (view s) (rule_key r)) (view s)"
    using zrem_law [OF l z, of 0 "now - minute"] by (metis prod.collapse)
  have "r_zcard R (rule_key r) s1 = (Inr (int (length (zrem (dbl 0) (dbl (now - minute)) z))), s1)"
    using zcard_law [OF s1(2)] by (simp add: s1(3))
  then show ?thesis
    using that [of "int (length (zrem (dbl 0) (dbl (now - minute)) z)) < PerMinute r" s1] s1 False
      counters_ok_zset [OF ok r(1) False]
    by (simp add: checkOne_def rule_key_def Let_def)
qed

lemma check_loop_live:
  assumes "live s" "counters_ok rules c (view s)" "set rs \<subseteq> set rules"
  shows "live (snd (check_loop R ts rs s)) \<and> counters_ok rules c (view (snd (check_loop R ts rs s))) \<and>
    (fst (check_loop R ts rs s) = None \<longrightarrow>
       (\<forall>r \<in> set rs. concurrent r \<longrightarrow> c (rule_key r) < MaxConcurrent r)) \<and>
    (\<forall>d. fst (check_loop R ts rs s) = Some d \<longrightarrow>
       d \<in> set rs \<and> active d \<and> (concurrent d \<longrightarrow> c (rule_key d) \<ge> MaxConcurrent d))"
  using assms
proof (induction rs arbitrary: s ts)
  case (Cons r rs)
  show ?case
  proof (cases "active r")
    case True
    obtain b s' where b: "checkOne R (hd ts) r s = (Inr b, s')" "live s'" "counters_ok rules c (view s')"
      "Dimension r = DimConcurrent \<Longrightarrow> b = (c (rule_key r) < MaxConcurrent r)"
      using checkOne_live [OF Cons.prems(1,2) _ True, of "hd ts"] Cons.prems(3) by auto
    then show ?thesis
      using Cons.IH [OF b(2,3), of "tl ts"] Cons.prems(3) True by (auto simp: concurrent_def)
  next
    case False
    then have "\<not> concurrent r" by (auto simp: active_def concurrent_def)
    then show ?thesis using Cons.IH [OF Cons.prems(1,2), of "tl ts"] Cons.prems(3) False by auto
  qed
qed simp

lemma acquireOne_live:
  assumes l: "live s" and ok: "counters_ok rules c (view s)" and r: "r \<in> set rules" "active r"
    and small: "c (rule_key r) + 1 < 2 ^ 63"
  obtains s' where "acquireOne R now r s = (None, s')" "live s'"
    "counters_ok rules (\<lambda>k. c k + (if concurrent r \<and> rule_key r = k then 1 else 0)) (view s')"
proof (cases "Dimension r = DimConcurrent")
  case True
  note k = counters_ok_get(1) [OF ok r True]
  have conc: "concurrent r" using r(2) True by (rule active_concurrent)
  let ?n = "c (rule_key r) + 1"
  have i: "fst (r_incr R (rule_key r) s) = Inr ?n" "live (snd (r_incr R (rule_key r) s))"
    "view (snd (r_incr R (rule_key r) s)) = (view s)(rule_key r \<mapsto> (RStr (itoa ?n), ttl_of (view s) (rule_key r)))"
    using incr_law [OF l conjunct1 [OF k]] small by simp_all
  then obtain s1 where s1: "r_incr R (rule_key r) s = (Inr ?n, s1)" "live s1"
    "view s1 = (view s)(rule_key r \<mapsto> (RStr (itoa ?n), ttl_of (view s) (rule_key r)))"
    by (metis prod.collapse)
  have c': "(\<lambda>k. c k + (if concurrent r \<and> rule_key r = k then 1 else 0)) = c(rule_key r := ?n)"
    using conc by auto
  have ok1: "counters_ok rules (c(rule_key r := ?n)) (view s1)"
    using counters_ok_counter [OF ok r(1) conc] k small by (simp add: s1(3))
  define s2 where "s2 = snd (r_expire R (rule_key r) concurrentTTL s1)"
  have s2: "r_expire R (rule_key r) concurrentTTL s1 = (Inr (), s2)" "live s2"
    "counters_ok rules (c(rule_key r := ?n)) (view s2)"
    using expire_law [OF s1(2), of concurrentTTL "rule_key r"] ok1
    by (simp_all add: s2_def concurrentTTL_def counters_ok_expire prod_eq_iff)
  have a: "acquireOne R now r s = (None, if ?n = 1 then s2 else s1)"
  proof -
    have "redisKey DimConcurrent (Key r) = rule_key r" using True by (simp add: rule_key_def)
    then show ?thesis using s1(1) s2(1) True by (simp add: acquireOne_def Let_def)
  qed
  show ?thesis
    using that [OF a] s1(2) s2(2,3) ok1 c' by (cases "?n = 1") simp_all
next
  case False
  have c': "(\<lambda>k. c k + (if concurrent r \<and> rule_key r = k then 1 else 0)) = c"
    using False by (auto simp: concurrent_def)
  obtain z where z: "zset_at (view s) (rule_key r) = Some z" using counters_ok_get(2) [OF ok r False] by blast
  obtain n s1 where s1: "r_zremrangebyscore R (rule_key r) 0 (now - minute) s = (Inr n, s1)" "live s1"
    "view s1 = put_zset (rule_key r) (zrem (dbl 0) (dbl (now - minute)) z) (ttl_of (view s) (rule_key r)) (view s)"
    using zrem_law [OF l z, of 0 "now - minute"] by (metis prod.collapse)
  have ok1: "counters_ok rules c (view s1)" using counters_ok_zset [OF ok r(1) False] by (simp add: s1(3))
  have z1: "zset_at (view s1) (rule_key r) = Some (zrem (dbl 0) (dbl (now - minute)) z)" by (simp add: s1(3))
  obtain b s2 where s2: "r_zadd R (rule_key r) now (itoa now) s1 = (Inr b, s2)" "live s2"
    "view s2 = put_zset (rule_key r) (zput (itoa now) (dbl now) (zrem (dbl 0) (dbl (now - minute)) z)) (ttl_of (view s1) (rule_key r)) (view s1)"
    using zadd_law [OF s1(2) z1, of now "itoa now"] by (metis prod.collapse)
  have ok2: "counters_ok rules c (view s2)" using counters_ok_zset [OF ok1 r(1) False] by (simp add: s2(3))
  define s3 where "s3 = snd (r_expire R (rule_key r) slidingWindowTTL s2)"
  have s3: "r_expire R (rule_key r) slidingWindowTTL s2 = (Inr (), s3)" "live s3" "counters_ok rules c (view s3)"
    using expire_law [OF s2(2), of slidingWindowTTL "rule_key r"] ok2
    by (simp_all add: s3_def slidingWindowTTL_def counters_ok_expire prod_eq_iff)
  show ?thesis
    using that [of s3] s1(1) s2(1) s3 False c' by (simp add: acquireOne_def rule_key_def Let_def)
qed

lemma acquire_loop_live:
  assumes "live s" "counters_ok rules c (view s)" "set rs \<subseteq> set rules" "\<forall>k. c k + int (length rs) < 2 ^ 63"
  shows "live (acquire_loop R ts before rs s) \<and>
    counters_ok rules (\<lambda>k. c k + uses rs k) (view (acquire_loop R ts before rs s))"
  using assms
proof (induction rs arbitrary: s ts c before)
  case (Cons r rs)
  show ?case
  proof (cases "active r")
    case True
    let ?c = "\<lambda>k. c k + (if concurrent r \<and> rule_key r = k then 1 else 0)"
    have "c (rule_key r) + 1 < 2 ^ 63" using Cons.prems(4) [rule_format, of "rule_key r"] by simp
    then obtain s' where s': "acquireOne R (hd ts) r s = (None, s')" "live s'" "counters_ok rules ?c (view s')"
      using acquireOne_live [OF Cons.prems(1,2) _ True, of "hd ts"] Cons.prems(3) by auto
    have "?c k + int (length rs) < 2 ^ 63" for k using Cons.prems(4) [rule_format, of k] by simp
    then show ?thesis
      using Cons.IH [OF s'(2,3), of "tl ts" "before @ [r]"] Cons.prems(3) True s'(1) by (simp add: add.assoc)
  next
    case False
    then have "\<not> concurrent r" by (auto simp: active_def concurrent_def)
    moreover have "c k + int (length rs) < 2 ^ 63" for k using Cons.prems(4) [rule_format, of k] by simp
    ultimately show ?thesis
      using Cons.IH [OF Cons.prems(1,2), of "tl ts" "before @ [r]"] Cons.prems(3) False by simp
  qed
qed simp

lemma release_loop_live:
  assumes "live s" "counters_ok rules c (view s)" "set rs \<subseteq> set rules"
    and "\<forall>k. uses rs k \<le> c k" "\<forall>k. c k < 2 ^ 63"
  shows "live (release_loop R rs s) \<and> counters_ok rules (\<lambda>k. c k - uses rs k) (view (release_loop R rs s))"
  using assms
proof (induction rs arbitrary: s c)
  case (Cons r rs)
  show ?case
  proof (cases "concurrent r")
    case True
    let ?n = "c (rule_key r) - 1"
    have r: "r \<in> set rules" "active r" "Dimension r = DimConcurrent"
      using True Cons.prems(3) by (auto simp: concurrent_def active_def)
    note k = counters_ok_get(1) [OF Cons.prems(2) r]
    have n: "0 \<le> ?n" using Cons.prems(4) [rule_format, of "rule_key r"] True uses_nonneg [of rs "rule_key r"] by simp
    have "- (2 ^ 63) < c (rule_key r)" using k by auto
    then obtain s1 where s1: "r_decr R (rule_key r) s = (Inr ?n, s1)" "live s1"
      "view s1 = (view s)(rule_key r \<mapsto> (RStr (itoa ?n), ttl_of (view s) (rule_key r)))"
      using decr_law [OF Cons.prems(1) conjunct1 [OF k]] by (metis prod.collapse)
    have lt: "?n < 2 ^ 63" using Cons.prems(5) [rule_format, of "rule_key r"] by simp
    have ok: "counters_ok rules (c(rule_key r := ?n)) (view s1)"
      using counters_ok_counter [OF Cons.prems(2) r(1) True n lt] by (simp add: s1(3))
    have "uses rs k \<le> (c(rule_key r := ?n)) k" for k using Cons.prems(4) [rule_format, of k] True by auto
    moreover have "(c(rule_key r := ?n)) k < 2 ^ 63" for k using Cons.prems(5) lt by simp
    moreover have "(\<lambda>k. (c(rule_key r := ?n)) k - uses rs k) = (\<lambda>k. c k - uses (r # rs) k)" using True by auto
    moreover have "redisKey DimConcurrent (Key r) = rule_key r" using r(3) by (simp add: rule_key_def)
    ultimately show ?thesis
      using Cons.IH [OF s1(2) ok] Cons.prems(3) r(3) True s1(1) n by (simp add: Let_def concurrent_def)
  next
    case False
    then show ?thesis using Cons.IH [OF Cons.prems(1,2)] Cons.prems(3-) by (auto simp: concurrent_def)
  qed
qed simp

end

subsection \<open>Properties\<close>



text \<open>C29: on a reachable server whose limiter keys are in order, a \<open>Release\<close> after a successful
  \<open>Acquire\<close> of the same rules puts every in-flight counter back to where it was.\<close>

theorem acquire_release_balanced:
  assumes "redis_server R view live dbl" and "live s" and "counters_ok rules c (view s)"
    and "\<forall>k. 0 \<le> c k \<and> c k + int (length rules) < 2 ^ 63"
    and "ml_Acquire (Some R) ts1 ts2 rules s = ((True, None), s1)" and "r \<in> set rules" "concurrent r"
  shows "counter_at (view s1) (rule_key r) = Some (c (rule_key r) + uses rules (rule_key r)) \<and>
    counter_at (view (ml_Release (Some R) rules s1)) (rule_key r) = Some (c (rule_key r))"
proof -
  define s0 where "s0 = snd (check_loop R ts1 rules s)"
  have s0: "live s0" "counters_ok rules c (view s0)" "s1 = acquire_loop R ts2 [] rules s0"
    using redis_server.check_loop_live [OF assms(1-3) subset_refl, of ts1] assms(5)
    by (auto simp: s0_def ml_Acquire_def Check_def split: prod.splits option.splits)
  have s1: "live s1" "counters_ok rules (\<lambda>k. c k + uses rules k) (view s1)"
    using redis_server.acquire_loop_live [OF assms(1) s0(1,2) subset_refl, of ts2 "[]"] assms(4) s0(3) by auto
  have "uses rules k \<le> int (length rules)" for k by (simp add: uses_def)
  then have "c k + uses rules k < 2 ^ 63" for k using assms(4) by (meson add_left_mono le_less_trans)
  then have "counters_ok rules (\<lambda>k. c k + uses rules k - uses rules k) (view (release_loop R rules s1))"
    using redis_server.release_loop_live [OF assms(1) s1 subset_refl] assms(4) by simp
  moreover have "active r" "Dimension r = DimConcurrent" using assms(7) by (auto simp: concurrent_def active_def)
  ultimately show ?thesis
    using counters_ok_get(1) [OF s1(2) assms(6)] counters_ok_get(1) [OF _ assms(6)]
    by (simp add: ml_Release_def)
qed

abbreviation login_rule :: Rule where
  "login_rule \<equiv> \<lparr>Dimension = DimConcurrent, Key = ''/login/login'', PerMinute = 0, MaxConcurrent = 1\<rparr>"

lemma login_rule_ok: "counters_ok [login_rule] (\<lambda>_. 0) (mem_view mem_empty)" "concurrent login_rule"
  by (simp_all add: counters_ok_def rule_ok_def concurrent_def known_dim_def active_def)

theorem acquire_release_witness:
  "counter_at (mem_view (ml_Release (Some mem_redis) [login_rule]
     (snd (ml_Acquire (Some mem_redis) [5] [5] [login_rule] mem_empty)))) (rule_key login_rule) = Some 0"
proof -
  have "fst (ml_Acquire (Some mem_redis) [5] [5] [login_rule] mem_empty) = (True, None)" by code_simp
  then obtain s1 where s1: "ml_Acquire (Some mem_redis) [5] [5] [login_rule] mem_empty = ((True, None), s1)"
    by (metis prod.collapse)
  show ?thesis
    using acquire_release_balanced [OF memr.redis_server_axioms _ login_rule_ok(1) _ s1, of login_rule] login_rule_ok(2)
    by (simp add: s1)
qed



text \<open>The check and the increments are separate round trips, so overlapping calls can exceed the
  limit: with \<open>MaxConcurrent = 1\<close>, two clients that both check before either increments both get in
  and the counter reads 2.\<close>

theorem acquire_not_atomic:
  "let (d1, s1) = Check (Some mem_redis) [5] [login_rule] mem_empty;
       (d2, s2) = Check (Some mem_redis) [6] [login_rule] s1;
       s3 = acquire_loop mem_redis [7] [] [login_rule] s2;
       s4 = acquire_loop mem_redis [8] [] [login_rule] s3
   in d1 = None \<and> d2 = None \<and> counter_at (mem_view s4) (rule_key login_rule) = Some 2"
  by code_simp

text \<open>A Redis outage never blocks traffic: when the server answers every command with an error, both
  limiters let every request through.\<close>

theorem limiters_fail_open:
  assumes "\<forall>k s. isl (fst (r_get R k s))" "\<forall>k lo hi s. isl (fst (r_zremrangebyscore R k lo hi s))"
    and "\<forall>k s. isl (fst (r_zcard R k s))"
  shows "fst (Allow (Some (NewLimiter (Some R) n pre)) now ident s) \<and>
    fst (ml_Acquire (Some R) ts1 ts2 rules s) = (True, None)"
proof -
  have "\<exists>e. fst (checkOne R t r s) = Inl e" for t r s
    using assms by (auto simp: checkOne_def Let_def case_prod_beta isl_def split: sum.splits) (metis sum.simps(4))+
  then have one: "case fst (checkOne R t r s) of Inl _ \<Rightarrow> True | Inr _ \<Rightarrow> False" for t r s
    by (metis sum.simps(5))
  have "fst (check_loop R ts1 rules s) = None"
  proof (induction rules arbitrary: ts1)
    case (Cons r rules)
    then show ?case using one [of "hd ts1" r s] by (auto simp: case_prod_beta split: sum.splits)
  qed simp
  moreover have "fst (Allow (Some l) now ident s)" if l: "lim_rdb l = Some R" for l
  proof -
    obtain e where "fst (r_zcard R (rl_key l ident) (snd (r_zremrangebyscore R (rl_key l ident) 0 (now - lim_window l) s))) = Inl e"
      using assms(3) by (meson isl_def)
    then show ?thesis by (simp add: Allow_def l Let_def case_prod_beta)
  qed
  ultimately show ?thesis by (simp add: NewLimiter_def ml_Acquire_def Check_def case_prod_beta split: option.splits)
qed

theorem limiters_fail_open_witness:
  "fst (ml_Acquire (Some (mem_redis\<lparr>r_get := \<lambda>k s. (Inl mem_down, s), r_zcard := \<lambda>k s. (Inl mem_down, s),
      r_zremrangebyscore := \<lambda>k lo hi s. (Inl mem_down, s)\<rparr>)) [5] [5] [login_rule] mem_empty) = (True, None)"
proof -
  let ?R = "mem_redis\<lparr>r_get := \<lambda>k s. (Inl mem_down, s), r_zcard := \<lambda>k s. (Inl mem_down, s),
      r_zremrangebyscore := \<lambda>k lo hi s. (Inl mem_down, s)\<rparr>"
  show ?thesis using limiters_fail_open [of ?R] by simp
qed

end
