(* ===== verification/Md5.thy ===== *)
theory Md5
  imports GoText
begin

text \<open>
  MD5 (\<open>crypto/md5\<close>), as RFC 1321 defines it, executable on bytes; \<open>Password\<close> builds on it.
\<close>

definition md5_K :: "32 word list" where
  "md5_K =
     [0xd76aa478, 0xe8c7b756, 0x242070db, 0xc1bdceee, 0xf57c0faf, 0x4787c62a, 0xa8304613, 0xfd469501,
      0x698098d8, 0x8b44f7af, 0xffff5bb1, 0x895cd7be, 0x6b901122, 0xfd987193, 0xa679438e, 0x49b40821,
      0xf61e2562, 0xc040b340, 0x265e5a51, 0xe9b6c7aa, 0xd62f105d, 0x02441453, 0xd8a1e681, 0xe7d3fbc8,
      0x21e1cde6, 0xc33707d6, 0xf4d50d87, 0x455a14ed, 0xa9e3e905, 0xfcefa3f8, 0x676f02d9, 0x8d2a4c8a,
      0xfffa3942, 0x8771f681, 0x6d9d6122, 0xfde5380c, 0xa4beea44, 0x4bdecfa9, 0xf6bb4b60, 0xbebfbc70,
      0x289b7ec6, 0xeaa127fa, 0xd4ef3085, 0x04881d05, 0xd9d4d039, 0xe6db99e5, 0x1fa27cf8, 0xc4ac5665,
      0xf4292244, 0x432aff97, 0xab9423a7, 0xfc93a039, 0x655b59c3, 0x8f0ccc92, 0xffeff47d, 0x85845dd1,
      0x6fa87e4f, 0xfe2ce6e0, 0xa3014314, 0x4e0811a1, 0xf7537e82, 0xbd3af235, 0x2ad7d2bb, 0xeb86d391]"

definition md5_S :: "nat list" where
  "md5_S =
     [7, 12, 17, 22, 7, 12, 17, 22, 7, 12, 17, 22, 7, 12, 17, 22,
      5, 9, 14, 20, 5, 9, 14, 20, 5, 9, 14, 20, 5, 9, 14, 20,
      4, 11, 16, 23, 4, 11, 16, 23, 4, 11, 16, 23, 4, 11, 16, 23,
      6, 10, 15, 21, 6, 10, 15, 21, 6, 10, 15, 21, 6, 10, 15, 21]"

definition rotl32 :: "nat \<Rightarrow> 32 word \<Rightarrow> 32 word" where
  "rotl32 n w = push_bit n w OR drop_bit (32 - n) w"

type_synonym md5_state = "32 word \<times> 32 word \<times> 32 word \<times> 32 word"

text \<open>The mixing function and the message word of step \<open>i\<close>.\<close>

definition md5_F :: "nat \<Rightarrow> 32 word \<Rightarrow> 32 word \<Rightarrow> 32 word \<Rightarrow> 32 word" where
  "md5_F i b c d =
     (if i < 16 then (b AND c) OR (NOT b AND d)
      else if i < 32 then (d AND b) OR (NOT d AND c)
      else if i < 48 then b XOR c XOR d
      else c XOR (b OR NOT d))"

definition md5_g :: "nat \<Rightarrow> nat" where
  "md5_g i =
     (if i < 16 then i else if i < 32 then (5 * i + 1) mod 16
      else if i < 48 then (3 * i + 5) mod 16 else (7 * i) mod 16)"

definition md5_step :: "32 word list \<Rightarrow> nat \<times> 32 word \<times> nat \<Rightarrow> md5_state \<Rightarrow> md5_state" where
  "md5_step M iks st =
     (case iks of (i, k, r) \<Rightarrow> case st of (a, b, c, d) \<Rightarrow>
        (let f = md5_F i b c d + a + k + M ! md5_g i in (d, b + rotl32 r f, b, c)))"

definition md5_block :: "32 word list \<Rightarrow> md5_state \<Rightarrow> md5_state" where
  "md5_block M st =
     (case fold (md5_step M) (zip [0..<64] (zip md5_K md5_S)) st of (a, b, c, d) \<Rightarrow>
        case st of (a0, b0, c0, d0) \<Rightarrow> (a0 + a, b0 + b, c0 + c, d0 + d))"

text \<open>Little-endian conversions.\<close>

definition le32 :: "bytes \<Rightarrow> 32 word" where
  "le32 b = ucast (b ! 0) OR push_bit 8 (ucast (b ! 1)) OR push_bit 16 (ucast (b ! 2)) OR push_bit 24 (ucast (b ! 3))"

definition put_le32 :: "32 word \<Rightarrow> bytes" where
  "put_le32 w = [ucast w, ucast (drop_bit 8 w), ucast (drop_bit 16 w), ucast (drop_bit 24 w)]"

definition md5_pad :: "bytes \<Rightarrow> bytes" where
  "md5_pad m =
     (let n = length m; z = (119 - n mod 64) mod 64; bits = (of_nat (8 * n) :: 64 word) in
      m @ [0x80] @ replicate z 0 @ put_le32 (ucast bits) @ put_le32 (ucast (drop_bit 32 bits)))"

function md5_chunks :: "bytes \<Rightarrow> md5_state \<Rightarrow> md5_state" where
  "md5_chunks m st =
     (if length m < 64 then st
      else md5_chunks (drop 64 m) (md5_block (map (\<lambda>i. le32 (take 4 (drop (4 * i) m))) [0..<16]) st))"
  by pat_completeness auto
termination by (relation "measure (length \<circ> fst)") auto

declare md5_chunks.simps [simp del]

definition md5_Sum :: "bytes \<Rightarrow> bytes" where
  "md5_Sum m =
     (case md5_chunks (md5_pad m) (0x67452301, 0xefcdab89, 0x98badcfe, 0x10325476) of (a, b, c, d) \<Rightarrow>
        put_le32 a @ put_le32 b @ put_le32 c @ put_le32 d)"

lemma length_md5_Sum [simp]: "length (md5_Sum m) = 16"
  by (simp add: md5_Sum_def put_le32_def split: prod.splits)

lemma length_md5_pad: "length (md5_pad m) mod 64 = 0"
proof -
  have z: "(119 - n mod 64) mod 64 = (if n mod 64 < 56 then 55 - n mod 64 else 119 - n mod 64)" for n :: nat
  proof (cases "n mod 64 < 56")
    case True
    then have "119 - n mod 64 = 64 + (55 - n mod 64)" by simp
    then have "(119 - n mod 64) mod 64 = (64 + (55 - n mod 64)) mod 64" by (rule arg_cong)
    also have "\<dots> = (55 - n mod 64) mod 64" by (rule mod_add_self1)
    also have "\<dots> = 55 - n mod 64" by (rule mod_less) simp
    finally show ?thesis using True by simp
  next
    case False
    have "119 - n mod 64 < 64" using False by simp
    then show ?thesis using False by simp
  qed
  define x q where "x = length m mod 64" and "q = length m div 64"
  have n: "length m = 64 * q + x" and x: "x < 64" by (simp_all add: x_def q_def)
  have "length (md5_pad m) = length m + 9 + (119 - x) mod 64"
    by (simp add: md5_pad_def Let_def put_le32_def x_def)
  also have "\<dots> = 64 * q + (if x < 56 then 64 else 128)"
    using z [of "length m", folded x_def] n x by simp
  finally show ?thesis by simp
qed

end
