(* ===== verification/Password.thy ===== *)
theory Password
  imports Md5
begin

text \<open>
  Password hashing (\<open>common/auth/pwd.go\<close>): the client sends the MD5 of the password, the database
  stores the MD5 of that digest followed by a random salt.
\<close>

definition PwdTypeMD5 :: int where "PwdTypeMD5 = 2"

datatype pwd_error = ErrUnsupportedPwdType | ErrEmptyPassword | ErrRand

definition MD5Hex :: "string \<Rightarrow> string" where
  "MD5Hex s = hex_EncodeToString (md5_Sum (bytes_of s))"

definition ClientPassword :: "string \<Rightarrow> int \<Rightarrow> pwd_error + string" where
  "ClientPassword plain pwdType =
     (if pwdType \<noteq> PwdTypeMD5 then Inl ErrUnsupportedPwdType
      else if plain = [] then Inl ErrEmptyPassword
      else Inr (MD5Hex plain))"

definition DBPassword :: "string \<Rightarrow> string \<Rightarrow> string" where
  "DBPassword clientMd5 salt = MD5Hex (clientMd5 @ salt)"

definition RandomSalt :: "rng \<Rightarrow> (pwd_error + string) \<times> rng" where
  "RandomSalt t =
     (case rand_read 32 t of
        (None, t1) \<Rightarrow> (Inl ErrRand, t1)
      | (Some raw, t1) \<Rightarrow> (Inr (base64_EncodeToString raw), t1))"

text \<open>The stored hash and the salt.\<close>

definition HashPassword :: "string \<Rightarrow> rng \<Rightarrow> (pwd_error + string \<times> string) \<times> rng" where
  "HashPassword plainMd5 t =
     (if plainMd5 = [] then (Inl ErrEmptyPassword, t)
      else (case RandomSalt t of
              (Inl e, t1) \<Rightarrow> (Inl e, t1)
            | (Inr salt, t1) \<Rightarrow> (Inr (DBPassword plainMd5 salt, salt), t1)))"

text \<open>\<open>subtle.ConstantTimeCompare\<close>: 1 for equal contents, 0 otherwise, looking at every byte.\<close>

definition ConstantTimeCompare :: "bytes \<Rightarrow> bytes \<Rightarrow> int" where
  "ConstantTimeCompare x y =
     (if length x \<noteq> length y then 0
      else if foldl (\<lambda>v (a, b). v OR (a XOR b)) 0 (zip x y) = 0 then 1 else 0)"

definition VerifyPassword :: "string \<Rightarrow> string \<Rightarrow> string \<Rightarrow> bool" where
  "VerifyPassword plainMd5 storedHash salt =
     (if plainMd5 = [] \<or> storedHash = [] then False
      else ConstantTimeCompare (bytes_of (DBPassword plainMd5 salt)) (bytes_of storedHash) = 1)"

lemma or_xor_fold_zero:
  "foldl (\<lambda>v (a, b). v OR (a XOR b)) v ps = (0 :: byte) \<longleftrightarrow> v = 0 \<and> (\<forall>(a, b) \<in> set ps. a = b)"
proof (induction ps arbitrary: v)
  case (Cons p ps)
  show ?case using Cons.IH or_xor_eq_0 [of v "fst p" "snd p"] by (auto simp: case_prod_beta)
qed simp

lemma ConstantTimeCompare_iff: "ConstantTimeCompare x y = 1 \<longleftrightarrow> x = y"
proof (cases "length x = length y")
  case True
  then have "(\<forall>(a, b) \<in> set (zip x y). a = b) \<longleftrightarrow> x = y"
    by (simp add: list_eq_iff_zip_eq case_prod_beta)
  then show ?thesis using True by (simp add: ConstantTimeCompare_def or_xor_fold_zero)
qed (auto simp: ConstantTimeCompare_def)

lemma bytes_of_inject [simp]: "bytes_of a = bytes_of b \<longleftrightarrow> a = b"
  by (metis string_of_bytes_of)

lemma length_MD5Hex [simp]: "length (MD5Hex s) = 32"
  by (simp add: MD5Hex_def)

lemma MD5Hex_ne [simp]: "MD5Hex s \<noteq> []"
  using length_MD5Hex [of s] by (metis list.size(3) zero_neq_numeral)

lemma VerifyPassword_iff:
  "VerifyPassword p h salt \<longleftrightarrow> p \<noteq> [] \<and> h = DBPassword p salt"
  using MD5Hex_ne [of "p @ salt", symmetric] by (auto simp: VerifyPassword_def ConstantTimeCompare_iff DBPassword_def)

text \<open>C27: a stored password verifies exactly the password it was made from, up to MD5 collisions: the
  salt is 44 characters from 32 fresh random bytes, and \<open>VerifyPassword\<close> accepts a client digest iff
  it is not empty and hashes with the salt to the stored value.\<close>

theorem HashPassword_VerifyPassword:
  assumes "HashPassword p t = (Inr (h, salt), t')"
  shows "VerifyPassword p h salt \<and> (\<forall>q. VerifyPassword q h salt \<longleftrightarrow> q \<noteq> [] \<and> MD5Hex (q @ salt) = MD5Hex (p @ salt)) \<and>
    length salt = 44 \<and> length h = 32 \<and> t = take 32 t @ t'"
proof -
  have p: "p \<noteq> []" and h: "h = DBPassword p salt"
    and r: "32 \<le> length t" "salt = base64_EncodeToString (take 32 t)" "t' = drop 32 t"
    using assms by (auto simp: HashPassword_def RandomSalt_def rand_read_def split: if_splits)
  have "length salt = 44" using r by (simp add: length_base64)
  then show ?thesis using p h r by (auto simp: VerifyPassword_iff DBPassword_def)
qed

lemma MD5Hex_vector: "MD5Hex ''qwe123'' = ''200820e3227815ed1756a6b531e7e0d2''"
  by code_simp

theorem HashPassword_witness:
  "VerifyPassword ''200820e3227815ed1756a6b531e7e0d2''
     (fst (projr (fst (HashPassword (MD5Hex ''qwe123'') (replicate 32 7))))) (base64_EncodeToString (replicate 32 7))"
proof -
  have "HashPassword (MD5Hex ''qwe123'') (replicate 32 7) =
     (Inr (DBPassword (MD5Hex ''qwe123'') (base64_EncodeToString (replicate 32 7)), base64_EncodeToString (replicate 32 7)), [])"
    by (simp add: HashPassword_def RandomSalt_def rand_read_def)
  from HashPassword_VerifyPassword [OF this] this show ?thesis by (simp add: MD5Hex_vector)
qed

end
