(* ===== verification/CallBase.thy ===== *)
theory CallBase
  imports ServiceCtx GoType RateLimit Password
begin

text \<open>
  What the handlers of \<open>cmd/rpc/internal/logic/call.go\<close> share: result codes and messages, the effects on
  the service's state, the database token, the mapping of errors, phone and country-code checks.

  A handler returns \<open>None\<close> when it gives no answer (it waits for a token the runtime never hands out, or it
  panics), and otherwise its reply (raw result, code, message) with the state afterwards.
\<close>

section \<open>Codes and messages\<close>

definition CodeOK :: int where "CodeOK = 200"
definition CodeLoginRequired :: int where "CodeLoginRequired = 100"
definition CodeGuestReauth :: int where "CodeGuestReauth = 101"
definition CodeBusinessError :: int where "CodeBusinessError = 400"
definition CodeAccountNotFound :: int where "CodeAccountNotFound = 4101"
definition CodePasswordWrong :: int where "CodePasswordWrong = 4102"
definition CodeUserBanned :: int where "CodeUserBanned = 4103"
definition CodePhoneAlreadyReg :: int where "CodePhoneAlreadyReg = 4104"
definition CodeLoginLocked :: int where "CodeLoginLocked = 4105"
definition CodeSmsCheckFailed :: int where "CodeSmsCheckFailed = 4106"
definition CodeRateLimited :: int where "CodeRateLimited = 4113"
definition CodePhoneInvalid :: int where "CodePhoneInvalid = 4114"
definition CodeNickNameBanned :: int where "CodeNickNameBanned = 4131"
definition CodeKaptchaInvalid :: int where "CodeKaptchaInvalid = 4120"
definition CodeSensitiveWord :: int where "CodeSensitiveWord = 1002"

lemmas code_defs = CodeOK_def CodeLoginRequired_def CodeGuestReauth_def CodeBusinessError_def CodeAccountNotFound_def
  CodePasswordWrong_def CodeUserBanned_def CodePhoneAlreadyReg_def CodeLoginLocked_def CodeSmsCheckFailed_def
  CodeRateLimited_def CodePhoneInvalid_def CodeNickNameBanned_def CodeKaptchaInvalid_def CodeSensitiveWord_def

text \<open>The messages, as code points of their UTF-8 text.\<close>

definition m_login_failed :: string where "m_login_failed = utf8 [0x767B, 0x5F55, 0x5931, 0x8D25]"  \<comment> \<open>login failed\<close>
definition m_phone_format :: string where "m_phone_format = utf8 [0x624B, 0x673A, 0x53F7, 0x7801, 0x683C, 0x5F0F, 0x9519, 0x8BEF]"  \<comment> \<open>malformed phone number\<close>
definition m_degraded_login :: string where "m_degraded_login = utf8 [0x670D, 0x52A1, 0x964D, 0x7EA7, 0x4E2D, 0xFF0C, 0x767B, 0x5F55, 0x6682, 0x4E0D, 0x53EF, 0x7528]"  \<comment> \<open>degraded, login unavailable\<close>
definition m_too_often :: string where "m_too_often = utf8 [0x64CD, 0x4F5C, 0x8FC7, 0x4E8E, 0x9891, 0x7E41, 0xFF0C, 0x8BF7, 0x7A0D, 0x540E, 0x518D, 0x8BD5]"  \<comment> \<open>too many requests\<close>
definition m_locked :: string where "m_locked = utf8 [0x8D26, 0x53F7, 0x5DF2, 0x9501, 0x5B9A, 0xFF0C, 0x8BF7, 0x33, 0x30, 0x5206, 0x949F, 0x540E, 0x518D, 0x8BD5]"  \<comment> \<open>account locked for 30 minutes\<close>
definition m_busy :: string where "m_busy = utf8 [0x670D, 0x52A1, 0x7E41, 0x5FD9, 0xFF0C, 0x8BF7, 0x7A0D, 0x540E, 0x518D, 0x8BD5]"  \<comment> \<open>busy\<close>
definition m_not_registered :: string where "m_not_registered = utf8 [0x8D26, 0x53F7, 0x672A, 0x6CE8, 0x518C]"  \<comment> \<open>account not registered\<close>
definition m_wrong_password :: string where "m_wrong_password = utf8 [0x5BC6, 0x7801, 0x9519, 0x8BEF]"  \<comment> \<open>wrong password\<close>
definition m_banned :: string where "m_banned = utf8 [0x8D26, 0x53F7, 0x5DF2, 0x5C01, 0x7981]"  \<comment> \<open>account banned\<close>
definition m_degraded :: string where "m_degraded = utf8 [0x670D, 0x52A1, 0x964D, 0x7EA7, 0x4E2D, 0xFF0C, 0x8BF7, 0x7A0D, 0x540E, 0x518D, 0x8BD5]"  \<comment> \<open>degraded\<close>
definition m_unavailable :: string where "m_unavailable = utf8 [0x670D, 0x52A1, 0x6682, 0x65F6, 0x4E0D, 0x53EF, 0x7528, 0xFF0C, 0x8BF7, 0x7A0D, 0x540E, 0x518D, 0x8BD5]"  \<comment> \<open>temporarily unavailable\<close>
definition m_register_failed :: string where "m_register_failed = utf8 [0x6CE8, 0x518C, 0x5931, 0x8D25]"  \<comment> \<open>registration failed\<close>
definition m_nick_short :: string where "m_nick_short = utf8 [0x6635, 0x79F0, 0x81F3, 0x5C11, 0x32, 0x4E2A, 0x5B57, 0x7B26]"  \<comment> \<open>nickname of at least two characters\<close>
definition m_degraded_register :: string where "m_degraded_register = utf8 [0x670D, 0x52A1, 0x964D, 0x7EA7, 0x4E2D, 0xFF0C, 0x6CE8, 0x518C, 0x6682, 0x4E0D, 0x53EF, 0x7528, 0xFF0C, 0x8BF7, 0x7A0D, 0x540E, 0x518D, 0x8BD5]"  \<comment> \<open>degraded, registration unavailable\<close>
definition m_sms_wrong :: string where "m_sms_wrong = utf8 [0x9A8C, 0x8BC1, 0x7801, 0x9519, 0x8BEF]"  \<comment> \<open>wrong code\<close>
definition m_kaptcha_wrong :: string where "m_kaptcha_wrong = utf8 [0x56FE, 0x5F62, 0x9A8C, 0x8BC1, 0x7801, 0x9519, 0x8BEF]"  \<comment> \<open>wrong captcha\<close>
definition m_retry :: string where "m_retry = utf8 [0x6CE8, 0x518C, 0x5931, 0x8D25, 0x8BF7, 0x91CD, 0x8BD5]"  \<comment> \<open>registration failed, retry\<close>
definition m_phone_taken :: string where "m_phone_taken = utf8 [0x624B, 0x673A, 0x53F7, 0x7801, 0x5DF2, 0x88AB, 0x6CE8, 0x518C]"  \<comment> \<open>phone number already registered\<close>
definition m_degraded_logout :: string where "m_degraded_logout = utf8 [0x670D, 0x52A1, 0x964D, 0x7EA7, 0x4E2D, 0xFF0C, 0x767B, 0x51FA, 0x6682, 0x4E0D, 0x53EF, 0x7528]"  \<comment> \<open>degraded, logout unavailable\<close>
definition m_degraded_user :: string where "m_degraded_user = utf8 [0x670D, 0x52A1, 0x964D, 0x7EA7, 0x4E2D, 0xFF0C, 0x7528, 0x6237, 0x4FE1, 0x606F, 0x6682, 0x4E0D, 0x53EF, 0x7528]"  \<comment> \<open>degraded, user information unavailable\<close>
definition m_degraded_sms :: string where "m_degraded_sms = utf8 [0x670D, 0x52A1, 0x964D, 0x7EA7, 0x4E2D, 0xFF0C, 0x9A8C, 0x8BC1, 0x7801, 0x6682, 0x4E0D, 0x53EF, 0x7528]"  \<comment> \<open>degraded, codes unavailable\<close>
definition m_sms_cooldown :: string where "m_sms_cooldown = utf8 [0x9A8C, 0x8BC1, 0x7801, 0x53D1, 0x9001, 0x8FC7, 0x9891, 0xFF0C, 0x8BF7, 0x36, 0x30, 0x79D2, 0x540E, 0x518D, 0x8BD5]"  \<comment> \<open>codes sent too often\<close>
definition m_sms_limit :: string where "m_sms_limit = utf8 [0x9A8C, 0x8BC1, 0x7801, 0x53D1, 0x9001, 0x6B21, 0x6570, 0x5DF2, 0x8FBE, 0x4E0A, 0x9650]"  \<comment> \<open>hourly limit reached\<close>

section \<open>Environment and effects\<close>

text \<open>Errors a database section can end with.\<close>

datatype call_error = CModel model_error | CCanceled | CDeadline | CPwd pwd_error | CText string

text \<open>What the environment decides during a call: the readings of the clock in nanoseconds (by call site),
  the outcome of each wait for a token, the local wall clock, the latency the metrics see, a load of the same key in flight,
  the texts of errors raised by the driver, the random source and the JSON package, simple folding beyond ASCII, and the
  parameters of the builders.\<close>

record env =
  ev_clk :: "nat \<Rightarrow> int"
  ev_sel :: "nat \<Rightarrow> call_error select_outcome"
  ev_wall :: int
  ev_lat :: int
  ev_flight :: "string \<Rightarrow> (sql_error + json anyval) option"
  ev_text :: "sql_error \<Rightarrow> string"
  ev_rand :: string
  ev_json :: string
  ev_feq :: "nat \<Rightarrow> nat \<Rightarrow> bool"
  ev_P :: params

type_synonym reply = "string option \<times> int \<times> string"

abbreviation w_redis :: "('r, 'l, 'b, 'd) world \<Rightarrow> 'r" where "w_redis w \<equiv> ms_redis (w_ms w)"
abbreviation w_dgr :: "('r, 'l, 'b, 'd) world \<Rightarrow> Manager" where "w_dgr w \<equiv> ms_dgr (w_ms w)"

definition put_redis :: "'r \<Rightarrow> ('r, 'l, 'b, 'd) world \<Rightarrow> ('r, 'l, 'b, 'd) world" where
  "put_redis r w = w\<lparr>w_ms := (w_ms w)\<lparr>ms_redis := r\<rparr>\<rparr>"

definition put_dgr :: "Manager \<Rightarrow> ('r, 'l, 'b, 'd) world \<Rightarrow> ('r, 'l, 'b, 'd) world" where
  "put_dgr g w = w\<lparr>w_ms := (w_ms w)\<lparr>ms_dgr := g\<rparr>\<rparr>"

definition on_redis :: "('r \<Rightarrow> 'x \<times> 'r) \<Rightarrow> ('r, 'l, 'b, 'd) world \<Rightarrow> 'x \<times> ('r, 'l, 'b, 'd) world" where
  "on_redis f w = (case f (w_redis w) of (x, r) \<Rightarrow> (x, put_redis r w))"

definition on_redis_rng :: "('r \<times> rng \<Rightarrow> 'x \<times> 'r \<times> rng) \<Rightarrow> ('r, 'l, 'b, 'd) world \<Rightarrow> 'x \<times> ('r, 'l, 'b, 'd) world" where
  "on_redis_rng f w = (case f (w_redis w, w_rng w) of (x, r, t) \<Rightarrow> (x, (put_redis r w)\<lparr>w_rng := t\<rparr>))"

definition on_db :: "('d \<Rightarrow> 'x \<times> 'd) \<Rightarrow> ('r, 'l, 'b, 'd) world \<Rightarrow> 'x \<times> ('r, 'l, 'b, 'd) world" where
  "on_db f w = (case f (w_db w) of (x, d) \<Rightarrow> (x, w\<lparr>w_db := d\<rparr>))"

lemma put_simps [simp]:
  "w_redis (put_redis r w) = r" "w_db (put_redis r w) = w_db w" "w_dgr (put_redis r w) = w_dgr w" "w_sem (put_redis r w) = w_sem w"
  "w_rng (put_redis r w) = w_rng w" "w_redis (put_dgr g w) = w_redis w" "w_db (put_dgr g w) = w_db w" "w_dgr (put_dgr g w) = g"
  "w_sem (put_dgr g w) = w_sem w" "w_rng (put_dgr g w) = w_rng w"
  by (simp_all add: put_redis_def put_dgr_def)

section \<open>The database token\<close>

text \<open>\<open>DBSem.WithToken\<close> around a closure that assigns a result or returns an error.\<close>

definition with_token ::
  "call_error select_outcome \<Rightarrow> (('r, 'l, 'b, 'd) world \<Rightarrow> (call_error + 'x) \<times> ('r, 'l, 'b, 'd) world) \<Rightarrow> ('r, 'l, 'b, 'd) world \<Rightarrow>
   ((call_error + 'x) \<times> ('r, 'l, 'b, 'd) world) option" where
  "with_token sel body w =
     (case WithToken (w_sem w) sel
             (\<lambda>so (w, _). case body w of
                (Inl e, w') \<Rightarrow> (Returned (Some e), so, w', None)
              | (Inr x, w') \<Rightarrow> (Returned None, so, w', Some x)) (w, None) of
        Some (Returned (Some e), so, w', _) \<Rightarrow> Some (Inl e, w'\<lparr>w_sem := so\<rparr>)
      | Some (Returned None, so, w', Some x) \<Rightarrow> Some (Inr x, w'\<lparr>w_sem := so\<rparr>)
      | _ \<Rightarrow> None)"

definition recordDBErrorForDegrade :: "('r, 'l, 'b, 'd) world \<Rightarrow> ('r, 'l, 'b, 'd) world" where
  "recordDBErrorForDegrade w =
     (if mgr_Mode (w_dgr w) = ModeNormal then put_dgr (snd (PromoteIfWorse ModeDegraded (w_dgr w))) w else w)"

definition is_ctx :: "call_error \<Rightarrow> bool" where
  "is_ctx e \<longleftrightarrow> e \<in> {CCanceled, CDeadline, CModel (ErrSql ErrCanceled), CModel (ErrSql ErrDeadlineExceeded)}"

fun call_error_text :: "env \<Rightarrow> call_error \<Rightarrow> string" where
  "call_error_text E (CModel ErrNotFound) = ''record not found''"
| "call_error_text E (CModel ErrDuplicate) = ''duplicate record''"
| "call_error_text E (CModel (ErrSql e)) = ev_text E e"
| "call_error_text E CCanceled = ''context canceled''"
| "call_error_text E CDeadline = ''context deadline exceeded''"
| "call_error_text E (CPwd ErrUnsupportedPwdType) = ''auth: pwd_type=1 is unsupported; use pwd_type=2''"
| "call_error_text E (CPwd ErrEmptyPassword) = ''auth: empty password''"
| "call_error_text E (CPwd ErrRand) = ev_rand E"
| "call_error_text E (CText s) = s"

text \<open>\<open>dbWithSem\<close>: the result of the section, or the error with the code and message to answer.\<close>

definition dbWithSem ::
  "env \<Rightarrow> nat \<Rightarrow> (('r, 'l, 'b, 'd) world \<Rightarrow> (call_error + 'x) \<times> ('r, 'l, 'b, 'd) world) \<Rightarrow> ('r, 'l, 'b, 'd) world \<Rightarrow>
   ((call_error \<times> int \<times> string + 'x) \<times> ('r, 'l, 'b, 'd) world) option" where
  "dbWithSem E i body w =
     (case with_token (ev_sel E i) body w of
        None \<Rightarrow> None
      | Some (Inr x, w') \<Rightarrow> Some (Inr x, w')
      | Some (Inl e, w') \<Rightarrow>
          Some (Inl (e, CodeBusinessError, if is_ctx e then m_busy else call_error_text E e), recordDBErrorForDegrade w'))"

definition find_by_phone ::
  "('r, 'l, 'b, 'd) service \<Rightarrow> string \<Rightarrow> string \<Rightarrow> ('r, 'l, 'b, 'd) world \<Rightarrow> (model_error + User) \<times> ('r, 'l, 'b, 'd) world" where
  "find_by_phone v cc phone = on_db (user_FindByPhone (sv_D v) (sv_sc v) cc phone)"

definition find_by_uid ::
  "('r, 'l, 'b, 'd) service \<Rightarrow> int \<Rightarrow> ('r, 'l, 'b, 'd) world \<Rightarrow> (model_error + User) \<times> ('r, 'l, 'b, 'd) world" where
  "find_by_uid v uid = on_db (user_FindByUid (sv_D v) (sv_sc v) uid)"

text \<open>A closure that returns the model's error.\<close>

definition failing :: "(model_error + 'x) \<times> 'w \<Rightarrow> (call_error + 'x) \<times> 'w" where
  "failing r = (case r of (Inl e, w) \<Rightarrow> (Inl (CModel e), w) | (Inr x, w) \<Rightarrow> (Inr x, w))"

section \<open>Mapping of errors\<close>

fun cache_error_text :: "env \<Rightarrow> cache_error \<Rightarrow> string" where
  "cache_error_text E ErrDegradeClosed = ''cache: degrade mode closed for this level''"
| "cache_error_text E ErrCircuitOpen = ''cache: circuit breaker open and no fallback''"
| "cache_error_text E ErrServiceUnavailable = ''circuit breaker is open''"
| "cache_error_text E ErrFamilyEmpty = ''cache: family is empty''"
| "cache_error_text E ErrUnmarshal = ''cache: unmarshal: '' @ ev_json E"
| "cache_error_text E ErrUnmarshalT = ''cache: unmarshal to T: '' @ ev_json E"
| "cache_error_text E (ErrLoad e) = ev_text E e"

definition handleCacheError :: "env \<Rightarrow> cache_error \<Rightarrow> int \<times> string" where
  "handleCacheError E err =
     (if err = ErrDegradeClosed then (CodeRateLimited, m_degraded)
      else if err = ErrCircuitOpen then (CodeBusinessError, m_unavailable)
      else (CodeBusinessError, cache_error_text E err))"

fun sess_error_text :: "env \<Rightarrow> sess_error \<Rightarrow> string" where
  "sess_error_text E ErrSessionNotFound = ''auth: session not found''"
| "sess_error_text E ErrRefreshDenied = ''auth: refresh denied (guest or expired)''"
| "sess_error_text E ErrUserBanned = ''auth: user banned''"
| "sess_error_text E ErrRedisUnavailable = ''auth: redis unavailable''"
| "sess_error_text E (ErrSetSess e) = ''auth: set sess: '' @ e"
| "sess_error_text E (ErrSetRefresh e) = ''auth: set refresh: '' @ e"
| "sess_error_text E ErrRandom = ev_rand E"

section \<open>Phone numbers and country codes\<close>

definition normalizeCC :: "string \<Rightarrow> string" where
  "normalizeCC cc = trim_prefix (TrimSpace cc) ''+''"

text \<open>\<open>^[35789][0-9]{8}$\<close>.\<close>

definition vnPhoneRe :: "string \<Rightarrow> bool" where
  "vnPhoneRe s \<longleftrightarrow> length s = 9 \<and> hd s \<in> {CHR ''3'', CHR ''5'', CHR ''7'', CHR ''8'', CHR ''9''} \<and> list_all is_digit (tl s)"

definition validatePhone :: "string \<Rightarrow> string \<Rightarrow> bool" where
  "validatePhone cc0 phone0 =
     (let phone = TrimSpace phone0; cc = normalizeCC cc0
      in if phone = [] then False
         else if cc = ''86'' then (if length phone \<noteq> 11 \<or> hd phone \<noteq> CHR ''1'' then False else list_all is_digit phone)
         else if cc = ''84'' then vnPhoneRe phone
         else (if length phone < 5 then False else list_all is_digit phone))"

text \<open>\<open>strconv.Atoi\<close> with its error dropped: the value is 0 on a syntax error and the nearest bound when the
  number is out of range.\<close>

definition atoi_value :: "string \<Rightarrow> int" where
  "atoi_value s =
     (case parse_int s of
        Some i \<Rightarrow> i
      | None \<Rightarrow>
          (let ds = (if has_prefix s ''-'' \<or> has_prefix s ''+'' then tl s else s)
           in if ds \<noteq> [] \<and> list_all is_digit ds then (if has_prefix s ''-'' then - (2 ^ 63) else 2 ^ 63 - 1) else 0))"

section \<open>Requests\<close>

record CallReq =
  cr_Method :: string
  cr_ParamJson :: string
  cr_SessionId :: string
  cr_Seq :: int

record loginReq =
  lq_AccountType :: int
  lq_CountryCode :: string
  lq_Phone :: string
  lq_LoginMode :: int
  lq_LoginType :: int
  lq_Password :: string
  lq_PwdType :: int
  lq_Plat :: int

record registerReq =
  rq_AccountType :: int
  rq_CountryCode :: string
  rq_Phone :: string
  rq_SmsType :: int
  rq_SmsCode :: string
  rq_Password :: string
  rq_NickName :: string
  rq_Icon :: string
  rq_PwdType :: int
  rq_Kaptcha :: string
  rq_Plat :: int

record smsReq =
  sq_CountryCode :: string
  sq_Phone :: string
  sq_Type :: int

record smsCheckReq = smsReq +
  sq_SmsCode :: string

definition zero_login :: loginReq where
  "zero_login = \<lparr>lq_AccountType = 0, lq_CountryCode = [], lq_Phone = [], lq_LoginMode = 0, lq_LoginType = 0, lq_Password = [],
     lq_PwdType = 0, lq_Plat = 0\<rparr>"

definition login_fields :: "loginReq field list" where
  "login_fields =
     [(''accountType'', dec_int (\<lambda>x s. s\<lparr>lq_AccountType := x\<rparr>)), (''countryCode'', dec_string (\<lambda>x s. s\<lparr>lq_CountryCode := x\<rparr>)),
      (''phone'', dec_string (\<lambda>x s. s\<lparr>lq_Phone := x\<rparr>)), (''loginMode'', dec_int (\<lambda>x s. s\<lparr>lq_LoginMode := x\<rparr>)),
      (''loginType'', dec_int (\<lambda>x s. s\<lparr>lq_LoginType := x\<rparr>)), (''password'', dec_string (\<lambda>x s. s\<lparr>lq_Password := x\<rparr>)),
      (''pwdType'', dec_int (\<lambda>x s. s\<lparr>lq_PwdType := x\<rparr>)), (''plat'', dec_int (\<lambda>x s. s\<lparr>lq_Plat := x\<rparr>))]"

definition zero_register :: registerReq where
  "zero_register = \<lparr>rq_AccountType = 0, rq_CountryCode = [], rq_Phone = [], rq_SmsType = 0, rq_SmsCode = [], rq_Password = [],
     rq_NickName = [], rq_Icon = [], rq_PwdType = 0, rq_Kaptcha = [], rq_Plat = 0\<rparr>"

definition register_fields :: "registerReq field list" where
  "register_fields =
     [(''accountType'', dec_int (\<lambda>x s. s\<lparr>rq_AccountType := x\<rparr>)), (''countryCode'', dec_string (\<lambda>x s. s\<lparr>rq_CountryCode := x\<rparr>)),
      (''phone'', dec_string (\<lambda>x s. s\<lparr>rq_Phone := x\<rparr>)), (''smsType'', dec_int (\<lambda>x s. s\<lparr>rq_SmsType := x\<rparr>)),
      (''smsCode'', dec_string (\<lambda>x s. s\<lparr>rq_SmsCode := x\<rparr>)), (''password'', dec_string (\<lambda>x s. s\<lparr>rq_Password := x\<rparr>)),
      (''nickName'', dec_string (\<lambda>x s. s\<lparr>rq_NickName := x\<rparr>)), (''icon'', dec_string (\<lambda>x s. s\<lparr>rq_Icon := x\<rparr>)),
      (''pwdType'', dec_int (\<lambda>x s. s\<lparr>rq_PwdType := x\<rparr>)), (''kaptcha'', dec_string (\<lambda>x s. s\<lparr>rq_Kaptcha := x\<rparr>)),
      (''plat'', dec_int (\<lambda>x s. s\<lparr>rq_Plat := x\<rparr>))]"

definition zero_sms :: smsReq where
  "zero_sms = \<lparr>sq_CountryCode = [], sq_Phone = [], sq_Type = 0\<rparr>"

definition sms_fields :: "smsReq field list" where
  "sms_fields =
     [(''countryCode'', dec_string (\<lambda>x s. s\<lparr>sq_CountryCode := x\<rparr>)), (''phone'', dec_string (\<lambda>x s. s\<lparr>sq_Phone := x\<rparr>)),
      (''type'', dec_int (\<lambda>x s. s\<lparr>sq_Type := x\<rparr>))]"

definition zero_sms_check :: smsCheckReq where
  "zero_sms_check = \<lparr>sq_CountryCode = [], sq_Phone = [], sq_Type = 0, sq_SmsCode = []\<rparr>"

definition sms_check_fields :: "smsCheckReq field list" where
  "sms_check_fields =
     [(''countryCode'', dec_string (\<lambda>x s. s\<lparr>sq_CountryCode := x\<rparr>)), (''phone'', dec_string (\<lambda>x s. s\<lparr>sq_Phone := x\<rparr>)),
      (''type'', dec_int (\<lambda>x s. s\<lparr>sq_Type := x\<rparr>)), (''smsCode'', dec_string (\<lambda>x s. s\<lparr>sq_SmsCode := x\<rparr>))]"

text \<open>Requests with one member that matters.  \<open>json.Unmarshal\<close> fills the fields that decode even when it
  fails.\<close>

definition one_string :: "string \<Rightarrow> string \<Rightarrow> bool \<times> string" where
  "one_string name text = unmarshal_struct [(name, dec_string (\<lambda>x s. x))] text []"

definition one_int :: "string \<Rightarrow> string \<Rightarrow> bool \<times> int" where
  "one_int name text = unmarshal_struct [(name, dec_int (\<lambda>x s. x))] text 0"

end
