(* ===== verification/CallAuth.thy ===== *)
theory CallAuth
  imports CallBase
begin

text \<open>
  The authentication handlers of \<open>cmd/rpc/internal/logic/call.go\<close>: login, registration, guest login, refresh,
  logout, user detail and SMS codes.  Clock readings of a call, by index: 0 the rate limiter, 1 the issued session,
  2 the inserted row, 3 to 5 the session store's \<open>Get\<close> and \<open>Refresh\<close>.
\<close>

type_synonym ('r, 'l, 'b, 'd) handler =
  "env \<Rightarrow> ('r, 'l, 'b, 'd) service \<Rightarrow> CallReq \<Rightarrow> ('r, 'l, 'b, 'd) world \<Rightarrow> (reply \<times> ('r, 'l, 'b, 'd) world) option"

abbreviation failure :: "int \<Rightarrow> string \<Rightarrow> 'w \<Rightarrow> (reply \<times> 'w) option" where
  "failure code meg w \<equiv> Some ((None, code, meg), w)"

abbreviation success :: "json \<Rightarrow> 'w \<Rightarrow> (reply \<times> 'w) option" where
  "success j w \<equiv> Some ((Some (jsonBytes j), CodeOK, []), w)"

abbreviation r_do :: "('r \<Rightarrow> 'x \<times> 'r) \<Rightarrow> ('r, 'l, 'b, 'd) world \<Rightarrow> ('r, 'l, 'b, 'd) world" where
  "r_do f w \<equiv> snd (on_redis f w)"

text \<open>The value of a \<open>Get\<close> whose error is dropped.\<close>

definition get_or_empty :: "string + string \<Rightarrow> string" where
  "get_or_empty r = (case r of Inr v \<Rightarrow> v | Inl _ \<Rightarrow> [])"

definition failKey :: "string \<Rightarrow> string \<Rightarrow> string" where "failKey cc phone = ''yuyan:login:fail:'' @ cc @ '':'' @ phone"
definition lockKey :: "string \<Rightarrow> string \<Rightarrow> string" where "lockKey cc phone = ''yuyan:login:lock:'' @ cc @ '':'' @ phone"
definition idemKey :: "string \<Rightarrow> string \<Rightarrow> string" where "idemKey cc phone = ''yuyan:reg:idem:'' @ cc @ '':'' @ phone"
definition kaptchaKey :: "string \<Rightarrow> string" where "kaptchaKey phone = ''yuyan:kaptcha:'' @ phone"

definition buildAuthResponse ::
  "('r, 'l, 'b, 'd) service \<Rightarrow> Session \<Rightarrow> User \<Rightarrow> ('r, 'l, 'b, 'd) world \<Rightarrow> AuthResponse \<times> ('r, 'l, 'b, 'd) world" where
  "buildAuthResponse v sess u w =
     (let ccInt = atoi_value (trim_prefix (us_CountryCode u) ''+'');
          (info, w1) = on_db (BuildUserInfo (sv_D v) (sv_sc v) u) w
      in (\<lparr>av_AccessToken = AccessToken sess, av_SessionID = AccessToken sess, av_RefreshToken = RefreshToken sess,
           av_UserInfo = info, av_Phone = us_Phone u, av_CountryCode = ccInt, av_LoginName = us_LoginName u\<rparr>, w1))"

definition recordLoginFail :: "('r, 'l, 'b, 'd) service \<Rightarrow> string \<Rightarrow> string \<Rightarrow> ('r, 'l, 'b, 'd) world \<Rightarrow> ('r, 'l, 'b, 'd) world" where
  "recordLoginFail v cc phone w =
     (case on_redis (r_incr (sv_rdb v) (failKey cc phone)) w of
        (Inl _, w1) \<Rightarrow> w1
      | (Inr cnt, w1) \<Rightarrow>
          (let w2 = (if cnt = 1 then r_do (r_expire (sv_rdb v) (failKey cc phone) (15 * 60)) w1 else w1)
           in if cnt \<ge> 10
              then r_do (r_del (sv_rdb v) [failKey cc phone]) (r_do (r_setex (sv_rdb v) (lockKey cc phone) ''1'' (30 * 60)) w2)
              else w2))"

definition login_limiter :: "('r, 'l, 'b, 'd) service \<Rightarrow> 'r Limiter option" where
  "login_limiter v = Some (NewLimiter (Some (sv_rdb v)) 10 ''yuyan:ratelimit:login'')"

text \<open>From the verified password to the answer of \<open>handleLogin\<close>.\<close>

definition finish_login ::
  "env \<Rightarrow> ('r, 'l, 'b, 'd) service \<Rightarrow> string \<Rightarrow> loginReq \<Rightarrow> User \<Rightarrow> ('r, 'l, 'b, 'd) world \<Rightarrow> (reply \<times> ('r, 'l, 'b, 'd) world) option" where
  "finish_login E v cc req u w =
     (if us_PwdType u \<noteq> PwdTypeMD5
      then failure CodePasswordWrong m_wrong_password (recordLoginFail v cc (lq_Phone req) w)
      else if \<not> VerifyPassword (lq_Password req) (us_Password u) (us_Salt u)
      then failure CodePasswordWrong m_wrong_password (recordLoginFail v cc (lq_Phone req) w)
      else if us_Status u \<noteq> 1 then failure CodeUserBanned m_banned w
      else (let w1 = r_do (r_del (sv_rdb v) [failKey cc (lq_Phone req)]) w
            in case on_redis_rng (IssueUser (sv_sessions v) (ev_clk E 1) (us_UID u) (us_NickName u) (us_Icon u)
                                    (us_UserType u) (lq_Plat req)) w1 of
                 (Inl e, w2) \<Rightarrow> failure CodeBusinessError (''issue session: '' @ sess_error_text E e) w2
               | (Inr sess, w2) \<Rightarrow>
                   (case buildAuthResponse v sess u w2 of (resp, w3) \<Rightarrow> success (auth_response_json resp) w3)))"

definition handleLogin :: "('r, 'l, 'b, 'd) handler" where
  "handleLogin E v inp w =
     (case unmarshal_struct login_fields (cr_ParamJson inp) zero_login of (err, req) \<Rightarrow>
        if err then failure CodeBusinessError ''invalid request'' w
        else if lq_AccountType req = 0 \<or> lq_LoginMode req \<noteq> 1 \<or> lq_LoginType req \<noteq> 1 \<or> lq_Phone req = []
        then failure CodeBusinessError m_login_failed w
        else if lq_PwdType req \<noteq> PwdTypeMD5
        then failure CodeBusinessError ''pwd_type 1 is unsupported; use pwd_type=2'' w
        else (let cc = normalizeCC (lq_CountryCode req); phone = lq_Phone req
              in if \<not> validatePhone cc phone then failure CodePhoneInvalid m_phone_format w
                 else if \<not> CanServeLevel (w_dgr w) LevelAuth then failure CodeRateLimited m_degraded_login w
                 else (case on_redis (Allow (login_limiter v) (ev_clk E 0) (cc @ '':'' @ phone)) w of (allowed, w1) \<Rightarrow>
                         if \<not> allowed then failure CodeRateLimited m_too_often w1
                         else (case on_redis (r_get (sv_rdb v) (lockKey cc phone)) w1 of (locked, w2) \<Rightarrow>
                                 if get_or_empty locked \<noteq> [] then failure CodeLoginLocked m_locked w2
                                 else (case with_token (ev_sel E 0) (\<lambda>w. failing (find_by_phone v cc phone w)) w2 of
                                         None \<Rightarrow> None
                                       | Some (Inl e, w3) \<Rightarrow>
                                           if is_ctx e then failure CodeBusinessError m_busy (recordDBErrorForDegrade w3)
                                           else if e = CModel ErrNotFound then failure CodeAccountNotFound m_not_registered w3
                                           else failure CodeBusinessError (call_error_text E e) (recordDBErrorForDegrade w3)
                                       | Some (Inr u, w3) \<Rightarrow> finish_login E v cc req u w3)))))"

text \<open>The critical section of \<open>handleRegister\<close>: duplicate check, uid, hash, insert.\<close>

definition new_user :: "registerReq \<Rightarrow> string \<Rightarrow> int \<Rightarrow> string \<Rightarrow> string \<Rightarrow> User" where
  "new_user req cc uid stored salt =
     \<lparr>us_UID = uid, us_LoginName = rq_Phone req, us_NickName = rq_NickName req, us_Phone = rq_Phone req, us_CountryCode = cc,
      us_Password = stored, us_Salt = salt, us_PwdType = PwdTypeMD5, us_UserType = 1, us_Score = 0, us_Grow = 0, us_Status = 1,
      us_Icon = rq_Icon req, us_Gender = 0, us_Birthday = None, us_Plat = wrap32 (rq_Plat req), us_CreatedAt = 0, us_UpdatedAt = 0\<rparr>"

definition alloc_uid :: "('r, 'l, 'b, 'd) service \<Rightarrow> ('r, 'l, 'b, 'd) world \<Rightarrow> int \<times> ('r, 'l, 'b, 'd) world" where
  "alloc_uid v w =
     (case AllocUID (Some (sv_rdb v)) (sv_D v) (sv_sc v) (w_redis w, w_db w) of (uid, r, d) \<Rightarrow> (uid, (put_redis r w)\<lparr>w_db := d\<rparr>))"

definition register_section ::
  "env \<Rightarrow> ('r, 'l, 'b, 'd) service \<Rightarrow> registerReq \<Rightarrow> string \<Rightarrow> ('r, 'l, 'b, 'd) world \<Rightarrow> (call_error + User) \<times> ('r, 'l, 'b, 'd) world" where
  "register_section E v req cc w =
     (case find_by_phone v cc (rq_Phone req) w of
        (Inr _, w1) \<Rightarrow> (Inl (CModel ErrDuplicate), w1)
      | (Inl _, w1) \<Rightarrow>
          (case alloc_uid v w1 of (uid, w2) \<Rightarrow>
             (case HashPassword (rq_Password req) (w_rng w2) of
                (Inl e, t) \<Rightarrow> (Inl (CPwd e), w2\<lparr>w_rng := t\<rparr>)
              | (Inr (stored, salt), t) \<Rightarrow>
                  (case on_db (user_Insert (sv_D v) (sv_sc v) (ev_clk E 2 div 1000000000) (new_user req cc uid stored salt))
                          (w2\<lparr>w_rng := t\<rparr>) of
                     ((None, u), w3) \<Rightarrow> (Inr u, w3)
                   | ((Some e, u), w3) \<Rightarrow> (Inl (if e = ErrDuplicate then CText m_retry else CModel e), w3)))))"

definition finish_register ::
  "env \<Rightarrow> ('r, 'l, 'b, 'd) service \<Rightarrow> string \<Rightarrow> registerReq \<Rightarrow> User \<Rightarrow> ('r, 'l, 'b, 'd) world \<Rightarrow> (reply \<times> ('r, 'l, 'b, 'd) world) option" where
  "finish_register E v cc req u w =
     (case on_redis_rng (IssueUser (sv_sessions v) (ev_clk E 1) (us_UID u) (us_NickName u) (us_Icon u)
                           (us_UserType u) (rq_Plat req)) w of
        (Inl e, w1) \<Rightarrow> failure CodeBusinessError (''issue session: '' @ sess_error_text E e) w1
      | (Inr sess, w1) \<Rightarrow>
          (case buildAuthResponse v sess u w1 of (resp, w2) \<Rightarrow>
             success (auth_response_json resp)
               (r_do (r_setex (sv_rdb v) (idemKey cc (rq_Phone req)) (jsonBytes (auth_response_json resp)) 60) w2)))"

definition handleRegister :: "('r, 'l, 'b, 'd) handler" where
  "handleRegister E v inp w =
     (case unmarshal_struct register_fields (cr_ParamJson inp) zero_register of (err, req) \<Rightarrow>
        if err then failure CodeBusinessError ''invalid request'' w
        else if rq_AccountType req \<noteq> 1 \<or> rq_Phone req = [] \<or> rq_NickName req = [] \<or> rq_PwdType req \<noteq> PwdTypeMD5
        then failure CodeBusinessError m_register_failed w
        else if RuneCountInString (rq_NickName req) < 2 then failure CodeBusinessError m_nick_short w
        else (let cc = normalizeCC (rq_CountryCode req); phone = rq_Phone req
              in if \<not> validatePhone cc phone then failure CodePhoneInvalid m_phone_format w
                 else if \<not> CanServeLevel (w_dgr w) LevelWrite then failure CodeRateLimited m_degraded_register w
                 else (case on_redis (r_get (sv_rdb v) (idemKey cc phone)) w of (cached, w1) \<Rightarrow>
                   if get_or_empty cached \<noteq> [] then Some ((Some (get_or_empty cached), CodeOK, []), w1)
                   else (case on_redis (Verify (sv_sms v) cc phone 1 (rq_SmsCode req)) w1 of (smsOK, w2) \<Rightarrow>
                     if \<not> smsOK then failure CodeSmsCheckFailed m_sms_wrong w2
                     else (case on_redis (r_get (sv_rdb v) (kaptchaKey phone)) w2 of (stored, w3) \<Rightarrow>
                       (let w4 = r_do (r_del (sv_rdb v) [kaptchaKey phone]) w3
                        in if \<not> EqualFold (ev_feq E) (TrimSpace (get_or_empty stored)) (TrimSpace (rq_Kaptcha req))
                           then failure CodeKaptchaInvalid m_kaptcha_wrong w4
                           else (case with_token (ev_sel E 0) (register_section E v req cc) w4 of
                                   None \<Rightarrow> None
                                 | Some (Inl e, w5) \<Rightarrow>
                                     if e = CModel ErrDuplicate then failure CodePhoneAlreadyReg m_phone_taken w5
                                     else if is_ctx e then failure CodeBusinessError m_busy (recordDBErrorForDegrade w5)
                                     else failure CodeBusinessError (call_error_text E e) (recordDBErrorForDegrade w5)
                                 | Some (Inr u, w5) \<Rightarrow> finish_register E v cc req u w5)))))))"

definition handleGuestLogin :: "('r, 'l, 'b, 'd) handler" where
  "handleGuestLogin E v inp w =
     (let plat = snd (one_int ''plat'' (cr_ParamJson inp));
          plat = (if plat = 0 then 4 else plat)
      in if \<not> CanServeLevel (w_dgr w) LevelAuth then failure CodeRateLimited m_degraded_login w
         else (case on_redis_rng (IssueGuest (sv_sessions v) (ev_clk E 1) plat) w of
                 (Inl e, w1) \<Rightarrow> failure CodeBusinessError (''issue guest: '' @ sess_error_text E e) w1
               | (Inr sess, w1) \<Rightarrow>
                   success (auth_response_json
                     \<lparr>av_AccessToken = AccessToken sess, av_SessionID = AccessToken sess, av_RefreshToken = [],
                      av_UserInfo = zero_userinfo\<lparr>ui_UID := 0, ui_NickName := NickName sess, ui_Gender := 3, ui_UserType := 1\<rparr>,
                      av_Phone = [], av_CountryCode = 0, av_LoginName = []\<rparr>) w1))"

text \<open>The callback that \<open>handleRefresh\<close> gives to \<open>Sessions.Refresh\<close> works on the rest of the state; \<open>None\<close>
  there records that the callback never returned.\<close>

definition statusFn ::
  "env \<Rightarrow> ('r, 'l, 'b, 'd) service \<Rightarrow> int \<Rightarrow> ('r, 'l, 'b, 'd) world option \<Rightarrow> (call_error + int) \<times> ('r, 'l, 'b, 'd) world option" where
  "statusFn E v uid wo =
     (case wo of
        None \<Rightarrow> (Inl CCanceled, None)
      | Some w \<Rightarrow>
          (case dbWithSem E 0 (\<lambda>w. failing (find_by_uid v uid w)) w of
             None \<Rightarrow> (Inl CCanceled, None)
           | Some (Inl (e, _, _), w1) \<Rightarrow> (Inl e, Some w1)
           | Some (Inr u, w1) \<Rightarrow> (Inr (us_Status u), Some w1)))"

definition handleRefresh :: "('r, 'l, 'b, 'd) handler" where
  "handleRefresh E v inp w =
     (case one_string ''refreshToken'' (cr_ParamJson inp) of (err, tok) \<Rightarrow>
        if err then failure CodeBusinessError ''invalid request'' w
        else if \<not> CanServeLevel (w_dgr w) LevelAuth then failure CodeRateLimited m_degraded_login w
        else (case Refresh (sv_sessions v) (ev_clk E 3) (ev_clk E 4) (ev_clk E 5) tok (Some (statusFn E v)) (w_redis w, w_rng w, Some w) of
                (r, s, t, None) \<Rightarrow> None
              | (r, s, t, Some w1) \<Rightarrow>
                  (let w2 = (put_redis s w1)\<lparr>w_rng := t\<rparr>
                   in case r of
                        Inl e \<Rightarrow> if e = ErrUserBanned then failure CodeUserBanned m_banned w2
                                 else failure CodeBusinessError ''refresh denied'' w2
                      | Inr sess \<Rightarrow>
                          (case dbWithSem E 1 (\<lambda>w. failing (find_by_uid v (UID sess) w)) w2 of
                             None \<Rightarrow> None
                           | Some (Inl (e, code, meg), w3) \<Rightarrow> failure code meg w3
                           | Some (Inr u, w3) \<Rightarrow>
                               (case buildAuthResponse v sess u w3 of (resp, w4) \<Rightarrow> success (auth_response_json resp) w4)))))"

definition handleLogout :: "('r, 'l, 'b, 'd) handler" where
  "handleLogout E v inp w =
     (if \<not> CanServeLevel (w_dgr w) LevelAuth then failure CodeRateLimited m_degraded_logout w
      else if cr_SessionId inp = [] then success (JObj []) w
      else success (JObj []) (put_redis (Revoke (sv_sessions v) (ev_clk E 3) (cr_SessionId inp) (w_redis w)) w))"

definition handleUserDetail :: "('r, 'l, 'b, 'd) handler" where
  "handleUserDetail E v inp w =
     (if cr_SessionId inp = [] then failure CodeLoginRequired ''login required'' w
      else if \<not> CanServeLevel (w_dgr w) LevelAuth then failure CodeRateLimited m_degraded_user w
      else (case on_redis (Get (sv_sessions v) (ev_clk E 3) (cr_SessionId inp)) w of
              (Inl _, w1) \<Rightarrow> failure CodeLoginRequired ''login required'' w1
            | (Inr sess, w1) \<Rightarrow>
                if IsGuest sess then failure CodeLoginRequired ''login required'' w1
                else (case dbWithSem E 0
                             (\<lambda>w. case find_by_uid v (UID sess) w of
                                (Inl e, w') \<Rightarrow> (Inl (CModel e), w')
                              | (Inr u, w') \<Rightarrow> (case on_db (BuildUserInfo (sv_D v) (sv_sc v) u) w' of (info, w'') \<Rightarrow> (Inr (u, info), w''))) w1 of
                        None \<Rightarrow> None
                      | Some (Inl (e, code, meg), w2) \<Rightarrow> failure code meg w2
                      | Some (Inr (u, info), w2) \<Rightarrow>
                          if us_Status u \<noteq> 1 then failure CodeUserBanned m_banned w2
                          else success (JObj [(''user'', userinfo_json info)]) w2)))"

definition cooldownKey :: "string \<Rightarrow> string \<Rightarrow> string" where
  "cooldownKey cc phone = ''yuyan:ratelimit:cooldown:sms:'' @ cc @ '':'' @ phone"

definition hourKey :: "string \<Rightarrow> string \<Rightarrow> string" where
  "hourKey cc phone = ''yuyan:ratelimit:sms:'' @ cc @ '':'' @ phone @ '':hour''"

text \<open>The register guard and the issue of \<open>handleSmsGetCode\<close>.\<close>

definition finish_sms ::
  "env \<Rightarrow> ('r, 'l, 'b, 'd) service \<Rightarrow> string \<Rightarrow> string \<Rightarrow> int \<Rightarrow> ('r, 'l, 'b, 'd) world \<Rightarrow> (reply \<times> ('r, 'l, 'b, 'd) world) option" where
  "finish_sms E v cc phone ty w =
     (let issue = (\<lambda>w. case on_redis_rng (Issue (sv_sms v) cc phone ty) w of
                      (Inl (SmsSet e), w1) \<Rightarrow> failure CodeBusinessError (''sms issue: sms: set: '' @ e) w1
                    | (Inl SmsNilPanic, w1) \<Rightarrow> None
                    | (Inr _, w1) \<Rightarrow> success (JObj []) w1)
      in if ty = 1 then
           (case dbWithSem E 0
                   (\<lambda>w. case find_by_phone v cc phone w of
                      (Inl e, w') \<Rightarrow> (if e = ErrNotFound then Inr None else Inl (CModel e), w')
                    | (Inr u, w') \<Rightarrow> (Inr (Some u), w')) w of
              None \<Rightarrow> None
            | Some (Inl (e, code, meg), w1) \<Rightarrow> failure code meg w1
            | Some (Inr (Some u), w1) \<Rightarrow> failure CodePhoneAlreadyReg m_phone_taken w1
            | Some (Inr None, w1) \<Rightarrow> issue w1)
         else issue w)"

definition handleSmsGetCode :: "('r, 'l, 'b, 'd) handler" where
  "handleSmsGetCode E v inp w =
     (case unmarshal_struct sms_fields (cr_ParamJson inp) zero_sms of (err, req) \<Rightarrow>
        if err then failure CodeBusinessError ''invalid request'' w
        else if sq_Phone req = [] then failure CodePhoneInvalid m_phone_format w
        else (let cc = normalizeCC (sq_CountryCode req); phone = sq_Phone req;
                  ty = (if sq_Type req = 0 then 1 else sq_Type req)
              in if \<not> validatePhone cc phone then failure CodePhoneInvalid m_phone_format w
                 else if \<not> CanServeLevel (w_dgr w) LevelAuth then failure CodeRateLimited m_degraded_sms w
                 else (case on_redis (r_setnxex (sv_rdb v) (cooldownKey cc phone) ''1'' 60) w of (won, w1) \<Rightarrow>
                   if won \<noteq> Inr True then failure CodeRateLimited m_sms_cooldown w1
                   else (case on_redis (r_incr (sv_rdb v) (hourKey cc phone)) w1 of (cnt, w2) \<Rightarrow>
                     (let w3 = (if cnt = Inr 1 then r_do (r_expire (sv_rdb v) (hourKey cc phone) 3600) w2 else w2);
                          n = (case cnt of Inr n \<Rightarrow> n | Inl _ \<Rightarrow> 0)
                      in if n > 10 then failure CodeRateLimited m_sms_limit w3
                         else finish_sms E v cc phone ty w3)))))"

definition handleSmsCheckCode :: "('r, 'l, 'b, 'd) handler" where
  "handleSmsCheckCode E v inp w =
     (case unmarshal_struct sms_check_fields (cr_ParamJson inp) zero_sms_check of (err, req) \<Rightarrow>
        if err then failure CodeBusinessError ''invalid request'' w
        else if \<not> CanServeLevel (w_dgr w) LevelAuth then failure CodeRateLimited m_degraded_sms w
        else (case on_redis (Verify (sv_sms v) (normalizeCC (sq_CountryCode req)) (sq_Phone req) (sq_Type req) (sq_SmsCode req)) w of
                (won, w1) \<Rightarrow> if \<not> won then failure CodeSmsCheckFailed m_sms_wrong w1 else success (JObj []) w1))"

end
