(* ===== verification/CallLogic.thy ===== *)
theory CallLogic
  imports CallAuth
begin

text \<open>
  The display handlers of \<open>cmd/rpc/internal/logic/call.go\<close>, which read through the cache manager, and the
  dispatcher \<open>Call\<close>.  A cached value of a Go type is represented by its JSON encoding; a nil slice or map is \<open>null\<close>.
\<close>

section \<open>Display handlers\<close>

text \<open>The migration pattern of the source: \<open>cache.GetOrLoadT\<close> at display level, an error mapped by
  \<open>handleCacheError\<close>, a value turned into the answer.\<close>

definition cached_answer ::
  "env \<Rightarrow> ('r, 'l, 'b, 'd) service \<Rightarrow> ty \<Rightarrow> string \<Rightarrow> string \<Rightarrow> int \<Rightarrow> 'd ldr \<Rightarrow> (json \<Rightarrow> reply) \<Rightarrow> ('r, 'l, 'b, 'd) world \<Rightarrow>
   (reply \<times> ('r, 'l, 'b, 'd) world) option" where
  "cached_answer E v t family key seconds loader answer w =
     (case GetOrLoadT (sv_mgr v) (go_type t) family key (seconds * 1000000000) LevelDisplay (ev_flight E) (ev_lat E) loader
             (w_ms w, w_db w) of
        (Inl e, s, d) \<Rightarrow> (case handleCacheError E e of (code, meg) \<Rightarrow> failure code meg (w\<lparr>w_ms := s, w_db := d\<rparr>))
      | (Inr j, s, d) \<Rightarrow> Some (answer j, w\<lparr>w_ms := s, w_db := d\<rparr>))"

definition plain_answer :: "json \<Rightarrow> reply" where
  "plain_answer j = (Some (jsonBytes j), CodeOK, [])"

definition found_answer :: "string \<Rightarrow> json \<Rightarrow> reply" where
  "found_answer meg j = (if j = JNull then (None, CodeBusinessError, meg) else plain_answer j)"

definition handleMatchesJSONP :: "('r, 'l, 'b, 'd) handler" where
  "handleMatchesJSONP E v inp =
     cached_answer E v (TMap (TSlice ty_MatchCatalogItem)) ''match'' ''catalog'' 60 (catalog_loader (ev_P E) (sv_D v) (sv_sc v)) plain_answer"

definition json_length :: "json \<Rightarrow> int" where
  "json_length j = (case j of JArr xs \<Rightarrow> int (length xs) | _ \<Rightarrow> 0)"

definition recommend_answer :: "json \<Rightarrow> reply" where
  "recommend_answer items = plain_answer (JObj [(''count'', jint (json_length items)), (''matches'', items), (''pageNum'', jint 1)])"

definition handleMatchRecommend :: "('r, 'l, 'b, 'd) handler" where
  "handleMatchRecommend E v inp =
     cached_answer E v (TSlice ty_MatchCatalogItem) ''match'' ''recommend'' 60 (recommend_loader (ev_P E) (sv_D v) (sv_sc v)) recommend_answer"

definition groupCatalogRowsPublic :: "params \<Rightarrow> MatchCatalogRow list \<Rightarrow> MatchCatalogItem list" where
  "groupCatalogRowsPublic P rows = GroupCatalogRows (pm_srt P) (pm_loc P) rows"

definition roomsToResultsPublic :: "LiveRoom list \<Rightarrow> RoomResult list" where
  "roomsToResultsPublic rooms = RoomsToResults rooms"

definition match_item :: "MatchCatalogItem \<Rightarrow> MatchItem" where
  "match_item m =
     \<lparr>mt_ScheduleID = mc_ScheduleID m, mt_MatchTime = mc_MatchTime m, mt_HostName = mc_HostName m, mt_GuestName = mc_GuestName m,
      mt_HostIcon = mc_HostIcon m, mt_GuestIcon = mc_GuestIcon m, mt_SubCateName = mc_SubCateName m, mt_CategoryIcon = mc_CategoryIcon m\<rparr>"

definition buildMatchDetailPayload :: "params \<Rightarrow> 'd sql_db \<Rightarrow> Schema \<Rightarrow> int \<Rightarrow> 'd ldr" where
  "buildMatchDetailPayload P D sc scheduleID d =
     (case ListCatalog D sc [1, 2, 5] 200 d of
        ((_, Some e), d1) \<Rightarrow> (Inl e, d1)
      | ((rows, None), d1) \<Rightarrow>
          (case find (\<lambda>m. mc_ScheduleID m = scheduleID) (groupCatalogRowsPublic P rows) of
             None \<Rightarrow> (Inr JNull, d1)
           | Some m \<Rightarrow>
               (case ListRoomsBySchedule D sc scheduleID 50 d1 of ((rooms, _), d2) \<Rightarrow>
                  (Inr (JObj [(''match'', match_item_json (match_item m)), (''rooms'', rooms_json (roomsToResultsPublic rooms))]), d2))))"

definition handleMatchDetail :: "('r, 'l, 'b, 'd) handler" where
  "handleMatchDetail E v inp w =
     (let sid = snd (one_int ''scheduleId'' (cr_ParamJson inp))
      in if sid = 0 then failure CodeBusinessError ''missing scheduleId'' w
         else cached_answer E v (TMap TAny) ''match'' (''detail:'' @ itoa sid) 60
                (buildMatchDetailPayload (ev_P E) (sv_D v) (sv_sc v) sid) (found_answer ''match not found'') w)"

definition handleMatchByDate :: "('r, 'l, 'b, 'd) handler" where
  "handleMatchByDate E v inp w =
     (let date = snd (one_string ''date'' (cr_ParamJson inp));
          date = (if date = [] then todayKey (ev_wall E) else date)
      in if length date \<noteq> 8 then failure CodeBusinessError ''date must be YYYYMMDD'' w
         else cached_answer E v (TSlice ty_MatchCatalogItem) ''match'' (''date:'' @ date) 60
                (date_loader (ev_P E) (sv_D v) (sv_sc v) date) plain_answer w)"

definition handleAllLiveRooms :: "('r, 'l, 'b, 'd) handler" where
  "handleAllLiveRooms E v inp =
     cached_answer E v (TMap TAny) ''live'' ''all'' 15 (rooms_loader (sv_D v) (sv_sc v)) plain_answer"

definition handleLiveTypes :: "('r, 'l, 'b, 'd) handler" where
  "handleLiveTypes E v inp =
     cached_answer E v (TSlice ty_LiveTypeJSON) ''live'' ''types'' 15 (load_types (sv_D v) (sv_sc v)) plain_answer"

text \<open>Loaders that answer with an empty list when the query fails.\<close>

definition room_list :: "string \<Rightarrow> ('d \<Rightarrow> (LiveRoom list \<times> sql_error option) \<times> 'd) \<Rightarrow> 'd ldr" where
  "room_list name q d =
     (case q d of ((rooms, err), d1) \<Rightarrow> (Inr (JObj [(name, rooms_json (if err \<noteq> None then [] else RoomsToResults rooms))]), d1))"

definition handleLiveCateList :: "('r, 'l, 'b, 'd) handler" where
  "handleLiveCateList E v inp w =
     (let tid = snd (one_int ''liveTypeId'' (cr_ParamJson inp))
      in if tid = 0 then failure CodeBusinessError ''missing liveTypeId'' w
         else cached_answer E v (TMap TAny) ''live'' (''listByType:'' @ itoa tid) 15
                (room_list ''rooms'' (ListByType (sv_D v) (sv_sc v) tid 50)) plain_answer w)"

definition handleLiveHot :: "('r, 'l, 'b, 'd) handler" where
  "handleLiveHot E v inp =
     cached_answer E v (TMap TAny) ''live'' ''hot'' 15 (room_list ''hot'' (ListHot (sv_D v) (sv_sc v) 50)) plain_answer"

definition detail_loader :: "'d sql_db \<Rightarrow> Schema \<Rightarrow> string \<Rightarrow> 'd ldr" where
  "detail_loader D sc roomNum d =
     (case BuildRoomDetail D sc roomNum d of
        (None, d1) \<Rightarrow> (Inr JNull, d1)
      | (Some p, d1) \<Rightarrow> (Inr (room_detail_map_json p), d1))"

definition handleLiveDetail :: "('r, 'l, 'b, 'd) handler" where
  "handleLiveDetail E v inp w =
     (let roomNum = snd (one_string ''roomNum'' (cr_ParamJson inp))
      in if roomNum = [] then failure CodeBusinessError ''missing roomNum'' w
         else cached_answer E v (TMap TAny) ''room'' (''detail:'' @ roomNum) 30 (detail_loader (sv_D v) (sv_sc v) roomNum)
                (found_answer ''room not found'') w)"

definition handleRoomDetail :: "('r, 'l, 'b, 'd) handler" where
  "handleRoomDetail E v inp w =
     (let roomNum = snd (one_string ''roomNum'' (cr_ParamJson inp))
      in if roomNum = [] then failure CodeBusinessError ''missing roomNum'' w
         else cached_answer E v (TMap TAny) ''room'' (''detail:'' @ roomNum) 30 (detail_loader (sv_D v) (sv_sc v) roomNum)
                (found_answer ''room not found'') w)"

definition handleRoomSchedule :: "('r, 'l, 'b, 'd) handler" where
  "handleRoomSchedule E v inp w =
     (let roomNum = snd (one_string ''roomNum'' (cr_ParamJson inp))
      in if roomNum = [] then failure CodeBusinessError ''missing roomNum'' w
         else cached_answer E v (TMap (TSlice ty_MatchItem)) ''room'' (''schedule:'' @ roomNum) 60
                (total_loader (BuildRoomSchedule (pm_loc (ev_P E)) (sv_D v) (sv_sc v) roomNum)
                   (json_of_map (\<lambda>ms. JArr (map match_item_json ms)))) plain_answer w)"

definition handleRoomGiftRank :: "('r, 'l, 'b, 'd) handler" where
  "handleRoomGiftRank E v inp w =
     (let roomNum = snd (one_string ''roomNum'' (cr_ParamJson inp))
      in if roomNum = [] then failure CodeBusinessError ''missing roomNum'' w
         else cached_answer E v (TSlice ty_GiftRankItem) ''room'' (''gift_rank:'' @ roomNum) 30
                (total_loader (BuildGiftRank (sv_D v) (sv_sc v) roomNum) (\<lambda>gs. JArr (map gift_rank_json gs))) plain_answer w)"

text \<open>The unexported helpers that drop the error: the zero value of a slice or map type is nil.\<close>

definition load_or_nil ::
  "env \<Rightarrow> ('r, 'l, 'b, 'd) service \<Rightarrow> ty \<Rightarrow> string \<Rightarrow> string \<Rightarrow> int \<Rightarrow> 'd ldr \<Rightarrow> ('r, 'l, 'b, 'd) world \<Rightarrow> json \<times> ('r, 'l, 'b, 'd) world" where
  "load_or_nil E v t family key seconds loader w =
     (case GetOrLoadT (sv_mgr v) (go_type t) family key (seconds * 1000000000) LevelDisplay (ev_flight E) (ev_lat E) loader
             (w_ms w, w_db w) of
        (r, s, d) \<Rightarrow> (case r of Inl _ \<Rightarrow> JNull | Inr j \<Rightarrow> j, w\<lparr>w_ms := s, w_db := d\<rparr>))"

definition loadMatchCatalog :: "env \<Rightarrow> ('r, 'l, 'b, 'd) service \<Rightarrow> ('r, 'l, 'b, 'd) world \<Rightarrow> json \<times> ('r, 'l, 'b, 'd) world" where
  "loadMatchCatalog E v =
     load_or_nil E v (TMap (TSlice ty_MatchCatalogItem)) ''match'' ''catalog'' 60 (catalog_loader (ev_P E) (sv_D v) (sv_sc v))"

definition loadRecommend :: "env \<Rightarrow> ('r, 'l, 'b, 'd) service \<Rightarrow> ('r, 'l, 'b, 'd) world \<Rightarrow> json \<times> ('r, 'l, 'b, 'd) world" where
  "loadRecommend E v =
     load_or_nil E v (TSlice ty_MatchCatalogItem) ''match'' ''recommend'' 60 (recommend_loader (ev_P E) (sv_D v) (sv_sc v))"

definition loadMatchByDate :: "env \<Rightarrow> ('r, 'l, 'b, 'd) service \<Rightarrow> string \<Rightarrow> ('r, 'l, 'b, 'd) world \<Rightarrow> json \<times> ('r, 'l, 'b, 'd) world" where
  "loadMatchByDate E v date =
     load_or_nil E v (TSlice ty_MatchCatalogItem) ''match'' (''date:'' @ date) 60 (date_loader (ev_P E) (sv_D v) (sv_sc v) date)"

definition loadAllLiveRooms :: "env \<Rightarrow> ('r, 'l, 'b, 'd) service \<Rightarrow> ('r, 'l, 'b, 'd) world \<Rightarrow> json \<times> ('r, 'l, 'b, 'd) world" where
  "loadAllLiveRooms E v = load_or_nil E v (TMap TAny) ''live'' ''all'' 15 (rooms_loader (sv_D v) (sv_sc v))"

section \<open>The dispatcher\<close>

record CallResp =
  cp_Code :: int
  cp_Meg :: string
  cp_Seq :: int
  cp_NewSessionId :: string
  cp_Result :: "string option"

definition dispatch :: "string \<Rightarrow> ('r, 'l, 'b, 'd) handler" where
  "dispatch method E v inp w =
     (if method = ''login'' then handleLogin E v inp w
      else if method = ''register'' then handleRegister E v inp w
      else if method = ''guestLogin'' then handleGuestLogin E v inp w
      else if method = ''refresh'' then handleRefresh E v inp w
      else if method = ''logout'' then handleLogout E v inp w
      else if method = ''user_detail'' then handleUserDetail E v inp w
      else if method = ''sms_getCode'' then handleSmsGetCode E v inp w
      else if method = ''sms_checkCode'' then handleSmsCheckCode E v inp w
      else if method = ''matches_jsonp'' then handleMatchesJSONP E v inp w
      else if method \<in> {''match_recommend'', ''match_cateList''} then handleMatchRecommend E v inp w
      else if method = ''match_detail'' then handleMatchDetail E v inp w
      else if method = ''match_byDate'' then handleMatchByDate E v inp w
      else if method = ''live_all_rooms'' then handleAllLiveRooms E v inp w
      else if method = ''live_types'' then handleLiveTypes E v inp w
      else if method = ''live_cateList'' then handleLiveCateList E v inp w
      else if method = ''live_hot'' then handleLiveHot E v inp w
      else if method = ''live_detail'' then handleLiveDetail E v inp w
      else if method = ''room_detail'' then handleRoomDetail E v inp w
      else if method = ''room_schedule'' then handleRoomSchedule E v inp w
      else if method = ''room_gift_rank'' then handleRoomGiftRank E v inp w
      else failure CodeBusinessError (''unknown method: '' @ method) w)"

definition Call ::
  "env \<Rightarrow> ('r, 'l, 'b, 'd) service \<Rightarrow> CallReq \<Rightarrow> ('r, 'l, 'b, 'd) world \<Rightarrow> (CallResp \<times> ('r, 'l, 'b, 'd) world) option" where
  "Call E v inp w =
     (case dispatch (TrimSpace (cr_Method inp)) E v inp w of
        None \<Rightarrow> None
      | Some ((result, code, meg), w') \<Rightarrow>
          Some (\<lparr>cp_Code = wrap32 code, cp_Meg = meg, cp_Seq = cr_Seq inp, cp_NewSessionId = cr_SessionId inp, cp_Result = result\<rparr>, w'))"

end
