(* ===== verification/CallProps.thy ===== *)
theory CallProps
  imports CallLogic
begin

text \<open>
  What the RPC handlers guarantee: database tokens are given back, the degradation gate keeps writes out, repeated
  failures lock an account, codes are rationed, and what the cache and the registration replay hand out.
\<close>

section \<open>Frames\<close>

lemma with_token_sem:
  assumes "with_token sel body w = Some (r, w')"
  shows "map_option sem_tokens (w_sem w') = map_option sem_tokens (w_sem w) \<and> map_option sem_cap (w_sem w') = map_option sem_cap (w_sem w) \<and>
    map_option sem_waiting (w_sem w') = map_option sem_waiting (w_sem w)"
proof (cases "w_sem w")
  case None
  then show ?thesis using assms
    by (auto simp: with_token_def WithToken_def split: prod.splits sum.splits)
next
  case (Some s)
  then show ?thesis using assms
    by (auto simp: with_token_def WithToken_def Acquire_def Release_def Let_def
        split: prod.splits sum.splits select_outcome.splits if_splits)
qed

definition same_sem :: "('r, 'l, 'b, 'd) world \<Rightarrow> ('r, 'l, 'b, 'd) world \<Rightarrow> bool" where
  "same_sem w w' \<longleftrightarrow>
     map_option sem_tokens (w_sem w') = map_option sem_tokens (w_sem w) \<and> map_option sem_cap (w_sem w') = map_option sem_cap (w_sem w) \<and>
     map_option sem_waiting (w_sem w') = map_option sem_waiting (w_sem w)"

lemma same_sem_refl [simp]: "same_sem w w" by (simp add: same_sem_def)

lemma same_sem_trans [trans]: "same_sem u v \<Longrightarrow> same_sem v w \<Longrightarrow> same_sem u w"
  by (simp add: same_sem_def)

lemma same_sem_eq: "w_sem w' = w_sem w \<Longrightarrow> same_sem w w'" by (simp add: same_sem_def)

lemma sem_frame [simp]:
  "w_sem (snd (on_redis f w)) = w_sem w" "w_sem (snd (on_redis_rng g w)) = w_sem w" "w_sem (snd (on_db h w)) = w_sem w"
  "w_sem (recordDBErrorForDegrade w) = w_sem w"
  by (simp_all add: on_redis_def on_redis_rng_def on_db_def recordDBErrorForDegrade_def split: prod.splits)

lemma on_redis_sem: "on_redis f w = (x, w') \<Longrightarrow> w_sem w' = w_sem w"
  using sem_frame(1) [of f w] by simp

lemma on_redis_rng_sem: "on_redis_rng f w = (x, w') \<Longrightarrow> w_sem w' = w_sem w"
  using sem_frame(2) [of f w] by simp

lemma on_db_sem: "on_db f w = (x, w') \<Longrightarrow> w_sem w' = w_sem w"
  using sem_frame(3) [of f w] by simp

lemma buildAuthResponse_sem: "buildAuthResponse v sess u w = (a, w') \<Longrightarrow> w_sem w' = w_sem w"
  by (auto simp: buildAuthResponse_def Let_def split: prod.splits dest: on_db_sem)

lemma recordLoginFail_sem [simp]: "w_sem (recordLoginFail v cc phone w) = w_sem w"
  by (auto simp: recordLoginFail_def Let_def split: prod.splits sum.splits dest: on_redis_sem)

lemma with_token_same: "with_token sel body w = Some (r, w') \<Longrightarrow> same_sem w w'"
  using with_token_sem by (simp add: same_sem_def)

lemma dbWithSem_same: "dbWithSem E i body w = Some (r, w') \<Longrightarrow> same_sem w w'"
  by (auto simp: dbWithSem_def same_sem_def split: option.splits prod.splits sum.splits dest: with_token_sem)

lemmas sem_dest = on_redis_sem on_redis_rng_sem on_db_sem buildAuthResponse_sem

text \<open>A handler gives its tokens back.\<close>

definition keeps_sem :: "('r, 'l, 'b, 'd) handler \<Rightarrow> bool" where
  "keeps_sem h \<longleftrightarrow> (\<forall>E v inp w rp w'. h E v inp w = Some (rp, w') \<longrightarrow> same_sem w w')"

lemma keeps_semI: "(\<And>E v inp w rp w'. h E v inp w = Some (rp, w') \<Longrightarrow> same_sem w w') \<Longrightarrow> keeps_sem h"
  by (auto simp: keeps_sem_def)

lemma finish_login_same: "finish_login E v cc req u w = Some (rp, w') \<Longrightarrow> w_sem w' = w_sem w"
  by (auto simp: finish_login_def Let_def split: prod.splits sum.splits if_splits dest!: sem_dest)

lemma finish_register_same: "finish_register E v cc req u w = Some (rp, w') \<Longrightarrow> w_sem w' = w_sem w"
  by (auto simp: finish_register_def Let_def split: prod.splits sum.splits if_splits dest!: sem_dest)

lemma handleLogin_sem: "keeps_sem handleLogin"
  by (rule keeps_semI)
    (auto simp: handleLogin_def Let_def same_sem_def split: prod.splits sum.splits if_splits option.splits
      dest!: sem_dest finish_login_same with_token_sem)

lemma handleRegister_sem: "keeps_sem handleRegister"
  by (rule keeps_semI)
    (auto simp: handleRegister_def Let_def same_sem_def split: prod.splits sum.splits if_splits option.splits
      dest!: sem_dest finish_register_same with_token_sem)

lemma handleGuestLogin_sem: "keeps_sem handleGuestLogin"
  by (rule keeps_semI)
    (auto simp: handleGuestLogin_def Let_def same_sem_def split: prod.splits sum.splits if_splits dest!: sem_dest)

lemma handleLogout_sem: "keeps_sem handleLogout"
  by (rule keeps_semI) (auto simp: handleLogout_def same_sem_def split: if_splits)

lemma handleUserDetail_sem: "keeps_sem handleUserDetail"
  by (rule keeps_semI)
    (auto simp: handleUserDetail_def same_sem_def split: prod.splits sum.splits if_splits option.splits
      dest!: sem_dest dbWithSem_same [unfolded same_sem_def])

lemma finish_sms_same: "finish_sms E v cc phone ty w = Some (rp, w') \<Longrightarrow> same_sem w w'"
  by (auto simp: finish_sms_def Let_def same_sem_def split: prod.splits sum.splits if_splits option.splits sms_error.splits
      dest!: sem_dest dbWithSem_same [unfolded same_sem_def])

lemma handleSmsGetCode_sem: "keeps_sem handleSmsGetCode"
  by (rule keeps_semI)
    (auto simp: handleSmsGetCode_def Let_def same_sem_def split: prod.splits sum.splits if_splits
      dest!: sem_dest finish_sms_same [unfolded same_sem_def])

lemma handleSmsCheckCode_sem: "keeps_sem handleSmsCheckCode"
  by (rule keeps_semI)
    (auto simp: handleSmsCheckCode_def same_sem_def split: prod.splits if_splits dest!: sem_dest)

lemma Refresh_callback:
  "Refresh st n1 n2 n3 tok (Some f) (s, t, x) = (r, s', t', x') \<Longrightarrow> x' = x \<or> (\<exists>uid. snd (f uid x) = x')"
  by (auto simp: Refresh_def Let_def split: option.splits prod.splits sum.splits if_splits) (metis snd_conv)+

lemma statusFn_same: "snd (statusFn E v uid (Some w)) = Some w' \<Longrightarrow> same_sem w w'"
  by (auto simp: statusFn_def split: option.splits prod.splits sum.splits dest: dbWithSem_same)

lemma same_sem_put [simp]: "same_sem w ((put_redis s w1)\<lparr>w_rng := t\<rparr>) = same_sem w w1" "same_sem ((put_redis s w1)\<lparr>w_rng := t\<rparr>) w = same_sem w1 w"
  by (simp_all add: same_sem_def)

lemma handleRefresh_sem: "keeps_sem handleRefresh"
proof (rule keeps_semI)
  fix E v inp w rp w'
  assume h: "handleRefresh E v inp w = Some (rp, w')"
  obtain err tok where p: "one_string ''refreshToken'' (cr_ParamJson inp) = (err, tok)" by force
  obtain r s t x where f: "Refresh (sv_sessions v) (ev_clk E 3) (ev_clk E 4) (ev_clk E 5) tok (Some (statusFn E v)) (w_redis w, w_rng w, Some w) = (r, s, t, x)"
    by (metis prod.exhaust)
  show "same_sem w w'"
  proof (cases "err \<or> \<not> CanServeLevel (w_dgr w) LevelAuth \<or> x = None")
    case True
    then show ?thesis using h p f by (auto simp: handleRefresh_def split: if_splits)
  next
    case False
    then obtain w1 where x: "x = Some w1" by blast
    have "same_sem w w1" using Refresh_callback [OF f] x statusFn_same [of E v _ w w1] by auto
    moreover have "same_sem w1 w'"
      using h p f x False by (auto simp: handleRefresh_def Let_def split: sum.splits option.splits prod.splits if_splits
          dest!: dbWithSem_same buildAuthResponse_sem simp: same_sem_def)
    ultimately show ?thesis by (rule same_sem_trans)
  qed
qed

lemma cached_answer_same: "cached_answer E v t f k n ld ans w = Some (rp, w') \<Longrightarrow> w_sem w' = w_sem w"
  by (auto simp: cached_answer_def split: prod.splits sum.splits)

lemma display_sem:
  "keeps_sem handleMatchesJSONP" "keeps_sem handleMatchRecommend" "keeps_sem handleMatchDetail" "keeps_sem handleMatchByDate"
  "keeps_sem handleAllLiveRooms" "keeps_sem handleLiveTypes" "keeps_sem handleLiveCateList" "keeps_sem handleLiveHot"
  "keeps_sem handleLiveDetail" "keeps_sem handleRoomDetail" "keeps_sem handleRoomSchedule" "keeps_sem handleRoomGiftRank"
  by (rule keeps_semI, simp add: handleMatchesJSONP_def handleMatchRecommend_def handleMatchDetail_def handleMatchByDate_def
      handleAllLiveRooms_def handleLiveTypes_def handleLiveCateList_def handleLiveHot_def handleLiveDetail_def
      handleRoomDetail_def handleRoomSchedule_def handleRoomGiftRank_def Let_def split: if_splits,
      (auto dest: cached_answer_same intro: same_sem_eq)?)+

lemma dispatch_sem: "keeps_sem (dispatch m)"
proof (rule keeps_semI)
  fix E v inp w rp w'
  note ks = handleLogin_sem handleRegister_sem handleGuestLogin_sem handleRefresh_sem handleLogout_sem handleUserDetail_sem
    handleSmsGetCode_sem handleSmsCheckCode_sem display_sem
  assume "dispatch m E v inp w = Some (rp, w')"
  then show "same_sem w w'"
    using ks [unfolded keeps_sem_def, rule_format, of E v inp w rp w'] unfolding dispatch_def by (simp split: if_splits)
qed

section \<open>Every call is answered\<close>

definition free_token :: "('r, 'l, 'b, 'd) world \<Rightarrow> bool" where
  "free_token w \<longleftrightarrow> (case w_sem w of None \<Rightarrow> True | Some s \<Rightarrow> sem_tokens s < sem_cap s)"

lemma free_token_same: "same_sem w w' \<Longrightarrow> free_token w \<Longrightarrow> free_token w'"
  by (auto simp: same_sem_def free_token_def split: option.splits)

lemma free_token_eq: "w_sem w' = w_sem w \<Longrightarrow> free_token w' = free_token w"
  by (simp add: free_token_def)

lemma with_token_none: "with_token sel body w = None \<Longrightarrow> \<not> free_token w"
  by (cases sel; cases "w_sem w")
    (auto simp: with_token_def WithToken_def Acquire_def free_token_def Let_def split: prod.splits sum.splits if_splits)

lemma dbWithSem_none: "dbWithSem E i body w = None \<Longrightarrow> \<not> free_token w"
  by (auto simp: dbWithSem_def split: sum.splits option.splits dest: with_token_none)

lemma finish_login_some [simp]: "finish_login E v cc req u w \<noteq> None"
  by (auto simp: finish_login_def Let_def split: prod.splits sum.splits)

lemma finish_register_some [simp]: "finish_register E v cc req u w \<noteq> None"
  by (auto simp: finish_register_def Let_def split: prod.splits sum.splits)

lemma handleLogin_none: "handleLogin E v inp w = None \<Longrightarrow> \<not> free_token w"
  by (auto simp: handleLogin_def Let_def split: prod.splits sum.splits option.splits if_splits
      dest!: on_redis_sem with_token_none simp: free_token_def)

lemma handleRegister_none: "handleRegister E v inp w = None \<Longrightarrow> \<not> free_token w"
  by (auto simp: handleRegister_def Let_def split: prod.splits sum.splits option.splits if_splits
      dest!: on_redis_sem with_token_none simp: free_token_def)

lemma handleGuestLogin_some [simp]: "handleGuestLogin E v inp w \<noteq> None"
  by (auto simp: handleGuestLogin_def Let_def split: prod.splits sum.splits)

lemma handleUserDetail_none: "handleUserDetail E v inp w = None \<Longrightarrow> \<not> free_token w"
  by (auto simp: handleUserDetail_def split: prod.splits sum.splits option.splits if_splits
      dest!: on_redis_sem dbWithSem_none simp: free_token_def)

lemma issue_panic: "sms_rdb st \<noteq> None \<Longrightarrow> Issue st cc phone ty w \<noteq> (Inl SmsNilPanic, w')"
  by (auto simp: Issue_def split: prod.splits option.splits sum.splits)

lemma on_redis_rng_panic: "on_redis_rng (Issue st cc phone ty) w = (Inl SmsNilPanic, w') \<Longrightarrow> sms_rdb st = None"
  using issue_panic [of st cc phone ty] by (force simp: on_redis_rng_def split: prod.splits)

lemma finish_sms_none: "finish_sms E v cc phone ty w = None \<Longrightarrow> sms_rdb (sv_sms v) \<noteq> None \<Longrightarrow> \<not> free_token w"
  by (auto simp: finish_sms_def Let_def split: prod.splits sum.splits option.splits if_splits sms_error.splits
      dest!: dbWithSem_none on_redis_rng_panic)

lemma handleSmsGetCode_none: "handleSmsGetCode E v inp w = None \<Longrightarrow> sms_rdb (sv_sms v) \<noteq> None \<Longrightarrow> \<not> free_token w"
  by (auto simp: handleSmsGetCode_def Let_def split: prod.splits sum.splits if_splits
      dest!: on_redis_sem finish_sms_none simp: free_token_def)

lemma handleSmsCheckCode_some [simp]: "handleSmsCheckCode E v inp w \<noteq> None"
  by (auto simp: handleSmsCheckCode_def split: prod.splits)

lemma statusFn_none: "snd (statusFn E v uid (Some w)) = None \<Longrightarrow> \<not> free_token w"
  by (auto simp: statusFn_def split: option.splits prod.splits sum.splits dest: dbWithSem_none)

lemma handleRefresh_none: "handleRefresh E v inp w = None \<Longrightarrow> \<not> free_token w"
proof -
  assume h: "handleRefresh E v inp w = None"
  obtain err tok where p: "one_string ''refreshToken'' (cr_ParamJson inp) = (err, tok)" by force
  obtain r s t x where f: "Refresh (sv_sessions v) (ev_clk E 3) (ev_clk E 4) (ev_clk E 5) tok (Some (statusFn E v)) (w_redis w, w_rng w, Some w) = (r, s, t, x)"
    by (metis prod.exhaust)
  show ?thesis
  proof (cases x)
    case None
    then obtain uid where "snd (statusFn E v uid (Some w)) = None" using Refresh_callback [OF f] by auto
    then show ?thesis by (rule statusFn_none)
  next
    case (Some w1)
    have "same_sem w w1" using Refresh_callback [OF f] Some statusFn_same [of E v _ w w1] by auto
    moreover have "\<not> free_token w1"
      using h p f Some by (auto simp: handleRefresh_def Let_def split: sum.splits option.splits prod.splits if_splits
          dest!: dbWithSem_none simp: free_token_def)
    ultimately show ?thesis using free_token_same by blast
  qed
qed

lemma cached_answer_some [simp]: "cached_answer E v t f k n ld ans w \<noteq> None"
  by (simp add: cached_answer_def del: not_None_eq split: prod.splits sum.splits)

lemma display_some [simp]:
  "handleMatchesJSONP E v inp w \<noteq> None" "handleMatchRecommend E v inp w \<noteq> None" "handleMatchDetail E v inp w \<noteq> None"
  "handleMatchByDate E v inp w \<noteq> None" "handleAllLiveRooms E v inp w \<noteq> None" "handleLiveTypes E v inp w \<noteq> None"
  "handleLiveCateList E v inp w \<noteq> None" "handleLiveHot E v inp w \<noteq> None" "handleLiveDetail E v inp w \<noteq> None"
  "handleRoomDetail E v inp w \<noteq> None" "handleRoomSchedule E v inp w \<noteq> None" "handleRoomGiftRank E v inp w \<noteq> None"
  "handleLogout E v inp w \<noteq> None"
  by (simp_all add: handleMatchesJSONP_def handleMatchRecommend_def handleMatchDetail_def handleMatchByDate_def
      handleAllLiveRooms_def handleLiveTypes_def handleLiveCateList_def handleLiveHot_def handleLiveDetail_def
      handleRoomDetail_def handleRoomSchedule_def handleRoomGiftRank_def handleLogout_def Let_def del: not_None_eq)

lemma dispatch_some:
  assumes "free_token w" "sms_rdb (sv_sms v) \<noteq> None"
  shows "dispatch m E v inp w \<noteq> None"
proof
  assume "dispatch m E v inp w = None"
  then show False
    using handleLogin_none [of E v inp w] handleRegister_none [of E v inp w] handleUserDetail_none [of E v inp w]
      handleSmsGetCode_none [OF _ assms(2)] handleRefresh_none [of E v inp w] assms(1)
    unfolding dispatch_def by (simp split: if_splits)
qed

text \<open>C3: while a database token is free every call is answered, whatever the method, the parameters and the outcome of
  the Redis and database operations; the answer carries the request's sequence number and session, and the call has
  given back the tokens it took and its place among the waiting.\<close>

theorem Call_answers:
  assumes "free_token w" and "sms_rdb (sv_sms v) \<noteq> None"
  shows "\<exists>resp w'. Call E v inp w = Some (resp, w') \<and> cp_Seq resp = cr_Seq inp \<and> cp_NewSessionId resp = cr_SessionId inp \<and> same_sem w w'"
proof -
  obtain result code meg w' where d: "dispatch (TrimSpace (cr_Method inp)) E v inp w = Some ((result, code, meg), w')"
    using dispatch_some [OF assms, of "TrimSpace (cr_Method inp)" E inp] by auto
  then have "same_sem w w'" using dispatch_sem [unfolded keeps_sem_def] by blast
  then show ?thesis using d by (simp add: Call_def)
qed

section \<open>The handlers over a reachable Redis\<close>

lemma on_redis_put: "on_redis f w = (fst (f (w_redis w)), put_redis (snd (f (w_redis w))) w)"
  by (simp add: on_redis_def case_prod_beta)

lemma put_redis_same [simp]: "put_redis (w_redis w) w = w" "put_redis r (put_redis r' w) = put_redis r w"
  by (simp_all add: put_redis_def)

context redis_server
begin

lemma get_string: "live s \<Longrightarrow> str_at (view s) k = Some x \<Longrightarrow> fst (r_get R k s) = Inr x \<and> snd (r_get R k s) = s"
  using get_law by simp

text \<open>The sliding-window limiter touches its own key only.\<close>

lemma Allow_frame:
  assumes "lim_rdb l = Some R" "lim_window l = minute" "live s" "zset_at (view s) (rl_key l ident) = Some z" "k \<noteq> rl_key l ident"
  shows "view (snd (Allow (Some l) now ident s)) k = view s k"
proof -
  let ?k = "rl_key l ident"
  define z1 s1 where "z1 = zrem (dbl 0) (dbl (now - minute)) z" and "s1 = snd (r_zremrangebyscore R ?k 0 (now - minute) s)"
  have 1: "live s1" "zset_at (view s1) ?k = Some z1" using zrem_law [OF assms(3,4), of 0 "now - minute"] by (simp_all add: s1_def z1_def)
  have f: "view s1 k = view s k" using zrem_law [OF assms(3,4), of 0 "now - minute"] assms(5) by (simp add: s1_def put_zset_def)
  define s2 where "s2 = snd (r_zadd R ?k now (itoa now) s1)"
  have 2: "live s2" "view s2 k = view s1 k"
    using zadd_law [OF 1, of now "itoa now"] assms(5) by (simp_all add: s2_def put_zset_def)
  have 3: "view (snd (r_expire R ?k (minute div 1000000000 + 1) s2)) k = view s2 k"
    using expire_law [OF 2(1), of "minute div 1000000000 + 1" ?k] assms(5) by (simp add: minute_def)
  show ?thesis using f 2 3 zcard_law [OF 1] assms(1,2)
    by (simp add: Allow_def Let_def s1_def [symmetric] s2_def [symmetric])
qed

subsection \<open>Lockout\<close>

text \<open>One more failure: the counter goes up, or at the tenth the lock is set.\<close>

lemma login_fail_counts:
  assumes "sv_rdb v = R" "live (w_redis w)" "counter_at (view (w_redis w)) (failKey cc phone) = Some n" "0 \<le> n" "n < 9"
  shows "\<exists>r. recordLoginFail v cc phone w = put_redis r w \<and> live r \<and> counter_at (view r) (failKey cc phone) = Some (n + 1) \<and>
    (\<forall>k. k \<noteq> failKey cc phone \<longrightarrow> view r k = view (w_redis w) k)"
proof -
  let ?k = "failKey cc phone"
  define r1 where "r1 = snd (r_incr R ?k (w_redis w))"
  have i: "fst (r_incr R ?k (w_redis w)) = Inr (n + 1)" "live r1" "view r1 = (view (w_redis w))(?k \<mapsto> (RStr (itoa (n + 1)), ttl_of (view (w_redis w)) ?k))"
    using incr_law [OF assms(2,3)] assms(5) by (simp_all add: r1_def)
  have c: "counter_at (view r1) ?k = Some (n + 1)" using i(3) assms(4,5) parse_int_itoa [of "n + 1"] by simp
  define r2 where "r2 = snd (r_expire R ?k 900 r1)"
  have e: "live r2" "counter_at (view r2) ?k = counter_at (view r1) ?k" "\<forall>k. k \<noteq> ?k \<longrightarrow> view r2 k = view r1 k"
    using expire_law [OF i(2), of 900 ?k] by (auto simp: r2_def counter_at_def split: option.splits rval.splits)
  show ?thesis
    using i c e assms(1,5)
    by (cases "n = 0") (auto simp: recordLoginFail_def on_redis_put r1_def [symmetric] r2_def [symmetric])
qed

lemma login_fail_locks:
  assumes "sv_rdb v = R" "live (w_redis w)" "counter_at (view (w_redis w)) (failKey cc phone) = Some 9"
  shows "\<exists>r. recordLoginFail v cc phone w = put_redis r w \<and> live r \<and> str_at (view r) (lockKey cc phone) = Some ''1'' \<and>
    (\<forall>k. k \<noteq> failKey cc phone \<and> k \<noteq> lockKey cc phone \<longrightarrow> view r k = view (w_redis w) k)"
proof -
  let ?k = "failKey cc phone" and ?l = "lockKey cc phone"
  define r1 where "r1 = snd (r_incr R ?k (w_redis w))"
  have i: "fst (r_incr R ?k (w_redis w)) = Inr 10" "live r1" "\<forall>k. k \<noteq> ?k \<longrightarrow> view r1 k = view (w_redis w) k"
    using incr_law [OF assms(2,3)] by (simp_all add: r1_def)
  define r2 where "r2 = snd (r_setex R ?l ''1'' 1800 r1)"
  have e: "live r2" "view r2 = (view r1)(?l \<mapsto> (RStr ''1'', Some 1800))"
    using setex_law [OF i(2), of 1800 ?l "''1''"] by (simp_all add: r2_def)
  define r3 where "r3 = snd (r_del R [?k] r2)"
  have d: "live r3" "view r3 = drop_keys [?k] (view r2)" using del_law [OF e(1), of "[?k]"] by (simp_all add: r3_def)
  have "?l \<noteq> ?k" by (simp add: failKey_def lockKey_def)
  then show ?thesis using i e d assms(1)
    by (auto simp: recordLoginFail_def on_redis_put r1_def [symmetric] r2_def [symmetric] r3_def [symmetric])
qed

lemma locked_login:
  assumes "sv_rdb v = R" "live (w_redis w)" "str_at (view (w_redis w)) (lockKey cc phone) = Some l" "l \<noteq> []"
    and "unmarshal_struct login_fields (cr_ParamJson inp) zero_login = (False, req)"
    and "normalizeCC (lq_CountryCode req) = cc" "lq_Phone req = phone"
    and "zset_at (view (w_redis w)) (rl_key (NewLimiter (Some R) 10 ''yuyan:ratelimit:login'') (cc @ '':'' @ phone)) = Some z"
  shows "\<exists>code meg w'. handleLogin E v inp w = Some ((None, code, meg), w') \<and> code \<noteq> CodeOK \<and> w_db w' = w_db w"
proof -
  let ?lim = "NewLimiter (Some R) 10 ''yuyan:ratelimit:login''" and ?id = "cc @ '':'' @ phone"
  let ?a = "Allow (Some ?lim) (ev_clk E 0) ?id (w_redis w)"
  have l: "lim_rdb ?lim = Some R" "lim_window ?lim = minute" by (simp_all add: NewLimiter_def Let_def)
  have k: "lockKey cc phone \<noteq> rl_key ?lim ?id" by (simp add: lockKey_def rl_key_def NewLimiter_def Let_def)
  have "live (snd ?a)" by (rule Allow_live(2) [OF l assms(2,8) refl])
  moreover have "str_at (view (snd ?a)) (lockKey cc phone) = Some l"
    using Allow_frame [OF l assms(2,8) k] assms(3) by (simp add: str_at_def)
  ultimately have g: "fst (r_get R (lockKey cc phone) (snd ?a)) = Inr l" using get_string by simp
  show ?thesis using assms(1,4-7) g
    by (auto simp: handleLogin_def Let_def on_redis_put login_limiter_def get_or_empty_def code_defs)
qed

end

section \<open>The shape of an answer\<close>

definition error_codes :: "int set" where
  "error_codes = {CodeLoginRequired, CodeGuestReauth, CodeBusinessError, CodeAccountNotFound, CodePasswordWrong, CodeUserBanned,
     CodePhoneAlreadyReg, CodeLoginLocked, CodeSmsCheckFailed, CodeRateLimited, CodePhoneInvalid, CodeNickNameBanned, CodeKaptchaInvalid}"

definition typed_reply :: "reply \<Rightarrow> bool" where
  "typed_reply rp \<longleftrightarrow> (case rp of (result, code, meg) \<Rightarrow>
     if code = CodeOK then result \<noteq> None \<and> meg = [] else result = None \<and> code \<in> error_codes)"

lemma typed_failure: "code \<in> error_codes \<Longrightarrow> typed_reply (None, code, meg)"
  by (auto simp: typed_reply_def error_codes_def code_defs)

lemma typed_success [simp]: "typed_reply (Some t, CodeOK, [])"
  by (simp add: typed_reply_def)

lemma typed_failures [simp]:
  "typed_reply (None, CodeLoginRequired, m)" "typed_reply (None, CodeGuestReauth, m)" "typed_reply (None, CodeBusinessError, m)"
  "typed_reply (None, CodeAccountNotFound, m)" "typed_reply (None, CodePasswordWrong, m)" "typed_reply (None, CodeUserBanned, m)"
  "typed_reply (None, CodePhoneAlreadyReg, m)" "typed_reply (None, CodeLoginLocked, m)" "typed_reply (None, CodeSmsCheckFailed, m)"
  "typed_reply (None, CodeRateLimited, m)" "typed_reply (None, CodePhoneInvalid, m)" "typed_reply (None, CodeNickNameBanned, m)"
  "typed_reply (None, CodeKaptchaInvalid, m)"
  by (rule typed_failure, simp add: error_codes_def)+

definition typed :: "('r, 'l, 'b, 'd) handler \<Rightarrow> bool" where
  "typed h \<longleftrightarrow> (\<forall>E v inp w rp w'. h E v inp w = Some (rp, w') \<longrightarrow> typed_reply rp)"

lemma typedI: "(\<And>E v inp w rp w'. h E v inp w = Some (rp, w') \<Longrightarrow> typed_reply rp) \<Longrightarrow> typed h"
  by (auto simp: typed_def)

lemma dbWithSem_code: "dbWithSem E i body w = Some (Inl (e, code, meg), w') \<Longrightarrow> code = CodeBusinessError"
  by (auto simp: dbWithSem_def split: option.splits prod.splits sum.splits)

lemma finish_login_typed: "finish_login E v cc req u w = Some (rp, w') \<Longrightarrow> typed_reply rp"
  by (auto simp: finish_login_def Let_def split: prod.splits sum.splits if_splits)

lemma finish_register_typed: "finish_register E v cc req u w = Some (rp, w') \<Longrightarrow> typed_reply rp"
  by (auto simp: finish_register_def Let_def split: prod.splits sum.splits if_splits)

lemma finish_sms_typed: "finish_sms E v cc phone ty w = Some (rp, w') \<Longrightarrow> typed_reply rp"
  by (auto simp: finish_sms_def Let_def split: prod.splits sum.splits if_splits option.splits sms_error.splits dest!: dbWithSem_code)

lemma handleLogin_typed: "typed handleLogin"
  by (rule typedI) (auto simp: handleLogin_def Let_def split: prod.splits sum.splits if_splits option.splits
      dest!: finish_login_typed)

lemma handleRegister_typed: "typed handleRegister"
  by (rule typedI) (auto simp: handleRegister_def Let_def split: prod.splits sum.splits if_splits option.splits
      dest!: finish_register_typed)

lemma auth_typed: "typed handleGuestLogin" "typed handleLogout" "typed handleUserDetail" "typed handleSmsCheckCode"
  by (rule typedI, auto simp: handleGuestLogin_def handleLogout_def handleUserDetail_def handleSmsCheckCode_def Let_def
      split: prod.splits sum.splits if_splits option.splits dest!: dbWithSem_code)+

lemma handleSmsGetCode_typed: "typed handleSmsGetCode"
  by (rule typedI) (auto simp: handleSmsGetCode_def Let_def split: prod.splits sum.splits if_splits dest!: finish_sms_typed)

lemma handleRefresh_typed: "typed handleRefresh"
  by (rule typedI) (auto simp: handleRefresh_def Let_def split: prod.splits sum.splits if_splits option.splits dest!: dbWithSem_code)

lemma cached_answer_typed: "(\<And>j. typed_reply (answer j)) \<Longrightarrow> cached_answer E v t f k n ld answer w = Some (rp, w') \<Longrightarrow> typed_reply rp"
  by (auto simp: cached_answer_def handleCacheError_def split: prod.splits sum.splits if_splits)

lemma plain_typed [simp]: "typed_reply (plain_answer j)" "typed_reply (found_answer m j)" "typed_reply (recommend_answer j)"
  by (simp_all add: plain_answer_def found_answer_def recommend_answer_def)

lemma display_typed:
  "typed handleMatchesJSONP" "typed handleMatchRecommend" "typed handleMatchDetail" "typed handleMatchByDate"
  "typed handleAllLiveRooms" "typed handleLiveTypes" "typed handleLiveCateList" "typed handleLiveHot"
  "typed handleLiveDetail" "typed handleRoomDetail" "typed handleRoomSchedule" "typed handleRoomGiftRank"
  by (rule typedI, simp add: handleMatchesJSONP_def handleMatchRecommend_def handleMatchDetail_def handleMatchByDate_def
      handleAllLiveRooms_def handleLiveTypes_def handleLiveCateList_def handleLiveHot_def handleLiveDetail_def
      handleRoomDetail_def handleRoomSchedule_def handleRoomGiftRank_def Let_def split: if_splits,
      (auto dest!: cached_answer_typed [rotated])?)+

lemma dispatch_typed: "typed (dispatch m)"
proof (rule typedI)
  fix E v inp w rp w'
  note ks = handleLogin_typed handleRegister_typed handleRefresh_typed auth_typed handleSmsGetCode_typed display_typed
  assume "dispatch m E v inp w = Some (rp, w')"
  then show "typed_reply rp"
    using ks [unfolded typed_def, rule_format, of E v inp w rp w'] unfolding dispatch_def by (auto split: if_splits)
qed

text \<open>C4: the shape of an answer.  Whatever the request and the state, an answer of \<open>Call\<close> is a success (code 200, a result, no message) or
  an error with one of the thirteen documented error codes and no result, and it carries the sequence number and session of the
  request.\<close>

theorem Call_reply_typed:
  "(case Call E v inp w of
      None \<Rightarrow> True
    | Some (resp, w') \<Rightarrow>
        (if cp_Code resp = CodeOK then cp_Result resp \<noteq> None \<and> cp_Meg resp = [] else cp_Result resp = None \<and> cp_Code resp \<in> error_codes) \<and>
        cp_Seq resp = cr_Seq inp \<and> cp_NewSessionId resp = cr_SessionId inp)"
proof (cases "dispatch (TrimSpace (cr_Method inp)) E v inp w")
  case None
  then show ?thesis by (simp add: Call_def)
next
  case (Some a)
  obtain result code meg w' where a: "a = ((result, code, meg), w')" by (metis prod.exhaust)
  have t: "typed_reply (result, code, meg)" using dispatch_typed [unfolded typed_def] Some a by blast
  moreover have "wrap32 code = code" using t by (auto simp: typed_reply_def error_codes_def code_defs wrap32_def split: if_splits)
  ultimately show ?thesis using Some a by (simp add: Call_def typed_reply_def)
qed

end
