(* ===== verification/UserTable.thy ===== *)
theory UserTable
  imports Models
begin

text \<open>
  The interface between the account handlers and the \<open>user\<close> table: what the statements of \<open>user_model.go\<close> do to the
  rows, as a locale, and an in-memory engine that obeys it.  The unique keys are those of
  \<open>deploy/schema.mysql.sql\<close>: the uid, the pair of country code and phone, and the login name.
\<close>

text \<open>Rows the table holds as they are: numbers within the column types, UTF-8 texts within the column widths, and
  phones and country codes made of digits, on which every collation compares by equality.\<close>

definition storable :: "User \<Rightarrow> bool" where
  "storable u \<longleftrightarrow>
     in_width 64 (us_UID u) \<and> in_width 64 (us_Score u) \<and> in_width 64 (us_Grow u) \<and> in_width 64 (us_CreatedAt u) \<and>
     in_width 64 (us_UpdatedAt u) \<and> in_width 8 (us_PwdType u) \<and> in_width 8 (us_UserType u) \<and> in_width 8 (us_Status u) \<and>
     in_width 8 (us_Gender u) \<and> in_width 8 (us_Plat u) \<and>
     list_all is_digit (us_Phone u) \<and> length (us_Phone u) \<le> 20 \<and> list_all is_digit (us_CountryCode u) \<and>
     length (us_CountryCode u) \<le> 8 \<and> list_all is_digit (us_LoginName u) \<and> length (us_LoginName u) \<le> 64 \<and>
     valid_utf8 (us_NickName u) \<and> length (us_NickName u) \<le> 64 \<and> valid_utf8 (us_Icon u) \<and> length (us_Icon u) \<le> 255 \<and>
     ascii (us_Password u) \<and> length (us_Password u) \<le> 64 \<and> ascii (us_Salt u) \<and> length (us_Salt u) \<le> 64"

definition clashes :: "User \<Rightarrow> User \<Rightarrow> bool" where
  "clashes u x \<longleftrightarrow>
     us_UID x = us_UID u \<or> us_CountryCode x = us_CountryCode u \<and> us_Phone x = us_Phone u \<or> us_LoginName x = us_LoginName u"

definition by_phone :: "string \<Rightarrow> string \<Rightarrow> User list \<Rightarrow> User option" where
  "by_phone cc phone us = find (\<lambda>u. us_CountryCode u = cc \<and> us_Phone u = phone) us"

definition found :: "User option \<Rightarrow> model_error + User" where
  "found r = (case r of Some u \<Rightarrow> Inr u | None \<Rightarrow> Inl ErrNotFound)"

definition stamped :: "int \<Rightarrow> User \<Rightarrow> User" where
  "stamped now u = (if us_CreatedAt u = 0 then u\<lparr>us_CreatedAt := now\<rparr> else u)\<lparr>us_UpdatedAt := now\<rparr>"

locale user_table =
  fixes D :: "'d sql_db" and sc :: Schema and rows :: "'d \<Rightarrow> User list" and up :: "'d \<Rightarrow> bool"
  assumes query_keeps: "up d \<Longrightarrow> up (snd (QueryContext D q args d)) \<and> rows (snd (QueryContext D q args d)) = rows d"
    and phone_law: "up d \<Longrightarrow> list_all is_digit cc \<Longrightarrow> list_all is_digit phone \<Longrightarrow>
        fst (user_FindByPhone D sc cc phone d) = found (by_phone cc phone (rows d))"
    and uid_law: "up d \<Longrightarrow> fst (user_FindByUid D sc uid d) = found (find (\<lambda>u. us_UID u = uid) (rows d))"
    and insert_law: "up d \<Longrightarrow> storable (stamped now u) \<Longrightarrow> list_all (\<lambda>x. \<not> clashes u x) (rows d) \<Longrightarrow>
        fst (user_Insert D sc now u d) = (None, stamped now u) \<and> up (snd (user_Insert D sc now u d)) \<and>
        rows (snd (user_Insert D sc now u d)) = rows d @ [stamped now u]"
    and clash_law: "up d \<Longrightarrow> storable (stamped now u) \<Longrightarrow> list_ex (clashes u) (rows d) \<Longrightarrow>
        fst (user_Insert D sc now u d) = (Some ErrDuplicate, stamped now u) \<and> up (snd (user_Insert D sc now u d)) \<and>
        rows (snd (user_Insert D sc now u d)) = rows d"
begin

lemma query_row_keeps: "up d \<Longrightarrow> up (snd (query_row D q args ds d)) \<and> rows (snd (query_row D q args ds d)) = rows d"
  using query_keeps [of d q args] by (auto simp: query_row_def split: prod.splits sum.splits list.splits)

lemma find_one_keeps: "up d \<Longrightarrow> up (snd (find_one D q args ds f d)) \<and> rows (snd (find_one D q args ds f d)) = rows d"
  using query_row_keeps [of d q args ds] by (auto simp: find_one_def split: prod.splits sum.splits)

lemma phone_keeps: "up d \<Longrightarrow> up (snd (user_FindByPhone D sc cc phone d)) \<and> rows (snd (user_FindByPhone D sc cc phone d)) = rows d"
  unfolding user_FindByPhone_def by (rule find_one_keeps)

lemma uid_keeps: "up d \<Longrightarrow> up (snd (user_FindByUid D sc uid d)) \<and> rows (snd (user_FindByUid D sc uid d)) = rows d"
  unfolding user_FindByUid_def by (rule find_one_keeps)

lemma grow_keeps: "up d \<Longrightarrow> up (snd (FindUserGrowForValue D sc n d)) \<and> rows (snd (FindUserGrowForValue D sc n d)) = rows d"
  using query_row_keeps [of d "q_user_grow sc" "[VInt n]" "[DInt 64, DStr, DInt 64, DInt 32, DInt 32, DInt 64]"]
  by (auto simp: FindUserGrowForValue_def split: prod.splits sum.splits)

end

section \<open>An in-memory engine\<close>

definition row_clashes :: "sqlval list \<Rightarrow> sqlval list \<Rightarrow> bool" where
  "row_clashes a r \<longleftrightarrow> r ! 0 = a ! 0 \<or> r ! 4 = a ! 4 \<and> r ! 3 = a ! 3 \<or> r ! 1 = a ! 1"

definition mem_sql :: "Schema \<Rightarrow> sqlval list list sql_db" where
  "mem_sql sc =
    \<lparr>ExecContext = (\<lambda>q args d.
       if q = q_user_insert sc
       then (if list_ex (row_clashes args) d then (Some (ErrDriver ''UNIQUE constraint failed''), d) else (None, d @ [args]))
       else (None, d)),
     QueryContext = (\<lambda>q args d.
       (Inr (if q = q_user_by_phone sc then filter (\<lambda>r. r ! 4 = args ! 0 \<and> r ! 3 = args ! 1) d
             else if q = q_user_by_uid sc then filter (\<lambda>r. r ! 0 = args ! 0) d else [], None), d))\<rparr>"

definition row_user :: "sqlval list \<Rightarrow> User" where
  "row_user r = (case scan_row user_dests r of Inr g \<Rightarrow> scanUser g)"

definition mem_rows :: "sqlval list list \<Rightarrow> User list" where "mem_rows d = map row_user d"
definition sql_up :: "sqlval list list \<Rightarrow> bool" where "sql_up d \<longleftrightarrow> (\<forall>r \<in> set d. \<exists>u. storable u \<and> r = user_args u)"

lemma in_width_mono: "in_width 8 n \<Longrightarrow> in_width 32 n"
  by (simp add: in_width_def)

lemma scan_user_args: "storable u \<Longrightarrow> scan_row user_dests (user_args u) = Inr
    [GI (us_UID u), GS (us_LoginName u), GS (us_NickName u), GS (us_Phone u), GS (us_CountryCode u), GS (us_Password u), GS (us_Salt u),
     GI (us_PwdType u), GI (us_UserType u), GI (us_Score u), GI (us_Grow u), GI (us_Status u), GS (us_Icon u), GI (us_Gender u),
     GNT (us_Birthday u), GI (us_Plat u), GI (us_CreatedAt u), GI (us_UpdatedAt u)]"
  by (rule scan_row_fits) (auto simp: user_dests_def user_args_def storable_def in_width_mono split: option.splits)

lemma row_user_args: "storable u \<Longrightarrow> row_user (user_args u) = u"
  by (simp add: row_user_def scan_user_args scanUser_def g_int_def g_str_def g_time_def)

lemma user_args_nth:
  "user_args u ! 0 = VInt (us_UID u)" "user_args u ! Suc 0 = VText (us_LoginName u)" "user_args u ! 3 = VText (us_Phone u)"
  "user_args u ! 4 = VText (us_CountryCode u)"
  by (simp_all add: user_args_def)

lemma query_texts:
  "q_user_by_uid sc \<noteq> q_user_by_phone sc"
  by (simp add: q_user_by_uid_def q_user_by_phone_def)

lemma find_filter: "find P xs = (case filter P xs of [] \<Rightarrow> None | x # _ \<Rightarrow> Some x)"
  by (induction xs) auto

lemma mem_find:
  assumes "sql_up d" "\<And>u. P (user_args u) = Q u"
  shows "(case filter P d of [] \<Rightarrow> (Inl ErrNoRows, d) | r # _ \<Rightarrow> (scan_row user_dests r, d)) =
    (case find Q (mem_rows d) of None \<Rightarrow> Inl ErrNoRows | Some u \<Rightarrow> scan_row user_dests (user_args u), d)"
  using assms(1)
proof (induction d)
  case (Cons r d)
  then obtain u where u: "storable u" "r = user_args u" "sql_up d" by (auto simp: sql_up_def)
  then show ?case using Cons.IH assms(2) by (auto simp: mem_rows_def row_user_args split: list.splits option.splits)
qed (simp add: mem_rows_def)

lemma storable_mem: "sql_up d \<Longrightarrow> u \<in> set (mem_rows d) \<Longrightarrow> storable u"
  by (auto simp: sql_up_def mem_rows_def row_user_args)

lemma mem_query:
  assumes "sql_up d" "\<And>u. P (user_args u) = Q u" "QueryContext (mem_sql sc) q args d = (Inr (filter P d, None), d)"
  shows "fst (find_one (mem_sql sc) q args user_dests scanUser d) = found (find Q (mem_rows d))"
proof -
  have q: "query_row (mem_sql sc) q args user_dests d =
      (case find Q (mem_rows d) of None \<Rightarrow> Inl ErrNoRows | Some u \<Rightarrow> scan_row user_dests (user_args u), d)"
    using mem_find [of d P Q] assms by (simp add: query_row_def cong: list.case_cong)
  show ?thesis
  proof (cases "find Q (mem_rows d)")
    case (Some u)
    then have "storable u" using storable_mem [OF assms(1)] by (auto simp: find_Some_iff)
    then show ?thesis using q Some
      by (simp add: find_one_def found_def scan_user_args scanUser_def g_int_def g_str_def g_time_def)
  qed (use q in \<open>simp add: find_one_def found_def\<close>)
qed

lemma stamped_keys [simp]:
  "us_UID (stamped now u) = us_UID u" "us_LoginName (stamped now u) = us_LoginName u" "us_Phone (stamped now u) = us_Phone u"
  "us_CountryCode (stamped now u) = us_CountryCode u" "us_Password (stamped now u) = us_Password u" "us_Salt (stamped now u) = us_Salt u"
  "us_Status (stamped now u) = us_Status u" "us_PwdType (stamped now u) = us_PwdType u" "us_NickName (stamped now u) = us_NickName u"
  "us_Icon (stamped now u) = us_Icon u" "us_UserType (stamped now u) = us_UserType u"
  by (simp_all add: stamped_def)

lemma mem_clash_iff: "sql_up d \<Longrightarrow> list_ex (row_clashes (user_args (stamped now u))) d = list_ex (clashes u) (mem_rows d)"
proof (induction d)
  case (Cons r d)
  then obtain x where x: "storable x" "r = user_args x" "sql_up d" by (auto simp: sql_up_def)
  then have "row_clashes (user_args (stamped now u)) r = clashes u (row_user r)"
    by (simp add: row_clashes_def clashes_def user_args_nth row_user_args stamped_keys)
  then show ?case using Cons.IH x(3) by (simp add: mem_rows_def)
qed (simp add: mem_rows_def)

lemma user_Insert_stamped:
  "user_Insert D sc now u d = (case ExecContext D (q_user_insert sc) (user_args (stamped now u)) d of
     (None, d') \<Rightarrow> ((None, stamped now u), d')
   | (Some e, d') \<Rightarrow> ((Some (if isDup e then ErrDuplicate else ErrSql e), stamped now u), d'))"
proof -
  have "(if us_CreatedAt u = 0 then u\<lparr>us_CreatedAt := now\<rparr> else u)\<lparr>us_UpdatedAt := now\<rparr> = stamped now u" by (simp add: stamped_def)
  then show ?thesis by (simp only: user_Insert_def Let_def)
qed

lemma isDup_unique: "isDup (ErrDriver ''UNIQUE constraint failed'')"
  by code_simp

interpretation memt: user_table "mem_sql sc" sc mem_rows sql_up
proof
  fix d q args assume "sql_up d"
  then show "sql_up (snd (QueryContext (mem_sql sc) q args d)) \<and> mem_rows (snd (QueryContext (mem_sql sc) q args d)) = mem_rows d"
    by (simp add: mem_sql_def)
next
  fix d cc phone assume d: "sql_up d"
  show "fst (user_FindByPhone (mem_sql sc) sc cc phone d) = found (by_phone cc phone (mem_rows d))"
    unfolding user_FindByPhone_def by_phone_def
    by (rule mem_query [OF d, where P = "\<lambda>r. r ! 4 = VText cc \<and> r ! 3 = VText phone"]) (auto simp: user_args_nth mem_sql_def)
next
  fix d uid assume d: "sql_up d"
  show "fst (user_FindByUid (mem_sql sc) sc uid d) = found (find (\<lambda>u. us_UID u = uid) (mem_rows d))"
    unfolding user_FindByUid_def
    by (rule mem_query [OF d, where P = "\<lambda>r. r ! 0 = VInt uid"]) (auto simp: user_args_nth mem_sql_def query_texts)
next
  fix d now u assume a: "sql_up d" "storable (stamped now u)" "list_all (\<lambda>x. \<not> clashes u x) (mem_rows d)"
  then have "\<not> list_ex (row_clashes (user_args (stamped now u))) d"
    by (simp add: mem_clash_iff) (simp add: list_ex_iff list_all_iff)
  then show "fst (user_Insert (mem_sql sc) sc now u d) = (None, stamped now u) \<and> sql_up (snd (user_Insert (mem_sql sc) sc now u d)) \<and>
      mem_rows (snd (user_Insert (mem_sql sc) sc now u d)) = mem_rows d @ [stamped now u]"
    using a by (auto simp: user_Insert_stamped mem_sql_def sql_up_def mem_rows_def row_user_args)
next
  fix d now u assume a: "sql_up d" "storable (stamped now u)" "list_ex (clashes u) (mem_rows d)"
  then have "list_ex (row_clashes (user_args (stamped now u))) d" by (simp add: mem_clash_iff)
  then show "fst (user_Insert (mem_sql sc) sc now u d) = (Some ErrDuplicate, stamped now u) \<and> sql_up (snd (user_Insert (mem_sql sc) sc now u d)) \<and>
      mem_rows (snd (user_Insert (mem_sql sc) sc now u d)) = mem_rows d"
    using a isDup_unique by (auto simp: user_Insert_stamped mem_sql_def)
qed

end
