(* ===== verification/Accounts.thy ===== *)
theory Accounts
  imports CallProps UserTable
begin

text \<open>
  Registration and login from the request to the row: the account handlers over a reachable Redis and the \<open>user\<close>
  table's interface.
\<close>

section \<open>Requests and the state before the token\<close>

text \<open>What the checks before the Redis lookups establish for a registration.\<close>

definition register_request :: "registerReq \<Rightarrow> string \<Rightarrow> string \<Rightarrow> CallReq \<Rightarrow> bool" where
  "register_request req cc phone inp \<longleftrightarrow>
     unmarshal_struct register_fields (cr_ParamJson inp) zero_register = (False, req) \<and> rq_AccountType req = 1 \<and> rq_Phone req = phone \<and>
     phone \<noteq> [] \<and> rq_PwdType req = PwdTypeMD5 \<and> 2 \<le> RuneCountInString (rq_NickName req) \<and> normalizeCC (rq_CountryCode req) = cc \<and>
     validatePhone cc phone"

lemma runes_empty: "RuneCountInString [] = 0"
  unfolding RuneCountInString_def by (subst runes.simps) simp

lemma register_request_name: "register_request req cc phone inp \<Longrightarrow> rq_NickName req \<noteq> []"
  by (auto simp: register_request_def runes_empty)

lemma normal_serves: "mgr_Mode g = ModeNormal \<Longrightarrow> CanServeLevel g l"
  by (simp add: mgr_Mode_def CanServeLevel_def)

lemma with_token_run:
  assumes "free_token w"
  shows "\<exists>so. with_token GotToken body w = Some (fst (body w), (snd (body w))\<lparr>w_sem := so\<rparr>)"
  using assms by (cases "w_sem w")
    (auto simp: with_token_def WithToken_def Acquire_def free_token_def Let_def split: prod.splits sum.splits)

text \<open>The answer of \<open>handleRegister\<close> once its critical section has ended.\<close>

definition register_answer ::
  "env \<Rightarrow> ('r, 'l, 'b, 'd) service \<Rightarrow> string \<Rightarrow> registerReq \<Rightarrow> ((call_error + User) \<times> ('r, 'l, 'b, 'd) world) option \<Rightarrow>
   (reply \<times> ('r, 'l, 'b, 'd) world) option" where
  "register_answer E v cc req r =
     (case r of
        None \<Rightarrow> None
      | Some (Inl e, w5) \<Rightarrow>
          if e = CModel ErrDuplicate then failure CodePhoneAlreadyReg m_phone_taken w5
          else if is_ctx e then failure CodeBusinessError m_busy (recordDBErrorForDegrade w5)
          else failure CodeBusinessError (call_error_text E e) (recordDBErrorForDegrade w5)
      | Some (Inr u, w5) \<Rightarrow> finish_register E v cc req u w5)"

text \<open>The Redis state a registration needs: no stored answer, the SMS code it carries, and a captcha (or none) that its
  own matches.\<close>

definition register_ready :: "env \<Rightarrow> ('r, 'l, 'b, 'd) service \<Rightarrow> registerReq \<Rightarrow> string \<Rightarrow> string \<Rightarrow> keyspace \<Rightarrow> bool" where
  "register_ready E v req cc phone m \<longleftrightarrow>
     str_at m (idemKey cc phone) = Some [] \<and>
     str_at m (sms_key cc phone 1) = Some (rq_SmsCode req) \<and> rq_SmsCode req \<noteq> [] \<and>
     \<not> (sms_mode (sv_sms v) = ''dev'' \<and> sms_bypass (sv_sms v) \<noteq> [] \<and> rq_SmsCode req = sms_bypass (sv_sms v)) \<and>
     (\<exists>kap. str_at m (kaptchaKey phone) = Some kap \<and> EqualFold (ev_feq E) (TrimSpace kap) (TrimSpace (rq_Kaptcha req)))"

context redis_server
begin

lemma register_prelude:
  assumes "sv_rdb v = R" "sms_rdb (sv_sms v) = Some R" "live (w_redis w)" "register_request req cc phone inp"
    and "mgr_Mode (w_dgr w) = ModeNormal" "register_ready E v req cc phone (view (w_redis w))"
  shows "\<exists>r. live r \<and> view r = drop_keys [kaptchaKey phone] (drop_keys [sms_key cc phone 1] (view (w_redis w))) \<and>
    handleRegister E v inp w = register_answer E v cc req (with_token (ev_sel E 0) (register_section E v req cc) (put_redis r w))"
proof -
  let ?s = "w_redis w" and ?k = "sms_key cc phone 1"
  note rd = assms(6) [unfolded register_ready_def]
  define s1 where "s1 = snd (r_del R [?k] ?s)"
  have d1: "live s1" "view s1 = drop_keys [?k] (view ?s)" using del_law [OF assms(3), of "[?k]"] by (simp_all add: s1_def)
  have ver: "Verify (sv_sms v) cc phone 1 (rq_SmsCode req) ?s = (True, s1)"
    using Verify_live [OF assms(2,3), of cc phone 1 "rq_SmsCode req"] rd by (simp add: s1_def)
  obtain kap where kap: "str_at (view ?s) (kaptchaKey phone) = Some kap" "EqualFold (ev_feq E) (TrimSpace kap) (TrimSpace (rq_Kaptcha req))"
    using rd by blast
  have "kaptchaKey phone \<noteq> ?k" by (simp add: kaptchaKey_def sms_key_def smsKeyPrefix_def Let_def)
  then have "str_at (view s1) (kaptchaKey phone) = Some kap" using kap(1) d1(2) by (simp add: str_at_def)
  note g = get_string [OF d1(1) this]
  define s2 where "s2 = snd (r_del R [kaptchaKey phone] s1)"
  have d2: "live s2" "view s2 = drop_keys [kaptchaKey phone] (view s1)" using del_law [OF d1(1), of "[kaptchaKey phone]"] by (simp_all add: s2_def)
  have i: "fst (r_get R (idemKey cc phone) ?s) = Inr []" "snd (r_get R (idemKey cc phone) ?s) = ?s"
    using get_string [OF assms(3), of "idemKey cc phone" "[]"] rd by simp_all
  note rr = assms(4) [unfolded register_request_def]
  have short: "\<not> RuneCountInString (rq_NickName req) < 2" using rr by simp
  have "handleRegister E v inp w = register_answer E v cc req (with_token (ev_sel E 0) (register_section E v req cc) (put_redis s2 w))"
    using rr short register_request_name [OF assms(4)] normal_serves [OF assms(5)] assms(1) i ver g kap(2)
    by (simp add: handleRegister_def Let_def on_redis_put get_or_empty_def s2_def [symmetric] register_answer_def)
  then show ?thesis using d1 d2 by auto
qed

end

section \<open>The critical section\<close>

definition wired :: "'r redis \<Rightarrow> 'd sql_db \<Rightarrow> Schema \<Rightarrow> ('r, 'l, 'b, 'd) service \<Rightarrow> bool" where
  "wired R D sc v \<longleftrightarrow> sv_rdb v = R \<and> sms_rdb (sv_sms v) = Some R \<and> ss_rdb (sv_sessions v) = Some R \<and> sv_D v = D \<and> sv_sc v = sc"

definition healthy :: "('r \<Rightarrow> bool) \<Rightarrow> ('d \<Rightarrow> bool) \<Rightarrow> ('r, 'l, 'b, 'd) world \<Rightarrow> bool" where
  "healthy live up w \<longleftrightarrow> live (w_redis w) \<and> up (w_db w)"

text \<open>The row a registration writes: the next uid, the salted hash of the password.\<close>

definition account :: "env \<Rightarrow> registerReq \<Rightarrow> string \<Rightarrow> int \<Rightarrow> rng \<Rightarrow> User" where
  "account E req cc uid t =
     stamped (ev_clk E 2 div 1000000000)
       (new_user req cc uid (DBPassword (rq_Password req) (base64_EncodeToString (take 32 t))) (base64_EncodeToString (take 32 t)))"

lemma account_simps [simp]:
  "us_UID (account E req cc uid t) = uid" "us_Phone (account E req cc uid t) = rq_Phone req" "us_CountryCode (account E req cc uid t) = cc"
  "us_LoginName (account E req cc uid t) = rq_Phone req" "us_Status (account E req cc uid t) = 1"
  "us_PwdType (account E req cc uid t) = PwdTypeMD5" "us_UserType (account E req cc uid t) = 1"
  "us_NickName (account E req cc uid t) = rq_NickName req" "us_Icon (account E req cc uid t) = rq_Icon req"
  by (simp_all add: account_def new_user_def)

lemma account_password:
  "VerifyPassword q (us_Password (account E req cc uid t)) (us_Salt (account E req cc uid t)) \<longleftrightarrow>
     q \<noteq> [] \<and> MD5Hex (rq_Password req @ base64_EncodeToString (take 32 t)) = MD5Hex (q @ base64_EncodeToString (take 32 t))"
  by (simp add: VerifyPassword_iff account_def new_user_def DBPassword_def)

text \<open>Keys of the session store.\<close>

definition session_key :: "string \<Rightarrow> bool" where
  "session_key k \<longleftrightarrow> has_prefix k sessKeyPrefix \<or> has_prefix k refreshKeyPrefix"

text \<open>The two servers together.\<close>

locale account_service = redis_server R view live dbl + user_table D sc rows up
  for R :: "'r redis" and view live dbl and D :: "'d sql_db" and sc rows up
begin

lemma find_by_phone_healthy:
  assumes "wired R D sc v" "healthy live up w" "list_all is_digit cc" "list_all is_digit phone"
  shows "\<exists>d. find_by_phone v cc phone w = (found (by_phone cc phone (rows (w_db w))), w\<lparr>w_db := d\<rparr>) \<and> up d \<and> rows d = rows (w_db w)"
  using phone_law [of "w_db w" cc phone] phone_keeps [of "w_db w" cc phone] assms
  by (auto simp: find_by_phone_def on_db_def wired_def healthy_def split: prod.splits)

lemma alloc_uid_healthy:
  assumes "wired R D sc v" "healthy live up w" "counter_at (view (w_redis w)) uidKey = Some c" "c < 2 ^ 63 - 1"
  shows "\<exists>r. alloc_uid v w = (c + 1, put_redis r w) \<and> live r \<and> (\<forall>k. k \<noteq> uidKey \<longrightarrow> view r k = view (w_redis w) k)"
proof -
  note i = incr_law [of "w_redis w" uidKey c]
  have "AllocUID (Some R) D sc (w_redis w, w_db w) = (c + 1, snd (r_incr R uidKey (w_redis w)), w_db w)"
    using i assms by (cases "r_incr R uidKey (w_redis w)") (simp add: AllocUID_def healthy_def)
  then show ?thesis using i assms by (auto simp: alloc_uid_def wired_def healthy_def put_redis_def)
qed

lemma HashPassword_ok:
  "p \<noteq> [] \<Longrightarrow> 32 \<le> length t \<Longrightarrow>
   HashPassword p t = (Inr (DBPassword p (base64_EncodeToString (take 32 t)), base64_EncodeToString (take 32 t)), drop 32 t)"
  by (simp add: HashPassword_def RandomSalt_def rand_read_def)

lemma register_section_ok:
  assumes "wired R D sc v" "healthy live up w" "list_all is_digit cc" "list_all is_digit (rq_Phone req)"
    and "by_phone cc (rq_Phone req) (rows (w_db w)) = None"
    and "counter_at (view (w_redis w)) uidKey = Some c" "c < 2 ^ 63 - 1"
    and "rq_Password req \<noteq> []" "32 \<le> length (w_rng w)"
    and "storable (account E req cc (c + 1) (w_rng w))"
    and "list_all (\<lambda>x. \<not> clashes (account E req cc (c + 1) (w_rng w)) x) (rows (w_db w))"
  shows "\<exists>r d. register_section E v req cc w =
      (Inr (account E req cc (c + 1) (w_rng w)), (put_redis r w)\<lparr>w_db := d, w_rng := drop 32 (w_rng w)\<rparr>) \<and>
    live r \<and> (\<forall>k. k \<noteq> uidKey \<longrightarrow> view r k = view (w_redis w) k) \<and>
    up d \<and> rows d = rows (w_db w) @ [account E req cc (c + 1) (w_rng w)]"
proof -
  obtain d1 where f: "find_by_phone v cc (rq_Phone req) w = (Inl ErrNotFound, w\<lparr>w_db := d1\<rparr>)" "up d1" "rows d1 = rows (w_db w)"
    using find_by_phone_healthy [OF assms(1-4)] assms(5) by (auto simp: found_def)
  have h: "healthy live up (w\<lparr>w_db := d1\<rparr>)" using assms(2) f(2) by (simp add: healthy_def)
  obtain r where r: "alloc_uid v (w\<lparr>w_db := d1\<rparr>) = (c + 1, put_redis r (w\<lparr>w_db := d1\<rparr>))" "live r"
    "\<forall>k. k \<noteq> uidKey \<longrightarrow> view r k = view (w_redis w) k"
    using alloc_uid_healthy [OF assms(1) h, of c] assms(6,7) by auto
  let ?now = "ev_clk E 2 div 1000000000"
  let ?u = "new_user req cc (c + 1) (DBPassword (rq_Password req) (base64_EncodeToString (take 32 (w_rng w)))) (base64_EncodeToString (take 32 (w_rng w)))"
  have a: "account E req cc (c + 1) (w_rng w) = stamped ?now ?u" by (simp add: account_def)
  have cl: "clashes (stamped ?now ?u) x = clashes ?u x" for x by (simp add: clashes_def)
  note ins = insert_law [OF f(2), of ?now ?u]
  have i: "fst (user_Insert D sc ?now ?u d1) = (None, stamped ?now ?u)" "up (snd (user_Insert D sc ?now ?u d1))"
    "rows (snd (user_Insert D sc ?now ?u d1)) = rows (w_db w) @ [stamped ?now ?u]"
    using ins assms(10,11) f(3) by (simp_all add: a cl)
  show ?thesis
    using f r i HashPassword_ok [OF assms(8,9)] assms(1) unfolding a
    by (cases "user_Insert D sc ?now ?u d1")
      (auto simp: register_section_def on_db_def wired_def put_redis_def intro!: exI [of _ r] exI [of _ "snd (user_Insert D sc ?now ?u d1)"])
qed

lemma session_key_simps [simp]: "session_key (sessKeyPrefix @ x)" "session_key (refreshKeyPrefix @ x)"
  by (simp_all add: session_key_def has_prefix_def)

lemma issue_healthy:
  assumes "ss_rdb st = Some R" "healthy live up w" "56 \<le> length (w_rng w)"
  shows "\<exists>sess r. on_redis_rng (IssueUser st now uid nick icon ut plat) w = (Inr sess, (put_redis r w)\<lparr>w_rng := drop 56 (w_rng w)\<rparr>) \<and>
    live r \<and> (\<forall>k. \<not> session_key k \<longrightarrow> view r k = view (w_redis w) k)"
proof -
  have l: "live (w_redis w)" using assms(2) by (simp add: healthy_def)
  obtain s' ttl where i: "IssueUser st now uid nick icon ut plat (w_redis w, w_rng w) =
      (Inr (issued st now uid nick icon ut plat (w_rng w)), s', drop 56 (w_rng w))" "live s'"
    "view s' = (view (w_redis w))(sessKeyPrefix @ hex_EncodeToString (take 24 (w_rng w)) \<mapsto>
         (RStr (json_print (session_json (issued st now uid nick icon ut plat (w_rng w)))), Some ttl),
       refreshKeyPrefix @ hex_EncodeToString (take 32 (drop 24 (w_rng w))) \<mapsto> (RStr (hex_EncodeToString (take 24 (w_rng w))), Some ttl))"
    by (rule IssueUser_live [OF assms(1) l assms(3)])
  then show ?thesis by (auto simp: on_redis_rng_def intro!: exI [of _ s'])
qed

lemma buildAuthResponse_healthy:
  assumes "wired R D sc v" "healthy live up w"
  shows "\<exists>resp d. buildAuthResponse v sess u w = (resp, w\<lparr>w_db := d\<rparr>) \<and> up d \<and> rows d = rows (w_db w)"
proof -
  obtain info d where b: "BuildUserInfo D sc u (w_db w) = (info, d)" by force
  then have "d = snd (FindUserGrowForValue D sc (us_Grow u) (w_db w))"
    by (auto simp: BuildUserInfo_def Let_def split: prod.splits)
  then show ?thesis using grow_keeps [of "w_db w" "us_Grow u"] assms b
    by (auto simp: buildAuthResponse_def on_db_def wired_def healthy_def)
qed

lemma json_object_ne: "jsonBytes (JObj ms) \<noteq> []" by (simp add: jsonBytes_def)

lemma finish_register_healthy:
  assumes "wired R D sc v" "healthy live up w" "56 \<le> length (w_rng w)"
  shows "\<exists>body r d. finish_register E v cc req u w =
      Some ((Some body, CodeOK, []), (put_redis r w)\<lparr>w_db := d, w_rng := drop 56 (w_rng w)\<rparr>) \<and>
    body \<noteq> [] \<and> live r \<and> up d \<and> rows d = rows (w_db w) \<and> str_at (view r) (idemKey cc (rq_Phone req)) = Some body \<and>
    (\<forall>k. \<not> session_key k \<and> k \<noteq> idemKey cc (rq_Phone req) \<longrightarrow> view r k = view (w_redis w) k)"
proof -
  let ?k = "idemKey cc (rq_Phone req)"
  have ss: "ss_rdb (sv_sessions v) = Some R" using assms(1) by (simp add: wired_def)
  obtain sess r where i: "on_redis_rng (IssueUser (sv_sessions v) (ev_clk E 1) (us_UID u) (us_NickName u) (us_Icon u) (us_UserType u) (rq_Plat req)) w =
      (Inr sess, (put_redis r w)\<lparr>w_rng := drop 56 (w_rng w)\<rparr>)" "live r" "\<forall>k. \<not> session_key k \<longrightarrow> view r k = view (w_redis w) k"
    using issue_healthy [OF ss assms(2,3)] by blast
  let ?w1 = "(put_redis r w)\<lparr>w_rng := drop 56 (w_rng w)\<rparr>"
  have h: "healthy live up ?w1" using assms(2) i(2) by (simp add: healthy_def)
  obtain resp d where b: "buildAuthResponse v sess u ?w1 = (resp, ?w1\<lparr>w_db := d\<rparr>)" "up d" "rows d = rows (w_db w)"
    using buildAuthResponse_healthy [OF assms(1) h, of sess u] by auto
  define body where "body = jsonBytes (auth_response_json resp)"
  define r2 where "r2 = snd (r_setex R ?k body 60 r)"
  have x: "live r2" "view r2 = (view r)(?k \<mapsto> (RStr body, Some 60))" using setex_law [OF i(2), of 60 ?k body] by (simp_all add: r2_def)
  have "finish_register E v cc req u w = Some ((Some body, CodeOK, []), (put_redis r2 w)\<lparr>w_db := d, w_rng := drop 56 (w_rng w)\<rparr>)"
    using i(1) b(1) assms(1)
    by (simp add: finish_register_def on_redis_put body_def [symmetric] r2_def [symmetric] wired_def) (simp add: put_redis_def r2_def)
  moreover have "body \<noteq> []" by (simp add: body_def auth_response_json_def json_object_ne)
  ultimately show ?thesis using x b i(3)
    by (intro exI [of _ body] exI [of _ r2] exI [of _ d]) simp
qed

text \<open>A registration that reaches its critical section with everything in order.\<close>

lemma register_healthy:
  assumes "wired R D sc v" "healthy live up w" "register_request req cc phone inp" "mgr_Mode (w_dgr w) = ModeNormal"
    and "register_ready E v req cc phone (view (w_redis w))" "list_all is_digit cc" "list_all is_digit phone"
    and "by_phone cc phone (rows (w_db w)) = None" "counter_at (view (w_redis w)) uidKey = Some c" "c < 2 ^ 63 - 1"
    and "rq_Password req \<noteq> []" "88 \<le> length (w_rng w)" "storable (account E req cc (c + 1) (w_rng w))"
    and "list_all (\<lambda>x. \<not> clashes (account E req cc (c + 1) (w_rng w)) x) (rows (w_db w))"
    and "free_token w" "ev_sel E 0 = GotToken"
  shows "\<exists>body w1. handleRegister E v inp w = Some ((Some body, CodeOK, []), w1) \<and> body \<noteq> [] \<and> healthy live up w1 \<and>
    rows (w_db w1) = rows (w_db w) @ [account E req cc (c + 1) (w_rng w)] \<and> w_dgr w1 = w_dgr w \<and> w_rng w1 = drop 88 (w_rng w) \<and>
    str_at (view (w_redis w1)) (idemKey cc phone) = Some body \<and>
    (\<forall>k. \<not> session_key k \<and> k \<notin> {idemKey cc phone, uidKey, kaptchaKey phone, sms_key cc phone 1} \<longrightarrow>
       view (w_redis w1) k = view (w_redis w) k)"
proof -
  let ?u = "account E req cc (c + 1) (w_rng w)"
  have wi: "sv_rdb v = R" "sms_rdb (sv_sms v) = Some R" using assms(1) by (simp_all add: wired_def)
  have l: "live (w_redis w)" using assms(2) by (simp add: healthy_def)
  have ph: "rq_Phone req = phone" using assms(3) by (simp add: register_request_def)
  obtain r0 where r0: "live r0" "view r0 = drop_keys [kaptchaKey phone] (drop_keys [sms_key cc phone 1] (view (w_redis w)))"
    "handleRegister E v inp w = register_answer E v cc req (with_token (ev_sel E 0) (register_section E v req cc) (put_redis r0 w))"
    using register_prelude [OF wi l assms(3,4,5)] by blast
  let ?w0 = "put_redis r0 w"
  have h0: "healthy live up ?w0" using assms(2) r0(1) by (simp add: healthy_def)
  have c: "counter_at (view (w_redis ?w0)) uidKey = Some c"
    using assms(9) r0(2) by (simp add: counter_at_def uidKey_def kaptchaKey_def sms_key_def smsKeyPrefix_def Let_def)
  obtain r1 d1 where s: "register_section E v req cc ?w0 = (Inr ?u, (put_redis r1 ?w0)\<lparr>w_db := d1, w_rng := drop 32 (w_rng w)\<rparr>)"
    "live r1" "\<forall>k. k \<noteq> uidKey \<longrightarrow> view r1 k = view r0 k" "up d1" "rows d1 = rows (w_db w) @ [?u]"
    using register_section_ok [OF assms(1) h0 assms(6), of req c E] c assms(7,8,10-14) ph by auto
  obtain so where t: "with_token (ev_sel E 0) (register_section E v req cc) ?w0 =
      Some (Inr ?u, (put_redis r1 w)\<lparr>w_db := d1, w_rng := drop 32 (w_rng w), w_sem := so\<rparr>)"
    using with_token_run [of ?w0 "register_section E v req cc"] s(1) assms(15,16) by (auto simp: free_token_def)
  let ?w2 = "(put_redis r1 w)\<lparr>w_db := d1, w_rng := drop 32 (w_rng w), w_sem := so\<rparr>"
  have h2: "healthy live up ?w2" using s by (simp add: healthy_def put_redis_def)
  have "56 \<le> length (w_rng ?w2)" using assms(12) by simp
  then obtain body r2 d2 where f: "finish_register E v cc req ?u ?w2 =
      Some ((Some body, CodeOK, []), (put_redis r2 ?w2)\<lparr>w_db := d2, w_rng := drop 56 (w_rng ?w2)\<rparr>)"
    "body \<noteq> []" "live r2" "up d2" "rows d2 = rows d1" "str_at (view r2) (idemKey cc phone) = Some body"
    "\<forall>k. \<not> session_key k \<and> k \<noteq> idemKey cc phone \<longrightarrow> view r2 k = view (w_redis ?w2) k"
    using finish_register_healthy [OF assms(1) h2, of E cc req ?u] ph by auto
  have "handleRegister E v inp w = Some ((Some body, CodeOK, []), (put_redis r2 ?w2)\<lparr>w_db := d2, w_rng := drop 56 (w_rng ?w2)\<rparr>)"
    using r0(3) t f(1) by (simp add: register_answer_def)
  then show ?thesis using f s(3,5) r0(2)
    by (intro exI [of _ body] exI [of _ "(put_redis r2 ?w2)\<lparr>w_db := d2, w_rng := drop 56 (w_rng ?w2)\<rparr>"])
      (simp add: healthy_def put_redis_def)
qed

end

section \<open>Login\<close>

definition login_request :: "loginReq \<Rightarrow> string \<Rightarrow> string \<Rightarrow> CallReq \<Rightarrow> bool" where
  "login_request req cc phone inp \<longleftrightarrow>
     unmarshal_struct login_fields (cr_ParamJson inp) zero_login = (False, req) \<and> lq_AccountType req \<noteq> 0 \<and> lq_LoginMode req = 1 \<and>
     lq_LoginType req = 1 \<and> lq_Phone req = phone \<and> phone \<noteq> [] \<and> lq_PwdType req = PwdTypeMD5 \<and> normalizeCC (lq_CountryCode req) = cc \<and>
     validatePhone cc phone"

definition loginRateKey :: "string \<Rightarrow> string \<Rightarrow> string" where
  "loginRateKey cc phone = ''yuyan:ratelimit:login:rl:'' @ cc @ '':'' @ phone"

lemma find_append: "find P (xs @ ys) = (case find P xs of None \<Rightarrow> find P ys | Some x \<Rightarrow> Some x)"
  by (induction xs) auto

lemma recordLoginFail_db [simp]: "w_db (recordLoginFail v cc phone w) = w_db w"
  by (simp add: recordLoginFail_def on_redis_put Let_def split: sum.splits)

context account_service
begin

lemma finish_login_right:
  assumes "wired R D sc v" "healthy live up w" "56 \<le> length (w_rng w)" "us_PwdType u = PwdTypeMD5" "us_Status u = 1"
    and "VerifyPassword (lq_Password req) (us_Password u) (us_Salt u)"
  shows "\<exists>body w1. finish_login E v cc req u w = Some ((Some body, CodeOK, []), w1) \<and> rows (w_db w1) = rows (w_db w)"
proof -
  define r where "r = snd (r_del R [failKey cc (lq_Phone req)] (w_redis w))"
  let ?w1 = "put_redis r w"
  have h1: "healthy live up ?w1" using del_law [of "w_redis w" "[failKey cc (lq_Phone req)]"] assms(2) by (simp add: healthy_def r_def)
  have ss: "ss_rdb (sv_sessions v) = Some R" "sv_rdb v = R" using assms(1) by (simp_all add: wired_def)
  obtain sess r2 where i: "on_redis_rng (IssueUser (sv_sessions v) (ev_clk E 1) (us_UID u) (us_NickName u) (us_Icon u) (us_UserType u) (lq_Plat req)) ?w1 =
      (Inr sess, (put_redis r2 ?w1)\<lparr>w_rng := drop 56 (w_rng ?w1)\<rparr>)" "live r2"
    using issue_healthy [OF ss(1) h1, of "ev_clk E 1" "us_UID u" "us_NickName u" "us_Icon u" "us_UserType u" "lq_Plat req"] assms(3) by auto
  let ?w2 = "(put_redis r2 ?w1)\<lparr>w_rng := drop 56 (w_rng ?w1)\<rparr>"
  have h2: "healthy live up ?w2" using assms(2) i(2) by (simp add: healthy_def)
  obtain resp d where b: "buildAuthResponse v sess u ?w2 = (resp, ?w2\<lparr>w_db := d\<rparr>)" "rows d = rows (w_db w)"
    using buildAuthResponse_healthy [OF assms(1) h2, of sess u] by auto
  show ?thesis using i(1) b ss(2) assms(4-6) by (simp add: finish_login_def on_redis_put r_def [symmetric])
qed

lemma login_reaches_row:
  assumes "wired R D sc v" "healthy live up w" "login_request req cc phone inp" "CanServeLevel (w_dgr w) LevelAuth"
    and "zset_at (view (w_redis w)) (loginRateKey cc phone) = Some z" "length z < 10" "str_at (view (w_redis w)) (lockKey cc phone) = Some []"
    and "list_all is_digit cc" "list_all is_digit phone" "by_phone cc phone (rows (w_db w)) = Some u"
    and "free_token w" "ev_sel E 0 = GotToken"
  shows "\<exists>w3 z3. handleLogin E v inp w = finish_login E v cc req u w3 \<and> healthy live up w3 \<and> rows (w_db w3) = rows (w_db w) \<and>
    w_rng w3 = w_rng w \<and> w_dgr w3 = w_dgr w \<and> zset_at (view (w_redis w3)) (loginRateKey cc phone) = Some z3 \<and> length z3 \<le> Suc (length z) \<and>
    (\<forall>k. k \<noteq> loginRateKey cc phone \<longrightarrow> view (w_redis w3) k = view (w_redis w) k)"
proof -
  let ?lim = "NewLimiter (Some R) 10 ''yuyan:ratelimit:login''" and ?id = "cc @ '':'' @ phone"
  let ?a = "Allow (Some ?lim) (ev_clk E 0) ?id (w_redis w)"
  have l: "lim_rdb ?lim = Some R" "lim_window ?lim = minute" "lim_perMin ?lim = 10" by (simp_all add: NewLimiter_def Let_def)
  have k: "rl_key ?lim ?id = loginRateKey cc phone" by (simp add: rl_key_def loginRateKey_def NewLimiter_def Let_def)
  have lv: "live (w_redis w)" using assms(2) by (simp add: healthy_def)
  define z1 where "z1 = zrem (dbl 0) (dbl (ev_clk E 0 - minute)) z"
  have z1: "length z1 \<le> length z" by (simp add: z1_def zrem_def)
  have z: "zset_at (view (w_redis w)) (rl_key ?lim ?id) = Some z" unfolding k by (rule assms(5))
  note al = Allow_live [OF l(1,2) lv z z1_def]
  have allowed: "fst ?a" "live (snd ?a)" using al(1,2) l(3) z1 assms(6) by simp_all
  have z3: "zset_at (view (snd ?a)) (loginRateKey cc phone) = Some (zput (itoa (ev_clk E 0)) (dbl (ev_clk E 0)) z1)"
    using al(3) l(3) z1 assms(6) unfolding k by simp
  have z3_len: "length (zput (itoa (ev_clk E 0)) (dbl (ev_clk E 0)) z1) \<le> Suc (length z)"
    using z1 by (simp add: zput_def order_trans [OF length_filter_le])
  have fr: "view (snd ?a) k = view (w_redis w) k" if "k \<noteq> loginRateKey cc phone" for k
    using Allow_frame [OF l(1,2) lv z] that unfolding k by simp
  have "lockKey cc phone \<noteq> loginRateKey cc phone" by (simp add: lockKey_def loginRateKey_def)
  then have "str_at (view (snd ?a)) (lockKey cc phone) = Some []" using fr assms(7) by (simp add: str_at_def)
  note g = get_string [OF allowed(2) this]
  let ?w1 = "put_redis (snd ?a) w"
  have h1: "healthy live up ?w1" using assms(2) allowed(2) by (simp add: healthy_def)
  obtain d where f: "find_by_phone v cc phone ?w1 = (Inr u, ?w1\<lparr>w_db := d\<rparr>)" "up d" "rows d = rows (w_db w)"
    using find_by_phone_healthy [OF assms(1) h1 assms(8,9)] assms(10) by (auto simp: found_def)
  obtain so where t: "with_token (ev_sel E 0) (\<lambda>w. failing (find_by_phone v cc phone w)) ?w1 = Some (Inr u, ?w1\<lparr>w_db := d, w_sem := so\<rparr>)"
    using with_token_run [of ?w1 "\<lambda>w. failing (find_by_phone v cc phone w)"] f(1) assms(11,12) by (auto simp: free_token_def failing_def)
  have "handleLogin E v inp w = finish_login E v cc req u (?w1\<lparr>w_db := d, w_sem := so\<rparr>)"
    using assms(1,3,4) allowed(1) g t
    by (simp add: handleLogin_def login_request_def wired_def Let_def on_redis_put login_limiter_def get_or_empty_def)
  then show ?thesis using f(2,3) allowed(2) z3 z3_len fr
    by (intro exI [of _ "?w1\<lparr>w_db := d, w_sem := so\<rparr>"] exI [of _ "zput (itoa (ev_clk E 0)) (dbl (ev_clk E 0)) z1"])
      (simp add: healthy_def put_redis_def)
qed

lemma login_healthy:
  assumes "wired R D sc v" "healthy live up w" "login_request req cc phone inp" "CanServeLevel (w_dgr w) LevelAuth"
    and "view (w_redis w) (loginRateKey cc phone) = None" "str_at (view (w_redis w)) (lockKey cc phone) = Some []"
    and "list_all is_digit cc" "list_all is_digit phone" "by_phone cc phone (rows (w_db w)) = Some u"
    and "free_token w" "ev_sel E 0 = GotToken" "56 \<le> length (w_rng w)" "us_PwdType u = PwdTypeMD5" "us_Status u = 1"
  shows "\<exists>result code meg w1. handleLogin E v inp w = Some ((result, code, meg), w1) \<and> rows (w_db w1) = rows (w_db w) \<and>
    (if VerifyPassword (lq_Password req) (us_Password u) (us_Salt u) then code = CodeOK \<and> result \<noteq> None else code = CodePasswordWrong \<and> result = None)"
proof -
  have z: "zset_at (view (w_redis w)) (loginRateKey cc phone) = Some []" using assms(5) by (simp add: zset_at_def)
  obtain w3 where w3: "handleLogin E v inp w = finish_login E v cc req u w3" "healthy live up w3" "rows (w_db w3) = rows (w_db w)" "w_rng w3 = w_rng w"
    using login_reaches_row [OF assms(1-4) z _ assms(6-11)] by auto
  show ?thesis
  proof (cases "VerifyPassword (lq_Password req) (us_Password u) (us_Salt u)")
    case True
    then show ?thesis using finish_login_right [OF assms(1) w3(2), of u req E cc] w3 assms(12-14) by auto
  next
    case False
    then show ?thesis using w3 assms(13) by (simp add: finish_login_def)
  qed
qed

end

section \<open>Properties\<close>

text \<open>A registration that is in order: both servers reachable, the normal mode, the SMS code sent to that phone, a matching
  captcha, a phone, uid and login name that no row has, a row the table can hold, a password, random bytes and a free token.
  The next uid is \<open>c + 1\<close>.\<close>

definition in_order ::
  "('r \<Rightarrow> keyspace) \<Rightarrow> ('r \<Rightarrow> bool) \<Rightarrow> ('d \<Rightarrow> User list) \<Rightarrow> ('d \<Rightarrow> bool) \<Rightarrow> env \<Rightarrow> ('r, 'l, 'b, 'd) service \<Rightarrow> registerReq \<Rightarrow>
   string \<Rightarrow> string \<Rightarrow> CallReq \<Rightarrow> int \<Rightarrow> ('r, 'l, 'b, 'd) world \<Rightarrow> bool" where
  "in_order view live rows up E v req cc phone inp c w \<longleftrightarrow>
     healthy live up w \<and> register_request req cc phone inp \<and> mgr_Mode (w_dgr w) = ModeNormal \<and>
     register_ready E v req cc phone (view (w_redis w)) \<and> list_all is_digit cc \<and> list_all is_digit phone \<and>
     by_phone cc phone (rows (w_db w)) = None \<and> counter_at (view (w_redis w)) uidKey = Some c \<and> c < 2 ^ 63 - 1 \<and>
     rq_Password req \<noteq> [] \<and> 88 \<le> length (w_rng w) \<and> storable (account E req cc (c + 1) (w_rng w)) \<and>
     list_all (\<lambda>x. \<not> clashes (account E req cc (c + 1) (w_rng w)) x) (rows (w_db w)) \<and> free_token w \<and> ev_sel E 0 = GotToken"

lemma in_order_registers:
  assumes "account_service R view live dbl D sc rows up" "wired R D sc v" "in_order view live rows up E v req cc phone inp c w"
  shows "\<exists>body w1. handleRegister E v inp w = Some ((Some body, CodeOK, []), w1) \<and> body \<noteq> [] \<and> healthy live up w1 \<and>
    rows (w_db w1) = rows (w_db w) @ [account E req cc (c + 1) (w_rng w)] \<and> w_dgr w1 = w_dgr w \<and> w_rng w1 = drop 88 (w_rng w) \<and>
    str_at (view (w_redis w1)) (idemKey cc phone) = Some body \<and>
    (\<forall>k. \<not> session_key k \<and> k \<notin> {idemKey cc phone, uidKey, kaptchaKey phone, sms_key cc phone 1} \<longrightarrow>
       view (w_redis w1) k = view (w_redis w) k)"
  using assms(3) unfolding in_order_def
  by (intro account_service.register_healthy [OF assms(1,2)]) simp_all

lemma register_free: "handleRegister E v inp w = Some (rp, w1) \<Longrightarrow> free_token w \<Longrightarrow> free_token w1"
  using handleRegister_sem free_token_same unfolding keeps_sem_def by blast

text \<open>C7: an account that registers can log in.  A registration that is in order answers 200 and adds exactly one row, for the
  next uid; from then on a login for that phone answers 200 for the registered password and refuses
  a password with another salted digest; no other row changes.\<close>

theorem register_then_login:
  assumes "account_service R view live dbl D sc rows up" and "wired R D sc v"
    and "in_order view live rows up E v req cc phone inp c w" and "144 \<le> length (w_rng w)"
    and "login_request lreq cc phone linp" and "ev_sel E' 0 = GotToken"
    and "view (w_redis w) (loginRateKey cc phone) = None" and "str_at (view (w_redis w)) (lockKey cc phone) = Some []"
  shows "\<exists>body w1 result code meg w2.
    handleRegister E v inp w = Some ((Some body, CodeOK, []), w1) \<and>
    rows (w_db w1) = rows (w_db w) @ [account E req cc (c + 1) (w_rng w)] \<and>
    handleLogin E' v linp w1 = Some ((result, code, meg), w2) \<and> rows (w_db w2) = rows (w_db w1) \<and>
    (if lq_Password lreq \<noteq> [] \<and> MD5Hex (rq_Password req @ base64_EncodeToString (take 32 (w_rng w))) =
        MD5Hex (lq_Password lreq @ base64_EncodeToString (take 32 (w_rng w)))
     then code = CodeOK \<and> result \<noteq> None else code = CodePasswordWrong \<and> result = None)"
proof -
  let ?u = "account E req cc (c + 1) (w_rng w)"
  note io = assms(3) [unfolded in_order_def]
  obtain body w1 where w1: "handleRegister E v inp w = Some ((Some body, CodeOK, []), w1)" "healthy live up w1"
    "rows (w_db w1) = rows (w_db w) @ [?u]" "w_dgr w1 = w_dgr w" "w_rng w1 = drop 88 (w_rng w)"
    and fr: "\<forall>k. \<not> session_key k \<and> k \<notin> {idemKey cc phone, uidKey, kaptchaKey phone, sms_key cc phone 1} \<longrightarrow>
       view (w_redis w1) k = view (w_redis w) k"
    using in_order_registers [OF assms(1-3)] by blast
  have free: "free_token w1" using register_free [OF w1(1)] io by simp
  have row: "by_phone cc phone (rows (w_db w1)) = Some ?u"
    using io w1(3) by (simp add: by_phone_def find_append register_request_def)
  have keys: "view (w_redis w1) (loginRateKey cc phone) = None" "str_at (view (w_redis w1)) (lockKey cc phone) = Some []"
    using fr [rule_format, of "loginRateKey cc phone"] fr [rule_format, of "lockKey cc phone"] assms(7,8)
    by (simp_all add: loginRateKey_def lockKey_def session_key_def sessKeyPrefix_def refreshKeyPrefix_def has_prefix_def idemKey_def
        uidKey_def kaptchaKey_def sms_key_def smsKeyPrefix_def Let_def str_at_def)
  have auth: "CanServeLevel (w_dgr w1) LevelAuth" using w1(4) normal_serves [of "w_dgr w"] io by simp
  have digits: "list_all is_digit cc" "list_all is_digit phone" using io by simp_all
  note lg = account_service.login_healthy [OF assms(1,2) w1(2) assms(5) auth keys digits row free assms(6)]
  show ?thesis using lg w1(1,3,5) assms(4) account_password by auto
qed

text \<open>C38: the idempotency window.  After such a registration every registration request for the same phone gets
  the very same answer, session tokens included, and changes nothing; neither its SMS code nor its captcha nor
  its password is looked at.\<close>

theorem register_replay:
  assumes "account_service R view live dbl D sc rows up" and "wired R D sc v"
    and "in_order view live rows up E v req cc phone inp c w" and "register_request req' cc phone inp'"
  shows "\<exists>body w1. handleRegister E v inp w = Some ((Some body, CodeOK, []), w1) \<and>
    handleRegister E' v inp' w1 = Some ((Some body, CodeOK, []), w1)"
proof -
  obtain body w1 where w1: "handleRegister E v inp w = Some ((Some body, CodeOK, []), w1)" "body \<noteq> []" "healthy live up w1"
    "w_dgr w1 = w_dgr w" "str_at (view (w_redis w1)) (idemKey cc phone) = Some body"
    using in_order_registers [OF assms(1-3)] by blast
  have R: "redis_server R view live dbl" using assms(1) by (simp add: account_service_def)
  have lv: "live (w_redis w1)" using w1(3) by (simp add: healthy_def)
  have g: "fst (r_get R (idemKey cc phone) (w_redis w1)) = Inr body" "snd (r_get R (idemKey cc phone) (w_redis w1)) = w_redis w1"
    using redis_server.get_string [OF R lv w1(5)] by simp_all
  have n: "CanServeLevel (w_dgr w1) l" for l using w1(4) normal_serves [of "w_dgr w"] assms(3) by (simp add: in_order_def)
  note rr = assms(4) [unfolded register_request_def]
  have short: "\<not> RuneCountInString (rq_NickName req') < 2" using rr by simp
  have "handleRegister E' v inp' w1 = Some ((Some body, CodeOK, []), w1)"
    using rr short register_request_name [OF assms(4)] n g w1(2) assms(2)
    by (simp add: handleRegister_def wired_def Let_def on_redis_put get_or_empty_def)
  then show ?thesis using w1(1) by blast
qed

lemma register_closed:
  assumes "mgr_Mode (w_dgr w) \<noteq> ModeNormal"
  shows "\<exists>code meg. handleRegister E v inp w = Some ((None, code, meg), w) \<and> code \<noteq> CodeOK"
proof -
  have "\<not> CanServeLevel (w_dgr w) LevelWrite"
    using assms by (simp add: mgr_Mode_def CanServeLevel_def LevelWrite_def LevelDisplay_def LevelAuth_def Let_def)
  then show ?thesis by (auto simp: handleRegister_def Let_def code_defs split: prod.splits)
qed

text \<open>C26: a write needs the normal mode.  In any other mode a registration is refused, whatever the request, and nothing at
  all changes: no database row, no Redis key, no random byte, no token.\<close>

theorem register_fails_closed:
  assumes "mgr_Mode (w_dgr w) \<noteq> ModeNormal"
  shows "\<exists>code meg. handleRegister E v inp w = Some ((None, code, meg), w) \<and> code \<noteq> CodeOK"
  by (rule register_closed [OF assms])

lemma recordDBError_degrades: "mgr_Mode (w_dgr w) = ModeNormal \<Longrightarrow> mgr_Mode (w_dgr (recordDBErrorForDegrade w)) = ModeDegraded"
  by (simp add: recordDBErrorForDegrade_def mgr_Mode_def PromoteIfWorse_def mgr_Set_def Severity_def Let_def
      ModeNormal_def ModeDegraded_def ModeProtected_def ModeEmergency_def)

lemma recordDBError_db [simp]: "w_db (recordDBErrorForDegrade w) = w_db w"
  by (simp add: recordDBErrorForDegrade_def)

text \<open>A registration that reaches the critical section.\<close>

definition reaches_section ::
  "('r \<Rightarrow> keyspace) \<Rightarrow> ('r \<Rightarrow> bool) \<Rightarrow> ('d \<Rightarrow> User list) \<Rightarrow> ('d \<Rightarrow> bool) \<Rightarrow> env \<Rightarrow> ('r, 'l, 'b, 'd) service \<Rightarrow> registerReq \<Rightarrow>
   string \<Rightarrow> string \<Rightarrow> CallReq \<Rightarrow> int \<Rightarrow> ('r, 'l, 'b, 'd) world \<Rightarrow> bool" where
  "reaches_section view live rows up E v req cc phone inp c w \<longleftrightarrow>
     healthy live up w \<and> register_request req cc phone inp \<and> mgr_Mode (w_dgr w) = ModeNormal \<and>
     register_ready E v req cc phone (view (w_redis w)) \<and> list_all is_digit cc \<and> list_all is_digit phone \<and>
     by_phone cc phone (rows (w_db w)) = None \<and> counter_at (view (w_redis w)) uidKey = Some c \<and> c < 2 ^ 63 - 1 \<and>
     free_token w \<and> ev_sel E 0 = GotToken"

context account_service
begin

text \<open>Every error of the section other than a taken phone is recorded as a database error.\<close>

lemma section_error_degrades:
  assumes "wired R D sc v" "reaches_section view live rows up E v req cc phone inp c w"
    and "\<And>r. live r \<Longrightarrow> counter_at (view r) uidKey = Some c \<Longrightarrow>
      \<exists>w'. register_section E v req cc (put_redis r w) = (Inl e, w') \<and> w_dgr w' = w_dgr w \<and> rows (w_db w') = rows (w_db w)"
    and "e \<noteq> CModel ErrDuplicate" "\<not> is_ctx e"
  shows "\<exists>w1. handleRegister E v inp w = Some ((None, CodeBusinessError, call_error_text E e), w1) \<and>
    mgr_Mode (w_dgr w1) = ModeDegraded \<and> rows (w_db w1) = rows (w_db w)"
proof -
  note rs = assms(2) [unfolded reaches_section_def]
  have wi: "sv_rdb v = R" "sms_rdb (sv_sms v) = Some R" "live (w_redis w)" using assms(1) rs by (simp_all add: wired_def healthy_def)
  obtain r where r: "live r" "view r = drop_keys [kaptchaKey phone] (drop_keys [sms_key cc phone 1] (view (w_redis w)))"
    "handleRegister E v inp w = register_answer E v cc req (with_token (ev_sel E 0) (register_section E v req cc) (put_redis r w))"
    using register_prelude [OF wi, of req cc phone inp E] rs by blast
  have "counter_at (view r) uidKey = Some c"
    using rs r(2) by (simp add: counter_at_def uidKey_def kaptchaKey_def sms_key_def smsKeyPrefix_def Let_def)
  then obtain w' where s: "register_section E v req cc (put_redis r w) = (Inl e, w')" "w_dgr w' = w_dgr w" "rows (w_db w') = rows (w_db w)"
    using assms(3) [OF r(1)] by blast
  obtain so where "with_token (ev_sel E 0) (register_section E v req cc) (put_redis r w) = Some (Inl e, w'\<lparr>w_sem := so\<rparr>)"
    using with_token_run [of "put_redis r w" "register_section E v req cc"] s(1) rs by (auto simp: free_token_def)
  then have "handleRegister E v inp w = Some ((None, CodeBusinessError, call_error_text E e), recordDBErrorForDegrade (w'\<lparr>w_sem := so\<rparr>))"
    using r(3) assms(4,5) by (simp add: register_answer_def)
  then show ?thesis using s rs recordDBError_degrades [of "w'\<lparr>w_sem := so\<rparr>"] by simp
qed

text \<open>The first two steps of the section.\<close>

lemma section_start:
  assumes "wired R D sc v" "healthy live up w" "list_all is_digit cc" "list_all is_digit (rq_Phone req)"
    and "by_phone cc (rq_Phone req) (rows (w_db w)) = None" "counter_at (view (w_redis w)) uidKey = Some c" "c < 2 ^ 63 - 1"
  shows "\<exists>r d. find_by_phone v cc (rq_Phone req) w = (Inl ErrNotFound, w\<lparr>w_db := d\<rparr>) \<and>
    alloc_uid v (w\<lparr>w_db := d\<rparr>) = (c + 1, put_redis r (w\<lparr>w_db := d\<rparr>)) \<and> up d \<and> rows d = rows (w_db w)"
proof -
  obtain d where d: "find_by_phone v cc (rq_Phone req) w = (Inl ErrNotFound, w\<lparr>w_db := d\<rparr>)" "up d" "rows d = rows (w_db w)"
    using find_by_phone_healthy [OF assms(1-4)] assms(5) by (auto simp: found_def)
  have h: "healthy live up (w\<lparr>w_db := d\<rparr>)" using assms(2) d(2) by (simp add: healthy_def)
  show ?thesis using alloc_uid_healthy [OF assms(1) h, of c] assms(6,7) d by auto
qed

lemma empty_password_section:
  assumes "wired R D sc v" "reaches_section view live rows up E v req cc phone inp c w" "rq_Password req = []"
    and "live r" "counter_at (view r) uidKey = Some c"
  shows "\<exists>w'. register_section E v req cc (put_redis r w) = (Inl (CPwd ErrEmptyPassword), w') \<and> w_dgr w' = w_dgr w \<and> rows (w_db w') = rows (w_db w)"
proof -
  note rs = assms(2) [unfolded reaches_section_def register_request_def]
  have "healthy live up (put_redis r w)" using rs assms(4) by (simp add: healthy_def)
  from section_start [OF assms(1) this, of cc req c] rs assms(5)
  obtain r2 d where "find_by_phone v cc (rq_Phone req) (put_redis r w) = (Inl ErrNotFound, (put_redis r w)\<lparr>w_db := d\<rparr>)"
    "alloc_uid v ((put_redis r w)\<lparr>w_db := d\<rparr>) = (c + 1, put_redis r2 ((put_redis r w)\<lparr>w_db := d\<rparr>))" "rows d = rows (w_db w)"
    by auto
  then show ?thesis using assms(3) by (simp add: register_section_def HashPassword_def)
qed

lemma clash_section:
  assumes "wired R D sc v" "reaches_section view live rows up E v req cc phone inp c w" "rq_Password req \<noteq> []" "32 \<le> length (w_rng w)"
    and "storable (account E req cc (c + 1) (w_rng w))" "list_ex (\<lambda>x. us_LoginName x = phone) (rows (w_db w))"
    and "live r" "counter_at (view r) uidKey = Some c"
  shows "\<exists>w'. register_section E v req cc (put_redis r w) = (Inl (CText m_retry), w') \<and> w_dgr w' = w_dgr w \<and> rows (w_db w') = rows (w_db w)"
proof -
  note rs = assms(2) [unfolded reaches_section_def register_request_def]
  have "healthy live up (put_redis r w)" using rs assms(7) by (simp add: healthy_def)
  from section_start [OF assms(1) this, of cc req c] rs assms(8)
  obtain r2 d where f: "find_by_phone v cc (rq_Phone req) (put_redis r w) = (Inl ErrNotFound, (put_redis r w)\<lparr>w_db := d\<rparr>)"
    "alloc_uid v ((put_redis r w)\<lparr>w_db := d\<rparr>) = (c + 1, put_redis r2 ((put_redis r w)\<lparr>w_db := d\<rparr>))" "up d" "rows d = rows (w_db w)"
    by auto
  let ?now = "ev_clk E 2 div 1000000000"
  let ?u = "new_user req cc (c + 1) (DBPassword (rq_Password req) (base64_EncodeToString (take 32 (w_rng w)))) (base64_EncodeToString (take 32 (w_rng w)))"
  have "list_ex (clashes ?u) (rows d)" using assms(6) f(4) rs by (auto simp: list_ex_iff clashes_def new_user_def)
  then have i: "fst (user_Insert D sc ?now ?u d) = (Some ErrDuplicate, stamped ?now ?u)" "rows (snd (user_Insert D sc ?now ?u d)) = rows (w_db w)"
    using clash_law [OF f(3), of ?now ?u] assms(5) f(4) by (simp_all add: account_def)
  show ?thesis using f i HashPassword_ok [OF assms(3,4)] assms(1)
    by (cases "user_Insert D sc ?now ?u d") (simp add: register_section_def on_db_def wired_def)
qed

end

text \<open>A registration with an empty password closes registration for everybody.  It reaches the critical section with a
  valid SMS code, fails there with the hashing error, and that error is recorded as a database failure: the service is DEGRADED
  afterwards and every later registration is refused.\<close>

theorem empty_password_degrades:
  assumes "account_service R view live dbl D sc rows up" and "wired R D sc v"
    and "reaches_section view live rows up E v req cc phone inp c w" and "rq_Password req = []"
  shows "\<exists>w1. handleRegister E v inp w = Some ((None, CodeBusinessError, ''auth: empty password''), w1) \<and>
    mgr_Mode (w_dgr w1) = ModeDegraded \<and> rows (w_db w1) = rows (w_db w) \<and>
    (\<exists>code meg. handleRegister E' v inp' w1 = Some ((None, code, meg), w1) \<and> code \<noteq> CodeOK)"
proof -
  note sec = account_service.empty_password_section [OF assms]
  obtain w1 where w1: "handleRegister E v inp w = Some ((None, CodeBusinessError, ''auth: empty password''), w1)"
    "mgr_Mode (w_dgr w1) = ModeDegraded" "rows (w_db w1) = rows (w_db w)"
    using account_service.section_error_degrades [OF assms(1-3) sec] by (auto simp: is_ctx_def)
  then have "mgr_Mode (w_dgr w1) \<noteq> ModeNormal" by (simp add: ModeNormal_def ModeDegraded_def)
  then show ?thesis using w1 register_closed by blast
qed

text \<open>One phone number, one country.  The login name of a new row is the bare phone and the table's login names are unique, so
  a phone that is registered under another country code can never register: the insert fails, the client is told to retry, and
  the failure is recorded as a database error, which again closes registration for everybody.\<close>

theorem same_phone_other_country:
  assumes "account_service R view live dbl D sc rows up" and "wired R D sc v"
    and "reaches_section view live rows up E v req cc phone inp c w" and "rq_Password req \<noteq> []" and "32 \<le> length (w_rng w)"
    and "storable (account E req cc (c + 1) (w_rng w))" and "list_ex (\<lambda>x. us_LoginName x = phone) (rows (w_db w))"
  shows "\<exists>w1. handleRegister E v inp w = Some ((None, CodeBusinessError, m_retry), w1) \<and>
    mgr_Mode (w_dgr w1) = ModeDegraded \<and> rows (w_db w1) = rows (w_db w)"
proof -
  note sec = account_service.clash_section [OF assms]
  show ?thesis using account_service.section_error_degrades [OF assms(1-3) sec] by (auto simp: is_ctx_def)
qed

end
