(* ===== verification/Lockout.thy ===== *)
theory Lockout
  imports Accounts
begin

text \<open>
  The lockout of an account: ten logins with a wrong password, one after the other, against the limiter, the failure
  counter and the lock of \<open>handleLogin\<close>.
\<close>

section \<open>Lockout\<close>

text \<open>The state after \<open>n\<close> failed logins for a phone that row \<open>u\<close> has.\<close>

definition attacked ::
  "('r \<Rightarrow> keyspace) \<Rightarrow> ('r \<Rightarrow> bool) \<Rightarrow> ('d \<Rightarrow> User list) \<Rightarrow> ('d \<Rightarrow> bool) \<Rightarrow> string \<Rightarrow> string \<Rightarrow> User \<Rightarrow> nat \<Rightarrow> ('r, 'l, 'b, 'd) world \<Rightarrow> bool" where
  "attacked view live rows up cc phone u n w \<longleftrightarrow>
     healthy live up w \<and> CanServeLevel (w_dgr w) LevelAuth \<and> free_token w \<and> list_all is_digit cc \<and> list_all is_digit phone \<and>
     by_phone cc phone (rows (w_db w)) = Some u \<and> counter_at (view (w_redis w)) (failKey cc phone) = Some (int n) \<and>
     str_at (view (w_redis w)) (lockKey cc phone) = Some [] \<and>
     (\<exists>z. zset_at (view (w_redis w)) (loginRateKey cc phone) = Some z \<and> length z \<le> n)"

text \<open>A login for that phone with a wrong password.\<close>

definition wrong_login :: "string \<Rightarrow> string \<Rightarrow> User \<Rightarrow> env \<times> CallReq \<Rightarrow> bool" where
  "wrong_login cc phone u a \<longleftrightarrow>
     (case unmarshal_struct login_fields (cr_ParamJson (snd a)) zero_login of (err, req) \<Rightarrow>
        login_request req cc phone (snd a) \<and> \<not> VerifyPassword (lq_Password req) (us_Password u) (us_Salt u)) \<and> ev_sel (fst a) 0 = GotToken"

text \<open>Logins one after the other.\<close>

fun logins :: "('r, 'l, 'b, 'd) service \<Rightarrow> (env \<times> CallReq) list \<Rightarrow> ('r, 'l, 'b, 'd) world \<Rightarrow> (reply list \<times> ('r, 'l, 'b, 'd) world) option" where
  "logins v [] w = Some ([], w)"
| "logins v ((E, inp) # as) w =
     (case handleLogin E v inp w of
        None \<Rightarrow> None
      | Some (rp, w1) \<Rightarrow> (case logins v as w1 of None \<Rightarrow> None | Some (rps, w2) \<Rightarrow> Some (rp # rps, w2)))"

lemma login_free: "handleLogin E v inp w = Some (rp, w1) \<Longrightarrow> free_token w \<Longrightarrow> free_token w1"
  using handleLogin_sem free_token_same unfolding keeps_sem_def by blast

lemma key_ne:
  "failKey cc phone \<noteq> loginRateKey cc phone" "lockKey cc phone \<noteq> loginRateKey cc phone" "lockKey cc phone \<noteq> failKey cc phone"
  "loginRateKey cc phone \<noteq> failKey cc phone" "loginRateKey cc phone \<noteq> lockKey cc phone"
  by (simp_all add: failKey_def lockKey_def loginRateKey_def)

context account_service
begin

lemma wrong_login_fails:
  assumes "wired R D sc v" "attacked view live rows up cc phone u n w" "wrong_login cc phone u (E, inp)" "n < 10"
  shows "\<exists>w3 z3. handleLogin E v inp w = failure CodePasswordWrong m_wrong_password (recordLoginFail v cc phone w3) \<and>
    healthy live up w3 \<and> rows (w_db w3) = rows (w_db w) \<and> w_dgr w3 = w_dgr w \<and>
    zset_at (view (w_redis w3)) (loginRateKey cc phone) = Some z3 \<and> length z3 \<le> Suc n \<and>
    (\<forall>k. k \<noteq> loginRateKey cc phone \<longrightarrow> view (w_redis w3) k = view (w_redis w) k)"
proof -
  note a = assms(2) [unfolded attacked_def]
  obtain z where z: "zset_at (view (w_redis w)) (loginRateKey cc phone) = Some z" "length z \<le> n" using a by blast
  obtain req where req: "login_request req cc phone inp" "\<not> VerifyPassword (lq_Password req) (us_Password u) (us_Salt u)"
    "ev_sel E 0 = GotToken" using assms(3) by (auto simp: wrong_login_def split: prod.splits)
  obtain w3 z3 where "handleLogin E v inp w = finish_login E v cc req u w3" "healthy live up w3" "rows (w_db w3) = rows (w_db w)"
    "w_dgr w3 = w_dgr w" "zset_at (view (w_redis w3)) (loginRateKey cc phone) = Some z3" "length z3 \<le> Suc (length z)"
    "\<forall>k. k \<noteq> loginRateKey cc phone \<longrightarrow> view (w_redis w3) k = view (w_redis w) k"
    using login_reaches_row [OF assms(1) _ req(1) _ z(1), of u E] a req(3) z(2) assms(4) by auto
  moreover have "finish_login E v cc req u w3 = failure CodePasswordWrong m_wrong_password (recordLoginFail v cc phone w3)"
    using req by (simp add: finish_login_def login_request_def)
  ultimately show ?thesis using z(2) by (intro exI [of _ w3] exI [of _ z3]) auto
qed

lemma wrong_login_counts:
  assumes "wired R D sc v" "attacked view live rows up cc phone u n w" "wrong_login cc phone u (E, inp)" "n < 9"
  shows "\<exists>w1. handleLogin E v inp w = Some ((None, CodePasswordWrong, m_wrong_password), w1) \<and>
    attacked view live rows up cc phone u (Suc n) w1 \<and> rows (w_db w1) = rows (w_db w)"
proof -
  note a = assms(2) [unfolded attacked_def]
  have "n < 10" using assms(4) by simp
  from wrong_login_fails [OF assms(1-3) this] obtain w3 z3 where
    h: "handleLogin E v inp w = failure CodePasswordWrong m_wrong_password (recordLoginFail v cc phone w3)" and
    w3: "healthy live up w3" "rows (w_db w3) = rows (w_db w)" "w_dgr w3 = w_dgr w"
    "zset_at (view (w_redis w3)) (loginRateKey cc phone) = Some z3" "length z3 \<le> Suc n" and
    fr: "\<forall>k. k \<noteq> loginRateKey cc phone \<longrightarrow> view (w_redis w3) k = view (w_redis w) k"
    by blast
  have lv: "live (w_redis w3)" "sv_rdb v = R" using w3(1) assms(1) by (simp_all add: healthy_def wired_def)
  have "counter_at (view (w_redis w3)) (failKey cc phone) = Some (int n)" using a fr key_ne(1) by (simp add: counter_at_def)
  from login_fail_counts [OF lv(2,1) this] assms(4) obtain r where
    r: "recordLoginFail v cc phone w3 = put_redis r w3" "live r" "counter_at (view r) (failKey cc phone) = Some (int (Suc n))"
    "\<forall>k. k \<noteq> failKey cc phone \<longrightarrow> view r k = view (w_redis w3) k" by (auto simp: add.commute)
  have "free_token (put_redis r w3)" using login_free h r(1) a by auto
  moreover have "zset_at (view r) (loginRateKey cc phone) = Some z3" using r(4) w3(4) key_ne by (simp add: zset_at_def)
  moreover have "str_at (view r) (lockKey cc phone) = Some []" using r(4) fr key_ne a by (simp add: str_at_def)
  ultimately have "attacked view live rows up cc phone u (Suc n) (put_redis r w3)"
    using a w3 r by (simp add: attacked_def healthy_def)
  then show ?thesis using h r(1) w3(2) by auto
qed

lemma wrong_logins_count:
  assumes "wired R D sc v" "list_all (wrong_login cc phone u) as" "attacked view live rows up cc phone u n w" "n + length as \<le> 9"
  shows "\<exists>w1. logins v as w = Some (replicate (length as) (None, CodePasswordWrong, m_wrong_password), w1) \<and>
    attacked view live rows up cc phone u (n + length as) w1 \<and> rows (w_db w1) = rows (w_db w)"
  using assms(2-4)
proof (induction as arbitrary: n w)
  case (Cons a as)
  obtain E inp where a: "a = (E, inp)" by force
  have "n < 9" using Cons.prems(3) by simp
  from wrong_login_counts [OF assms(1) Cons.prems(2), of E inp] Cons.prems(1) this obtain w1 where
    w1: "handleLogin E v inp w = Some ((None, CodePasswordWrong, m_wrong_password), w1)"
      "attacked view live rows up cc phone u (Suc n) w1" "rows (w_db w1) = rows (w_db w)" by (auto simp: a)
  have "list_all (wrong_login cc phone u) as" "Suc n + length as \<le> 9" using Cons.prems(1,3) by simp_all
  from Cons.IH [OF this(1) w1(2) this(2)] show ?case using w1 by (auto simp: a)
qed simp

lemma tenth_wrong_login:
  assumes "wired R D sc v" "attacked view live rows up cc phone u 9 w" "wrong_login cc phone u (E, inp)"
  shows "\<exists>w1 z. handleLogin E v inp w = Some ((None, CodePasswordWrong, m_wrong_password), w1) \<and> live (w_redis w1) \<and>
    str_at (view (w_redis w1)) (lockKey cc phone) = Some ''1'' \<and> zset_at (view (w_redis w1)) (loginRateKey cc phone) = Some z \<and>
    rows (w_db w1) = rows (w_db w)"
proof -
  note a = assms(2) [unfolded attacked_def]
  from wrong_login_fails [OF assms] obtain w3 z3 where
    h: "handleLogin E v inp w = failure CodePasswordWrong m_wrong_password (recordLoginFail v cc phone w3)" and
    w3: "healthy live up w3" "rows (w_db w3) = rows (w_db w)" "zset_at (view (w_redis w3)) (loginRateKey cc phone) = Some z3" and
    fr: "\<forall>k. k \<noteq> loginRateKey cc phone \<longrightarrow> view (w_redis w3) k = view (w_redis w) k"
    by auto
  have lv: "live (w_redis w3)" "sv_rdb v = R" using w3(1) assms(1) by (simp_all add: healthy_def wired_def)
  have "counter_at (view (w_redis w3)) (failKey cc phone) = Some 9" using a fr key_ne(1) by (simp add: counter_at_def)
  from login_fail_locks [OF lv(2,1) this] obtain r where
    "recordLoginFail v cc phone w3 = put_redis r w3" "live r" "str_at (view r) (lockKey cc phone) = Some ''1''"
    "\<forall>k. k \<noteq> failKey cc phone \<and> k \<noteq> lockKey cc phone \<longrightarrow> view r k = view (w_redis w3) k" by blast
  then show ?thesis using h w3 key_ne by (intro exI [of _ "put_redis r w3"] exI [of _ z3]) (simp add: zset_at_def)
qed

end

lemma logins_append:
  "logins v (as @ bs) w =
     (case logins v as w of
        None \<Rightarrow> None
      | Some (rs, w1) \<Rightarrow> (case logins v bs w1 of None \<Rightarrow> None | Some (rs', w2) \<Rightarrow> Some (rs @ rs', w2)))"
  by (induction v as w rule: logins.induct) (auto split: option.splits)

text \<open>C8: ten wrong passwords lock the account.  Each of ten logins with a wrong password is answered 4102, and the
  next login for that phone is refused, even with the right password; the rows of the table are untouched.\<close>

theorem login_lockout:
  assumes "account_service R view live dbl D sc rows up" and "wired R D sc v"
    and "attacked view live rows up cc phone u 0 w" and "list_all (wrong_login cc phone u) as" and "length as = 10"
    and "login_request req cc phone inp"
  shows "\<exists>w1 code meg w2. logins v as w = Some (replicate 10 (None, CodePasswordWrong, m_wrong_password), w1) \<and>
    handleLogin E v inp w1 = Some ((None, code, meg), w2) \<and> code \<noteq> CodeOK \<and> rows (w_db w2) = rows (w_db w)"
proof -
  obtain bs b where as: "as = bs @ [b]" "length bs = 9" using assms(5) by (cases as rule: rev_cases) auto
  obtain E1 inp1 where b: "b = (E1, inp1)" by force
  have bs: "list_all (wrong_login cc phone u) bs" "wrong_login cc phone u (E1, inp1)" using assms(4) by (simp_all add: as b)
  have "0 + length bs \<le> 9" using as(2) by simp
  from account_service.wrong_logins_count [OF assms(1,2) bs(1) assms(3) this] obtain w9 where
    w9: "logins v bs w = Some (replicate 9 (None, CodePasswordWrong, m_wrong_password), w9)"
      "attacked view live rows up cc phone u 9 w9" "rows (w_db w9) = rows (w_db w)" by (auto simp: as(2))
  from account_service.tenth_wrong_login [OF assms(1,2) w9(2) bs(2)] obtain w1 z where
    w1: "handleLogin E1 v inp1 w9 = Some ((None, CodePasswordWrong, m_wrong_password), w1)" "live (w_redis w1)"
      "str_at (view (w_redis w1)) (lockKey cc phone) = Some ''1''" "zset_at (view (w_redis w1)) (loginRateKey cc phone) = Some z"
      "rows (w_db w1) = rows (w_db w9)" by blast
  have "logins v as w = Some (replicate 10 (None, CodePasswordWrong, m_wrong_password), w1)"
    using w9(1) w1(1) by (simp add: as(1) b logins_append replicate_append_same [symmetric] numeral_eq_Suc)
  moreover have "\<exists>code meg w2. handleLogin E v inp w1 = Some ((None, code, meg), w2) \<and> code \<noteq> CodeOK \<and> w_db w2 = w_db w1"
  proof (rule redis_server.locked_login [where cc = cc and phone = phone and l = "''1''" and z = z and req = req])
    show "redis_server R view live dbl" using assms(1) by (simp add: account_service_def)
    show "zset_at (view (w_redis w1)) (rl_key (NewLimiter (Some R) 10 ''yuyan:ratelimit:login'') (cc @ '':'' @ phone)) = Some z"
      using w1(4) by (simp add: rl_key_def loginRateKey_def NewLimiter_def Let_def)
  qed (use assms(2,6) w1 in \<open>simp_all add: wired_def login_request_def\<close>)
  ultimately show ?thesis using w9(3) w1(5) by metis
qed

end
