(* ===== verification/AccountsDemo.thy ===== *)
theory AccountsDemo
  imports Lockout
begin

text \<open>
  The account service on in-memory servers: the interpretation of its interface and the properties of
  \<open>Accounts\<close>, \<open>Lockout\<close> and \<open>CallProps\<close> at a concrete request.
\<close>

section \<open>An instance\<close>

text \<open>The in-memory servers obey the account interface.\<close>

interpretation memacc: account_service mem_redis mem_view mem_up id "mem_sql sc" sc mem_rows sql_up
  by intro_locales

definition demo_env :: env where
  "demo_env = \<lparr>ev_clk = (\<lambda>_. 1700000000000000000), ev_sel = (\<lambda>_. GotToken), ev_wall = 1700000000, ev_lat = 0, ev_flight = (\<lambda>_. None),
     ev_text = (\<lambda>_. ''driver''), ev_rand = ''rand'', ev_json = ''json'', ev_feq = (=), ev_P = \<lparr>pm_srt = id, pm_its = id, pm_iti = id, pm_loc = id\<rparr>\<rparr>"

definition demo_service :: "(mem, (string \<times> string) list, unit, sqlval list list) service" where
  "demo_service =
    \<lparr>sv_rdb = mem_redis, sv_D = mem_sql initial_schema, sv_sc = initial_schema, sv_sessions = NewSessionStore (Some mem_redis),
     sv_sms = \<lparr>sms_rdb = Some mem_redis, sms_mode = ''prod'', sms_bypass = []\<rparr>, sv_asset = [], sv_mgr = fst (demo_manager closed_breakers),
     sv_sched = []\<rparr>"

definition demo_redis :: mem where
  "demo_redis = mput uidKey (Some (RStr ''5000'', None)) (mput (sms_key ''86'' ''13800000000'' 1) (Some (RStr ''1234'', Some 300)) mem_empty)"

definition demo_world :: "sqlval list list \<Rightarrow> (mem, (string \<times> string) list, unit, sqlval list list) world" where
  "demo_world d = \<lparr>w_ms = (snd (demo_manager closed_breakers))\<lparr>ms_redis := demo_redis\<rparr>, w_db = d, w_rng = replicate 144 7,
     w_sem = NewSemaphore ''mysql-main'' 50\<rparr>"

definition register_json :: "string \<Rightarrow> json" where
  "register_json pwd = JObj [(''accountType'', jint 1), (''countryCode'', JStr ''+86''), (''phone'', JStr ''13800000000''), (''smsCode'', JStr ''1234''),
     (''password'', JStr pwd), (''nickName'', JStr ''ab''), (''pwdType'', jint 2), (''plat'', jint 4)]"

definition call_of :: "string \<Rightarrow> json \<Rightarrow> CallReq" where
  "call_of m j = \<lparr>cr_Method = m, cr_ParamJson = json_print j, cr_SessionId = [], cr_Seq = 1\<rparr>"

definition demo_register :: "string \<Rightarrow> registerReq" where
  "demo_register pwd = zero_register\<lparr>rq_AccountType := 1, rq_CountryCode := ''+86'', rq_Phone := ''13800000000'', rq_SmsCode := ''1234'',
     rq_Password := pwd, rq_NickName := ''ab'', rq_PwdType := 2, rq_Plat := 4\<rparr>"

lemma unmarshal_call:
  assumes "wf_json j" "jdepth j \<le> max_depth" "decode_struct fs j z = r"
  shows "unmarshal_struct fs (cr_ParamJson (call_of m j)) z = r"
  using json_parse_print [OF assms(1,2)] assms(3) by (simp add: unmarshal_struct_def call_of_def)

lemma ascii_valid: "ascii s \<Longrightarrow> valid_utf8 s" by (rule valid_utf8_ascii)

lemma demo_register_parsed:
  assumes "ascii pwd"
  shows "unmarshal_struct register_fields (cr_ParamJson (call_of m (register_json pwd))) zero_register = (False, demo_register pwd)"
proof (rule unmarshal_call)
  show "wf_json (register_json pwd)"
    using assms by (simp add: register_json_def ascii_valid ascii_def)
  show "jdepth (register_json pwd) \<le> max_depth" by (simp add: register_json_def max_depth_def jint_def)
  show "decode_struct register_fields (register_json pwd) zero_register = (False, demo_register pwd)"
    by (simp add: register_json_def decode_struct_def register_fields_def lookup_field_def dec_int_jint demo_register_def)
qed

lemma demo_valid: "normalizeCC ''+86'' = ''86''" "validatePhone ''86'' ''13800000000''" "RuneCountInString ''ab'' = 2"
  by (code_simp)+

lemma demo_request: "ascii pwd \<Longrightarrow> register_request (demo_register pwd) ''86'' ''13800000000'' (call_of m (register_json pwd))"
  by (simp add: register_request_def demo_register_parsed) (simp add: demo_register_def demo_valid PwdTypeMD5_def)

lemma demo_simps:
  "w_redis (demo_world d) = demo_redis" "w_db (demo_world d) = d" "w_dgr (demo_world d) = New" "w_rng (demo_world d) = replicate 144 7"
  "sv_rdb demo_service = mem_redis" "sms_rdb (sv_sms demo_service) = Some mem_redis" "sv_sc demo_service = initial_schema"
  "sv_D demo_service = mem_sql initial_schema" "ss_rdb (sv_sessions demo_service) = Some mem_redis" "ev_sel demo_env i = GotToken"
  by (simp_all add: demo_world_def demo_service_def demo_manager_simps NewSessionStore_def demo_env_def)

lemma demo_wired: "wired mem_redis (mem_sql initial_schema) initial_schema demo_service"
  by (simp add: wired_def demo_simps)

lemma demo_keys: "sms_key ''86'' ''13800000000'' 1 = ''yuyan:sms:86:13800000000:1''"
  by code_simp

lemma demo_healthy: "sql_up d \<Longrightarrow> healthy mem_up sql_up (demo_world d)"
  by (simp add: healthy_def demo_simps demo_redis_def)

lemma demo_free: "free_token (demo_world d)"
  by (simp add: free_token_def demo_world_def NewSemaphore_def)

lemma demo_ready: "register_ready demo_env demo_service (demo_register pwd) ''86'' ''13800000000'' (mem_view demo_redis)"
proof -
  have "str_at (mem_view demo_redis) (kaptchaKey ''13800000000'') = Some []"
    by (simp add: demo_redis_def demo_keys kaptchaKey_def uidKey_def str_at_def)
  then show ?thesis
    by (simp add: register_ready_def demo_keys demo_redis_def idemKey_def uidKey_def str_at_def demo_register_def demo_service_def
        zero_register_def EqualFold_refl)
qed

lemma demo_normal: "mgr_Mode New = ModeNormal" by (simp add: mgr_Mode_def New_def)

lemma demo_counter: "counter_at (mem_view demo_redis) uidKey = Some 5000"
proof -
  have "parse_int ''5000'' = Some 5000" by code_simp
  then show ?thesis by (simp add: demo_redis_def)
qed

lemma demo_digits: "list_all is_digit ''86''" "list_all is_digit ''13800000000''"
  by (simp_all add: is_digit_def)

lemma demo_reaches:
  assumes "ascii pwd" "sql_up d" "by_phone ''86'' ''13800000000'' (mem_rows d) = None"
  shows "reaches_section mem_view mem_up mem_rows sql_up demo_env demo_service (demo_register pwd) ''86'' ''13800000000''
    (call_of ''register'' (register_json pwd)) 5000 (demo_world d)"
  unfolding reaches_section_def
  using assms demo_healthy [OF assms(2)] demo_request [OF assms(1)] demo_ready demo_counter demo_digits demo_free demo_normal
  by (simp add: demo_simps)

theorem empty_password_witness:
  "\<exists>w1. handleRegister demo_env demo_service (call_of ''register'' (register_json [])) (demo_world []) =
      Some ((None, CodeBusinessError, ''auth: empty password''), w1) \<and> mgr_Mode (w_dgr w1) = ModeDegraded \<and>
    mem_rows (w_db w1) = [] \<and>
    (\<exists>code meg. handleRegister demo_env demo_service (call_of ''register'' (register_json ''p'')) w1 = Some ((None, code, meg), w1) \<and> code \<noteq> CodeOK)"
proof -
  have "reaches_section mem_view mem_up mem_rows sql_up demo_env demo_service (demo_register []) ''86'' ''13800000000''
    (call_of ''register'' (register_json [])) 5000 (demo_world [])"
    by (rule demo_reaches) (simp_all add: ascii_def sql_up_def mem_rows_def by_phone_def)
  from empty_password_degrades [OF memacc.account_service_axioms demo_wired this,
      where E' = demo_env and inp' = "call_of ''register'' (register_json ''p'')"]
  show ?thesis by (simp add: demo_register_def demo_simps mem_rows_def)
qed

lemma b64_char_ascii: "n < 64 \<Longrightarrow> code_of (b64_char n) < 128"
proof -
  have "list_all (\<lambda>c. code_of c < 128) ''ABCDEFGHIJKLMNOPQRSTUVWXYZabcdefghijklmnopqrstuvwxyz0123456789+/''" by simp
  then have a: "\<forall>c \<in> set ''ABCDEFGHIJKLMNOPQRSTUVWXYZabcdefghijklmnopqrstuvwxyz0123456789+/''. code_of c < 128"
    by (simp only: list_all_iff)
  assume "n < 64"
  then have "n < length ''ABCDEFGHIJKLMNOPQRSTUVWXYZabcdefghijklmnopqrstuvwxyz0123456789+/''" by simp
  from bspec [OF a nth_mem [OF this]] show ?thesis unfolding b64_char_def .
qed

lemma unat_byte: "unat (x :: byte) < 256"
  using unsigned_less [of x, where ?'a = nat] by simp

lemma base64_ascii: "ascii (base64_EncodeToString b)"
proof (induction b rule: base64_EncodeToString.induct)
  case (2 a)
  then show ?case using unat_byte [of a] by (auto simp: ascii_def Let_def intro!: b64_char_ascii)
next
  case (3 a b)
  then show ?case using unat_byte [of a] unat_byte [of b] by (auto simp: ascii_def Let_def intro!: b64_char_ascii)
next
  case (4 a b c r)
  then show ?case using unat_byte [of a] unat_byte [of b] unat_byte [of c] by (auto simp: ascii_def Let_def intro!: b64_char_ascii)
qed (simp add: ascii_def)

lemma demo_account_storable:
  assumes "ascii pwd"
  shows "storable (account demo_env (demo_register pwd) ''86'' 5001 (replicate 144 7))"
proof -
  have b: "ascii (base64_EncodeToString (replicate 32 7))" "length (base64_EncodeToString (replicate 32 7)) = 44"
    by (simp_all add: base64_ascii length_base64)
  have h: "ascii (MD5Hex x)" for x
    using hex_never_space [of "md5_Sum (bytes_of x)"] by (auto simp: MD5Hex_def ascii_def never_space_def list_all_iff)
  show ?thesis
    using b h [of "pwd @ base64_EncodeToString (replicate 32 7)"]
    by (simp add: storable_def account_def stamped_def new_user_def demo_register_def zero_register_def DBPassword_def demo_env_def in_width_def
        PwdTypeMD5_def wrap32_def demo_digits ascii_valid ascii_def take_replicate is_digit_def)
qed

definition login_json :: "string \<Rightarrow> json" where
  "login_json pwd = JObj [(''accountType'', jint 1), (''countryCode'', JStr ''+86''), (''phone'', JStr ''13800000000''),
     (''password'', JStr pwd), (''pwdType'', jint 2), (''loginMode'', jint 1), (''loginType'', jint 1), (''plat'', jint 4)]"

definition demo_login :: "string \<Rightarrow> loginReq" where
  "demo_login pwd = zero_login\<lparr>lq_AccountType := 1, lq_CountryCode := ''+86'', lq_Phone := ''13800000000'',
     lq_Password := pwd, lq_PwdType := 2, lq_LoginMode := 1, lq_LoginType := 1, lq_Plat := 4\<rparr>"

lemma demo_login_request:
  assumes "ascii pwd"
  shows "login_request (demo_login pwd) ''86'' ''13800000000'' (call_of m (login_json pwd))"
proof -
  have "unmarshal_struct login_fields (cr_ParamJson (call_of m (login_json pwd))) zero_login = (False, demo_login pwd)"
  proof (rule unmarshal_call)
    show "wf_json (login_json pwd)" using assms by (simp add: login_json_def ascii_valid ascii_def)
    show "jdepth (login_json pwd) \<le> max_depth" by (simp add: login_json_def max_depth_def jint_def)
    show "decode_struct login_fields (login_json pwd) zero_login = (False, demo_login pwd)"
      by (simp add: login_json_def decode_struct_def login_fields_def lookup_field_def dec_int_jint demo_login_def)
  qed
  then show ?thesis by (simp add: login_request_def) (simp add: demo_login_def demo_valid PwdTypeMD5_def)
qed

lemma demo_in_order:
  "in_order mem_view mem_up mem_rows sql_up demo_env demo_service (demo_register ''p'') ''86'' ''13800000000''
    (call_of ''register'' (register_json ''p'')) 5000 (demo_world [])"
  unfolding in_order_def
  using demo_healthy [of "[]"] demo_request [of "''p''"] demo_ready demo_counter demo_digits demo_free demo_normal demo_account_storable [of "''p''"]
  by (simp add: demo_simps ascii_def sql_up_def mem_rows_def by_phone_def) (simp add: demo_register_def)

theorem register_then_login_witness:
  "\<exists>body w1 result meg w2.
    handleRegister demo_env demo_service (call_of ''register'' (register_json ''p'')) (demo_world []) = Some ((Some body, CodeOK, []), w1) \<and>
    map us_UID (mem_rows (w_db w1)) = [5001] \<and>
    handleLogin demo_env demo_service (call_of ''login'' (login_json ''p'')) w1 = Some ((Some result, CodeOK, meg), w2)"
proof -
  have keys: "mem_view demo_redis (loginRateKey ''86'' ''13800000000'') = None" "str_at (mem_view demo_redis) (lockKey ''86'' ''13800000000'') = Some []"
    by (simp_all add: demo_redis_def demo_keys loginRateKey_def lockKey_def uidKey_def str_at_def)
  have "login_request (demo_login ''p'') ''86'' ''13800000000'' (call_of ''login'' (login_json ''p''))"
    by (rule demo_login_request) (simp add: ascii_def)
  from register_then_login [OF memacc.account_service_axioms demo_wired demo_in_order _ this, of demo_env] keys
  show ?thesis by (fastforce simp: demo_simps mem_rows_def demo_login_def demo_register_def)
qed

theorem register_replay_witness:
  "\<exists>body w1. handleRegister demo_env demo_service (call_of ''register'' (register_json ''p'')) (demo_world []) = Some ((Some body, CodeOK, []), w1) \<and>
    handleRegister demo_env demo_service (call_of ''register'' (register_json ''another'')) w1 = Some ((Some body, CodeOK, []), w1)"
  using register_replay [OF memacc.account_service_axioms demo_wired demo_in_order demo_request [of "''another''"], of demo_env]
  by (simp add: ascii_def)

theorem register_fails_closed_witness:
  "\<exists>code meg. handleRegister demo_env demo_service (call_of ''register'' (register_json ''p'')) (recordDBErrorForDegrade (demo_world [])) =
    Some ((None, code, meg), recordDBErrorForDegrade (demo_world [])) \<and> code \<noteq> CodeOK"
proof -
  have "mgr_Mode (w_dgr (demo_world [])) = ModeNormal" by (simp add: demo_simps demo_normal)
  then have "mgr_Mode (w_dgr (recordDBErrorForDegrade (demo_world []))) \<noteq> ModeNormal"
    using recordDBError_degrades [of "demo_world []"] by (simp add: ModeNormal_def ModeDegraded_def)
  then show ?thesis by (rule register_fails_closed)
qed

definition demo_neighbour :: User where
  "demo_neighbour = (account demo_env (demo_register ''p'') ''84'' 7 (replicate 144 7))"

lemma demo_neighbour_storable: "storable demo_neighbour"
  using demo_account_storable [of "''p''"]
  by (simp add: demo_neighbour_def storable_def account_def stamped_def new_user_def ascii_def in_width_def is_digit_def demo_env_def wrap32_def)

theorem same_phone_other_country_witness:
  "\<exists>w1. handleRegister demo_env demo_service (call_of ''register'' (register_json ''p'')) (demo_world [user_args demo_neighbour]) =
      Some ((None, CodeBusinessError, m_retry), w1) \<and> mgr_Mode (w_dgr w1) = ModeDegraded"
proof -
  let ?d = "[user_args demo_neighbour]"
  have rw: "mem_rows ?d = [demo_neighbour]" by (simp add: mem_rows_def row_user_args demo_neighbour_storable)
  have up: "sql_up ?d" using demo_neighbour_storable by (auto simp: sql_up_def)
  have "reaches_section mem_view mem_up mem_rows sql_up demo_env demo_service (demo_register ''p'') ''86'' ''13800000000''
    (call_of ''register'' (register_json ''p'')) 5000 (demo_world ?d)"
    by (rule demo_reaches) (simp_all add: ascii_def up by_phone_def rw, simp add: demo_neighbour_def)
  moreover have "list_ex (\<lambda>x. us_LoginName x = ''13800000000'') (mem_rows ?d)" by (simp add: rw) (simp add: demo_neighbour_def demo_register_def)
  moreover have "rq_Password (demo_register ''p'') \<noteq> []" by (simp add: demo_register_def)
  ultimately show ?thesis
    using same_phone_other_country [OF memacc.account_service_axioms demo_wired] demo_account_storable [of "''p''"]
    by (force simp: demo_simps ascii_def)
qed

definition demo_owner :: User where
  "demo_owner = account demo_env (demo_register ''p'') ''86'' 7 (replicate 144 7)"

lemma demo_owner_storable: "storable demo_owner"
  using demo_account_storable [of "''p''"]
  by (simp add: demo_owner_def storable_def account_def stamped_def new_user_def ascii_def in_width_def demo_env_def wrap32_def)

theorem login_lockout_witness:
  "\<exists>w1 code meg w2. logins demo_service (replicate 10 (demo_env, call_of ''login'' (login_json []))) (demo_world [user_args demo_owner]) =
      Some (replicate 10 (None, CodePasswordWrong, m_wrong_password), w1) \<and>
    handleLogin demo_env demo_service (call_of ''login'' (login_json ''p'')) w1 = Some ((None, code, meg), w2) \<and> code \<noteq> CodeOK"
proof -
  let ?d = "[user_args demo_owner]"
  have rw: "mem_rows ?d = [demo_owner]" by (simp add: mem_rows_def row_user_args demo_owner_storable)
  have up: "sql_up ?d" using demo_owner_storable by (auto simp: sql_up_def)
  have row: "by_phone ''86'' ''13800000000'' (mem_rows ?d) = Some demo_owner"
    by (simp add: by_phone_def rw) (simp add: demo_owner_def demo_register_def)
  have keys: "mem_view demo_redis (loginRateKey ''86'' ''13800000000'') = None" "mem_view demo_redis (lockKey ''86'' ''13800000000'') = None"
    "mem_view demo_redis (failKey ''86'' ''13800000000'') = None"
    by (simp_all add: demo_redis_def demo_keys loginRateKey_def lockKey_def failKey_def uidKey_def)
  have "attacked mem_view mem_up mem_rows sql_up ''86'' ''13800000000'' demo_owner 0 (demo_world ?d)"
    using demo_healthy [OF up] demo_free [of ?d] demo_digits row keys demo_normal normal_serves [of New LevelAuth]
    by (simp add: attacked_def demo_simps str_at_def zset_at_def counter_at_def)
  moreover have lr: "login_request (demo_login pwd) ''86'' ''13800000000'' (call_of ''login'' (login_json pwd))" if "ascii pwd" for pwd
    by (rule demo_login_request [OF that])
  moreover have "wrong_login ''86'' ''13800000000'' demo_owner (demo_env, call_of ''login'' (login_json []))"
    using lr [of "[]"] by (simp add: wrong_login_def login_request_def ascii_def demo_simps VerifyPassword_iff) (simp add: demo_login_def)
  ultimately show ?thesis
    using login_lockout [OF memacc.account_service_axioms demo_wired, of "''86''" "''13800000000''" demo_owner "demo_world ?d"
        "replicate 10 (demo_env, call_of ''login'' (login_json []))" "demo_login ''p''" "call_of ''login'' (login_json ''p'')" demo_env]
    by (fastforce simp: ascii_def list_all_iff)
qed

theorem Call_answers_witness:
  "\<exists>resp w'. Call demo_env demo_service (call_of ''register'' (register_json ''p'')) (demo_world []) = Some (resp, w') \<and> cp_Seq resp = 1 \<and>
    cp_NewSessionId resp = [] \<and> same_sem (demo_world []) w'"
  using Call_answers [OF demo_free [of "[]"], of demo_service demo_env "call_of ''register'' (register_json ''p'')"]
  by (simp add: demo_simps call_of_def)

end
