(* ===== verification/DisplayReads.thy ===== *)
theory DisplayReads
  imports AccountsDemo
begin

text \<open>
  The twelve display methods of \<open>Call\<close> as one table of cached reads, and what the cache between them and the database does to their
  answers: nothing, however calls, background writes, evictions and expiries interleave, as long as the database does not change.
\<close>

section \<open>The table of display methods\<close>

text \<open>A cached read: the static type of the value, family and key of the cache entry, its lifetime in seconds, the loader and how the value
  becomes an answer.\<close>

record 'd plan =
  pl_ty :: ty
  pl_family :: string
  pl_key :: string
  pl_seconds :: int
  pl_loader :: "'d ldr"
  pl_answer :: "json \<Rightarrow> reply"

text \<open>The parameters the handlers read from a request.\<close>

definition pm_room :: "CallReq \<Rightarrow> string" where "pm_room inp = snd (one_string ''roomNum'' (cr_ParamJson inp))"
definition pm_schedule :: "CallReq \<Rightarrow> int" where "pm_schedule inp = snd (one_int ''scheduleId'' (cr_ParamJson inp))"
definition pm_liveType :: "CallReq \<Rightarrow> int" where "pm_liveType inp = snd (one_int ''liveTypeId'' (cr_ParamJson inp))"
definition pm_date :: "env \<Rightarrow> CallReq \<Rightarrow> string" where
  "pm_date E inp = (let date = snd (one_string ''date'' (cr_ParamJson inp)) in if date = [] then todayKey (ev_wall E) else date)"

text \<open>The table.  A request without a required parameter has no cached read.\<close>

definition read_when :: "bool \<Rightarrow> ty \<Rightarrow> string \<Rightarrow> string \<Rightarrow> int \<Rightarrow> 'd ldr \<Rightarrow> (json \<Rightarrow> reply) \<Rightarrow> 'd plan option" where
  "read_when c t family key n l a =
     (if c then Some \<lparr>pl_ty = t, pl_family = family, pl_key = key, pl_seconds = n, pl_loader = l, pl_answer = a\<rparr> else None)"

definition display_table :: "env \<Rightarrow> ('r, 'l, 'b, 'd) service \<Rightarrow> CallReq \<Rightarrow> (string \<times> 'd plan option) list" where
  "display_table E v inp =
     (let D = sv_D v; sc = sv_sc v; P = ev_P E; room = pm_room inp; sid = pm_schedule inp; tid = pm_liveType inp; date = pm_date E inp;
          catalog = TSlice ty_MatchCatalogItem;
          recommend = read_when True catalog ''match'' ''recommend'' 60 (recommend_loader P D sc) recommend_answer;
          detail = read_when (room \<noteq> []) (TMap TAny) ''room'' (''detail:'' @ room) 30 (detail_loader D sc room) (found_answer ''room not found'')
      in [(''matches_jsonp'', read_when True (TMap catalog) ''match'' ''catalog'' 60 (catalog_loader P D sc) plain_answer),
          (''match_recommend'', recommend),
          (''match_cateList'', recommend),
          (''match_detail'', read_when (sid \<noteq> 0) (TMap TAny) ''match'' (''detail:'' @ itoa sid) 60 (buildMatchDetailPayload P D sc sid)
             (found_answer ''match not found'')),
          (''match_byDate'', read_when (length date = 8) catalog ''match'' (''date:'' @ date) 60 (date_loader P D sc date) plain_answer),
          (''live_all_rooms'', read_when True (TMap TAny) ''live'' ''all'' 15 (rooms_loader D sc) plain_answer),
          (''live_types'', read_when True (TSlice ty_LiveTypeJSON) ''live'' ''types'' 15 (load_types D sc) plain_answer),
          (''live_cateList'', read_when (tid \<noteq> 0) (TMap TAny) ''live'' (''listByType:'' @ itoa tid) 15
             (room_list ''rooms'' (ListByType D sc tid 50)) plain_answer),
          (''live_hot'', read_when True (TMap TAny) ''live'' ''hot'' 15 (room_list ''hot'' (ListHot D sc 50)) plain_answer),
          (''live_detail'', detail),
          (''room_detail'', detail),
          (''room_schedule'', read_when (room \<noteq> []) (TMap (TSlice ty_MatchItem)) ''room'' (''schedule:'' @ room) 60
             (total_loader (BuildRoomSchedule (pm_loc P) D sc room) (json_of_map (\<lambda>ms. JArr (map match_item_json ms)))) plain_answer),
          (''room_gift_rank'', read_when (room \<noteq> []) (TSlice ty_GiftRankItem) ''room'' (''gift_rank:'' @ room) 30
             (total_loader (BuildGiftRank D sc room) (\<lambda>gs. JArr (map gift_rank_json gs))) plain_answer)])"

definition display_plan :: "string \<Rightarrow> env \<Rightarrow> ('r, 'l, 'b, 'd) service \<Rightarrow> CallReq \<Rightarrow> 'd plan option" where
  "display_plan m E v inp = Option.bind (map_of (display_table E v inp) m) id"

lemma read_when_Some:
  "read_when c t family key n l a = Some p \<longleftrightarrow>
   c \<and> p = \<lparr>pl_ty = t, pl_family = family, pl_key = key, pl_seconds = n, pl_loader = l, pl_answer = a\<rparr>"
  by (auto simp: read_when_def)

definition served_by :: "('r, 'l, 'b, 'd) handler \<Rightarrow> env \<Rightarrow> ('r, 'l, 'b, 'd) service \<Rightarrow> CallReq \<Rightarrow> 'd plan option \<Rightarrow> bool" where
  "served_by h E v inp q \<longleftrightarrow> (\<forall>p w. q = Some p \<longrightarrow>
     h E v inp w = cached_answer E v (pl_ty p) (pl_family p) (pl_key p) (pl_seconds p) (pl_loader p) (pl_answer p) w)"

lemma display_table_served: "list_all (\<lambda>(m, q). served_by (dispatch m) E v inp q) (display_table E v inp)"
  unfolding display_table_def Let_def list.pred_inject prod.case served_by_def read_when_Some
  by (intro conjI allI impI TrueI; (elim conjE)?)
    (simp_all add: dispatch_def handleMatchesJSONP_def handleMatchRecommend_def handleMatchDetail_def handleMatchByDate_def
      handleAllLiveRooms_def handleLiveTypes_def handleLiveCateList_def handleLiveHot_def handleLiveDetail_def handleRoomDetail_def
      handleRoomSchedule_def handleRoomGiftRank_def pm_room_def pm_schedule_def pm_liveType_def pm_date_def Let_def)

lemma dispatch_plan:
  assumes "display_plan m E v inp = Some p"
  shows "dispatch m E v inp w = cached_answer E v (pl_ty p) (pl_family p) (pl_key p) (pl_seconds p) (pl_loader p) (pl_answer p) w"
proof -
  have "(m, Some p) \<in> set (display_table E v inp)" using assms by (auto simp: display_plan_def bind_eq_Some_conv dest: map_of_SomeD)
  then show ?thesis using display_table_served [of E v inp] by (auto simp: list_all_iff served_by_def)
qed

lemma plan_lifetime:
  assumes "display_plan m E v inp = Some p"
  shows "0 < secs (pl_seconds p * 1000000000)" "pl_family p \<noteq> []"
proof -
  have "list_all (\<lambda>(m, q). \<forall>p. q = Some p \<longrightarrow> 0 < secs (pl_seconds p * 1000000000) \<and> pl_family p \<noteq> []) (display_table E v inp)"
    unfolding display_table_def Let_def list.pred_inject prod.case read_when_Some by (simp add: secs_def)
  moreover have "(m, Some p) \<in> set (display_table E v inp)" using assms by (auto simp: display_plan_def bind_eq_Some_conv dest: map_of_SomeD)
  ultimately show "0 < secs (pl_seconds p * 1000000000)" "pl_family p \<noteq> []" by (auto simp: list_all_iff)
qed

section \<open>Caches that hold the right texts\<close>

text \<open>\<open>C\<close> gives the value that belongs to a cache key.  The caches are coherent with it when each holds for such a key that value's text or
  nothing, and every write under way is of that text.\<close>

type_synonym catalogue = "string \<rightharpoonup> json"

definition right_text :: "catalogue \<Rightarrow> string \<Rightarrow> string \<Rightarrow> bool" where
  "right_text C k raw \<longleftrightarrow> (case C k of None \<Rightarrow> True | Some j \<Rightarrow> raw = json_print j)"

fun right_write :: "catalogue \<Rightarrow> pending \<Rightarrow> bool" where
  "right_write C (SetL1 k raw ttl) = right_text C k raw"
| "right_write C (SetBoth k raw ttl) = (right_text C k raw \<and> 0 < secs ttl)"
| "right_write C (SetRedis k raw ttl) = (right_text C k raw \<and> 0 < ttl)"

definition right_l1 :: "catalogue \<Rightarrow> (string \<rightharpoonup> string) \<Rightarrow> bool" where
  "right_l1 C l \<longleftrightarrow> (\<forall>k raw. l k = Some raw \<longrightarrow> right_text C k raw)"

definition right_redis :: "catalogue \<Rightarrow> keyspace \<Rightarrow> bool" where
  "right_redis C m \<longleftrightarrow> (\<forall>k. C k \<noteq> None \<longrightarrow> m k = None \<or> (\<exists>raw t. m k = Some (RStr raw, t) \<and> right_text C k raw))"

definition coherent ::
  "('l \<Rightarrow> string \<rightharpoonup> string) \<Rightarrow> ('r \<Rightarrow> keyspace) \<Rightarrow> ('r \<Rightarrow> bool) \<Rightarrow> ('r, 'l, 'b) CManager \<Rightarrow> catalogue \<Rightarrow> ('r, 'l, 'b) mstate \<Rightarrow> bool" where
  "coherent contents view live m C s \<longleftrightarrow> live (ms_redis s) \<and> right_redis C (view (ms_redis s)) \<and>
     (\<forall>h. cm_l1 m = Some h \<longrightarrow> right_l1 C (contents (ms_l1s s h))) \<and> list_all (right_write C) (ms_pending s)"

lemma right_redis_setex: "right_redis C m \<Longrightarrow> right_text C k raw \<Longrightarrow> right_redis C (m(k \<mapsto> (RStr raw, t)))"
  by (auto simp: right_redis_def)

lemma right_redis_drop: "right_redis C m \<Longrightarrow> right_redis C (drop_keys ks m)"
  by (auto simp: right_redis_def)

text \<open>What a caller gets for a value that comes from a cache.\<close>

definition cached_form :: "('r, 'l, 'b) CManager \<Rightarrow> ty \<Rightarrow> json \<Rightarrow> json option" where
  "cached_form m t j =
     (case jsonUnmarshalAny m (json_print j) :: cache_error + json anyval of
        Inr (Decoded x) \<Rightarrow> (case t_asserts (go_type t) x of Some y \<Rightarrow> Some y | None \<Rightarrow> unmarshal_T (go_type t) (json_print x))
      | _ \<Rightarrow> None)"

lemma marshal_go_type [simp]: "marshal_T (go_type t) j = json_print j"
  by (simp add: marshal_T_def go_type_def)

lemma survives_cached_form: "survives m (go_type t) j \<longleftrightarrow> cached_form m t j = Some j"
  by (auto simp: survives_def cached_form_def split: sum.splits anyval.splits option.splits)

lemma GetOrLoadT_of_text:
  assumes "mgr_GetOrLoad m (go_type t) (entry family key ttl level) inflight latency loader w = (jsonUnmarshalAny m (json_print j), w')"
    and "cached_form m t j = Some x"
  shows "GetOrLoadT m (go_type t) family key ttl level inflight latency loader w = (Inr x, w')"
  using assms by (auto simp: GetOrLoadT_def cached_form_def split: sum.splits anyval.splits option.splits)

text \<open>One read.  \<open>inflight\<close> is what singleflight shares of a load of the same key.\<close>

locale display_caches = redis_server R view live dbl + l1_cache F contents
  for R :: "'r redis" and view :: "'r \<Rightarrow> keyspace" and live :: "'r \<Rightarrow> bool" and dbl :: "int \<Rightarrow> int"
    and F :: "'l freecache" and contents :: "'l \<Rightarrow> string \<rightharpoonup> string" +
  fixes m :: "('r, 'l, 'b) CManager"
  assumes wired_redis: "cm_rdb m = Some R" and wired_l1: "cm_F m = F"
    and closed: "fst (brk_accept (cm_B m) name b)"
begin

abbreviation coh :: "catalogue \<Rightarrow> ('r, 'l, 'b) mstate \<Rightarrow> bool" where "coh \<equiv> coherent contents view live m"

lemma redis_read:
  assumes "coh C s" "C k = Some j"
  obtains (miss) "r_get R k (ms_redis s) = (Inr [], ms_redis s)" | (hit) "r_get R k (ms_redis s) = (Inr (json_print j), ms_redis s)"
proof -
  have lv: "live (ms_redis s)" and rr: "right_redis C (view (ms_redis s))" using assms(1) by (simp_all add: coherent_def)
  then consider "view (ms_redis s) k = None" | t where "view (ms_redis s) k = Some (RStr (json_print j), t)"
    using assms(2) by (fastforce simp: right_redis_def right_text_def)
  then show thesis
    using miss hit get_law [OF lv, of k "[]"] get_law [OF lv, of k "json_print j"] by cases auto
qed

lemma l1_read:
  assumes "coh C s" "C k = Some j" "cm_l1 m = Some h" "fc_Get F k (ms_l1s s h) = (r, l)"
  shows "contents l = contents (ms_l1s s h)" "r = Inr raw \<Longrightarrow> raw = json_print j"
  using assms get_keeps [of k "ms_l1s s h"] get_sound [of k "ms_l1s s h" raw]
  by (fastforce simp: coherent_def right_l1_def right_text_def)+

lemma coh_l1_state:
  "coh C s \<Longrightarrow> contents l = contents (ms_l1s s h) \<Longrightarrow> coh C (s\<lparr>ms_l1s := (ms_l1s s)(h := l)\<rparr>)"
  by (auto simp: coherent_def)

lemma coh_queue: "coh C s \<Longrightarrow> right_write C p \<Longrightarrow> coh C (queue p s)"
  by (simp add: coherent_def queue_def)

lemma coh_frame:
  "coh C (observeMetrics f a b n s) = coh C s" "coh C (s\<lparr>ms_stats := st\<rparr>) = coh C s" "coh C (s\<lparr>ms_brk := br\<rparr>) = coh C s"
  by (simp_all add: coherent_def)

lemma queue_frame: "ms_dgr (queue p s) = ms_dgr s" "ms_redis (queue p s) = ms_redis s"
  by (simp_all add: queue_def)

lemma load_coherent:
  assumes "coh C s" "C (buildKey family key) = Some j" "0 < secs ttl"
    and "inflight (family @ '':'' @ key) \<in> {None, Some (Inr (Typed j))}" "loader d = (Inr j, d)"
  shows "\<exists>s'. loadThroughBreaker m (go_type t) (entry family key ttl level) inflight latency loader (s, d) = (Inr (Typed j), s', d) \<and>
    coh C s' \<and> ms_dgr s' = ms_dgr s"
proof -
  obtain br where b: "brk_accept (cm_B m) family (ms_brk s) = (True, br)" using closed [of family "ms_brk s"] by (metis prod.collapse)
  have w: "right_write C (writeBack (go_type t) (entry family key ttl level) j)" using assms(2,3) by (simp add: writeBack_def right_text_def)
  show ?thesis using assms(1,4,5) coh_queue [OF _ w]
    by (auto simp: loadThroughBreaker_def b Let_def coh_frame queue_frame)
qed

lemma mgr_read_coherent:
  assumes "coh C s" "C (buildKey family key) = Some j" "0 < secs ttl" "family \<noteq> []" "CanServeLevel (ms_dgr s) LevelDisplay"
    and "inflight (family @ '':'' @ key) \<in> {None, Some (Inr (Typed j))}" "loader d = (Inr j, d)"
  shows "\<exists>r s'. mgr_GetOrLoad m (go_type t) (entry family key ttl LevelDisplay) inflight latency loader (s, d) = (r, s', d) \<and>
    (r = Inr (Typed j) \<or> r = jsonUnmarshalAny m (json_print j)) \<and> coh C s' \<and> ms_dgr s' = ms_dgr s"
proof -
  let ?k = "buildKey family key" and ?o = "entry family key ttl LevelDisplay"
  define first where "first = (case cm_l1 m of
      None \<Rightarrow> (None, s)
    | Some h \<Rightarrow> (case fc_Get (cm_F m) ?k (ms_l1s s h) of
          (Inr raw, l) \<Rightarrow> (if length raw > 0 then Some raw else None, s\<lparr>ms_l1s := (ms_l1s s)(h := l)\<rparr>)
        | (Inl _, l) \<Rightarrow> (None, s\<lparr>ms_l1s := (ms_l1s s)(h := l)\<rparr>)))"
  obtain hit s1 where f: "first = (hit, s1)" by fastforce
  have s1: "coh C s1" "ms_dgr s1 = ms_dgr s" "hit = None \<or> hit = Some (json_print j)"
    using f assms(1) l1_read [OF assms(1,2)] coh_l1_state [OF assms(1)] unfolding first_def wired_l1
    by (auto split: option.splits prod.splits sum.splits if_splits)
  have lv: "LevelDisplay \<noteq> LevelWrite" by (simp add: LevelDisplay_def LevelWrite_def)
  have w: "right_write C (SetL1 ?k (json_print j) ttl)" using assms(2) by (simp add: right_text_def)
  have ld: "\<exists>s'. loadThroughBreaker m (go_type t) ?o inflight latency loader (s1\<lparr>ms_stats := st\<rparr>, d) = (Inr (Typed j), s', d) \<and>
      coh C s' \<and> ms_dgr s' = ms_dgr s" for st
    using load_coherent [of C "s1\<lparr>ms_stats := st\<rparr>" family key j ttl inflight loader d t LevelDisplay latency] s1 assms by (simp add: coh_frame)
  note read = mgr_GetOrLoad_def prod.case Options.select_convs Let_def first_def [symmetric] f
  show ?thesis
  proof (cases hit)
    case (Some raw)
    then show ?thesis unfolding read using s1 lv assms(4,5) by (auto simp: coh_frame)
  next
    case None
    consider (miss) "r_get R ?k (ms_redis s1) = (Inr [], ms_redis s1)" | (hit) "r_get R ?k (ms_redis s1) = (Inr (json_print j), ms_redis s1)"
      by (rule redis_read [OF s1(1) assms(2)])
    then show ?thesis
    proof cases
      case miss
      then show ?thesis unfolding read using None lv assms(4,5) ld [of "Miss family (ms_stats s1)"] by (auto simp: wired_redis)
    next
      case hit
      then show ?thesis unfolding read using None lv assms(4,5) ld [of "Miss family (ms_stats s1)"] s1 coh_queue [OF _ w]
        by (cases "json_print j = []") (auto simp: wired_redis coh_frame queue_frame)
    qed
  qed
qed

lemma read_coherent:
  assumes "coh C s" "C (buildKey family key) = Some j" "0 < secs ttl" "family \<noteq> []" "CanServeLevel (ms_dgr s) LevelDisplay"
    and "inflight (family @ '':'' @ key) \<in> {None, Some (Inr (Typed j))}" "loader d = (Inr j, d)" "cached_form m t j = Some jc"
  shows "\<exists>x s'. GetOrLoadT m (go_type t) family key ttl LevelDisplay inflight latency loader (s, d) = (Inr x, s', d) \<and> x \<in> {j, jc} \<and>
    coh C s' \<and> ms_dgr s' = ms_dgr s"
proof -
  obtain r s' where r: "mgr_GetOrLoad m (go_type t) (entry family key ttl LevelDisplay) inflight latency loader (s, d) = (r, s', d)"
    "r = Inr (Typed j) \<or> r = jsonUnmarshalAny m (json_print j)" "coh C s'" "ms_dgr s' = ms_dgr s"
    using mgr_read_coherent [where t = t and latency = latency and loader = loader and inflight = inflight, OF assms(1-7)] by blast
  then show ?thesis using GetOrLoadT_of_text [OF _ assms(8), of family key ttl LevelDisplay inflight latency loader "(s, d)" "(s', d)"]
    by (auto simp: GetOrLoadT_def)
qed

lemma settle_coherent:
  assumes "coh C s"
  shows "coh C (run_pending m now i s)" "ms_dgr (run_pending m now i s) = ms_dgr s"
proof -
  let ?s = "s\<lparr>ms_pending := take i (ms_pending s) @ drop (Suc i) (ms_pending s)\<rparr>"
  have set: "right_l1 C (contents (fc_Set F k raw n l))" if "right_l1 C (contents l)" "right_text C k raw" for k raw n l
    unfolding right_l1_def
  proof (intro allI impI)
    fix i x assume "contents (fc_Set F k raw n l) i = Some x"
    then show "right_text C i x"
      using that set_here [of k raw n l] set_there [of i k raw n l] by (cases "i = k") (auto simp: right_l1_def)
  qed
  have lw: "coh C (l1_write m now k raw ttl u)" "ms_dgr (l1_write m now k raw ttl u) = ms_dgr u" if "coh C u" "right_text C k raw" for k raw ttl u
    using that set by (auto simp: coherent_def l1_write_def wired_l1 split: option.splits)
  have rw: "coh C (u\<lparr>ms_redis := snd (r_setex R k raw n (ms_redis u))\<rparr>)" if "coh C u" "right_text C k raw" "0 < n" for k raw n u
    using that setex_law [OF _ that(3), of "ms_redis u" k raw] right_redis_setex by (auto simp: coherent_def)
  have "coh C (run_pending m now i s) \<and> ms_dgr (run_pending m now i s) = ms_dgr s"
  proof (cases "i < length (ms_pending s)")
    case True
    then have p: "right_write C (ms_pending s ! i)" using assms by (simp add: coherent_def list_all_length)
    have c: "coh C ?s" using assms by (auto simp: coherent_def list_all_iff dest: in_set_takeD in_set_dropD)
    show ?thesis using p True c lw [OF c] rw [OF c] rw by (cases "ms_pending s ! i") (simp_all add: run_pending_def wired_redis Let_def)
  qed (simp add: run_pending_def assms)
  then show "coh C (run_pending m now i s)" "ms_dgr (run_pending m now i s) = ms_dgr s" by blast+
qed

lemma forget_coherent: "coh C s \<Longrightarrow> coh C (s\<lparr>ms_redis := snd (r_del R ks (ms_redis s))\<rparr>)"
  using del_law [of "ms_redis s" ks] right_redis_drop by (auto simp: coherent_def)

end

section \<open>Runs of the service\<close>

text \<open>Between calls, any background write may complete and Redis may drop any keys.\<close>

datatype display_event = DCall env CallReq | Settle int nat | Forget "string list"

definition forget :: "('r, 'l, 'b, 'd) service \<Rightarrow> string list \<Rightarrow> ('r, 'l, 'b, 'd) world \<Rightarrow> ('r, 'l, 'b, 'd) world" where
  "forget v ks w = put_redis (snd (r_del (sv_rdb v) ks (w_redis w))) w"

fun display_run :: "('r, 'l, 'b, 'd) service \<Rightarrow> display_event list \<Rightarrow> ('r, 'l, 'b, 'd) world \<Rightarrow> CallResp option list" where
  "display_run v [] w = []"
| "display_run v (DCall E inp # es) w =
     (case Call E v inp w of None \<Rightarrow> None # display_run v es w | Some (resp, w') \<Rightarrow> Some resp # display_run v es w')"
| "display_run v (Settle now i # es) w = display_run v es (w\<lparr>w_ms := run_pending (sv_mgr v) now i (w_ms w)\<rparr>)"
| "display_run v (Forget ks # es) w = display_run v es (forget v ks w)"

fun display_calls :: "display_event list \<Rightarrow> (env \<times> CallReq) list" where
  "display_calls [] = []"
| "display_calls (DCall E inp # es) = (E, inp) # display_calls es"
| "display_calls (_ # es) = display_calls es"

text \<open>The answers without a cache: the loader's value on the database, as loaded or as it comes back from its JSON text.\<close>

definition answer_with :: "CallReq \<Rightarrow> reply \<Rightarrow> CallResp" where
  "answer_with inp rp = (case rp of (result, code, meg) \<Rightarrow>
     \<lparr>cp_Code = wrap32 code, cp_Meg = meg, cp_Seq = cr_Seq inp, cp_NewSessionId = cr_SessionId inp, cp_Result = result\<rparr>)"

definition uncached :: "('r, 'l, 'b, 'd) service \<Rightarrow> 'd \<Rightarrow> env \<Rightarrow> CallReq \<Rightarrow> CallResp option list" where
  "uncached v d E inp =
     (case display_plan (TrimSpace (cr_Method inp)) E v inp of
        None \<Rightarrow> []
      | Some p \<Rightarrow>
          (case fst (pl_loader p d) of
             Inl e \<Rightarrow> []
           | Inr j \<Rightarrow> map (\<lambda>x. Some (answer_with inp (pl_answer p x))) [j, the (cached_form (sv_mgr v) (pl_ty p) j)]))"

text \<open>The calls considered: display methods whose load succeeds on the database without changing it, with one value per cache key, and a
  concurrent load of the same key, if there is one, has loaded that value.\<close>

definition steady_call :: "('r, 'l, 'b, 'd) service \<Rightarrow> catalogue \<Rightarrow> 'd \<Rightarrow> env \<Rightarrow> CallReq \<Rightarrow> bool" where
  "steady_call v C d E inp \<longleftrightarrow>
     (case display_plan (TrimSpace (cr_Method inp)) E v inp of
        None \<Rightarrow> False
      | Some p \<Rightarrow>
          (case C (buildKey (pl_family p) (pl_key p)) of
             None \<Rightarrow> False
           | Some j \<Rightarrow> pl_loader p d = (Inr j, d) \<and> cached_form (sv_mgr v) (pl_ty p) j \<noteq> None \<and>
               (ev_flight E (pl_family p @ '':'' @ pl_key p) = None \<or> ev_flight E (pl_family p @ '':'' @ pl_key p) = Some (Inr (Typed j)))))"

context display_caches
begin

lemma Call_steady:
  assumes "sv_mgr v = m" "coh C (w_ms w)" "CanServeLevel (w_dgr w) LevelDisplay" "steady_call v C (w_db w) E inp"
  shows "\<exists>resp w'. Call E v inp w = Some (resp, w') \<and> Some resp \<in> set (uncached v (w_db w) E inp) \<and> coh C (w_ms w') \<and>
    w_dgr w' = w_dgr w \<and> w_db w' = w_db w"
proof -
  obtain p j where p: "display_plan (TrimSpace (cr_Method inp)) E v inp = Some p" "C (buildKey (pl_family p) (pl_key p)) = Some j"
    "pl_loader p (w_db w) = (Inr j, w_db w)" "cached_form m (pl_ty p) j \<noteq> None"
    "ev_flight E (pl_family p @ '':'' @ pl_key p) \<in> {None, Some (Inr (Typed j))}"
    using assms(1,4) by (auto simp: steady_call_def split: option.splits)
  obtain jc where jc: "cached_form m (pl_ty p) j = Some jc" using p(4) by blast
  note l = plan_lifetime [OF p(1)]
  obtain x s' where r: "GetOrLoadT m (go_type (pl_ty p)) (pl_family p) (pl_key p) (pl_seconds p * 1000000000) LevelDisplay (ev_flight E) (ev_lat E)
      (pl_loader p) (w_ms w, w_db w) = (Inr x, s', w_db w)" "x \<in> {j, jc}" "coh C s'" "ms_dgr s' = w_dgr w"
    using read_coherent [where loader = "pl_loader p" and inflight = "ev_flight E" and latency = "ev_lat E", OF assms(2) p(2) l assms(3) p(5,3) jc] by blast
  have "dispatch (TrimSpace (cr_Method inp)) E v inp w = Some (pl_answer p x, w\<lparr>w_ms := s', w_db := w_db w\<rparr>)"
    using r(1) assms(1) by (simp add: dispatch_plan [OF p(1)] cached_answer_def)
  then have "Call E v inp w = Some (answer_with inp (pl_answer p x), w\<lparr>w_ms := s', w_db := w_db w\<rparr>)"
    by (cases "pl_answer p x") (simp add: Call_def answer_with_def)
  then show ?thesis using r p jc assms(1) by (auto simp: uncached_def)
qed

lemma display_run_steady:
  assumes "sv_mgr v = m" "sv_rdb v = R"
  shows "coh C (w_ms w) \<Longrightarrow> CanServeLevel (w_dgr w) LevelDisplay \<Longrightarrow> list_all (\<lambda>(E, inp). steady_call v C (w_db w) E inp) (display_calls es) \<Longrightarrow>
    list_all2 (\<lambda>(E, inp) a. a \<in> set (uncached v (w_db w) E inp)) (display_calls es) (display_run v es w)"
proof (induction es arbitrary: w)
  case (Cons e es)
  show ?case
  proof (cases e)
    case (DCall E inp)
    obtain resp w' where c: "Call E v inp w = Some (resp, w')" "Some resp \<in> set (uncached v (w_db w) E inp)" "coh C (w_ms w')"
      "w_dgr w' = w_dgr w" "w_db w' = w_db w"
      using Call_steady [OF assms(1) Cons.prems(1,2), of E inp] Cons.prems(3) DCall by auto
    then show ?thesis using Cons.IH [of w'] Cons.prems DCall by simp
  next
    case (Settle now i)
    then show ?thesis using Cons.IH [of "w\<lparr>w_ms := run_pending m now i (w_ms w)\<rparr>"] Cons.prems settle_coherent [OF Cons.prems(1)] assms by simp
  next
    case (Forget ks)
    then show ?thesis using Cons.IH [of "forget v ks w"] Cons.prems forget_coherent [OF Cons.prems(1)] assms
      by (simp add: forget_def put_redis_def)
  qed
qed simp

end

section \<open>Properties\<close>


section \<open>Keys that collide\<close>

lemma null_survives: "survives m (go_type (TMap TAny)) JNull"
proof -
  have "json_parse (json_print JNull) = Some JNull" by (rule json_parse_print) (simp_all add: max_depth_def)
  then show ?thesis by (simp add: survives_def jsonUnmarshalAny_def unmarshal_T_def marshal_T_def go_type_def)
qed

lemma detail_plan:
  assumes "m = ''room_detail'' \<or> m = ''live_detail''" "pm_room inp \<noteq> []"
  shows "display_plan m E v inp = Some \<lparr>pl_ty = TMap TAny, pl_family = ''room'', pl_key = ''detail:'' @ pm_room inp, pl_seconds = 30,
    pl_loader = detail_loader (sv_D v) (sv_sc v) (pm_room inp), pl_answer = found_answer ''room not found''\<rparr>"
  using assms by (auto simp: display_plan_def display_table_def Let_def read_when_def)

lemma detail_call:
  assumes "TrimSpace (cr_Method inp) = m" "m = ''room_detail'' \<or> m = ''live_detail''" "pm_room inp \<noteq> []"
    and "GetOrLoadT (sv_mgr v) (go_type (TMap TAny)) ''room'' (''detail:'' @ pm_room inp) (30 * 1000000000) LevelDisplay (ev_flight E) (ev_lat E)
      (detail_loader (sv_D v) (sv_sc v) (pm_room inp)) (w_ms w, w_db w) = (Inr JNull, s', d')"
  shows "Call E v inp w = Some (\<lparr>cp_Code = 400, cp_Meg = ''room not found'', cp_Seq = cr_Seq inp, cp_NewSessionId = cr_SessionId inp, cp_Result = None\<rparr>,
    w\<lparr>w_ms := s', w_db := d'\<rparr>)"
  using dispatch_plan [OF detail_plan [OF assms(2,3), of E v]] assms(1,4)
  by (simp add: Call_def cached_answer_def found_answer_def CodeBusinessError_def wrap32_def)

text \<open>C40: cache keys are trimmed, queries are not.  When a request for a room number with surrounding space finds no room, then, once the background write
  has run, a request for the room number without the space is answered \<open>room not found\<close>, on either detail
  method and whatever the database holds by then.\<close>

theorem padded_room_poisons_detail:
  assumes "display_caches R view live dbl F contents (sv_mgr v)" and "live (w_redis w)" and "CanServeLevel (w_dgr w) LevelDisplay" and "ms_pending (w_ms w) = []"
    and "view (w_redis w) (buildKey ''room'' (''detail:'' @ pm_room inp)) = None"
    and "\<forall>h. cm_l1 (sv_mgr v) = Some h \<longrightarrow> contents (ms_l1s (w_ms w) h) (buildKey ''room'' (''detail:'' @ pm_room inp)) = None"
    and "TrimSpace (cr_Method inp) = m" "m = ''room_detail'' \<or> m = ''live_detail''" and "TrimSpace (cr_Method inp') = m'" "m' = ''room_detail'' \<or> m' = ''live_detail''"
    and "pm_room inp \<noteq> []" "pm_room inp' \<noteq> []" and "TrimSpace (''detail:'' @ pm_room inp) = TrimSpace (''detail:'' @ pm_room inp')"
    and "BuildRoomDetail (sv_D v) (sv_sc v) (pm_room inp) (w_db w) = (None, d)" and "ev_flight E (''room:detail:'' @ pm_room inp) = None"
  shows "\<exists>resp w1. Call E v inp w = Some (resp, w1) \<and>
    (\<exists>w2. Call E' v inp' (w1\<lparr>w_ms := run_pending (sv_mgr v) now 0 (w_ms w1), w_db := e\<rparr>) =
      Some (\<lparr>cp_Code = 400, cp_Meg = ''room not found'', cp_Seq = cr_Seq inp', cp_NewSessionId = cr_SessionId inp', cp_Result = None\<rparr>, w2) \<and> w_db w2 = e)"
proof -
  let ?k = "''detail:'' @ pm_room inp" and ?k' = "''detail:'' @ pm_room inp'" and ?T = "go_type (TMap TAny)" and ?m = "sv_mgr v"
  note dc = assms(1) [unfolded display_caches_def display_caches_axioms_def]
  have key: "buildKey ''room'' ?k' = buildKey ''room'' ?k" using assms(13) by (simp add: buildKey_def)
  have lv: "LevelDisplay \<noteq> LevelWrite" by (simp add: LevelDisplay_def LevelWrite_def)
  have rd: "readable (w_ms w) (entry ''room'' key (30 * 1000000000) LevelDisplay)" for key using assms(3) lv by (simp add: readable_def)
  have ld: "detail_loader (sv_D v) (sv_sc v) (pm_room inp) (w_db w) = (Inr JNull, d)" using assms(14) by (simp add: detail_loader_def)
  obtain s1 where s1: "GetOrLoadT ?m ?T ''room'' ?k (30 * 1000000000) LevelDisplay (ev_flight E) (ev_lat E) (detail_loader (sv_D v) (sv_sc v) (pm_room inp))
      (w_ms w, w_db w) = (Inr JNull, s1, d)" "ms_pending s1 = [SetBoth (buildKey ''room'' ?k) (json_print JNull) (30 * 1000000000)]"
      "ms_redis s1 = w_redis w" "ms_dgr s1 = w_dgr w"
    using GetOrLoadT_load [where T = ?T and key = ?k and loader = "detail_loader (sv_D v) (sv_sc v) (pm_room inp)" and inflight = "ev_flight E" and latency = "ev_lat E" and d = "w_db w",
        of R view live dbl F contents ?m "w_ms w" "''room''" "30 * 1000000000" LevelDisplay] dc rd assms(2,4,5,6,15) ld by auto
  let ?s = "run_pending ?m now 0 s1"
  have w: "cached_at contents view ?m (buildKey ''room'' ?k) (json_print JNull) ?s \<and> live (ms_redis ?s) \<and> ms_dgr ?s = ms_dgr s1"
    using run_writeback_cached [of R view live dbl F contents ?m s1 0 "buildKey ''room'' ?k" "json_print JNull" "30 * 1000000000" now] dc s1 assms(2)
    by (simp add: secs_def)
  obtain s2 where "GetOrLoadT ?m ?T ''room'' ?k' (30 * 1000000000) LevelDisplay (ev_flight E') (ev_lat E') (detail_loader (sv_D v) (sv_sc v) (pm_room inp'))
      (?s, e) = (Inr JNull, s2, e)"
    using GetOrLoadT_cached [where T = ?T and v = JNull and key = ?k' and s = ?s and loader = "detail_loader (sv_D v) (sv_sc v) (pm_room inp')" and inflight = "ev_flight E'"
        and latency = "ev_lat E'" and d = e, of R view live dbl F contents ?m "''room''" "30 * 1000000000" LevelDisplay]
      dc w key null_survives [of ?m] s1(4) assms(3) lv by (auto simp: readable_def)
  then show ?thesis
    using detail_call [OF assms(7,8,11) s1(1)] detail_call [OF assms(9,10,12), of v E' "w\<lparr>w_ms := ?s, w_db := e\<rparr>" s2 e] by auto
qed

section \<open>An instance\<close>

interpretation memdisplay: display_caches mem_redis mem_view mem_up id mem_l1 map_of "fst (demo_manager closed_breakers)"
  by unfold_locales (simp_all add: demo_manager_simps closed_breakers_def)

text \<open>A database with one live type and no rooms.\<close>

definition types_db :: "nat sql_db" where
  "types_db = \<lparr>ExecContext = (\<lambda>q args d. (None, d)),
     QueryContext = (\<lambda>q args d. (Inr (if args = [] then [[VInt 3, VInt 0, VText ''ball'', VText ''i'', VInt 1, VInt 1]] else [], None), d))\<rparr>"

definition display_service :: "(mem, (string \<times> string) list, unit, nat) service" where
  "display_service =
    \<lparr>sv_rdb = mem_redis, sv_D = types_db, sv_sc = initial_schema, sv_sessions = NewSessionStore (Some mem_redis),
     sv_sms = \<lparr>sms_rdb = Some mem_redis, sms_mode = ''prod'', sms_bypass = []\<rparr>, sv_asset = [], sv_mgr = fst (demo_manager closed_breakers), sv_sched = []\<rparr>"

definition display_world :: "(mem, (string \<times> string) list, unit, nat) world" where
  "display_world = \<lparr>w_ms = snd (demo_manager closed_breakers), w_db = 5, w_rng = [], w_sem = NewSemaphore ''mysql-main'' 50\<rparr>"

lemma display_service_simps [simp]:
  "sv_mgr display_service = fst (demo_manager closed_breakers)" "sv_rdb display_service = mem_redis" "sv_D display_service = types_db"
  "sv_sc display_service = initial_schema" "w_ms display_world = snd (demo_manager closed_breakers)" "w_db display_world = 5"
  by (simp_all add: display_service_def display_world_def)

definition ball_json :: json where
  "ball_json = JArr [JObj [(''liveTypeId'', jint 3), (''typeName'', JStr ''ball''), (''parentId'', jint 0), (''icon'', JStr ''i'')]]"

lemma ball_loaded: "load_types types_db initial_schema d = (Inr ball_json, d)"
  by (simp add: load_types_def ListTopLevel_def scanLiveTypes_def query_list_def types_db_def type_dests_def scan_row_def in_width_def scanLiveType_def
    BuildLiveTypesJSON_def live_type_json_def ball_json_def g_int_def g_str_def)

lemma demo_fl: "fl_exact (cm_fl (fst (demo_manager B)))" by (simp add: fl_exact_def demo_manager_simps)

lemma ball_survives: "cached_form (fst (demo_manager B)) (TSlice ty_LiveTypeJSON) ball_json = Some ball_json"
proof -
  let ?v = "GList [GStruct [GInt 3, GStr ''ball'', GInt 0, GStr ''i'']]"
  have e: "emit (TSlice ty_LiveTypeJSON) ?v = ball_json" by (simp add: ty_defs ball_json_def)
  have "holds (TSlice ty_LiveTypeJSON) ?v" by (simp add: ty_defs exact_def valid_utf8_ascii ascii_def)
  note r = rep_survives [OF demo_fl holds_rep [OF this], unfolded e]
  have "ty_depth (TSlice ty_LiveTypeJSON) \<le> max_depth" by (simp add: ty_defs max_depth_def)
  then show ?thesis using r by (simp add: survives_cached_form [symmetric])
qed

definition types_call :: CallReq where "types_call = \<lparr>cr_Method = ''live_types'', cr_ParamJson = [], cr_SessionId = [], cr_Seq = 1\<rparr>"

lemma types_plan:
  "display_plan (TrimSpace (cr_Method types_call)) E v types_call = Some \<lparr>pl_ty = TSlice ty_LiveTypeJSON, pl_family = ''live'', pl_key = ''types'', pl_seconds = 15,
     pl_loader = load_types (sv_D v) (sv_sc v), pl_answer = plain_answer\<rparr>"
proof -
  have "TrimSpace ''live_types'' = ''live_types''" by code_simp
  then show ?thesis by (simp add: types_call_def display_plan_def display_table_def Let_def read_when_def)
qed

lemma types_call_simps: "cr_Seq types_call = 1" "cr_SessionId types_call = []" by (simp_all add: types_call_def)

definition ball_answer :: CallResp where
  "ball_answer = \<lparr>cp_Code = 200, cp_Meg = [], cp_Seq = 1, cp_NewSessionId = [], cp_Result = Some (json_print ball_json)\<rparr>"


definition room_call :: "string \<Rightarrow> string \<Rightarrow> CallReq" where "room_call m room = call_of m (JObj [(''roomNum'', JStr room)])"

lemma room_call_simps:
  "ascii room \<Longrightarrow> pm_room (room_call m room) = room" "cr_Method (room_call m room) = m" "cr_Seq (room_call m room) = 1" "cr_SessionId (room_call m room) = []"
proof -
  assume "ascii room"
  then have "unmarshal_struct [(''roomNum'', dec_string (\<lambda>x s. x))] (cr_ParamJson (room_call m room)) [] = (False, room)"
    unfolding room_call_def by (intro unmarshal_call) (simp_all add: valid_utf8_ascii ascii_def max_depth_def decode_struct_def lookup_field_def)
  then show "pm_room (room_call m room) = room" by (simp add: pm_room_def one_string_def)
qed (simp_all add: room_call_def call_of_def)

lemma no_room: "BuildRoomDetail types_db sc room d = (None, d)"
  by (simp add: BuildRoomDetail_def room_FindByRoomNum_def find_one_def query_row_def types_db_def)

theorem padded_room_poisons_detail_witness:
  "\<exists>resp w1 w2. Call demo_env display_service (room_call ''room_detail'' ''1001 '') display_world = Some (resp, w1) \<and>
    Call demo_env display_service (room_call ''live_detail'' ''1001'') (w1\<lparr>w_ms := run_pending (sv_mgr display_service) 0 0 (w_ms w1), w_db := 6\<rparr>) =
      Some (\<lparr>cp_Code = 400, cp_Meg = ''room not found'', cp_Seq = 1, cp_NewSessionId = [], cp_Result = None\<rparr>, w2)"
proof -
  have t: "TrimSpace ''room_detail'' = ''room_detail''" "TrimSpace ''live_detail'' = ''live_detail''" "TrimSpace ''detail:1001 '' = TrimSpace ''detail:1001''"
    by code_simp+
  have a: "ascii ''1001 ''" "ascii ''1001''" by (simp_all add: ascii_def)
  have w: "mem_up (w_redis display_world)" "CanServeLevel (w_dgr display_world) LevelDisplay" "ms_pending (w_ms display_world) = []"
    "mem_view (w_redis display_world) k = None" "map_of (ms_l1s (w_ms display_world) h) k = None" for k h
    by (simp_all add: demo_manager_simps mem_empty_simps CanServeLevel_def New_def ModeNormal_def)
  have e: "ev_flight demo_env k = None" for k by (simp add: demo_env_def)
  show ?thesis
    using padded_room_poisons_detail [OF memdisplay.display_caches_axioms [folded display_service_simps(1)] w(1-3), of "room_call ''room_detail'' ''1001 ''"
        "''room_detail''" "room_call ''live_detail'' ''1001''" "''live_detail''" 5 demo_env demo_env 6 0]
    unfolding room_call_simps(1) [OF a(1)] room_call_simps(1) [OF a(2)] room_call_simps(2-4)
    using w(4,5) e t no_room by auto
qed

end
