(* ===== verification/Transport.thy ===== *)
theory Transport
  imports Codec Json
begin

text \<open>
  The encrypted HTTP transport (\<open>pkg/codec/middleware.go\<close>): decryption of the request, the request envelope, the response
  envelope and its encryption.  A handler maps a request and a state to the response it writes and the next state.
  \<open>json.RawMessage\<close> fields keep the text of a member, so the unmarshaller here also returns the text of each member.
\<close>

section \<open>HTTP\<close>

text \<open>The values \<open>WithParamCtx\<close> stores.\<close>

record param_ctx =
  cx_param :: bytes
  cx_session :: string
  cx_plat :: string
  cx_seq :: int

text \<open>A request: the body (none when reading it fails), the headers (empty when absent), the context values, the path, the
  path values of the router, the query (none when the name is absent), the method and the remote address.\<close>

record hreq =
  q_body :: "bytes option"
  q_header :: "string \<Rightarrow> string"
  q_ctx :: "param_ctx option"
  q_path :: string
  q_pathValue :: "string \<Rightarrow> string"
  q_query :: "string \<Rightarrow> string option"
  q_method :: string
  q_remote :: string

text \<open>A response: the status, the content type, the other headers in the order they are set, and the body.\<close>

record hresp =
  hr_status :: int
  hr_ctype :: string
  hr_hdr :: "(string \<times> string) list"
  hr_body :: bytes

type_synonym 's http = "hreq \<Rightarrow> 's \<Rightarrow> hresp \<times> 's"

definition http_Error :: "string \<Rightarrow> int \<Rightarrow> hresp" where
  "http_Error msg code =
     \<lparr>hr_status = code, hr_ctype = ''text/plain; charset=utf-8'', hr_hdr = [(''X-Content-Type-Options'', ''nosniff'')],
      hr_body = bytes_of (msg @ [CHR 0x0A])\<rparr>"

definition ParamJSON :: "param_ctx option \<Rightarrow> bytes option" where "ParamJSON c = map_option cx_param c"
definition SessionID :: "param_ctx option \<Rightarrow> string" where "SessionID c = (case c of Some v \<Rightarrow> cx_session v | None \<Rightarrow> [])"
definition Seq :: "param_ctx option \<Rightarrow> int" where "Seq c = (case c of Some v \<Rightarrow> cx_seq v | None \<Rightarrow> 0)"

definition WithParamCtx :: "param_ctx option \<Rightarrow> bytes \<Rightarrow> string \<Rightarrow> string \<Rightarrow> int \<Rightarrow> param_ctx option" where
  "WithParamCtx c param sessionID plat seq = Some \<lparr>cx_param = param, cx_session = sessionID, cx_plat = plat, cx_seq = seq\<rparr>"

section \<open>Raw messages\<close>

text \<open>The members of an object with their texts.\<close>

fun raw_members :: "nat \<Rightarrow> string \<Rightarrow> (string \<times> json \<times> string) list" where
  "raw_members 0 s = []"
| "raw_members (Suc n) s =
     (case skip_ws s of
        q # t \<Rightarrow>
          (case parse_string t of
             None \<Rightarrow> []
           | Some (k, r) \<Rightarrow>
               (case skip_ws r of
                  x # r2 \<Rightarrow>
                    (let r2 = skip_ws r2
                     in case parse_value (2 * length r2 + 2) 1 r2 of
                          None \<Rightarrow> []
                        | Some (v, r3) \<Rightarrow>
                            (k, v, take (length r2 - length r3) r2) #
                            (case skip_ws r3 of y # r4 \<Rightarrow> if y = CHR '','' then raw_members n r4 else [] | [] \<Rightarrow> []))
                | [] \<Rightarrow> []))
      | [] \<Rightarrow> [])"

declare raw_members.simps(2) [simp del]

definition raw_object :: "string \<Rightarrow> (string \<times> json \<times> string) list" where
  "raw_object s = (case skip_ws s of c # cs \<Rightarrow> if c = CHR ''{'' then raw_members (length cs) cs else [] | [] \<Rightarrow> [])"

type_synonym 's rfield = "string \<times> (json \<times> string \<Rightarrow> 's \<Rightarrow> bool \<times> 's)"

definition lookup_rfield :: "'s rfield list \<Rightarrow> string \<Rightarrow> (json \<times> string \<Rightarrow> 's \<Rightarrow> bool \<times> 's) option" where
  "lookup_rfield fs k =
     (case map_of fs k of
        Some f \<Rightarrow> Some f
      | None \<Rightarrow> map_option snd (find (\<lambda>(n, _). fold_name n = fold_name k) fs))"

fun assign_raw :: "'s rfield list \<Rightarrow> (string \<times> json \<times> string) list \<Rightarrow> bool \<times> 's \<Rightarrow> bool \<times> 's" where
  "assign_raw fs [] es = es"
| "assign_raw fs ((k, v) # ms) (e, s) =
     (case lookup_rfield fs k of
        None \<Rightarrow> assign_raw fs ms (e, s)
      | Some f \<Rightarrow> (case f v s of (e2, s2) \<Rightarrow> assign_raw fs ms (e \<or> e2, s2)))"

definition unmarshal_raw :: "'s rfield list \<Rightarrow> string \<Rightarrow> 's \<Rightarrow> bool \<times> 's" where
  "unmarshal_raw fs text s =
     (case json_parse text of
        None \<Rightarrow> (True, s)
      | Some j \<Rightarrow> (case j of JObj _ \<Rightarrow> assign_raw fs (raw_object text) (False, s) | JNull \<Rightarrow> (False, s) | _ \<Rightarrow> (True, s)))"

definition dec_int32 :: "(int \<Rightarrow> 's \<Rightarrow> 's) \<Rightarrow> json \<Rightarrow> 's \<Rightarrow> bool \<times> 's" where
  "dec_int32 upd j s =
     (case j of
        JNum n \<Rightarrow> (case parse_int n of Some i \<Rightarrow> if - (2 ^ 31) \<le> i \<and> i < 2 ^ 31 then (False, upd i s) else (True, s) | None \<Rightarrow> (True, s))
      | JNull \<Rightarrow> (False, s)
      | _ \<Rightarrow> (True, s))"

text \<open>Marshalling a raw message: it must be valid JSON; white space is dropped and HTML characters are escaped.\<close>

fun compact_scan :: "bool \<Rightarrow> string \<Rightarrow> string" where
  "compact_scan q [] = []"
| "compact_scan q (c # cs) =
     (if c \<in> {CHR ''<'', CHR ''>'', CHR ''&''} then u_escape (code_of c) @ compact_scan q cs
      else if c = CHR 0xE2 \<and> length cs \<ge> 2 \<and> cs ! 0 = CHR 0x80 \<and> cs ! 1 \<in> {CHR 0xA8, CHR 0xA9}
      then u_escape (if cs ! 1 = CHR 0xA8 then 0x2028 else 0x2029) @ compact_scan q (drop 2 cs)
      else if q then
        (if c = backslash then (case cs of [] \<Rightarrow> [c] | d # ds \<Rightarrow> c # d # compact_scan q ds)
         else if c = dquote then c # compact_scan False cs
         else c # compact_scan q cs)
      else if is_ws c then compact_scan q cs
      else c # compact_scan (c = dquote) cs)"

definition compact_json :: "string \<Rightarrow> string option" where
  "compact_json s = (if json_parse s = None then None else Some (compact_scan False s))"

fun raw_fields :: "(string \<times> string) list \<Rightarrow> string" where
  "raw_fields [] = []"
| "raw_fields [(k, t)] = json_quote k @ '':'' @ t"
| "raw_fields ((k, t) # m # ms) = json_quote k @ '':'' @ t @ '','' @ raw_fields (m # ms)"

definition raw_print :: "(string \<times> string) list \<Rightarrow> string" where
  "raw_print ms = ''{'' @ raw_fields ms @ ''}''"

section \<open>Envelopes\<close>

record TransportConfig =
  RequestKey :: bytes
  ResponseKey :: bytes

record PlainResp =
  pr_Code :: int
  pr_Meg :: string
  pr_Seq :: int
  pr_NewSession :: string
  pr_Result :: string

definition zero_resp :: PlainResp where
  "zero_resp = \<lparr>pr_Code = 0, pr_Meg = [], pr_Seq = 0, pr_NewSession = [], pr_Result = []\<rparr>"

definition resp_fields :: "PlainResp rfield list" where
  "resp_fields =
    [(''code'', \<lambda>(j, _). dec_int (\<lambda>v s. s\<lparr>pr_Code := v\<rparr>) j),
     (''meg'', \<lambda>(j, _). dec_string (\<lambda>v s. s\<lparr>pr_Meg := v\<rparr>) j),
     (''seq'', \<lambda>(j, _). dec_int32 (\<lambda>v s. s\<lparr>pr_Seq := v\<rparr>) j),
     (''newSessionId'', \<lambda>(j, _). dec_string (\<lambda>v s. s\<lparr>pr_NewSession := v\<rparr>) j),
     (''result'', \<lambda>(_, raw) s. (False, s\<lparr>pr_Result := raw\<rparr>))]"

text \<open>\<open>json.Marshal\<close> of a \<open>PlainResp\<close>: none when the result is no JSON.\<close>

definition marshal_resp :: "PlainResp \<Rightarrow> string option" where
  "marshal_resp pr =
     (let head = [(''code'', itoa (pr_Code pr)), (''meg'', json_quote (pr_Meg pr)), (''seq'', itoa (pr_Seq pr))] @
                 (if pr_NewSession pr = [] then [] else [(''newSessionId'', json_quote (pr_NewSession pr))])
      in if pr_Result pr = [] then Some (raw_print head)
         else (case compact_json (pr_Result pr) of None \<Rightarrow> None | Some t \<Rightarrow> Some (raw_print (head @ [(''result'', t)]))))"

text \<open>The request envelope.\<close>

record envelope =
  en_SessionID :: string
  en_Seq :: int
  en_Plat :: string
  en_Param :: string

definition zero_envelope :: envelope where
  "zero_envelope = \<lparr>en_SessionID = [], en_Seq = 0, en_Plat = [], en_Param = []\<rparr>"

definition envelope_fields :: "envelope rfield list" where
  "envelope_fields =
    [(''sessionId'', \<lambda>(j, _). dec_string (\<lambda>v s. s\<lparr>en_SessionID := v\<rparr>) j),
     (''seq'', \<lambda>(j, _). dec_int32 (\<lambda>v s. s\<lparr>en_Seq := v\<rparr>) j),
     (''plat'', \<lambda>(j, _). dec_string (\<lambda>v s. s\<lparr>en_Plat := v\<rparr>) j),
     (''param'', \<lambda>(_, raw) s. (False, s\<lparr>en_Param := raw\<rparr>))]"

definition tryParseEnvelope :: "bytes \<Rightarrow> envelope option" where
  "tryParseEnvelope plain =
     (if length plain = 0 \<or> string_of plain ! 0 \<noteq> CHR ''{'' then None
      else (case unmarshal_raw envelope_fields (string_of plain) zero_envelope of (err, e) \<Rightarrow>
              if err then None
              else if length (en_Param e) = 0 \<and> en_SessionID e = [] \<and> en_Seq e = 0 \<and> en_Plat e = [] then None
              else if length (en_Param e) = 0 then None
              else Some e))"

definition buildEnvelope :: "bytes \<Rightarrow> int \<Rightarrow> string \<Rightarrow> bytes" where
  "buildEnvelope respBytes seq sessionID =
     (let wrapped = (case marshal_resp (zero_resp\<lparr>pr_Code := 200, pr_Seq := seq, pr_Result := string_of respBytes,
                              pr_NewSession := sessionID\<rparr>) of Some out \<Rightarrow> bytes_of out | None \<Rightarrow> [])
      in case unmarshal_raw resp_fields (string_of respBytes) zero_resp of (err, pr) \<Rightarrow>
           if \<not> err \<and> pr_Code pr \<noteq> 0
           then (case marshal_resp (if pr_Seq pr = 0 then pr\<lparr>pr_Seq := seq\<rparr> else pr) of Some out \<Rightarrow> bytes_of out | None \<Rightarrow> wrapped)
           else wrapped)"

section \<open>The middleware\<close>

definition sealed :: "bytes \<Rightarrow> hresp" where
  "sealed ct =
     \<lparr>hr_status = 200, hr_ctype = ''application/json charset=utf-8'', hr_hdr = [(''Content-Length'', itoa (int (length ct)))], hr_body = ct\<rparr>"

definition framed :: "bytes \<Rightarrow> bytes \<Rightarrow> hresp" where
  "framed respKey plain =
     (case EncodeFrame plain respKey of
        Inl _ \<Rightarrow> http_Error ''encrypt error'' 500
      | Inr ct \<Rightarrow> sealed ct)"

definition abortEncrypted :: "bytes \<Rightarrow> int \<Rightarrow> string \<Rightarrow> int \<Rightarrow> string \<Rightarrow> hresp" where
  "abortEncrypted respKey code msg seq newSessionID =
     framed respKey (case marshal_resp (zero_resp\<lparr>pr_Code := code, pr_Meg := msg, pr_Seq := seq, pr_NewSession := newSessionID\<rparr>) of
                       Some out \<Rightarrow> bytes_of out | None \<Rightarrow> [])"

definition open_body :: "TransportConfig \<Rightarrow> bytes \<Rightarrow> codec_error + bytes" where
  "open_body cfg body =
     (if length body \<ge> frameHeaderLen \<and> body ! 0 = frameByte0 \<and> body ! 1 = frameByte1
      then DecodeFrame body (RequestKey cfg) else Decrypt body (RequestKey cfg))"

definition header_ctx :: "hreq \<Rightarrow> bytes \<Rightarrow> envelope" where
  "header_ctx r plain =
     \<lparr>en_SessionID = q_header r ''X-Session'',
      en_Seq = (if q_header r ''X-Seq'' = [] then 0 else case parse_int (q_header r ''X-Seq'') of Some n \<Rightarrow> wrap32 n | None \<Rightarrow> 0),
      en_Plat = q_header r ''X-Plat'', en_Param = string_of plain\<rparr>"

definition Transport :: "TransportConfig \<Rightarrow> 's http \<Rightarrow> 's http" where
  "Transport cfg next r s =
     (case q_body r of
        None \<Rightarrow> (abortEncrypted (ResponseKey cfg) 101 ''invalid request body'' 0 [], s)
      | Some all \<Rightarrow>
          (case open_body cfg (take (8 * 1024 * 1024) all) of
             Inl _ \<Rightarrow> (abortEncrypted (ResponseKey cfg) 101 ''invalid encrypted request'' 0 [], s)
           | Inr plain \<Rightarrow>
               (let env = (case tryParseEnvelope plain of Some e \<Rightarrow> e | None \<Rightarrow> header_ctx r plain);
                    ctx = WithParamCtx (q_ctx r) (bytes_of (en_Param env)) (en_SessionID env) (en_Plat env) (en_Seq env)
                in case next (r\<lparr>q_ctx := ctx\<rparr>) s of (out, s') \<Rightarrow>
                     (framed (ResponseKey cfg) (buildEnvelope (hr_body out) (en_Seq env) (en_SessionID env)), s'))))"

text \<open>What the handlers write.\<close>

definition json_resp :: "bytes \<Rightarrow> hresp" where
  "json_resp b = \<lparr>hr_status = 200, hr_ctype = ''application/json; charset=utf-8'', hr_hdr = [], hr_body = b\<rparr>"

text \<open>\<open>result\<close>: none for nil, otherwise the text it marshals to (none when that fails).\<close>

definition WriteResp :: "int \<Rightarrow> string \<Rightarrow> string option option \<Rightarrow> hresp" where
  "WriteResp code meg result =
     (case result of
        Some None \<Rightarrow> (json_resp (bytes_of ([CHR ''{''] @ json_quote ''code'' @ '':500,'' @ json_quote ''meg'' @ '':'' @ json_quote ''marshal error'' @ ''}'')))\<lparr>hr_status := 500\<rparr>
      | _ \<Rightarrow>
          (let raw = (case result of Some (Some t) \<Rightarrow> t | _ \<Rightarrow> [])
           in json_resp (case marshal_resp (zero_resp\<lparr>pr_Code := code, pr_Meg := meg, pr_Result := raw\<rparr>) of Some b \<Rightarrow> bytes_of b | None \<Rightarrow> [])))"

definition WriteOK :: "string option option \<Rightarrow> hresp" where "WriteOK result = WriteResp 200 [] result"
definition WriteErr :: "int \<Rightarrow> string \<Rightarrow> hresp" where "WriteErr code meg = WriteResp code meg None"
definition WriteRaw :: "bytes \<Rightarrow> hresp" where "WriteRaw b = json_resp b"

section \<open>Raw messages of printed objects\<close>

lemma skip_ws_print: "wf_json v \<Longrightarrow> skip_ws (json_print v @ r) = json_print v @ r"
  using json_print_start [of v] by (auto simp: skip_ws_start)

lemma parse_value_print: "wf_json v \<Longrightarrow> delim r \<Longrightarrow> d + jdepth v \<le> max_depth \<Longrightarrow>
    parse_value (2 * length (json_print v @ r) + 2) d (json_print v @ r) = Some (v, r)"
  using jfuel_bound(1) [of v] by (intro parse_print(1)) simp_all

lemma raw_member_one:
  assumes "valid_utf8 k" "wf_json v" "Suc (jdepth v) \<le> max_depth" "delim (y # r)"
  shows "raw_members (Suc n) (json_quote k @ '':'' @ json_print v @ y # r) =
    (k, v, json_print v) # (case skip_ws (y # r) of z # r4 \<Rightarrow> if z = CHR '','' then raw_members n r4 else [] | [] \<Rightarrow> [])"
proof -
  have p: "parse_value (2 * length (json_print v @ y # r) + 2) 1 (json_print v @ y # r) = Some (v, y # r)"
    using parse_value_print [OF assms(2,4), of 1] assms(3) by simp
  show ?thesis
    using skip_ws_print [OF assms(2), of "y # r"] p parse_string_quote [OF assms(1), of "CHR '':'' # json_print v @ y # r"]
    by (simp add: raw_members.simps(2) json_quote_app Let_def)
qed

lemma raw_members_print:
  "ms \<noteq> [] \<Longrightarrow> list_all (\<lambda>(k, v). valid_utf8 k \<and> wf_json v \<and> Suc (jdepth v) \<le> max_depth) ms \<Longrightarrow> length ms \<le> n \<Longrightarrow>
   raw_members n (json_print_members ms @ CHR ''}'' # r) = map (\<lambda>(k, v). (k, v, json_print v)) ms"
proof (induction ms arbitrary: n)
  case (Cons m ms)
  obtain k v where m: "m = (k, v)" by force
  obtain n' where n: "n = Suc n'" "length ms \<le> n'" using Cons.prems(3) by (cases n) auto
  show ?case
  proof (cases ms)
    case Nil
    then show ?thesis using Cons.prems(2) raw_member_one [of k v "CHR ''}''" r n'] by (simp add: m n skip_ws_def is_ws_def)
  next
    case (Cons m2 ms2)
    then have "raw_members n' (json_print_members ms @ CHR ''}'' # r) = map (\<lambda>(k, v). (k, v, json_print v)) ms"
      using Cons.IH [of n'] Cons.prems(2) n(2) by simp
    then show ?thesis
      using Cons.prems(2) raw_member_one [of k v "CHR '',''" "json_print_members ms @ CHR ''}'' # r" n'] Cons
      by (simp add: m n skip_ws_def is_ws_def)
  qed
qed simp

lemma length_members: "length ms \<le> length (json_print_members ms)"
proof (induction ms)
  case (Cons m ms)
  then show ?case by (cases m; cases ms) (auto simp: json_quote_def)
qed simp

lemma raw_object_print:
  assumes "list_all (\<lambda>(k, v). valid_utf8 k \<and> wf_json v \<and> Suc (jdepth v) \<le> max_depth) ms" "ms \<noteq> []"
  shows "raw_object (json_print (JObj ms)) = map (\<lambda>(k, v). (k, v, json_print v)) ms"
  using raw_members_print [OF assms(2,1), of "length (json_print_members ms @ ''}'')" "[]"] length_members [of ms]
  by (simp add: raw_object_def skip_ws_def is_ws_def)

lemma unmarshal_raw_print:
  assumes "list_all (\<lambda>(k, v). valid_utf8 k \<and> wf_json v \<and> Suc (jdepth v) \<le> max_depth) ms" "ms \<noteq> []"
  shows "unmarshal_raw fs (json_print (JObj ms)) z = assign_raw fs (map (\<lambda>(k, v). (k, v, json_print v)) ms) (False, z)"
proof -
  have "wf_json (JObj ms)" using assms(1) by (auto simp: list_all_iff)
  moreover have "jdepthm ms < max_depth"
    using assms(1) by (induction ms) (auto simp: max_depth_def)
  ultimately have "json_parse (json_print (JObj ms)) = Some (JObj ms)" by (intro json_parse_print) simp_all
  then show ?thesis using raw_object_print [OF assms] by (simp add: unmarshal_raw_def)
qed

section \<open>Properties\<close>

text \<open>The envelope a client sends.\<close>

definition request_envelope :: "string \<Rightarrow> int \<Rightarrow> string \<Rightarrow> json \<Rightarrow> json" where
  "request_envelope sid seq plat p = JObj [(''sessionId'', JStr sid), (''seq'', jint seq), (''plat'', JStr plat), (''param'', p)]"

definition sendable :: "string \<Rightarrow> int \<Rightarrow> string \<Rightarrow> json \<Rightarrow> bool" where
  "sendable sid seq plat p \<longleftrightarrow> valid_utf8 sid \<and> valid_utf8 plat \<and> - (2 ^ 31) \<le> seq \<and> seq < 2 ^ 31 \<and> wf_json p \<and> Suc (jdepth p) \<le> max_depth"

lemma dec_int32_jint: "- (2 ^ 31) \<le> i \<Longrightarrow> i < 2 ^ 31 \<Longrightarrow> dec_int32 upd (jint i) s = (False, upd i s)"
  using parse_int_itoa [of i] by (simp add: dec_int32_def jint_def)

lemma json_print_ne: "wf_json j \<Longrightarrow> json_print j \<noteq> []"
  using json_print_start [of j] by auto

lemma tryParseEnvelope_printed:
  assumes "sendable sid seq plat p"
  shows "tryParseEnvelope (bytes_of (json_print (request_envelope sid seq plat p))) =
    Some \<lparr>en_SessionID = sid, en_Seq = seq, en_Plat = plat, en_Param = json_print p\<rparr>"
proof -
  let ?ms = "[(''sessionId'', JStr sid), (''seq'', jint seq), (''plat'', JStr plat), (''param'', p)]"
  have "list_all (\<lambda>(k, v). valid_utf8 k \<and> wf_json v \<and> Suc (jdepth v) \<le> max_depth) ?ms"
    using assms by (simp add: sendable_def max_depth_def valid_utf8_ascii ascii_def)
  from unmarshal_raw_print [OF this, of envelope_fields zero_envelope] assms
  have "unmarshal_raw envelope_fields (json_print (JObj ?ms)) zero_envelope =
      (False, \<lparr>en_SessionID = sid, en_Seq = seq, en_Plat = plat, en_Param = json_print p\<rparr>)"
    by (simp add: envelope_fields_def lookup_rfield_def dec_int32_jint zero_envelope_def sendable_def)
  then show ?thesis using json_print_ne [of p] assms
    by (simp add: tryParseEnvelope_def request_envelope_def sendable_def)
qed

lemma framed_ok:
  assumes "length key = 16"
  shows "\<exists>ct. framed key plain = sealed ct \<and> EncodeFrame plain key = Inr ct"
proof -
  obtain c where "Encrypt plain key = Inr c" using Encrypt_16 [OF assms, of plain] by metis
  then show ?thesis by (simp add: framed_def EncodeFrame_frame_of)
qed

lemma open_body_frame:
  assumes "EncodeFrame plain (RequestKey cfg) = Inr f" "length f < 2 ^ 32"
  shows "open_body cfg f = Inr plain"
proof -
  obtain ct where ct: "Encrypt plain (RequestKey cfg) = Inr ct" "f = frame_of ct"
    using assms(1) by (cases "Encrypt plain (RequestKey cfg)") (auto simp: EncodeFrame_frame_of)
  have "length ct < 2 ^ 32" using assms(2) ct(2) by (simp add: frame_of_def)
  then have "DecodeFrame f (RequestKey cfg) = Inr plain"
    using ct Decrypt_Encrypt_16 [OF Encrypt_key [OF ct(1)] ct(1)] by (simp add: DecodeFrame_frame_of)
  moreover have "length f \<ge> frameHeaderLen" "f ! 0 = frameByte0" "f ! 1 = frameByte1"
    by (simp_all add: ct(2) frame_of_def frameHeaderLen_def)
  ultimately show ?thesis by (simp add: open_body_def)
qed

lemma Transport_opens:
  assumes "sendable sid seq plat p"
    and "EncodeFrame (bytes_of (json_print (request_envelope sid seq plat p))) (RequestKey cfg) = Inr f"
    and "length f \<le> 8 * 1024 * 1024" "q_body r = Some f"
    and "handler (r\<lparr>q_ctx := Some \<lparr>cx_param = bytes_of (json_print p), cx_session = sid, cx_plat = plat, cx_seq = seq\<rparr>\<rparr>) s = (out, s')"
  shows "Transport cfg handler r s = (framed (ResponseKey cfg) (buildEnvelope (hr_body out) seq sid), s')"
proof -
  have "open_body cfg f = Inr (bytes_of (json_print (request_envelope sid seq plat p)))"
    using open_body_frame [OF assms(2)] assms(3) by simp
  then show ?thesis using assms(3-5) tryParseEnvelope_printed [OF assms(1)] by (simp add: Transport_def WithParamCtx_def Let_def)
qed

text \<open>The encrypted round trip.  A client that seals an envelope with the request key reaches the handler with exactly the
  text of its parameter, its session, platform and sequence number, and gets back, sealed with the response key, the envelope
  built from what the handler wrote.\<close>

theorem transport_roundtrip:
  assumes "length (ResponseKey cfg) = 16" and "sendable sid seq plat p"
    and "EncodeFrame (bytes_of (json_print (request_envelope sid seq plat p))) (RequestKey cfg) = Inr f"
    and "length f \<le> 8 * 1024 * 1024" and "q_body r = Some f"
    and "handler (r\<lparr>q_ctx := Some \<lparr>cx_param = bytes_of (json_print p), cx_session = sid, cx_plat = plat, cx_seq = seq\<rparr>\<rparr>) s = (out, s')"
  shows "\<exists>ct. Transport cfg handler r s = (sealed ct, s') \<and>
    EncodeFrame (buildEnvelope (hr_body out) seq sid) (ResponseKey cfg) = Inr ct"
  using Transport_opens [OF assms(2-5), where handler = handler, OF assms(6)] framed_ok [OF assms(1)] by auto

text \<open>C19: nothing but a ciphertext under the request key reaches a handler.  Any other body is answered with the sealed refusal
  101, and the state is the one before.\<close>

theorem transport_refuses_unsealed:
  assumes "length (ResponseKey cfg) = 16" and "q_body r = Some body" and "length body \<le> 8 * 1024 * 1024"
    and "\<forall>plain. EncodeFrame plain (RequestKey cfg) \<noteq> Inr body \<and> Encrypt plain (RequestKey cfg) \<noteq> Inr body"
  shows "\<exists>ct. Transport cfg handler r s = (sealed ct, s) \<and>
    EncodeFrame (bytes_of (json_print (JObj [(''code'', jint 101), (''meg'', JStr ''invalid encrypted request''), (''seq'', jint 0)])))
      (ResponseKey cfg) = Inr ct"
proof -
  have "\<nexists>plain. open_body cfg body = Inr plain"
  proof
    assume "\<exists>plain. open_body cfg body = Inr plain"
    then obtain plain where "DecodeFrame body (RequestKey cfg) = Inr plain \<or> Decrypt body (RequestKey cfg) = Inr plain"
      by (auto simp: open_body_def split: if_splits)
    then show False
    proof
      assume "DecodeFrame body (RequestKey cfg) = Inr plain"
      then obtain ct where "body = frame_of ct" "Decrypt ct (RequestKey cfg) = Inr plain" by (rule DecodeFrame_InrD)
      then have "EncodeFrame plain (RequestKey cfg) = Inr body"
        using Encrypt_Decrypt_16 Decrypt_key by (simp add: EncodeFrame_frame_of)
      then show False using assms(4) by blast
    next
      assume "Decrypt body (RequestKey cfg) = Inr plain"
      then show False using Encrypt_Decrypt_16 Decrypt_key assms(4) by blast
    qed
  qed
  then obtain e where "open_body cfg body = Inl e" by (cases "open_body cfg body") auto
  then have "Transport cfg handler r s = (abortEncrypted (ResponseKey cfg) 101 ''invalid encrypted request'' 0 [], s)"
    using assms(2,3) by (simp add: Transport_def)
  moreover have "marshal_resp (zero_resp\<lparr>pr_Code := 101, pr_Meg := ''invalid encrypted request'', pr_Seq := 0, pr_NewSession := []\<rparr>) =
      Some (json_print (JObj [(''code'', jint 101), (''meg'', JStr ''invalid encrypted request''), (''seq'', jint 0)]))"
    by (simp add: marshal_resp_def zero_resp_def raw_print_def jint_def)
  ultimately show ?thesis using framed_ok [OF assms(1)] by (auto simp: abortEncrypted_def)
qed

end
