(* ===== verification/Gateway.thy ===== *)
theory Gateway
  imports CallLogic Hub Transport
begin

text \<open>
  The HTTP gateway (\<open>cmd/api\<close>): the encrypted handlers, the JSONP handlers with their snapshot files, the captcha, the routes
  and the middlewares.  The state of the process and of its environment is one value of type \<open>'s\<close>; what the handlers reach
  outside the repository's own code are operations on it, the fields of \<open>gateway\<close>.  The remote procedure \<open>Call\<close> is one of
  them, since the gateway only sees its answers.
\<close>

section \<open>The gateway and its environment\<close>

record 's gateway =
  gw_rpc :: "CallReq \<Rightarrow> 's \<Rightarrow> (string + CallResp) \<times> 's"
  gw_redis :: "'s redis"
  gw_nano :: "'s \<Rightarrow> int \<times> 's"
  gw_rand :: "'s \<Rightarrow> byte option \<times> 's"
  gw_mkdirAll :: "string \<Rightarrow> 's \<Rightarrow> 's"
  gw_writeFile :: "string \<Rightarrow> bytes \<Rightarrow> 's \<Rightarrow> bool \<times> 's"
  gw_rename :: "string \<Rightarrow> string \<Rightarrow> 's \<Rightarrow> 's"
  gw_readFile :: "string \<Rightarrow> 's \<Rightarrow> bytes option \<times> 's"
  gw_errorCtx :: "string \<Rightarrow> hresp"
  gw_serveWS :: "'s http"
  gw_fl :: "string \<Rightarrow> string option"
  gw_snapDir :: string
  gw_cors :: string
  gw_transport :: TransportConfig
  gw_rateLimiter :: "'s Limiter"
  gw_authLimiter :: "'s Limiter"

definition NotFound :: hresp where "NotFound = http_Error ''404 page not found'' 404"

section \<open>Encrypted handlers\<close>

text \<open>\<open>callRPC\<close>: the answer, or what was written when the call failed.\<close>

definition callRPC :: "'s gateway \<Rightarrow> hreq \<Rightarrow> string \<Rightarrow> string \<Rightarrow> 's \<Rightarrow> (hresp + CallResp) \<times> 's" where
  "callRPC G r method paramJSON s =
     (case gw_rpc G \<lparr>cr_Method = method, cr_ParamJson = paramJSON, cr_SessionId = q_header r ''X-Session'', cr_Seq = 0\<rparr> s of
        (Inl err, s') \<Rightarrow> (Inl (WriteErr 500 ''rpc unavailable''), s')
      | (Inr resp, s') \<Rightarrow> (Inr resp, s'))"

definition readParamBody :: "hreq \<Rightarrow> string" where
  "readParamBody r =
     (case ParamJSON (q_ctx r) of
        Some b \<Rightarrow> string_of b
      | None \<Rightarrow> (case q_body r of Some b \<Rightarrow> string_of b | None \<Rightarrow> []))"

definition resp_result :: "CallResp \<Rightarrow> string" where
  "resp_result resp = (case cp_Result resp of Some t \<Rightarrow> t | None \<Rightarrow> [])"

text \<open>\<open>writeEnvelope\<close>: the members of a map are printed in the order of their names.  When the result is no JSON the encoder
  fails before it writes.\<close>

definition writeEnvelope :: "CallResp \<Rightarrow> hresp" where
  "writeEnvelope resp =
     (let result = resp_result resp;
          before = [(''code'', itoa (cp_Code resp)), (''meg'', json_quote (cp_Meg resp))] @
                   (if cp_NewSessionId resp = [] then [] else [(''newSessionId'', json_quote (cp_NewSessionId resp))]);
          after = [(''seq'', itoa (cp_Seq resp))]
      in json_resp
           (if result = [] then bytes_of (raw_print (before @ after) @ [CHR 0x0A])
            else (case compact_json result of
                    None \<Rightarrow> []
                  | Some t \<Rightarrow> bytes_of (raw_print (before @ [(''result'', t)] @ after) @ [CHR 0x0A]))))"

definition relay :: "'s gateway \<Rightarrow> string \<Rightarrow> (hreq \<Rightarrow> string) \<Rightarrow> 's http" where
  "relay G method param r s =
     (case callRPC G r method (param r) s of
        (Inl out, s') \<Rightarrow> (out, s')
      | (Inr resp, s') \<Rightarrow> (writeEnvelope resp, s'))"

definition no_param :: "hreq \<Rightarrow> string" where "no_param r = ''{}''"

definition LoginHandler :: "'s gateway \<Rightarrow> 's http" where "LoginHandler G = relay G ''login'' readParamBody"
definition RegisterHandler :: "'s gateway \<Rightarrow> 's http" where "RegisterHandler G = relay G ''register'' readParamBody"
definition GuestLoginHandler :: "'s gateway \<Rightarrow> 's http" where "GuestLoginHandler G = relay G ''guestLogin'' readParamBody"
definition RefreshHandler :: "'s gateway \<Rightarrow> 's http" where "RefreshHandler G = relay G ''refresh'' readParamBody"
definition LogoutHandler :: "'s gateway \<Rightarrow> 's http" where "LogoutHandler G = relay G ''logout'' readParamBody"
definition LiveHotHandler :: "'s gateway \<Rightarrow> 's http" where "LiveHotHandler G = relay G ''live_hot'' no_param"
definition LiveCateListHandler :: "'s gateway \<Rightarrow> 's http" where "LiveCateListHandler G = relay G ''live_cateList'' readParamBody"
definition LiveDetailHandler :: "'s gateway \<Rightarrow> 's http" where "LiveDetailHandler G = relay G ''live_detail'' readParamBody"
definition MatchRecommendHandler :: "'s gateway \<Rightarrow> 's http" where "MatchRecommendHandler G = relay G ''match_recommend'' no_param"
definition MatchCateListHandler :: "'s gateway \<Rightarrow> 's http" where "MatchCateListHandler G = relay G ''match_cateList'' no_param"
definition MatchDetailHandler :: "'s gateway \<Rightarrow> 's http" where "MatchDetailHandler G = relay G ''match_detail'' readParamBody"
definition UserDetailHandler :: "'s gateway \<Rightarrow> 's http" where "UserDetailHandler G = relay G ''user_detail'' no_param"
definition SmsGetCodeHandler :: "'s gateway \<Rightarrow> 's http" where "SmsGetCodeHandler G = relay G ''sms_getCode'' readParamBody"

section \<open>The captcha\<close>

definition kaptcha_alphabet :: string where "kaptcha_alphabet = ''ABCDEFGHJKLMNPQRSTUVWXYZ23456789''"

text \<open>A failed read leaves the byte zero.\<close>

fun genKaptchaCode :: "'s gateway \<Rightarrow> nat \<Rightarrow> 's \<Rightarrow> string \<times> 's" where
  "genKaptchaCode G 0 s = ([], s)"
| "genKaptchaCode G (Suc n) s =
     (case gw_rand G s of (b, s1) \<Rightarrow>
        (case genKaptchaCode G n s1 of (cs, s2) \<Rightarrow>
           (kaptcha_alphabet ! (unat (case b of Some x \<Rightarrow> x | None \<Rightarrow> 0) mod length kaptcha_alphabet) # cs, s2)))"

definition renderKaptchaSVG :: "string \<Rightarrow> string" where
  \<open>renderKaptchaSVG code =
     ''<svg xmlns="http://www.w3.org/2000/svg" width="120" height="40">'' @ [CHR 0x0A] @
     ''  <rect width="120" height="40" fill="#f0f0f0"/>'' @ [CHR 0x0A] @
     ''  <text x="12" y="28" font-family="monospace" font-size="22" fill="#333">'' @ code @ ''</text>'' @ [CHR 0x0A] @
     ''</svg>''\<close>

definition query_get :: "hreq \<Rightarrow> string \<Rightarrow> string" where
  "query_get r name = (case q_query r name of Some v \<Rightarrow> v | None \<Rightarrow> [])"

definition KaptchaHandler :: "'s gateway \<Rightarrow> 's http" where
  "KaptchaHandler G r s =
     (let mobile = query_get r ''mobile'' in
      if mobile = [] then (http_Error ''missing mobile'' 400, s)
      else (case r_setnxex (gw_redis G) (''yuyan:kaptcha:cd:'' @ mobile) ''1'' 60 s of (cool, s1) \<Rightarrow>
              if cool = Inr False
              then (let e = http_Error ''kaptcha cooldown: please retry in 60s'' 429
                    in (e\<lparr>hr_hdr := (''Retry-After'', ''60'') # hr_hdr e\<rparr>, s1))
              else (case genKaptchaCode G 5 s1 of (code, s2) \<Rightarrow>
                      (\<lparr>hr_status = 200, hr_ctype = ''image/svg+xml; charset=utf-8'',
                        hr_hdr = [(''Cache-Control'', ''no-store, no-cache, must-revalidate'')],
                        hr_body = bytes_of (renderKaptchaSVG code)\<rparr>,
                       snd (r_setex (gw_redis G) (''yuyan:kaptcha:'' @ mobile) code 300 s2)))))"

section \<open>Paths\<close>

text \<open>\<open>strings.Split\<close> at a slash, \<open>strings.Trim\<close> of slashes, and the parts of \<open>path/filepath\<close> the handlers call, for Unix.\<close>

fun split_slash :: "string \<Rightarrow> string list" where
  "split_slash [] = [[]]"
| "split_slash (c # cs) =
     (if c = CHR ''/'' then [] # split_slash cs
      else (case split_slash cs of p # ps \<Rightarrow> (c # p) # ps | [] \<Rightarrow> [[c]]))"

fun join_slash :: "string list \<Rightarrow> string" where
  "join_slash [] = []"
| "join_slash [p] = p"
| "join_slash (p # q # ps) = p @ ''/'' @ join_slash (q # ps)"

definition trim_slashes :: "string \<Rightarrow> string" where
  "trim_slashes s = rev (dropWhile (\<lambda>c. c = CHR ''/'') (rev (dropWhile (\<lambda>c. c = CHR ''/'') s)))"

fun clean_parts :: "bool \<Rightarrow> string list \<Rightarrow> string list \<Rightarrow> string list" where
  "clean_parts rooted acc [] = rev acc"
| "clean_parts rooted acc (p # ps) =
     (if p = [] \<or> p = ''.'' then clean_parts rooted acc ps
      else if p = ''..'' then
        (if acc \<noteq> [] \<and> hd acc \<noteq> ''..'' then clean_parts rooted (tl acc) ps
         else if rooted then clean_parts rooted acc ps
         else clean_parts rooted (p # acc) ps)
      else clean_parts rooted (p # acc) ps)"

definition is_rooted :: "string \<Rightarrow> bool" where "is_rooted p \<longleftrightarrow> p \<noteq> [] \<and> hd p = CHR ''/''"

definition filepath_Clean :: "string \<Rightarrow> string" where
  "filepath_Clean p =
     (let parts = clean_parts (is_rooted p) [] (split_slash p)
      in if is_rooted p then CHR ''/'' # join_slash parts else if parts = [] then ''.'' else join_slash parts)"

definition filepath_Join :: "string \<Rightarrow> string \<Rightarrow> string" where
  "filepath_Join a b =
     (if a = [] \<and> b = [] then [] else filepath_Clean (if a = [] then b else if b = [] then a else a @ ''/'' @ b))"

definition filepath_Dir :: "string \<Rightarrow> string" where
  "filepath_Dir p = filepath_Clean (rev (dropWhile (\<lambda>c. c \<noteq> CHR ''/'') (rev p)))"

section \<open>JSONP handlers\<close>

definition pathParam :: "hreq \<Rightarrow> string \<Rightarrow> string" where
  "pathParam r name =
     (if q_pathValue r name \<noteq> [] then q_pathValue r name
      else (let parts = split_slash (trim_slashes (q_path r)) in
            if name = ''roomNum'' then (if length parts \<ge> 2 then parts ! 1 else [])
            else if name = ''name'' then (if length parts \<ge> 2 then parts ! 1 else [])
            else []))"

definition jsonp_text :: "string \<Rightarrow> bytes \<Rightarrow> bytes" where
  "jsonp_text callback body = bytes_of (callback @ ''('') @ body @ bytes_of '')''"

definition writeSnapshot :: "'s gateway \<Rightarrow> string \<Rightarrow> string \<Rightarrow> bytes \<Rightarrow> string \<Rightarrow> 's \<Rightarrow> 's" where
  "writeSnapshot G dir file body callback s =
     (let full = filepath_Join dir file;
          s1 = gw_mkdirAll G (filepath_Dir full) s;
          tmp = full @ ''.tmp''
      in case gw_writeFile G tmp (jsonp_text callback body) s1 of
           (False, s2) \<Rightarrow> s2
         | (True, s2) \<Rightarrow> gw_rename G tmp full s2)"

text \<open>Decoding into a nil \<open>any\<close> whose error is dropped: a number out of range stays null, a text that is no JSON leaves nil.\<close>

fun lax_any :: "(string \<Rightarrow> string option) \<Rightarrow> json \<Rightarrow> json" where
  "lax_any fl (JNum n) = (case fl n of Some t \<Rightarrow> JNum t | None \<Rightarrow> JNull)"
| "lax_any fl (JArr xs) = JArr (map (lax_any fl) xs)"
| "lax_any fl (JObj ms) = JObj (sort_key fst (AList.clearjunk (rev (map (\<lambda>(k, v). (k, lax_any fl v)) ms))))"
| "lax_any fl j = j"

definition unmarshal_any :: "(string \<Rightarrow> string option) \<Rightarrow> string \<Rightarrow> json" where
  "unmarshal_any fl text = (case json_parse text of Some j \<Rightarrow> lax_any fl j | None \<Rightarrow> JNull)"

text \<open>The end of both functions: the text goes out bare for \<open>?callback=\<close>, wrapped otherwise.\<close>

definition jsonp_reply :: "hreq \<Rightarrow> string \<Rightarrow> bytes \<Rightarrow> hresp" where
  "jsonp_reply r defaultCallback body =
     (let cb = (if query_get r ''callback'' = [] then defaultCallback else query_get r ''callback'') in
      if q_query r ''callback'' \<noteq> None \<and> query_get r ''callback'' = [] then json_resp body
      else \<lparr>hr_status = 200, hr_ctype = ''application/javascript; charset=utf-8'', hr_hdr = [], hr_body = jsonp_text cb body\<rparr>)"

definition serveJSONP :: "'s gateway \<Rightarrow> hreq \<Rightarrow> CallResp \<Rightarrow> string \<Rightarrow> string \<Rightarrow> string \<Rightarrow> 's \<Rightarrow> hresp \<times> 's" where
  "serveJSONP G r resp defaultCallback snapDir snapFile s =
     (if cp_Code resp \<noteq> 200 \<and> cp_Code resp \<noteq> 0
      then (json_resp (bytes_of (json_print (JObj [(''code'', jint (cp_Code resp)), (''data'', JNull), (''meg'', JStr (cp_Meg resp))]) @
              [CHR 0x0A])), s)
      else (let data = (if resp_result resp = [] then JNull else unmarshal_any (gw_fl G) (resp_result resp));
                body = bytes_of (json_print (JObj [(''data'', data)]));
                s1 = (if snapDir \<noteq> [] \<and> snapFile \<noteq> [] then writeSnapshot G snapDir snapFile body defaultCallback s else s)
            in (jsonp_reply r defaultCallback body, s1)))"

definition serveJSONPFlat :: "'s gateway \<Rightarrow> hreq \<Rightarrow> CallResp \<Rightarrow> string \<Rightarrow> string \<Rightarrow> string \<Rightarrow> 's \<Rightarrow> hresp \<times> 's" where
  "serveJSONPFlat G r resp defaultCallback snapDir snapFile s =
     (let body = bytes_of (if resp_result resp = [] then ''[]'' else resp_result resp);
          s1 = (if snapDir \<noteq> [] \<and> snapFile \<noteq> [] then writeSnapshot G snapDir snapFile body defaultCallback s else s)
      in (jsonp_reply r defaultCallback body, s1))"

definition jsonp :: "'s gateway \<Rightarrow> string \<Rightarrow> string \<Rightarrow> string \<Rightarrow> string \<Rightarrow> 's http" where
  "jsonp G method param cb snapFile r s =
     (case callRPC G r method param s of
        (Inl out, s') \<Rightarrow> (out, s')
      | (Inr resp, s') \<Rightarrow> serveJSONP G r resp cb (gw_snapDir G) snapFile s')"

definition MatchesJSONPHandler :: "'s gateway \<Rightarrow> 's http" where
  "MatchesJSONPHandler G = jsonp G ''matches_jsonp'' ''{}'' ''matches'' ''matches.json''"
definition AllLiveRoomsJSONPHandler :: "'s gateway \<Rightarrow> 's http" where
  "AllLiveRoomsJSONPHandler G = jsonp G ''live_all_rooms'' ''{}'' ''all_live_rooms'' ''all_live_rooms.json''"
definition LiveTypesJSONPHandler :: "'s gateway \<Rightarrow> 's http" where
  "LiveTypesJSONPHandler G = jsonp G ''live_types'' ''{}'' ''live_types'' ''live_types.json''"
definition MatchRecommendJSONPHandler :: "'s gateway \<Rightarrow> 's http" where
  "MatchRecommendJSONPHandler G = jsonp G ''match_recommend'' ''{}'' ''match_recommend'' ''match_recommend.json''"

text \<open>The struct \<open>HotAnchorJSONPHandler\<close> decodes into, and the conversion.\<close>

definition ty_hot_src :: ty where
  "ty_hot_src = TStruct [(''hot'', False, TSlice (TStruct [(''title'', False, TStr),
     (''anchor'', False, TStruct [(''nickName'', False, TStr), (''icon'', False, TStr), (''roomNum'', False, TStr)])]))]"

definition hot_anchor :: "gov \<Rightarrow> json" where
  "hot_anchor h =
     (case h of
        GStruct [_, GStruct [GStr nickName, GStr icon, GStr roomNum]] \<Rightarrow>
          JObj [(''anchor'', JObj [(''roomNum'', JStr roomNum)]), (''icon'', JStr icon), (''nickName'', JStr nickName)]
      | _ \<Rightarrow> JNull)"

definition hot_anchors :: "string \<Rightarrow> json" where
  "hot_anchors result =
     (let src = (case json_parse result of Some j \<Rightarrow> snd (dec ty_hot_src j (zero ty_hot_src)) | None \<Rightarrow> zero ty_hot_src);
          hot = (case src of GStruct [GList hs] \<Rightarrow> hs | _ \<Rightarrow> [])
      in JObj [(''anchors'', JArr (map hot_anchor hot))])"

definition HotAnchorJSONPHandler :: "'s gateway \<Rightarrow> 's http" where
  "HotAnchorJSONPHandler G r s =
     (case callRPC G r ''live_hot'' ''{}'' s of
        (Inl out, s') \<Rightarrow> (out, s')
      | (Inr resp, s') \<Rightarrow>
          serveJSONP G r (resp\<lparr>cp_Result := Some (json_print (hot_anchors (resp_result resp)))\<rparr>) ''hot_anchor'' (gw_snapDir G) ''hot_anchor.json'' s')"

definition room_handler :: "'s gateway \<Rightarrow> string \<Rightarrow> (string \<Rightarrow> string) \<Rightarrow> 's http" where
  "room_handler G method cb r s =
     (let roomNum = pathParam r ''roomNum'' in
      if roomNum = [] then (NotFound, s)
      else jsonp G method (json_print (JObj [(''roomNum'', JStr roomNum)])) (cb roomNum) [] r s)"

definition RoomDetailJSONPHandler :: "'s gateway \<Rightarrow> 's http" where
  "RoomDetailJSONPHandler G = room_handler G ''room_detail'' (\<lambda>_. ''detail'')"
definition RoomScheduleJSONPHandler :: "'s gateway \<Rightarrow> 's http" where
  "RoomScheduleJSONPHandler G = room_handler G ''room_schedule'' (\<lambda>roomNum. ''schedule_'' @ roomNum)"
definition RoomGiftRankJSONPHandler :: "'s gateway \<Rightarrow> 's http" where
  "RoomGiftRankJSONPHandler G = room_handler G ''room_gift_rank'' (\<lambda>_. ''gift_rank'')"

definition MatchDateJSONPHandler :: "'s gateway \<Rightarrow> 's http" where
  "MatchDateJSONPHandler G r s =
     (let name = pathParam r ''name'' in
      if \<not> has_prefix name ''matches_'' \<or> \<not> has_suffix name ''.json'' then (NotFound, s)
      else (let date = trim_suffix (trim_prefix name ''matches_'') ''.json'' in
            if length date \<noteq> 8 then (NotFound, s)
            else (case callRPC G r ''match_byDate'' (json_print (JObj [(''date'', JStr date)])) s of
                    (Inl out, s') \<Rightarrow> (out, s')
                  | (Inr resp, s') \<Rightarrow>
                      serveJSONPFlat G r resp (''matches_'' @ date) (gw_snapDir G) (''match/matches_'' @ date @ ''.json'') s')))"

definition HealthHandler :: "'s gateway \<Rightarrow> 's http" where
  \<open>HealthHandler G r s =
     (case gw_nano G s of (now, s') \<Rightarrow>
        (json_resp (bytes_of (''{"status":"ok","ts":'' @ itoa (now div 1000000000) @ ''}'')), s'))\<close>

section \<open>Routes and middlewares\<close>

text \<open>\<open>os.ReadFile\<close> behind the variable of \<open>static.go\<close>.\<close>

definition readStaticFile :: "'s gateway \<Rightarrow> string \<Rightarrow> 's \<Rightarrow> bytes option \<times> 's" where
  "readStaticFile G path s = gw_readFile G path s"

definition staticFile :: "'s gateway \<Rightarrow> string \<Rightarrow> string \<Rightarrow> 's http" where
  "staticFile G path contentType r s =
     (case readStaticFile G path s of
        (None, s') \<Rightarrow> (NotFound, s')
      | (Some b, s') \<Rightarrow>
          (\<lparr>hr_status = 200, hr_ctype = contentType, hr_hdr = [(''Cache-Control'', ''public, max-age=60'')], hr_body = b\<rparr>, s'))"

text \<open>\<open>Limiter.HTTPMiddleware\<close> around a handler; a refusal is written by \<open>httpx.ErrorCtx\<close>.\<close>

definition limited :: "'s gateway \<Rightarrow> 's Limiter \<Rightarrow> 's http \<Rightarrow> 's http" where
  "limited G l next r s =
     (case gw_nano G s of (now, s0) \<Rightarrow>
        (case Limiter_HTTPMiddleware (Some l) now
                (RateLimit.clientIP (q_header r ''X-Forwarded-For'') (q_header r ''X-Real-IP'') (q_remote r)) (next r) s0 of
           (Refused retry msg, s1) \<Rightarrow> (let e = gw_errorCtx G msg in (e\<lparr>hr_hdr := (''Retry-After'', retry) # hr_hdr e\<rparr>, s1))
         | (Served out, s1) \<Rightarrow> (out, s1)))"

definition cors_headers :: "string \<Rightarrow> (string \<times> string) list" where
  "cors_headers origin =
     [(''Access-Control-Allow-Origin'', if origin = [] then ''*'' else origin),
      (''Access-Control-Allow-Methods'', ''GET, POST, PUT, DELETE, OPTIONS''),
      (''Access-Control-Allow-Headers'', ''Content-Type, Authorization, X-Transform-Port, XTransformPort, X-Session, X-Plat, X-Seq''),
      (''Access-Control-Max-Age'', ''600''),
      (''X-Content-Type-Options'', ''nosniff''),
      (''X-Frame-Options'', ''SAMEORIGIN''),
      (''Referrer-Policy'', ''no-referrer'')]"

definition corsMiddleware :: "string \<Rightarrow> 's http \<Rightarrow> 's http" where
  "corsMiddleware origin next r s =
     (if q_method r = ''OPTIONS'' then (\<lparr>hr_status = 204, hr_ctype = [], hr_hdr = cors_headers origin, hr_body = []\<rparr>, s)
      else (case next r s of (out, s') \<Rightarrow> (out\<lparr>hr_hdr := cors_headers origin @ hr_hdr out\<rparr>, s')))"

definition methodNotAllowed :: hresp where
  \<open>methodNotAllowed =
     \<lparr>hr_status = 405, hr_ctype = ''application/json'', hr_hdr = [],
      hr_body = bytes_of ''{"code":405,"message":"method not allowed"}''\<rparr>\<close>

definition encrypted :: "'s gateway \<Rightarrow> 's http \<Rightarrow> 's http" where "encrypted G h = Transport (gw_transport G) h"
definition authMW :: "'s gateway \<Rightarrow> 's http \<Rightarrow> 's http" where "authMW G h = limited G (gw_authLimiter G) h"

definition RegisterHandlers :: "'s gateway \<Rightarrow> (string \<times> string \<times> 's http) list" where
  "RegisterHandlers G =
    [(''GET'', ''/matches.json'', MatchesJSONPHandler G),
     (''GET'', ''/match_all.json'', MatchesJSONPHandler G),
     (''GET'', ''/all_live_rooms.json'', AllLiveRoomsJSONPHandler G),
     (''GET'', ''/live_types.json'', LiveTypesJSONPHandler G),
     (''GET'', ''/hot_anchor.json'', HotAnchorJSONPHandler G),
     (''GET'', ''/match_recommend.json'', MatchRecommendJSONPHandler G),
     (''GET'', ''/room/:roomNum/detail.json'', RoomDetailJSONPHandler G),
     (''GET'', ''/room/:roomNum/schedule.json'', RoomScheduleJSONPHandler G),
     (''GET'', ''/room/:roomNum/gift_rank.json'', RoomGiftRankJSONPHandler G),
     (''GET'', ''/match/:name'', MatchDateJSONPHandler G),
     (''POST'', ''/login/login'', authMW G (encrypted G (LoginHandler G))),
     (''POST'', ''/login/reg'', authMW G (encrypted G (RegisterHandler G))),
     (''POST'', ''/login/guestLogin'', authMW G (encrypted G (GuestLoginHandler G))),
     (''POST'', ''/login/refresh'', authMW G (encrypted G (RefreshHandler G))),
     (''POST'', ''/login/logout'', authMW G (encrypted G (LogoutHandler G))),
     (''POST'', ''/sys/getSmsCode'', authMW G (encrypted G (SmsGetCodeHandler G))),
     (''POST'', ''/live/hot'', encrypted G (LiveHotHandler G)),
     (''POST'', ''/live/cateList'', encrypted G (LiveCateListHandler G)),
     (''POST'', ''/live/detail'', encrypted G (LiveDetailHandler G)),
     (''POST'', ''/match/recommend'', encrypted G (MatchRecommendHandler G)),
     (''POST'', ''/match/cateList'', encrypted G (MatchCateListHandler G)),
     (''POST'', ''/match/detail'', encrypted G (MatchDetailHandler G)),
     (''POST'', ''/user/detail'', encrypted G (UserDetailHandler G)),
     (''GET'', ''/api/kaptcha'', KaptchaHandler G),
     (''GET'', ''/health'', HealthHandler G),
     (''GET'', ''/chat.html'', staticFile G ''public/chat.html'' ''text/html; charset=utf-8''),
     (''GET'', ''/ws/chat'', gw_serveWS G)]"

text \<open>The server of \<open>main\<close>: every route behind the two global middlewares, in the order of the calls of \<open>Use\<close>.\<close>

definition served :: "'s gateway \<Rightarrow> 's http \<Rightarrow> 's http" where
  "served G h = corsMiddleware (gw_cors G) (limited G (gw_rateLimiter G) h)"

section \<open>The service context\<close>

text \<open>The settings \<open>NewServiceContext\<close> reads.\<close>

record api_config =
  ac_DBDriver :: string
  ac_DataSource :: string
  ac_SchemaPrefix :: string
  ac_ApiKeyReq :: string
  ac_ApiKeyResp :: string
  ac_RateLimitPerMinute :: int
  ac_RateLimitAuthPerMinute :: int
  ac_ChatMaxMsgLen :: int
  ac_ChatHistoryLim :: int
  ac_ChatRatePerMin :: int

record ('r, 'd) api_context =
  ax_schema :: Schema
  ax_hub :: "('r, 'd) hub"
  ax_transport :: TransportConfig
  ax_rateLimiter :: "'r Limiter"
  ax_authLimiter :: "'r Limiter"

text \<open>The database the chat uses is opened when a data source is configured; where that fails the models stay nil and the chat
  runs on Redis only.  The result holds the context and the opened database.\<close>

definition NewApiContext ::
  "(nat \<Rightarrow> nat) \<Rightarrow> (string \<Rightarrow> string \<Rightarrow> string + 'd) \<Rightarrow> ('d \<Rightarrow> string option \<times> 'd) \<Rightarrow> 'd sql_db \<Rightarrow> string \<Rightarrow> 'r redis \<Rightarrow>
   api_config \<Rightarrow> ('r, 'd) api_context \<times> 'd option" where
  "NewApiContext low sql_open ping D sqliteSchema rdb c =
     (let sc = configured_schema low (ac_DBDriver c) (ac_SchemaPrefix c);
          reqKey = bytes_of (if ac_ApiKeyReq c = [] then DefaultRequestKey else ac_ApiKeyReq c);
          respKey = bytes_of (if ac_ApiKeyResp c = [] then DefaultResponseKey else ac_ApiKeyResp c);
          opened = (if ac_DataSource c = [] then None
                    else (case db_New sql_open ping D sqliteSchema (ac_DBDriver c) (ac_DataSource c) of Inl _ \<Rightarrow> None | Inr d \<Rightarrow> Some d));
          m = map_option (\<lambda>_. (D, sc)) opened
      in (\<lparr>ax_schema = sc,
           ax_hub = NewHub (Some rdb) respKey reqKey (ac_ChatMaxMsgLen c) (ac_ChatHistoryLim c) (ac_ChatRatePerMin c) m m m,
           ax_transport = \<lparr>RequestKey = reqKey, ResponseKey = respKey\<rparr>,
           ax_rateLimiter = NewLimiter (Some rdb) (ac_RateLimitPerMinute c) ''api'',
           ax_authLimiter = NewLimiter (Some rdb) (ac_RateLimitAuthPerMinute c) ''auth''\<rparr>, opened))"

end
