(* ===== verification/GatewayProps.thy ===== *)
theory GatewayProps
  imports Gateway
begin

text \<open>
  Properties of the gateway: a sealed call end to end, the snapshot files, the captcha.  The first section shows that compacting a
  printed value changes nothing, which is what lets a result pass through \<open>json.RawMessage\<close> twice.
\<close>

section \<open>Compacting what was printed\<close>

definition inert :: "char \<Rightarrow> bool" where
  "inert c \<longleftrightarrow> c \<notin> {CHR ''<'', CHR ''>'', CHR ''&'', CHR 0xE2, backslash, dquote}"

lemma compact_inert: "inert c \<Longrightarrow> compact_scan True (c # t) = c # compact_scan True t"
  by (simp add: inert_def)

lemma compact_inerts: "list_all inert u \<Longrightarrow> compact_scan True (u @ t) = u @ compact_scan True t"
  by (induction u) (simp_all add: compact_inert del: compact_scan.simps)

lemma inert_code: "code_of c \<notin> {0x3C, 0x3E, 0x26, 0xE2, 0x5C, 0x22} \<Longrightarrow> inert c"
  by (auto simp: inert_def backslash_def dquote_def)

lemma inert_hex: "n < 16 \<Longrightarrow> inert (hex_digit n)"
  by (rule inert_code) (simp add: code_of_hex_digit)

lemma compact_backslash: "compact_scan True (backslash # d # t) = backslash # d # compact_scan True t"
  by (simp add: backslash_def)

lemma compact_u_escape: "r < 65536 \<Longrightarrow> compact_scan True (u_escape r @ t) = u_escape r @ compact_scan True t"
  using compact_inerts [of "[hex_digit (r div 4096), hex_digit (r div 256 mod 16), hex_digit (r div 16 mod 16), hex_digit (r mod 16)]" t]
  by (simp add: u_escape_def compact_backslash inert_hex less_mult_imp_div_less del: compact_scan.simps)

lemma compact_e2:
  assumes "code_of c0 = 0xE2" "\<not> (code_of c1 = 0x80 \<and> code_of c2 \<in> {0xA8, 0xA9})"
  shows "compact_scan True (c0 # c1 # c2 # t) = c0 # compact_scan True (c1 # c2 # t)"
proof -
  have "c0 \<noteq> CHR ''<''" "c0 \<noteq> CHR ''>''" "c0 \<noteq> CHR ''&''" "c0 \<noteq> backslash" "c0 \<noteq> dquote"
    using assms(1) by (auto simp: backslash_def dquote_def)
  moreover have "\<not> (c1 = CHR 0x80 \<and> (c2 = CHR 0xA8 \<or> c2 = CHR 0xA9))" using assms(2) by auto
  ultimately show ?thesis by (subst compact_scan.simps(2) [of True c0]) (auto simp del: compact_scan.simps)
qed

lemma compact_bytes:
  assumes "decode_rune s = (r, w)" "s \<noteq> []" "\<not> (r = RuneError \<and> w = 1)" "r \<notin> {0x22, 0x5C, 0x3C, 0x3E, 0x26, 0x2028, 0x2029}"
  shows "compact_scan True (take w s @ t) = take w s @ compact_scan True t"
  using assms(1-3)
proof (cases rule: decode_rune_cases)
  case (one c t')
  then show ?thesis using assms(4) compact_inerts [of "[c]" t] inert_code [of c] by (simp del: compact_scan.simps)
next
  case (two c0 c1 t')
  then have "list_all inert [c0, c1]" by (auto simp: cont_def intro!: inert_code)
  then show ?thesis using two compact_inerts [of "[c0, c1]" t] by (simp del: compact_scan.simps)
next
  case (three c0 c1 c2 t')
  have b: "0x80 \<le> code_of c1" "code_of c1 \<le> 0xBF" using three(4,5) by (auto simp: lo2_def hi2_def split: if_splits)
  have i: "list_all inert [c1, c2]" using three(6) b by (auto simp: cont_def intro!: inert_code)
  show ?thesis
  proof (cases "code_of c0 = 0xE2")
    case True
    have "\<not> (code_of c1 = 0x80 \<and> code_of c2 \<in> {0xA8, 0xA9})" using True three(7) assms(4) by auto
    then show ?thesis using True three compact_e2 [of c0 c1 c2 t] compact_inerts [OF i, of t]
      by (simp del: compact_scan.simps add: numeral_3_eq_3)
  next
    case False
    then have "list_all inert [c0, c1, c2]" using i three(2,3) inert_code [of c0] by auto
    then show ?thesis using three compact_inerts [of "[c0, c1, c2]" t] by (simp del: compact_scan.simps add: numeral_3_eq_3)
  qed
next
  case (four c0 c1 c2 c3 t')
  have "0x80 \<le> code_of c1" "code_of c1 \<le> 0xBF" using four(4,5) by (auto simp: lo2_def hi2_def split: if_splits)
  then have "inert c0" "inert c1" "inert c2" "inert c3"
    using four(2,3,6,7) by (auto simp: cont_def intro!: inert_code)
  moreover have "take w s = [c0, c1, c2, c3]" using four(1,9) by simp
  ultimately show ?thesis using compact_inerts [of "[c0, c1, c2, c3]" t] by (simp del: compact_scan.simps)
qed

lemma compact_esc:
  assumes "decode_rune s = (r, w)" "s \<noteq> []" "\<not> (r = RuneError \<and> w = 1)"
  shows "compact_scan True (esc_rune (r, take w s) @ t) = esc_rune (r, take w s) @ compact_scan True t"
proof -
  have lw: "length (take w s) = w" using decode_rune_width [OF assms(2)] assms(1) by simp
  show ?thesis
  proof (cases "r < 0x20 \<or> r \<in> {0x22, 0x5C, 0x3C, 0x3E, 0x26, 0x2028, 0x2029}")
    case True
    show ?thesis
    proof (cases "r \<in> {0x22, 0x5C, 8, 12, 10, 13, 9}")
      case True
      then have "\<exists>d. esc_rune (r, take w s) = [backslash, d]" by (auto simp: esc_rune_def)
      then show ?thesis by (auto simp: compact_backslash simp del: compact_scan.simps)
    next
      case False
      then have "esc_rune (r, take w s) = u_escape r" "r < 65536" using True by (auto simp: esc_rune_def RuneError_def)
      then show ?thesis by (simp add: compact_u_escape)
    qed
  next
    case False
    then have "esc_rune (r, take w s) = take w s" using assms(3) lw by (auto simp: esc_rune_def)
    moreover have "r \<notin> {0x22, 0x5C, 0x3C, 0x3E, 0x26, 0x2028, 0x2029}" using False by simp
    ultimately show ?thesis using compact_bytes [OF assms] by simp
  qed
qed

lemma compact_quoted: "valid_utf8 s \<Longrightarrow> compact_scan True (concat (map esc_rune (runes s)) @ dquote # t) = concat (map esc_rune (runes s)) @ dquote # compact_scan False t"
proof (induction s rule: runes.induct)
  case (1 s)
  show ?case
  proof (cases "s = []")
    case True
    then show ?thesis by (simp add: runes.simps dquote_def backslash_def)
  next
    case False
    obtain r w where d: "decode_rune s = (r, w)" by fastforce
    note v = valid_utf8_step [OF 1(2) False d]
    show ?thesis using 1(1) [OF False] d v(2) compact_esc [OF d False v(1)] False
      by (simp add: runes.simps [of s] del: compact_scan.simps)
  qed
qed

lemma compact_json_quote: "valid_utf8 s \<Longrightarrow> compact_scan False (json_quote s @ t) = json_quote s @ compact_scan False t"
  using compact_quoted [of s t] by (simp add: json_quote_def is_ws_def dquote_def)

lemma compact_plain: "c \<notin> {CHR ''<'', CHR ''>'', CHR ''&'', CHR 0xE2, dquote} \<Longrightarrow> \<not> is_ws c \<Longrightarrow> compact_scan False (c # t) = c # compact_scan False t"
  by simp

lemma compact_plains: "list_all (\<lambda>c. c \<notin> {CHR ''<'', CHR ''>'', CHR ''&'', CHR 0xE2, dquote} \<and> \<not> is_ws c) u \<Longrightarrow> compact_scan False (u @ t) = u @ compact_scan False t"
  by (induction u) (simp_all add: compact_plain del: compact_scan.simps)

lemma num_char_plain: "c = CHR ''-'' \<or> is_digit c \<Longrightarrow> c \<notin> {CHR ''<'', CHR ''>'', CHR ''&'', CHR 0xE2, dquote} \<and> \<not> is_ws c"
  by (auto simp: is_digit_def is_ws_def dquote_def)

lemma compact_itoa: "compact_scan False (itoa i @ t) = itoa i @ compact_scan False t"
proof (rule compact_plains)
  have "list_all (\<lambda>c. c = CHR ''-'' \<or> is_digit c) (itoa i)" 
    using digits_nat_digits [of "nat i"] digits_nat_digits [of "nat (- i)"] by (auto simp: itoa_def list_all_iff simp del: digits_nat.simps)
  then show "list_all (\<lambda>c. c \<notin> {CHR ''<'', CHR ''>'', CHR ''&'', CHR 0xE2, dquote} \<and> \<not> is_ws c) (itoa i)"
    by (rule list.pred_mono_strong) (use num_char_plain in blast)
qed

lemma compact_print:
  shows "wf_json j \<Longrightarrow> compact_scan False (json_print j @ t) = json_print j @ compact_scan False t"
    and "\<forall>x \<in> set xs. wf_json x \<Longrightarrow> compact_scan False (json_print_elems xs @ t) = json_print_elems xs @ compact_scan False t"
    and "\<forall>m \<in> set ms. valid_utf8 (fst m) \<and> wf_json (snd m) \<Longrightarrow>
      compact_scan False (json_print_members ms @ t) = json_print_members ms @ compact_scan False t"
  by (induction j and xs and ms arbitrary: t and t and t rule: json_print_json_print_elems_json_print_members.induct)
    (auto simp: compact_json_quote compact_itoa compact_plain is_ws_def dquote_def simp del: compact_scan.simps(2))

section \<open>From the handler's text to the client's envelope\<close>

lemma raw_fields_print: "raw_fields (map (\<lambda>(k, v). (k, json_print v)) ms) = json_print_members ms"
  by (induction ms rule: induct_list012) auto

lemma raw_print_print: "raw_print (map (\<lambda>(k, v). (k, json_print v)) ms) = json_print (JObj ms)"
  by (simp add: raw_print_def raw_fields_print)

lemma compact_json_print: "wf_json j \<Longrightarrow> jdepth j \<le> max_depth \<Longrightarrow> compact_json (json_print j) = Some (json_print j)"
  using compact_print(1) [of j "[]"] by (simp add: compact_json_def json_parse_print)

lemma parse_object_print:
  assumes "\<forall>m \<in> set ms. valid_utf8 (fst m) \<and> wf_json (snd m)" "Suc (d + jdepthm ms) \<le> max_depth" "Suc (jfuelm ms) \<le> n" "ms \<noteq> []"
  shows "parse_value n d (json_print (JObj ms) @ r) = Some (JObj ms, r)"
proof -
  obtain n' where n: "n = Suc n'" "jfuelm ms \<le> n'" using assms(3) by (cases n) auto
  obtain m ys where "ms = m # ys" using assms(4) by (cases ms) auto
  then obtain u where "json_print_members ms = dquote # u" by (cases m; cases ys) (auto simp: json_quote_def)
  then show ?thesis using parse_print(3) [OF assms(4,1), of "Suc d" n' r] assms(2) n by (simp add: parse_value.simps(2))
qed

definition ok_members :: "(string \<times> json) list \<Rightarrow> bool" where
  "ok_members ms \<longleftrightarrow> list_all (\<lambda>(k, v). valid_utf8 k \<and> wf_json v \<and> Suc (jdepth v) \<le> max_depth) ms \<and> ms \<noteq> []"

lemma ok_membersD:
  assumes "ok_members ms"
  shows "\<forall>m \<in> set ms. valid_utf8 (fst m) \<and> wf_json (snd m)" "Suc (jdepthm ms) \<le> max_depth"
proof -
  show "\<forall>m \<in> set ms. valid_utf8 (fst m) \<and> wf_json (snd m)" using assms by (auto simp: ok_members_def list_all_iff)
  have "list_all (\<lambda>(k, v). valid_utf8 k \<and> wf_json v \<and> Suc (jdepth v) \<le> max_depth) ms" using assms by (simp add: ok_members_def)
  then show "Suc (jdepthm ms) \<le> max_depth" by (induction ms) (auto simp: max_depth_def)
qed

text \<open>An encoded object followed by the encoder's newline.\<close>

lemma unmarshal_raw_line:
  assumes "ok_members ms"
  shows "unmarshal_raw fs (json_print (JObj ms) @ [CHR 0x0A]) z = assign_raw fs (map (\<lambda>(k, v). (k, v, json_print v)) ms) (False, z)"
proof -
  have ms: "list_all (\<lambda>(k, v). valid_utf8 k \<and> wf_json v \<and> Suc (jdepth v) \<le> max_depth) ms" "ms \<noteq> []"
    using assms by (simp_all add: ok_members_def)
  have "parse_value (2 * length (json_print (JObj ms) @ [CHR 0x0A]) + 2) 0 (json_print (JObj ms) @ [CHR 0x0A]) = Some (JObj ms, [CHR 0x0A])"
    using ok_membersD [OF assms] jfuel_bound(3) [of ms] ms(2) by (intro parse_object_print) simp_all
  then have "json_parse (json_print (JObj ms) @ [CHR 0x0A]) = Some (JObj ms)"
    by (simp add: json_parse_def skip_ws_def is_ws_def)
  moreover have "raw_object (json_print (JObj ms) @ [CHR 0x0A]) = map (\<lambda>(k, v). (k, v, json_print v)) ms"
    using raw_members_print [OF ms(2,1), of "length (json_print_members ms) + 2" "[CHR 0x0A]"] length_members [of ms]
    by (simp add: raw_object_def skip_ws_def is_ws_def)
  ultimately show ?thesis by (simp add: unmarshal_raw_def)
qed

text \<open>Answers of the remote procedure that JSON carries unchanged: the result is the text of a value.\<close>

definition carried :: "CallResp \<Rightarrow> json option \<Rightarrow> bool" where
  "carried resp res \<longleftrightarrow>
     cp_Result resp = map_option json_print res \<and> (\<forall>j. res = Some j \<longrightarrow> wf_json j \<and> Suc (jdepth j) \<le> max_depth) \<and>
     valid_utf8 (cp_Meg resp) \<and> valid_utf8 (cp_NewSessionId resp) \<and>
     - (2 ^ 31) \<le> cp_Code resp \<and> cp_Code resp < 2 ^ 31 \<and> - (2 ^ 31) \<le> cp_Seq resp \<and> cp_Seq resp < 2 ^ 31"

definition opt_member :: "string \<Rightarrow> json option \<Rightarrow> (string \<times> json) list" where
  "opt_member k v = (case v of None \<Rightarrow> [] | Some j \<Rightarrow> [(k, j)])"

definition session_member :: "string \<Rightarrow> (string \<times> json) list" where
  "session_member s = (if s = [] then [] else [(''newSessionId'', JStr s)])"

text \<open>What the client finds in the frame.\<close>

definition client_answer :: "int \<Rightarrow> CallResp \<Rightarrow> json option \<Rightarrow> json" where
  "client_answer seq resp res =
     JObj ([(''code'', jint (cp_Code resp)), (''meg'', JStr (cp_Meg resp)), (''seq'', jint (if cp_Seq resp = 0 then seq else cp_Seq resp))] @
           session_member (cp_NewSessionId resp) @ opt_member ''result'' res)"

lemma writeEnvelope_text:
  assumes "carried resp res"
  shows "hr_body (writeEnvelope resp) = bytes_of (json_print (JObj ([(''code'', jint (cp_Code resp)), (''meg'', JStr (cp_Meg resp))] @
    session_member (cp_NewSessionId resp) @ opt_member ''result'' res @ [(''seq'', jint (cp_Seq resp))])) @ [CHR 0x0A])"
proof (cases res)
  case None
  then show ?thesis using assms
    by (simp add: writeEnvelope_def carried_def resp_result_def json_resp_def session_member_def opt_member_def jint_def raw_print_def)
next
  case (Some j)
  then have "json_print j \<noteq> []" "compact_json (json_print j) = Some (json_print j)"
    using assms json_print_ne [of j] compact_json_print [of j] by (simp_all add: carried_def)
  then show ?thesis using assms Some
    by (simp add: writeEnvelope_def carried_def resp_result_def json_resp_def session_member_def opt_member_def jint_def raw_print_def)
qed

lemma ascii_names: "valid_utf8 ''code''" "valid_utf8 ''meg''" "valid_utf8 ''seq''" "valid_utf8 ''newSessionId''" "valid_utf8 ''result''"
  by (simp_all add: valid_utf8_ascii ascii_def)

lemma buildEnvelope_own:
  "unmarshal_raw resp_fields (string_of b) zero_resp = (False, pr) \<Longrightarrow> pr_Code pr \<noteq> 0 \<Longrightarrow>
   marshal_resp (pr\<lparr>pr_Seq := if pr_Seq pr = 0 then seq else pr_Seq pr\<rparr>) = Some out \<Longrightarrow> buildEnvelope b seq sid = bytes_of out"
  by (cases "pr_Seq pr = 0") (simp_all add: buildEnvelope_def Let_def)

lemma buildEnvelope_relay:
  assumes "carried resp res" "cp_Code resp \<noteq> 0"
  shows "buildEnvelope (hr_body (writeEnvelope resp)) seq sid = bytes_of (json_print (client_answer seq resp res))"
proof -
  let ?ms = "[(''code'', jint (cp_Code resp)), (''meg'', JStr (cp_Meg resp))] @
    session_member (cp_NewSessionId resp) @ opt_member ''result'' res @ [(''seq'', jint (cp_Seq resp))]"
  let ?pr = "\<lparr>pr_Code = cp_Code resp, pr_Meg = cp_Meg resp, pr_Seq = cp_Seq resp, pr_NewSession = cp_NewSessionId resp,
    pr_Result = (case res of None \<Rightarrow> [] | Some j \<Rightarrow> json_print j)\<rparr>"
  have "ok_members ?ms" using assms(1)
    by (auto simp: ok_members_def carried_def session_member_def opt_member_def ascii_names max_depth_def split: option.splits)
  from unmarshal_raw_line [OF this, of resp_fields zero_resp] assms(1)
  have u: "unmarshal_raw resp_fields (json_print (JObj ?ms) @ [CHR 0x0A]) zero_resp = (False, ?pr)"
    by (simp add: carried_def resp_fields_def lookup_rfield_def session_member_def opt_member_def dec_int32_jint zero_resp_def split: option.splits)
  have m: "marshal_resp (?pr\<lparr>pr_Seq := n\<rparr>) = Some (json_print (JObj ([(''code'', jint (cp_Code resp)), (''meg'', JStr (cp_Meg resp)), (''seq'', jint n)] @
           session_member (cp_NewSessionId resp) @ opt_member ''result'' res)))" for n
  proof (cases res)
    case None
    then show ?thesis by (simp add: marshal_resp_def session_member_def opt_member_def raw_print_def jint_def)
  next
    case (Some j)
    then have "json_print j \<noteq> []" "compact_json (json_print j) = Some (json_print j)"
      using assms(1) json_print_ne [of j] compact_json_print [of j] by (simp_all add: carried_def)
    then show ?thesis using Some by (simp add: marshal_resp_def session_member_def opt_member_def raw_print_def jint_def Let_def)
  qed
  show ?thesis unfolding client_answer_def
  proof (rule buildEnvelope_own)
    show "unmarshal_raw resp_fields (string_of (hr_body (writeEnvelope resp))) zero_resp = (False, ?pr)"
      using u unfolding writeEnvelope_text [OF assms(1)] string_of_bytes_of .
    show "pr_Code ?pr \<noteq> 0" using assms(2) by simp
    show "marshal_resp (?pr\<lparr>pr_Seq := if pr_Seq ?pr = 0 then seq else pr_Seq ?pr\<rparr>) =
        Some (json_print (JObj ([(''code'', jint (cp_Code resp)), (''meg'', JStr (cp_Meg resp)),
          (''seq'', jint (if cp_Seq resp = 0 then seq else cp_Seq resp))] @ session_member (cp_NewSessionId resp) @ opt_member ''result'' res)))"
      using m [of "if pr_Seq ?pr = 0 then seq else pr_Seq ?pr"] by (simp only: PlainResp.simps)
  qed
qed

section \<open>The relay\<close>

lemma relay_sealed:
  assumes "length (ResponseKey (gw_transport G)) = 16" "sendable sid seq plat p"
    and "EncodeFrame (bytes_of (json_print (request_envelope sid seq plat p))) (RequestKey (gw_transport G)) = Inr f"
    and "length f \<le> 8 * 1024 * 1024" "q_body r = Some f"
    and "gw_rpc G \<lparr>cr_Method = method, cr_ParamJson = param (r\<lparr>q_ctx := Some \<lparr>cx_param = bytes_of (json_print p), cx_session = sid, cx_plat = plat, cx_seq = seq\<rparr>\<rparr>),
      cr_SessionId = q_header r ''X-Session'', cr_Seq = 0\<rparr> s = (Inr resp, s')"
    and "carried resp res" "cp_Code resp \<noteq> 0"
  shows "\<exists>ct. encrypted G (relay G method param) r s = (sealed ct, s') \<and>
    EncodeFrame (bytes_of (json_print (client_answer seq resp res))) (ResponseKey (gw_transport G)) = Inr ct"
proof -
  have "relay G method param (r\<lparr>q_ctx := Some \<lparr>cx_param = bytes_of (json_print p), cx_session = sid, cx_plat = plat, cx_seq = seq\<rparr>\<rparr>) s =
      (writeEnvelope resp, s')"
    using assms(6) by (simp add: relay_def callRPC_def)
  from Transport_opens [OF assms(2-5), where handler = "relay G method param", OF this] buildEnvelope_relay [OF assms(7,8)] framed_ok [OF assms(1)]
  show ?thesis by (auto simp: encrypted_def)
qed

text \<open>An encrypted call end to end.  For every relayed method that takes a parameter, a client that seals an envelope with
  the request key makes the gateway call the remote procedure with that method and exactly the text of its parameter, and finds in the
  frame it gets back, under the response key, the code, message, session and result of the answer, with its own sequence
  number when the answer has none.\<close>

theorem gateway_relay:
  assumes "length (ResponseKey (gw_transport G)) = 16" and "sendable sid seq plat p"
    and "EncodeFrame (bytes_of (json_print (request_envelope sid seq plat p))) (RequestKey (gw_transport G)) = Inr f"
    and "length f \<le> 8 * 1024 * 1024" and "q_body r = Some f"
    and "gw_rpc G \<lparr>cr_Method = method, cr_ParamJson = json_print p, cr_SessionId = q_header r ''X-Session'', cr_Seq = 0\<rparr> s = (Inr resp, s')"
    and "carried resp res" and "cp_Code resp \<noteq> 0"
  shows "\<exists>ct. encrypted G (relay G method readParamBody) r s = (sealed ct, s') \<and>
    EncodeFrame (bytes_of (json_print (client_answer seq resp res))) (ResponseKey (gw_transport G)) = Inr ct"
  using relay_sealed [OF assms(1-5), where param = readParamBody] assms(6-8) by (simp add: readParamBody_def ParamJSON_def)

text \<open>The remote procedure of the gateway, when it is the \<open>Call\<close> of the service; a call that does not return is an error of the
  client.\<close>

definition rpc_of :: "env \<Rightarrow> ('r, 'l, 'b, 'd) service \<Rightarrow> CallReq \<Rightarrow> ('r, 'l, 'b, 'd) world \<Rightarrow> (string + CallResp) \<times> ('r, 'l, 'b, 'd) world" where
  "rpc_of E v inp w = (case Call E v inp w of Some (resp, w') \<Rightarrow> (Inr resp, w') | None \<Rightarrow> (Inl ''deadline exceeded'', w))"

text \<open>The session of a sealed envelope is never used.  Without the \<open>X-Session\<close> header a call of \<open>/user/detail\<close> is
  answered 100 (login required), whatever session its envelope names and whatever the session store holds.\<close>

theorem envelope_session_ignored:
  assumes "length (ResponseKey (gw_transport G)) = 16" and "sendable sid seq plat p"
    and "EncodeFrame (bytes_of (json_print (request_envelope sid seq plat p))) (RequestKey (gw_transport G)) = Inr f"
    and "length f \<le> 8 * 1024 * 1024" and "q_body r = Some f" and "q_header r ''X-Session'' = []"
    and "gw_rpc G = rpc_of E v"
  shows "\<exists>ct. encrypted G (UserDetailHandler G) r w = (sealed ct, w) \<and>
    EncodeFrame (bytes_of (json_print (JObj [(''code'', jint 100), (''meg'', JStr ''login required''), (''seq'', jint seq)])))
      (ResponseKey (gw_transport G)) = Inr ct"
proof -
  let ?resp = "\<lparr>cp_Code = 100, cp_Meg = ''login required'', cp_Seq = 0, cp_NewSessionId = [], cp_Result = None\<rparr>"
  have t: "TrimSpace ''user_detail'' = ''user_detail''" by code_simp
  have "gw_rpc G \<lparr>cr_Method = ''user_detail'', cr_ParamJson = ''{}'', cr_SessionId = [], cr_Seq = 0\<rparr> w = (Inr ?resp, w)"
    by (simp add: assms(7) rpc_of_def Call_def t dispatch_def handleUserDetail_def CodeLoginRequired_def wrap32_def)
  moreover have "carried ?resp None" by (simp add: carried_def valid_utf8_ascii ascii_def)
  ultimately show ?thesis
    using relay_sealed [OF assms(1-5), of "''user_detail''" no_param w ?resp w None] assms(6)
    by (simp add: UserDetailHandler_def no_param_def client_answer_def session_member_def opt_member_def)
qed

section \<open>Paths\<close>

lemma split_slash_ne [simp]: "split_slash s \<noteq> []"
  by (induction s) (auto split: list.splits)

lemma split_slash_app: "split_slash (a @ CHR ''/'' # b) = split_slash a @ split_slash b"
  by (induction a) (auto split: list.splits)

lemma split_slash_plain: "CHR ''/'' \<notin> set a \<Longrightarrow> split_slash a = [a]"
  by (induction a) auto

lemma split_slash_mem: "p \<in> set (split_slash s) \<Longrightarrow> CHR ''/'' \<notin> set p"
  by (induction s arbitrary: p) (auto split: list.splits if_splits)

lemma clean_parts_app: "clean_parts rt acc (ps @ qs) = clean_parts rt (rev (clean_parts rt acc ps)) qs"
  by (induction rt acc ps rule: clean_parts.induct) auto

definition name_part :: "string \<Rightarrow> bool" where "name_part p \<longleftrightarrow> p \<notin> {[], ''.'', ''..''}"

lemma clean_parts_names: "list_all name_part qs \<Longrightarrow> clean_parts rt acc qs = rev acc @ qs"
  by (induction qs arbitrary: acc) (auto simp: name_part_def)

lemma join_slash_app: "ps \<noteq> [] \<Longrightarrow> qs \<noteq> [] \<Longrightarrow> join_slash (ps @ qs) = join_slash ps @ ''/'' @ join_slash qs"
proof (induction ps)
  case (Cons p ps)
  then show ?case by (cases ps; cases qs) auto
qed simp

text \<open>The file \<open>f\<close> in the clean directory \<open>d\<close>.\<close>

definition under :: "string \<Rightarrow> string \<Rightarrow> string" where
  "under d f = (if d = ''/'' then ''/'' @ f else if d = ''.'' then f else d @ ''/'' @ f)"

definition segment :: "string \<Rightarrow> bool" where "segment p \<longleftrightarrow> CHR ''/'' \<notin> set p \<and> p \<noteq> [] \<and> p \<noteq> ''.''"

lemma clean_segments:
  "list_all segment acc \<Longrightarrow> list_all (\<lambda>p. CHR ''/'' \<notin> set p) ps \<Longrightarrow> list_all segment (clean_parts rt acc ps)"
proof (induction rt acc ps rule: clean_parts.induct)
  case (2 rt acc p ps)
  have "list_all segment (tl acc)" using "2.prems"(1) by (cases acc) auto
  moreover have "segment p" if "p \<noteq> []" "p \<noteq> ''.''" using "2.prems"(2) that by (simp add: segment_def)
  moreover have "segment ''..''" by (simp add: segment_def)
  ultimately show ?case using 2 by auto
qed simp

lemma join_start:
  assumes "ps \<noteq> []" "list_all segment ps"
  shows "join_slash ps \<noteq> ''/''" "join_slash ps \<noteq> ''.''"
proof -
  obtain p qs where ps: "ps = p # qs" using assms(1) by (cases ps) auto
  obtain c p' where p: "p = c # p'" using assms(2) ps by (cases p) (auto simp: segment_def)
  have "c \<noteq> CHR ''/''" "p \<noteq> ''.''" using assms(2) ps p by (auto simp: segment_def)
  moreover have "\<exists>u. join_slash ps = p @ u \<and> (u = [] \<or> hd u = CHR ''/'')" using ps by (cases qs) auto
  ultimately show "join_slash ps \<noteq> ''/''" "join_slash ps \<noteq> ''.''" using p by auto
qed

lemma Join_names:
  assumes "d \<noteq> []" "f \<noteq> []" "split_slash f = qs" "list_all name_part qs" "join_slash qs = f"
  shows "filepath_Join d f = under (filepath_Clean d) f"
proof -
  define ps where "ps = clean_parts (is_rooted d) [] (split_slash d)"
  have qs: "qs \<noteq> []" using assms(3) by auto
  have r: "is_rooted (d @ ''/'' @ f) = is_rooted d" using assms(1) by (simp add: is_rooted_def)
  have "clean_parts (is_rooted d) [] (split_slash (d @ ''/'' @ f)) = ps @ qs"
    using assms(3,4) by (simp add: ps_def split_slash_app clean_parts_app clean_parts_names)
  then have j: "filepath_Join d f = (if is_rooted d then CHR ''/'' # join_slash (ps @ qs) else join_slash (ps @ qs))"
    using assms(1,2) r qs by (simp add: filepath_Join_def filepath_Clean_def Let_def)
  have c: "filepath_Clean d = (if is_rooted d then CHR ''/'' # join_slash ps else if ps = [] then ''.'' else join_slash ps)"
    by (simp add: filepath_Clean_def ps_def)
  have n: "list_all segment ps" unfolding ps_def
    using split_slash_mem [of _ d] by (intro clean_segments) (auto simp: list_all_iff)
  show ?thesis
  proof (cases "ps = []")
    case True
    then show ?thesis using assms(5) j c by (simp add: under_def)
  next
    case False
    have "join_slash ps \<noteq> []" using False n by (cases ps rule: join_slash.cases) (auto simp: segment_def)
    then show ?thesis using assms(5) j c join_slash_app [OF False qs] join_start [OF False n] False
      by (simp add: under_def)
  qed
qed

lemma Join_date:
  assumes "d \<noteq> []" "CHR ''/'' \<notin> set date"
  shows "filepath_Join d (''match/matches_'' @ date @ ''.json'') = under (filepath_Clean d) (''match/matches_'' @ date @ ''.json'')"
proof (rule Join_names [OF assms(1)])
  show "split_slash (''match/matches_'' @ date @ ''.json'') = [''match'', ''matches_'' @ date @ ''.json'']"
    using split_slash_app [of "''match''" "''matches_'' @ date @ ''.json''"] split_slash_plain [of "''matches_'' @ date @ ''.json''"] assms(2)
    by simp
qed (simp_all add: name_part_def)

section \<open>Files\<close>

text \<open>The laws of the file operations the snapshots rely on, for an observation of the files: a write touches its path only, and
  completely when it succeeds; a rename either moves the file or changes nothing; making directories and calling the remote
  procedure leave the files.\<close>

definition disk_laws :: "'s gateway \<Rightarrow> ('s \<Rightarrow> string \<Rightarrow> bytes option) \<Rightarrow> bool" where
  "disk_laws G files \<longleftrightarrow>
     (\<forall>p b s q. q \<noteq> p \<longrightarrow> files (snd (gw_writeFile G p b s)) q = files s q) \<and>
     (\<forall>p b s. fst (gw_writeFile G p b s) \<longrightarrow> files (snd (gw_writeFile G p b s)) p = Some b) \<and>
     (\<forall>a b s. files (gw_rename G a b s) \<in> {files s, (files s)(b := files s a, a := None)}) \<and>
     (\<forall>d s. files (gw_mkdirAll G d s) = files s) \<and>
     (\<forall>inp s. files (snd (gw_rpc G inp s)) = files s)"

lemma writeSnapshot_files:
  assumes "disk_laws G files" "full = filepath_Join dir file"
  shows "\<forall>q. q \<notin> {full, full @ ''.tmp''} \<longrightarrow> files (writeSnapshot G dir file body cb s) q = files s q"
    and "files (writeSnapshot G dir file body cb s) full \<in> {files s full, Some (jsonp_text cb body)}"
proof -
  define s1 where "s1 = gw_mkdirAll G (filepath_Dir full) s"
  obtain ok s2 where w: "gw_writeFile G (full @ ''.tmp'') (jsonp_text cb body) s1 = (ok, s2)" by fastforce
  have "\<forall>q. q \<noteq> full @ ''.tmp'' \<longrightarrow> files s2 q = files s q" "ok \<Longrightarrow> files s2 (full @ ''.tmp'') = Some (jsonp_text cb body)"
    using assms(1) w unfolding disk_laws_def s1_def by (metis snd_conv, metis fst_conv snd_conv)
  moreover have "files (gw_rename G (full @ ''.tmp'') full s2) \<in>
      {files s2, (files s2)(full := files s2 (full @ ''.tmp''), full @ ''.tmp'' := None)}"
    using assms(1) unfolding disk_laws_def by blast
  moreover have "writeSnapshot G dir file body cb s = (if ok then gw_rename G (full @ ''.tmp'') full s2 else s2)"
    using w assms(2) by (simp add: writeSnapshot_def s1_def Let_def split: bool.splits)
  ultimately show "\<forall>q. q \<notin> {full, full @ ''.tmp''} \<longrightarrow> files (writeSnapshot G dir file body cb s) q = files s q"
    "files (writeSnapshot G dir file body cb s) full \<in> {files s full, Some (jsonp_text cb body)}" by auto
qed

lemma callRPC_files: "disk_laws G files \<Longrightarrow> callRPC G r m p s = (x, s') \<Longrightarrow> files s' = files s"
  unfolding disk_laws_def callRPC_def by (auto split: prod.splits sum.splits) (metis snd_conv)+

lemma pathParam_plain: "q_pathValue r name = [] \<Longrightarrow> CHR ''/'' \<notin> set (pathParam r name)"
  using split_slash_mem [of _ "trim_slashes (q_path r)"] by (auto simp: pathParam_def Let_def)

text \<open>C20: a request for the matches of a date cannot make the gateway write outside the snapshot directory.  Whatever path is
  requested, at most one snapshot \<open>match/matches_<8 bytes>.json\<close> directly below the configured directory and its temporary file change,
  and the snapshot itself either stays as it was or holds a complete document.\<close>

theorem date_snapshot_confined:
  assumes "disk_laws G files" and "gw_snapDir G \<noteq> []" and "q_pathValue r ''name'' = []"
    and "MatchDateJSONPHandler G r s = (out, s')"
  shows "files s' = files s \<or>
    (\<exists>date full body. length date = 8 \<and> CHR ''/'' \<notin> set date \<and>
       full = under (filepath_Clean (gw_snapDir G)) (''match/matches_'' @ date @ ''.json'') \<and>
       (\<forall>q. q \<notin> {full, full @ ''.tmp''} \<longrightarrow> files s' q = files s q) \<and>
       files s' full \<in> {files s full, Some (jsonp_text (''matches_'' @ date) body)})"
proof -
  define date where "date = trim_suffix (trim_prefix (pathParam r ''name'') ''matches_'') ''.json''"
  have sl: "CHR ''/'' \<notin> set date"
    using pathParam_plain [OF assms(3)] unfolding date_def trim_suffix_def trim_prefix_def
    by (auto dest: in_set_takeD in_set_dropD)
  show ?thesis
  proof (cases "\<exists>resp s1. callRPC G r ''match_byDate'' (json_print (JObj [(''date'', JStr date)])) s = (Inr resp, s1) \<and> length date = 8 \<and>
      s' = snd (serveJSONPFlat G r resp (''matches_'' @ date) (gw_snapDir G) (''match/matches_'' @ date @ ''.json'') s1)")
    case True
    then obtain resp s1 where c: "callRPC G r ''match_byDate'' (json_print (JObj [(''date'', JStr date)])) s = (Inr resp, s1)" "length date = 8"
      "s' = snd (serveJSONPFlat G r resp (''matches_'' @ date) (gw_snapDir G) (''match/matches_'' @ date @ ''.json'') s1)" by blast
    have f: "files s1 = files s" using callRPC_files [OF assms(1) c(1)] .
    obtain body where "s' = writeSnapshot G (gw_snapDir G) (''match/matches_'' @ date @ ''.json'') body (''matches_'' @ date) s1"
      using c(3) assms(2) by (simp add: serveJSONPFlat_def Let_def)
    with writeSnapshot_files [OF assms(1) refl, of "gw_snapDir G" "''match/matches_'' @ date @ ''.json''" body "''matches_'' @ date" s1]
      Join_date [OF assms(2) sl] f c(2) sl show ?thesis by metis
  next
    case False
    then have "files s' = files s" using assms(4) callRPC_files [OF assms(1)]
      by (auto simp: MatchDateJSONPHandler_def Let_def date_def split: if_splits prod.splits sum.splits)
    then show ?thesis by simp
  qed
qed

text \<open>What the disk laws leave open: the operations succeed.\<close>

definition disk_works :: "'s gateway \<Rightarrow> ('s \<Rightarrow> string \<Rightarrow> bytes option) \<Rightarrow> bool" where
  "disk_works G files \<longleftrightarrow>
     (\<forall>p b s. fst (gw_writeFile G p b s)) \<and> (\<forall>a b s. files (gw_rename G a b s) = (files s)(b := files s a, a := None))"

lemma writeSnapshot_works:
  assumes "disk_laws G files" "disk_works G files"
  shows "files (writeSnapshot G dir file body cb s) (filepath_Join dir file) = Some (jsonp_text cb body)"
proof -
  let ?full = "filepath_Join dir file"
  obtain s2 where w: "gw_writeFile G (?full @ ''.tmp'') (jsonp_text cb body) (gw_mkdirAll G (filepath_Dir ?full) s) = (True, s2)"
    using assms(2) unfolding disk_works_def by (metis prod.collapse)
  then have "files s2 (?full @ ''.tmp'') = Some (jsonp_text cb body)" using assms(1) unfolding disk_laws_def by (metis fst_conv snd_conv)
  then show ?thesis using assms(2) w by (simp add: writeSnapshot_def disk_works_def Let_def)
qed


text \<open>The date endpoint does not look at the code.  When the remote procedure answers with an error and no result, the client gets
  status 200 and an empty array, and the empty array replaces the snapshot of the date.\<close>

theorem date_error_overwrites_snapshot:
  assumes "disk_laws G files" and "disk_works G files" and "gw_snapDir G \<noteq> []" and "q_query r ''callback'' = None"
    and "pathParam r ''name'' = ''matches_'' @ date @ ''.json''" and "length date = 8"
    and "gw_rpc G \<lparr>cr_Method = ''match_byDate'', cr_ParamJson = json_print (JObj [(''date'', JStr date)]), cr_SessionId = q_header r ''X-Session'', cr_Seq = 0\<rparr> s =
      (Inr resp, s1)"
    and "cp_Code resp = 400" and "cp_Result resp = None" and "MatchDateJSONPHandler G r s = (out, s')"
  shows "hr_status out = 200 \<and> string_of (hr_body out) = ''matches_'' @ date @ ''([])'' \<and>
    files s' (filepath_Join (gw_snapDir G) (''match/matches_'' @ date @ ''.json'')) = Some (bytes_of (''matches_'' @ date @ ''([])''))"
proof -
  have n: "trim_suffix (trim_prefix (''matches_'' @ date @ ''.json'') ''matches_'') ''.json'' = date"
    "has_prefix (''matches_'' @ date @ ''.json'') ''matches_''" "has_suffix (''matches_'' @ date @ ''.json'') ''.json''"
    using trim_prefix_append [of "''matches_''" "date @ ''.json''"] has_prefix_append [of "''matches_''" "date @ ''.json''"]
    by (simp_all add: has_suffix_iff)
  have "MatchDateJSONPHandler G r s =
      serveJSONPFlat G r resp (''matches_'' @ date) (gw_snapDir G) (''match/matches_'' @ date @ ''.json'') s1"
    using assms(5-7) n by (simp add: MatchDateJSONPHandler_def callRPC_def Let_def)
  then have "out = jsonp_reply r (''matches_'' @ date) (bytes_of ''[]'')"
    "s' = writeSnapshot G (gw_snapDir G) (''match/matches_'' @ date @ ''.json'') (bytes_of ''[]'') (''matches_'' @ date) s1"
    using assms(3,9,10) by (simp_all add: serveJSONPFlat_def resp_result_def Let_def)
  moreover have "jsonp_text (''matches_'' @ date) (bytes_of ''[]'') = bytes_of (''matches_'' @ date @ ''([])'')"
    by (simp add: jsonp_text_def bytes_of_def)
  ultimately show ?thesis
    using writeSnapshot_works [OF assms(1,2), of "gw_snapDir G" "''match/matches_'' @ date @ ''.json''" "bytes_of ''[]''" "''matches_'' @ date" s1] assms(4)
    by (simp add: jsonp_reply_def query_get_def)
qed

section \<open>The captcha\<close>

lemma kaptcha_letter: "kaptcha_alphabet ! (unat (b :: byte) mod length kaptcha_alphabet) \<in> set kaptcha_alphabet"
  by (rule nth_mem) (simp add: kaptcha_alphabet_def)

lemma genKaptchaCode_keeps:
  assumes "\<And>s. live s \<Longrightarrow> live (snd (gw_rand G s)) \<and> view (snd (gw_rand G s)) = view s"
  shows "live s \<Longrightarrow> genKaptchaCode G n s = (code, s') \<Longrightarrow> live s' \<and> view s' = view s \<and> length code = n \<and> set code \<subseteq> set kaptcha_alphabet"
proof (induction n arbitrary: s code)
  case (Suc n)
  obtain b s1 where b: "gw_rand G s = (b, s1)" by fastforce
  obtain cs s2 where c: "genKaptchaCode G n s1 = (cs, s2)" by fastforce
  have "live s1 \<and> view s1 = view s" using assms [OF Suc.prems(1)] b by simp
  then show ?case using Suc.IH [of s1 cs] Suc.prems(2) b c kaptcha_letter by auto
qed simp

text \<open>C22: the captcha.  On a live server, when no cooldown is running for the mobile number, the gateway draws a code of five letters of
  the alphabet, shows it, stores it for 300 seconds under the key that the RPC service checks, and starts a cooldown of
  60 seconds; while that runs a request for the number is refused with status 429 and leaves the stored code.\<close>

theorem kaptcha_issue:
  assumes "redis_server (gw_redis G) view live dbl" and "live s"
    and "\<forall>s. live s \<longrightarrow> live (snd (gw_rand G s)) \<and> view (snd (gw_rand G s)) = view s"
    and "q_query r ''mobile'' = Some mobile" and "mobile \<noteq> []" and "KaptchaHandler G r s = (out, s')"
  shows "live s' \<and>
    (if view s (''yuyan:kaptcha:cd:'' @ mobile) = None
     then \<exists>code. length code = 5 \<and> set code \<subseteq> set kaptcha_alphabet \<and> hr_status out = 200 \<and> hr_body out = bytes_of (renderKaptchaSVG code) \<and>
       view s' = (view s)(''yuyan:kaptcha:cd:'' @ mobile \<mapsto> (RStr ''1'', Some 60), ''yuyan:kaptcha:'' @ mobile \<mapsto> (RStr code, Some 300))
     else hr_status out = 429 \<and> view s' = view s)"
proof -
  let ?cd = "''yuyan:kaptcha:cd:'' @ mobile"
  obtain x s1 where x: "r_setnxex (gw_redis G) ?cd ''1'' 60 s = (x, s1)" by fastforce
  have l: "x = Inr (view s ?cd = None)" "live s1" "view s1 = (if view s ?cd = None then (view s)(?cd \<mapsto> (RStr ''1'', Some 60)) else view s)"
    using redis_server.setnxex_law [OF assms(1,2), of 60 ?cd "''1''"] x by auto
  show ?thesis
  proof (cases "view s ?cd = None")
    case True
    obtain code s2 where c: "genKaptchaCode G 5 s1 = (code, s2)" by fastforce
    have k: "live s2 \<and> view s2 = view s1 \<and> length code = 5 \<and> set code \<subseteq> set kaptcha_alphabet"
      using genKaptchaCode_keeps [of live G view s1 5 code s2] assms(3) l(2) c by blast
    then have e: "live (snd (r_setex (gw_redis G) (''yuyan:kaptcha:'' @ mobile) code 300 s2))"
      "view (snd (r_setex (gw_redis G) (''yuyan:kaptcha:'' @ mobile) code 300 s2)) = (view s2)(''yuyan:kaptcha:'' @ mobile \<mapsto> (RStr code, Some 300))"
      using redis_server.setex_law [OF assms(1), of s2 300 "''yuyan:kaptcha:'' @ mobile" code] by auto
    have "hr_status out = 200" "hr_body out = bytes_of (renderKaptchaSVG code)" "s' = snd (r_setex (gw_redis G) (''yuyan:kaptcha:'' @ mobile) code 300 s2)"
      using assms(4-6) x l(1) c True by (auto simp: KaptchaHandler_def query_get_def)
    then show ?thesis using True e k l(3) by auto
  next
    case False
    then have "hr_status out = 429" "s' = s1"
      using assms(4-6) x l(1) by (auto simp: KaptchaHandler_def query_get_def http_Error_def Let_def)
    moreover have "view s1 = view s" using l(3) unfolding if_not_P [OF False] .
    ultimately show ?thesis using l(2) unfolding if_not_P [OF False] by simp
  qed
qed

end
