(* ===== verification/GatewayDemo.thy ===== *)
theory GatewayDemo
  imports GatewayProps AccountsDemo
begin

text \<open>
  A gateway whose remote procedure, disk and Redis are concrete, and the witnesses of the transport and gateway properties.
\<close>

section \<open>A gateway to run\<close>

definition down_redis :: "'s redis" where
  "down_redis =
    \<lparr>r_get = (\<lambda>k s. (Inl mem_down, s)), r_set = (\<lambda>k v s. (Inl mem_down, s)), r_setex = (\<lambda>k v t s. (Inl mem_down, s)),
     r_setnx = (\<lambda>k v s. (Inl mem_down, s)), r_setnxex = (\<lambda>k v t s. (Inl mem_down, s)), r_del = (\<lambda>ks s. (Inl mem_down, s)),
     r_incr = (\<lambda>k s. (Inl mem_down, s)), r_decr = (\<lambda>k s. (Inl mem_down, s)), r_expire = (\<lambda>k t s. (Inl mem_down, s)),
     r_zremrangebyscore = (\<lambda>k lo hi s. (Inl mem_down, s)), r_zcard = (\<lambda>k s. (Inl mem_down, s)), r_zadd = (\<lambda>k sc x s. (Inl mem_down, s)),
     r_sismember = (\<lambda>k x s. (Inl mem_down, s)), r_lpush = (\<lambda>k x s. (Inl mem_down, s)), r_ltrim = (\<lambda>k lo hi s. (Inl mem_down, s)),
     r_lrange = (\<lambda>k lo hi s. (Inl mem_down, s)), r_keys = (\<lambda>p s. (Inl mem_down, s))\<rparr>"

definition demo_keys16 :: TransportConfig where "demo_keys16 = \<lparr>RequestKey = replicate 16 0, ResponseKey = replicate 16 1\<rparr>"

definition demo_gateway :: "'s redis \<Rightarrow> (CallReq \<Rightarrow> 's \<Rightarrow> (string + CallResp) \<times> 's) \<Rightarrow> 's gateway" where
  "demo_gateway R rpc =
    \<lparr>gw_rpc = rpc, gw_redis = R, gw_nano = (\<lambda>s. (0, s)), gw_rand = (\<lambda>s. (Some 33, s)), gw_mkdirAll = (\<lambda>d s. s),
     gw_writeFile = (\<lambda>p b s. (False, s)), gw_rename = (\<lambda>a b s. s), gw_readFile = (\<lambda>p s. (None, s)),
     gw_errorCtx = (\<lambda>msg. http_Error msg 400), gw_serveWS = (\<lambda>r s. (NotFound, s)), gw_fl = Some, gw_snapDir = ''/srv//snap/'', gw_cors = [],
     gw_transport = demo_keys16, gw_rateLimiter = NewLimiter (Some R) 120 ''api'', gw_authLimiter = NewLimiter (Some R) 20 ''auth''\<rparr>"

definition demo_disk :: "CallResp \<Rightarrow> (string \<Rightarrow> bytes option) gateway" where
  "demo_disk resp =
     (demo_gateway down_redis (\<lambda>inp s. (Inr resp, s)))
       \<lparr>gw_writeFile := (\<lambda>p b s. (True, s(p \<mapsto> b))), gw_rename := (\<lambda>a b s. s(b := s a, a := None))\<rparr>"

definition demo_request_http :: "bytes \<Rightarrow> string \<Rightarrow> hreq" where
  "demo_request_http body path =
    \<lparr>q_body = Some body, q_header = (\<lambda>_. []), q_ctx = None, q_path = path, q_pathValue = (\<lambda>_. []),
     q_query = (\<lambda>n. if n = ''mobile'' then Some ''13800000000'' else None), q_method = ''GET'', q_remote = ''10.0.0.1:5000''\<rparr>"

definition demo_answer :: "int \<Rightarrow> json option \<Rightarrow> CallResp" where
  "demo_answer code res = \<lparr>cp_Code = code, cp_Meg = ''m'', cp_Seq = 0, cp_NewSessionId = [], cp_Result = map_option json_print res\<rparr>"

lemma demo_gateway_simps [simp]:
  "gw_transport (demo_gateway R rpc) = demo_keys16" "gw_rpc (demo_gateway R rpc) = rpc" "gw_redis (demo_gateway R rpc) = R"
  "gw_rand (demo_gateway R rpc) = (\<lambda>s. (Some 33, s))" "gw_snapDir (demo_gateway R rpc) = ''/srv//snap/''"
  "RequestKey demo_keys16 = replicate 16 0" "ResponseKey demo_keys16 = replicate 16 1"
  by (simp_all add: demo_gateway_def demo_keys16_def)

lemma demo_disk_simps: "gw_snapDir (demo_disk resp) = ''/srv//snap/''" "gw_rpc (demo_disk resp) inp s = (Inr resp, s)"
  by (simp_all add: demo_disk_def)

lemma demo_disk_ok: "disk_laws (demo_disk resp) id" "disk_works (demo_disk resp) id"
  by (simp_all add: disk_laws_def disk_works_def demo_disk_def demo_gateway_def)

text \<open>A small envelope and its frame.\<close>

definition demo_envelope :: json where "demo_envelope = request_envelope ''s'' 7 ''h5'' (JArr [])"

lemma demo_sendable: "sendable ''s'' 7 ''h5'' (JArr [])"
  by (simp add: sendable_def valid_utf8_ascii ascii_def max_depth_def)

lemma length_quote_ascii: "ascii s \<Longrightarrow> length (json_quote s) \<le> 6 * length s + 2"
proof -
  assume a: "ascii s"
  have e: "length (esc_rune (code_of c, [c])) \<le> 6" for c by (simp add: esc_rune_def u_escape_def)
  have "length (concat (map (\<lambda>c. esc_rune (code_of c, [c])) t)) \<le> 6 * length t" for t
    by (induction t) (use e in \<open>auto simp: add_mono\<close>)
  from this [of s] show ?thesis using a by (simp add: json_quote_def runes_ascii o_def)
qed

lemma demo_frame:
  obtains f where "EncodeFrame (bytes_of (json_print demo_envelope)) (replicate 16 0) = Inr f" "length f \<le> 8 * 1024 * 1024"
proof -
  have "itoa 7 = ''7''" by code_simp
  then have l: "length (json_print demo_envelope) \<le> 300"
    using length_quote_ascii [of "''sessionId''"] length_quote_ascii [of "''seq''"] length_quote_ascii [of "''plat''"]
      length_quote_ascii [of "''param''"] length_quote_ascii [of "''s''"] length_quote_ascii [of "''h5''"]
    by (simp add: demo_envelope_def request_envelope_def jint_def ascii_def)
  obtain ct where "Encrypt (bytes_of (json_print demo_envelope)) (replicate 16 0) = Inr ct"
    "length ct = 16 * (length (bytes_of (json_print demo_envelope)) div 16 + 1)" by (rule Encrypt_16 [of "replicate 16 0"]) simp
  then show thesis using that [of "frame_of ct"] l by (simp add: EncodeFrame_frame_of frame_of_def)
qed

section \<open>Witnesses\<close>

theorem transport_roundtrip_witness:
  "\<exists>f ct. EncodeFrame (bytes_of (json_print (request_envelope ''s'' 7 ''h5'' (JArr [])))) (RequestKey demo_keys16) = Inr f \<and>
    Transport demo_keys16 (\<lambda>r n. (json_resp (cx_param (the (q_ctx r))), n + 1)) (demo_request_http f ''/x'') (3 :: nat) = (sealed ct, 4) \<and>
    EncodeFrame (buildEnvelope (bytes_of (json_print (JArr []))) 7 ''s'') (ResponseKey demo_keys16) = Inr ct"
proof (rule demo_frame)
  fix f assume f: "EncodeFrame (bytes_of (json_print demo_envelope)) (replicate 16 0) = Inr f" "length f \<le> 8 * 1024 * 1024"
  show ?thesis
    using transport_roundtrip [of demo_keys16 "''s''" 7 "''h5''" "JArr []" f "demo_request_http f ''/x''"
        "\<lambda>r n. (json_resp (cx_param (the (q_ctx r))), n + 1)" "3 :: nat" "json_resp (bytes_of (json_print (JArr [])))" 4] f demo_sendable
    by (auto simp: demo_envelope_def demo_request_http_def json_resp_def)
qed

theorem transport_refuses_unsealed_witness:
  "\<exists>ct. Transport demo_keys16 (\<lambda>r n. (NotFound, n + 1)) (demo_request_http [] ''/x'') (3 :: nat) = (sealed ct, 3) \<and>
    EncodeFrame (bytes_of (json_print (JObj [(''code'', jint 101), (''meg'', JStr ''invalid encrypted request''), (''seq'', jint 0)])))
      (ResponseKey demo_keys16) = Inr ct"
proof -
  have "Encrypt plain (replicate 16 0) \<noteq> Inr []" for plain
    using Encrypt_16 [of "replicate 16 0" plain] by (metis One_nat_def Suc_eq_plus1 add_is_0 length_replicate list.size(3) mult_is_0 nat.distinct(1) Inr_inject zero_neq_numeral)
  moreover have "EncodeFrame plain (replicate 16 0) \<noteq> Inr []" for plain
    by (cases "Encrypt plain (replicate 16 0)") (auto simp: EncodeFrame_frame_of frame_of_def)
  ultimately show ?thesis
    using transport_refuses_unsealed [of demo_keys16 "demo_request_http [] ''/x''" "[]" "\<lambda>r n. (NotFound, n + 1)" "3 :: nat"]
    by (simp add: demo_request_http_def)
qed

theorem gateway_relay_witness:
  "\<exists>f ct. EncodeFrame (bytes_of (json_print (request_envelope ''s'' 7 ''h5'' (JArr [])))) (replicate 16 0) = Inr f \<and>
    encrypted (demo_gateway down_redis (\<lambda>inp n. (Inr (demo_answer 200 (Some (JObj []))), n + 1)))
      (relay (demo_gateway down_redis (\<lambda>inp n. (Inr (demo_answer 200 (Some (JObj []))), n + 1))) ''login'' readParamBody)
      (demo_request_http f ''/login/login'') (3 :: nat) = (sealed ct, 4) \<and>
    EncodeFrame (bytes_of (json_print (client_answer 7 (demo_answer 200 (Some (JObj []))) (Some (JObj []))))) (replicate 16 1) = Inr ct"
proof (rule demo_frame)
  fix f assume f: "EncodeFrame (bytes_of (json_print demo_envelope)) (replicate 16 0) = Inr f" "length f \<le> 8 * 1024 * 1024"
  have "carried (demo_answer 200 (Some (JObj []))) (Some (JObj []))"
    by (simp add: carried_def demo_answer_def valid_utf8_ascii ascii_def max_depth_def)
  then show ?thesis
    using gateway_relay [of "demo_gateway down_redis (\<lambda>inp n. (Inr (demo_answer 200 (Some (JObj []))), n + 1))" "''s''" 7 "''h5''" "JArr []" f
        "demo_request_http f ''/login/login''" "''login''" "3 :: nat" "demo_answer 200 (Some (JObj []))" 4 "Some (JObj [])"] f demo_sendable
    by (auto simp: demo_envelope_def demo_request_http_def demo_answer_def)
qed

theorem envelope_session_ignored_witness:
  "\<exists>f ct. EncodeFrame (bytes_of (json_print (request_envelope ''s'' 7 ''h5'' (JArr [])))) (replicate 16 0) = Inr f \<and>
    encrypted (demo_gateway down_redis (rpc_of demo_env demo_service)) (UserDetailHandler (demo_gateway down_redis (rpc_of demo_env demo_service)))
      (demo_request_http f ''/user/detail'') (demo_world []) = (sealed ct, demo_world []) \<and>
    EncodeFrame (bytes_of (json_print (JObj [(''code'', jint 100), (''meg'', JStr ''login required''), (''seq'', jint 7)]))) (replicate 16 1) = Inr ct"
proof (rule demo_frame)
  fix f assume f: "EncodeFrame (bytes_of (json_print demo_envelope)) (replicate 16 0) = Inr f" "length f \<le> 8 * 1024 * 1024"
  show ?thesis
    using envelope_session_ignored [of "demo_gateway down_redis (rpc_of demo_env demo_service)" "''s''" 7 "''h5''" "JArr []" f
        "demo_request_http f ''/user/detail''" demo_env demo_service "demo_world []"] f demo_sendable
    by (auto simp: demo_envelope_def demo_request_http_def simp del: json_print.simps)
qed

lemma demo_date: "pathParam (demo_request_http [] ''/match/matches_20240101.json'') ''name'' = ''matches_20240101.json''"
  by (simp add: demo_request_http_def pathParam_def trim_slashes_def)

theorem date_snapshot_confined_witness:
  "snd (MatchDateJSONPHandler (demo_disk (demo_answer 200 (Some (JArr [])))) (demo_request_http [] ''/match/matches_../../a.json'') [''/etc/passwd'' \<mapsto> [1]])
     ''/etc/passwd'' = Some [1]"
proof -
  let ?s = "snd (MatchDateJSONPHandler (demo_disk (demo_answer 200 (Some (JArr [])))) (demo_request_http [] ''/match/matches_../../a.json'') [''/etc/passwd'' \<mapsto> [1]])"
  have "filepath_Clean ''/srv//snap/'' = ''/srv/snap''" by (simp add: filepath_Clean_def is_rooted_def)
  then have u: "''/etc/passwd'' \<noteq> under (filepath_Clean ''/srv//snap/'') x" "''/etc/passwd'' \<noteq> under (filepath_Clean ''/srv//snap/'') x @ ''.tmp''" for x
    by (simp_all add: under_def)
  have "?s = [''/etc/passwd'' \<mapsto> [1]] \<or> ?s ''/etc/passwd'' = [''/etc/passwd'' \<mapsto> [1]] ''/etc/passwd''"
    using date_snapshot_confined [OF demo_disk_ok(1), of "demo_answer 200 (Some (JArr []))" "demo_request_http [] ''/match/matches_../../a.json''"
        "[''/etc/passwd'' \<mapsto> [1]]", OF _ _ prod.collapse [symmetric]] u
    by (fastforce simp: demo_disk_simps demo_request_http_def)
  then show ?thesis by auto
qed


theorem date_error_overwrites_snapshot_witness:
  "snd (MatchDateJSONPHandler (demo_disk (demo_answer 400 None)) (demo_request_http [] ''/match/matches_20240101.json'') (\<lambda>_. Some [1]))
      (filepath_Join ''/srv//snap/'' ''match/matches_20240101.json'') = Some (bytes_of ''matches_20240101([])'')"
  using date_error_overwrites_snapshot [OF demo_disk_ok, of "demo_answer 400 None" "demo_request_http [] ''/match/matches_20240101.json''" "''20240101''"
      "\<lambda>_. Some [1]" "demo_answer 400 None" "\<lambda>_. Some [1]", OF _ _ _ _ _ _ _ prod.collapse [symmetric]] demo_date
  by (simp add: demo_disk_simps demo_request_http_def demo_answer_def)

theorem kaptcha_issue_witness:
  "\<exists>code. length code = 5 \<and>
    mem_view (snd (KaptchaHandler (demo_gateway mem_redis (\<lambda>inp s. (Inl [], s))) (demo_request_http [] ''/api/kaptcha'') mem_empty))
      (''yuyan:kaptcha:13800000000'') = Some (RStr code, Some 300)"
  using kaptcha_issue [of "demo_gateway mem_redis (\<lambda>inp s. (Inl [], s))" mem_view mem_up id mem_empty "demo_request_http [] ''/api/kaptcha''" "''13800000000''",
      OF _ _ _ _ _ prod.collapse [symmetric]] memr.redis_server_axioms
  by (auto simp: demo_request_http_def)

end
