(* ===== verification/RpcWire.thy ===== *)
theory RpcWire
  imports GatewayDemo
begin

text \<open>
  The two processes joined: the gateway calls the service over a gRPC channel (\<open>cmd/rpc/apiproClient/apipro.go\<close> on the gateway's
  side, \<open>cmd/rpc/internal/server/apiproServer.go\<close> on the service's).  The channel is a parameter with the law that it delivers
  every message protocol buffers can encode: their strings have to be valid UTF-8.
\<close>

section \<open>The ends of the channel\<close>

text \<open>\<open>ApiproServer.Call\<close> makes a \<open>CallLogic\<close> of the service context and runs it; \<open>defaultApipro.Call\<close> invokes the
  method on the connection of its client.\<close>

record ('r, 'l, 'b, 'd) ApiproServer =
  as_svcCtx :: "('r, 'l, 'b, 'd) service"

definition NewApiproServer :: "('r, 'l, 'b, 'd) service \<Rightarrow> ('r, 'l, 'b, 'd) ApiproServer" where
  "NewApiproServer svcCtx = \<lparr>as_svcCtx = svcCtx\<rparr>"

definition ApiproServer_Call ::
  "env \<Rightarrow> ('r, 'l, 'b, 'd) ApiproServer \<Rightarrow> CallReq \<Rightarrow> ('r, 'l, 'b, 'd) world \<Rightarrow> (CallResp \<times> ('r, 'l, 'b, 'd) world) option" where
  "ApiproServer_Call E s inp w = Call E (as_svcCtx s) inp w"

type_synonym 's invoke = "CallReq \<Rightarrow> 's \<Rightarrow> (string + CallResp) \<times> 's"

definition defaultApipro_Call :: "'s invoke \<Rightarrow> 's invoke" where
  "defaultApipro_Call conn inp s = conn inp s"

section \<open>Text is closed under joining\<close>

lemma runes_append: "valid_utf8 a \<Longrightarrow> runes (a @ b) = runes a @ runes b"
proof (induction a rule: runes.induct)
  case (1 a)
  show ?case
  proof (cases "a = []")
    case False
    obtain r w where d: "decode_rune a = (r, w)" by fastforce
    note v = valid_utf8_step [OF 1(2) False d]
    have w: "w \<le> length a" using decode_rune_width [OF False] d by simp
    have "decode_rune (a @ b) = (r, w)" using decode_rune_take [OF d False v(1), of "drop w a @ b"] by (metis append.assoc append_take_drop_id)
    then show ?thesis using 1(1) [OF False d [symmetric] refl] v(2) w False d
      by (simp add: runes.simps [of a] runes.simps [of "a @ b"])
  qed (simp add: runes.simps [of "[]"])
qed

lemma valid_utf8_append: "valid_utf8 a \<Longrightarrow> valid_utf8 b \<Longrightarrow> valid_utf8 (a @ b)"
  by (auto simp: valid_utf8_def runes_append [unfolded valid_utf8_def])

lemma valid_utf8_Cons: "code_of c < 0x80 \<Longrightarrow> valid_utf8 b \<Longrightarrow> valid_utf8 (c # b)"
  using valid_utf8_append [of "[c]" b] by (simp add: valid_utf8_ascii ascii_def)

lemma valid_utf8_Nil [simp]: "valid_utf8 []" by (simp add: valid_utf8_ascii ascii_def)

lemma rune_bytes_valid: "(r, b) \<in> set (runes s) \<Longrightarrow> \<not> (r = RuneError \<and> length b = 1) \<Longrightarrow> valid_utf8 b"
proof (induction s rule: runes.induct)
  case (1 s)
  show ?case
  proof (cases "s = []")
    case True
    then show ?thesis using 1(2) by (simp add: runes.simps)
  next
    case False
    obtain r' w where d: "decode_rune s = (r', w)" by fastforce
    have w: "0 < w" "w \<le> length s" using decode_rune_width [OF False] d by auto
    consider "r = r'" "b = take w s" | "(r, b) \<in> set (runes (drop w s))" using 1(2) False d by (auto simp: runes.simps [of s])
    then show ?thesis
    proof cases
      case 1
      then have b: "b \<noteq> []" "length b = w" using w by auto
      have "decode_rune b = (r, w)" using decode_rune_take [OF d False, of "[]"] \<open>\<not> (r = RuneError \<and> length b = 1)\<close> 1 b by simp
      then have "runes b = [(r, b)]" using b by (simp add: runes.simps [of b] runes.simps [of "[]"])
      then show ?thesis using \<open>\<not> (r = RuneError \<and> length b = 1)\<close> by (simp add: valid_utf8_def)
    next
      case 2
      then show ?thesis using "1.IH" [OF False d [symmetric] refl] "1.prems"(2) by blast
    qed
  qed
qed

lemma valid_esc_rune: "rb \<in> set (runes s) \<Longrightarrow> valid_utf8 (esc_rune rb)"
proof -
  assume a: "rb \<in> set (runes s)"
  obtain r b where rb: "rb = (r, b)" by fastforce
  have "ascii (u_escape n)" if "n < 0x10000" for n
  proof -
    have "n div 4096 < 16" using that by simp
    then show ?thesis by (simp add: u_escape_def ascii_def code_of_hex_digit backslash_def) linarith?
  qed
  then have "n < 0x10000 \<Longrightarrow> valid_utf8 (u_escape n)" for n by (blast intro: valid_utf8_ascii)
  moreover have "\<not> (r = RuneError \<and> length b = 1) \<Longrightarrow> valid_utf8 b" using a rb rune_bytes_valid by blast
  ultimately show ?thesis unfolding rb esc_rune_def by (simp add: valid_utf8_ascii ascii_def backslash_def dquote_def RuneError_def)
qed

lemma valid_concat: "(\<And>x. x \<in> set xs \<Longrightarrow> valid_utf8 (f x)) \<Longrightarrow> valid_utf8 (concat (map f xs))"
  by (induction xs) (simp_all add: valid_utf8_append)

lemma valid_json_quote: "valid_utf8 (json_quote s)"
  by (simp add: json_quote_def valid_utf8_Cons valid_utf8_append valid_concat valid_esc_rune valid_utf8_ascii ascii_def dquote_def)

lemma valid_itoa: "valid_utf8 (itoa i)"
proof -
  have "ascii (digits_nat n)" for n using digits_nat_digits [of n] by (auto simp: ascii_def list_all_iff is_digit_def)
  then have "ascii (itoa i)" by (simp add: itoa_def ascii_def)
  then show ?thesis by (rule valid_utf8_ascii)
qed

lemma valid_json_print:
  "wf_json j \<Longrightarrow> valid_utf8 (json_print j)"
  "\<forall>x \<in> set xs. wf_json x \<Longrightarrow> valid_utf8 (json_print_elems xs)"
  "\<forall>m \<in> set ms. wf_json (snd m) \<Longrightarrow> valid_utf8 (json_print_members ms)"
  by (induction j and xs and ms rule: json_print_json_print_elems_json_print_members.induct)
    (auto simp: valid_utf8_Cons valid_utf8_append valid_json_quote valid_itoa valid_utf8_ascii ascii_def)

section \<open>The channel\<close>

text \<open>Messages protocol buffers can encode: strings are valid UTF-8, integers have 32 bits.\<close>

definition int32 :: "int \<Rightarrow> bool" where "int32 n \<longleftrightarrow> - (2 ^ 31) \<le> n \<and> n < 2 ^ 31"

definition proto_req :: "CallReq \<Rightarrow> bool" where
  "proto_req inp \<longleftrightarrow> valid_utf8 (cr_Method inp) \<and> valid_utf8 (cr_ParamJson inp) \<and> valid_utf8 (cr_SessionId inp) \<and> int32 (cr_Seq inp)"

definition proto_resp :: "CallResp \<Rightarrow> bool" where
  "proto_resp resp \<longleftrightarrow> valid_utf8 (cp_Meg resp) \<and> valid_utf8 (cp_NewSessionId resp) \<and> int32 (cp_Code resp) \<and> int32 (cp_Seq resp)"

locale grpc_channel =
  fixes conn :: "CallReq \<Rightarrow> 's \<Rightarrow> (string + CallResp) \<times> 's"
    and serve :: "CallReq \<Rightarrow> 's \<Rightarrow> (CallResp \<times> 's) option"
  assumes delivers: "proto_req inp \<Longrightarrow> serve inp s = Some (resp, s') \<Longrightarrow> proto_resp resp \<Longrightarrow> conn inp s = (Inr resp, s')"
begin

lemma answer_arrives:
  assumes "proto_req inp" "serve inp s = Some (resp, s')" "proto_resp resp"
  shows "defaultApipro_Call conn inp s = (Inr resp, s')"
  using delivers [OF assms] by (simp add: defaultApipro_Call_def)

end

text \<open>A channel of the service: it carries what the encoding carries, and fails like the client of gRPC on the rest and on a call
  that does not return.\<close>

definition grpc_conn :: "env \<Rightarrow> ('r, 'l, 'b, 'd) ApiproServer \<Rightarrow> ('r, 'l, 'b, 'd) world invoke" where
  "grpc_conn E srv inp w =
     (if \<not> proto_req inp then (Inl ''string field contains invalid UTF-8'', w)
      else (case ApiproServer_Call E srv inp w of
              None \<Rightarrow> (Inl ''deadline exceeded'', w)
            | Some (resp, w') \<Rightarrow> (if proto_resp resp then Inr resp else Inl ''string field contains invalid UTF-8'', w')))"

interpretation direct: grpc_channel "grpc_conn E srv" "ApiproServer_Call E srv"
  by unfold_locales (simp add: grpc_conn_def)

section \<open>The service always answers, in a known shape\<close>

lemma Call_shape:
  assumes "free_token w" "sms_rdb (sv_sms v) \<noteq> None"
  obtains resp w' where "Call E v inp w = Some (resp, w')" "cp_Code resp = CodeOK \<or> cp_Code resp \<in> error_codes"
    "cp_Result resp \<noteq> None \<longleftrightarrow> cp_Code resp = CodeOK" "cp_Code resp = CodeOK \<Longrightarrow> cp_Meg resp = []"
    "cp_Seq resp = cr_Seq inp" "cp_NewSessionId resp = cr_SessionId inp"
proof -
  obtain result code meg w' where d: "dispatch (TrimSpace (cr_Method inp)) E v inp w = Some ((result, code, meg), w')"
    using dispatch_some [OF assms, of "TrimSpace (cr_Method inp)" E inp] by auto
  then have t: "typed_reply (result, code, meg)" using dispatch_typed [unfolded typed_def] by blast
  then have "wrap32 code = code" "CodeOK \<notin> error_codes" by (auto simp: typed_reply_def error_codes_def code_defs wrap32_def split: if_splits)
  then show thesis using d t that by (auto simp: Call_def typed_reply_def split: if_splits)
qed

lemma known_codes: "c = CodeOK \<or> c \<in> error_codes \<Longrightarrow> c \<noteq> 0 \<and> int32 c"
  by (auto simp: error_codes_def code_defs int32_def)

section \<open>An encrypted call, end to end\<close>

text \<open>C2: an encrypted call through both processes.  Whatever a client seals for a relayed method, the service runs that method on
  the text of the parameter and the session of the header, and answers; if the result is the text of a JSON value, or there is none, the
  client finds in its frame the code, the message, its own sequence number, its session and the result the service
  returned, and the service is left in the state the handler left.\<close>

theorem gateway_serves_call:
  assumes "length (ResponseKey (gw_transport G)) = 16" and "sendable sid seq plat p"
    and "EncodeFrame (bytes_of (json_print (request_envelope sid seq plat p))) (RequestKey (gw_transport G)) = Inr f"
    and "length f \<le> 8 * 1024 * 1024" and "q_body r = Some f"
    and "grpc_channel conn (ApiproServer_Call E (NewApiproServer v))" and "gw_rpc G = defaultApipro_Call conn"
    and "valid_utf8 m" and "valid_utf8 (q_header r ''X-Session'')"
    and "free_token w" and "sms_rdb (sv_sms v) \<noteq> None"
  shows "\<exists>resp w'. Call E v \<lparr>cr_Method = m, cr_ParamJson = json_print p, cr_SessionId = q_header r ''X-Session'', cr_Seq = 0\<rparr> w = Some (resp, w') \<and>
    (valid_utf8 (cp_Meg resp) \<longrightarrow>
      (\<forall>res. cp_Result resp = map_option json_print res \<and> (\<forall>j. res = Some j \<longrightarrow> wf_json j \<and> Suc (jdepth j) \<le> max_depth) \<longrightarrow>
        (\<exists>ct. encrypted G (relay G m readParamBody) r w = (sealed ct, w') \<and>
          EncodeFrame (bytes_of (json_print (JObj ([(''code'', jint (cp_Code resp)), (''meg'', JStr (cp_Meg resp)), (''seq'', jint seq)] @
            session_member (q_header r ''X-Session'') @ opt_member ''result'' res)))) (ResponseKey (gw_transport G)) = Inr ct)))"
proof -
  let ?inp = "\<lparr>cr_Method = m, cr_ParamJson = json_print p, cr_SessionId = q_header r ''X-Session'', cr_Seq = 0\<rparr>"
  obtain resp w' where c: "Call E v ?inp w = Some (resp, w')" "cp_Code resp = CodeOK \<or> cp_Code resp \<in> error_codes"
    "cp_Seq resp = 0" "cp_NewSessionId resp = q_header r ''X-Session''"
    by (rule Call_shape [OF assms(10,11), of E ?inp]) auto
  note k = known_codes [OF c(2)]
  have "proto_req ?inp" using assms(2,8,9) by (simp add: proto_req_def sendable_def valid_json_print int32_def)
  then have g: "gw_rpc G ?inp w = (Inr resp, w')" if "valid_utf8 (cp_Meg resp)"
    using grpc_channel.answer_arrives [OF assms(6), of ?inp w resp w'] c assms(7,9) k that
    by (simp add: ApiproServer_Call_def NewApiproServer_def proto_resp_def int32_def)
  have "\<exists>ct. encrypted G (relay G m readParamBody) r w = (sealed ct, w') \<and>
      EncodeFrame (bytes_of (json_print (client_answer seq resp res))) (ResponseKey (gw_transport G)) = Inr ct"
    if v: "valid_utf8 (cp_Meg resp)" and "cp_Result resp = map_option json_print res" "\<forall>j. res = Some j \<longrightarrow> wf_json j \<and> Suc (jdepth j) \<le> max_depth" for res
  proof -
    have "carried resp res" using that c k assms(9) by (simp add: carried_def int32_def)
    then show ?thesis
      using relay_sealed [OF assms(1-5), where param = readParamBody] g [OF v] k by (simp add: readParamBody_def ParamJSON_def)
  qed
  then show ?thesis using c by (auto simp: client_answer_def)
qed

lemma user_detail_name: "TrimSpace ''user_detail'' = ''user_detail''" by code_simp

theorem gateway_serves_call_witness:
  "\<exists>f ct. EncodeFrame (bytes_of (json_print (request_envelope ''s'' 7 ''h5'' (JArr [])))) (replicate 16 0) = Inr f \<and>
    encrypted (demo_gateway down_redis (defaultApipro_Call (grpc_conn demo_env (NewApiproServer demo_service))))
      (relay (demo_gateway down_redis (defaultApipro_Call (grpc_conn demo_env (NewApiproServer demo_service)))) ''user_detail'' readParamBody)
      (demo_request_http f ''/user/detail'') (demo_world []) = (sealed ct, demo_world []) \<and>
    EncodeFrame (bytes_of (json_print (JObj [(''code'', jint 100), (''meg'', JStr ''login required''), (''seq'', jint 7)]))) (replicate 16 1) = Inr ct"
proof (rule demo_frame)
  fix f assume f: "EncodeFrame (bytes_of (json_print demo_envelope)) (replicate 16 0) = Inr f" "length f \<le> 8 * 1024 * 1024"
  let ?G = "demo_gateway down_redis (defaultApipro_Call (grpc_conn demo_env (NewApiproServer demo_service)))"
  have c: "Call demo_env demo_service \<lparr>cr_Method = ''user_detail'', cr_ParamJson = json_print (JArr []), cr_SessionId = [], cr_Seq = 0\<rparr> (demo_world []) =
      Some (\<lparr>cp_Code = 100, cp_Meg = ''login required'', cp_Seq = 0, cp_NewSessionId = [], cp_Result = None\<rparr>, demo_world [])"
    by (simp add: Call_def user_detail_name dispatch_def handleUserDetail_def CodeLoginRequired_def wrap32_def)
  show ?thesis
    using gateway_serves_call [of ?G "''s''" 7 "''h5''" "JArr []" f "demo_request_http f ''/user/detail''"
        "grpc_conn demo_env (NewApiproServer demo_service)" demo_env demo_service "''user_detail''" "demo_world []",
        OF _ _ _ _ _ direct.grpc_channel_axioms] f demo_sendable demo_free [of "[]"] c
    by (auto simp: demo_envelope_def demo_request_http_def demo_simps valid_utf8_ascii ascii_def session_member_def opt_member_def simp del: json_print.simps)
qed

end
