(* ===== verification/RpcProcess.thy ===== *)
theory RpcProcess
  imports DisplayReads RpcWire
begin

text \<open>
  The RPC process (\<open>cmd/rpc/apipro.go\<close>): the service context is built, the refresh jobs are started, and requests are served while
  jobs tick and background writes complete.  The jobs and the handlers meet in Redis.
\<close>

section \<open>The process\<close>

record ('r, 'l, 'b, 'd) process =
  pc_server :: "('r, 'l, 'b, 'd) ApiproServer"
  pc_world :: "('r, 'l, 'b, 'd) world"
  pc_phase :: "nat \<Rightarrow> job_phase"
  pc_stop :: bool

abbreviation pc_service :: "('r, 'l, 'b, 'd) process \<Rightarrow> ('r, 'l, 'b, 'd) service" where "pc_service p \<equiv> as_svcCtx (pc_server p)"

text \<open>\<open>main\<close> up to \<open>s.Start()\<close>: the configuration is an argument; \<open>None\<close> is the panic of the database.\<close>

definition rpc_main ::
  "'l freecache \<Rightarrow> 'b breakers \<Rightarrow> (string \<Rightarrow> string option) \<Rightarrow> (string \<Rightarrow> http_reply) \<Rightarrow> (nat \<Rightarrow> nat) \<Rightarrow>
   (string \<Rightarrow> string \<Rightarrow> string + 'd) \<Rightarrow> ('d \<Rightarrow> string option \<times> 'd) \<Rightarrow> 'd sql_db \<Rightarrow> string \<Rightarrow> 'r redis \<Rightarrow> params \<Rightarrow> (nat \<Rightarrow> int) \<Rightarrow> int \<Rightarrow>
   rpc_config \<Rightarrow> 'r \<Rightarrow> 'b \<Rightarrow> (l1ref \<Rightarrow> 'l) \<Rightarrow> rng \<Rightarrow> ('r, 'l, 'b, 'd) process option" where
  "rpc_main F B fl http low sql_open ping D sqliteSchema R P wc now c r b st t =
     (case NewServiceContext F B fl http low sql_open ping D sqliteSchema R P wc now c r b st t of
        None \<Rightarrow> None
      | Some (v, w) \<Rightarrow> Some \<lparr>pc_server = NewApiproServer v, pc_world = w, pc_phase = (\<lambda>_. JStart), pc_stop = False\<rparr>)"

text \<open>What happens in the running process: a request, a move of a job's goroutine, a background write, and the deferred \<open>Scheduler.Stop\<close>
  when the server returns (the event \<open>StopAll\<close> of the scheduler).\<close>

datatype process_event = Serve env CallReq | Job sched_event | Write int nat

definition job_world :: "('r, 'l, 'b, 'd) world \<Rightarrow> 'r \<times> 'd" where "job_world w = (w_redis w, w_db w)"

definition with_job_world :: "'r \<times> 'd \<Rightarrow> ('r, 'l, 'b, 'd) world \<Rightarrow> ('r, 'l, 'b, 'd) world" where
  "with_job_world rd w = (put_redis (fst rd) w)\<lparr>w_db := snd rd\<rparr>"

fun process_step :: "process_event \<Rightarrow> ('r, 'l, 'b, 'd) process \<Rightarrow> (CallResp option \<times> ('r, 'l, 'b, 'd) process) option" where
  "process_step (Serve E inp) p =
     (case ApiproServer_Call E (pc_server p) inp (pc_world p) of None \<Rightarrow> None | Some (resp, w) \<Rightarrow> Some (Some resp, p\<lparr>pc_world := w\<rparr>))"
| "process_step (Job ev) p =
     (case sched_step (sv_sched (pc_service p)) ev (job_world (pc_world p), pc_phase p, pc_stop p) of
        None \<Rightarrow> None
      | Some (rd, ph, stop) \<Rightarrow> Some (None, p\<lparr>pc_world := with_job_world rd (pc_world p), pc_phase := ph, pc_stop := stop\<rparr>))"
| "process_step (Write now i) p =
     Some (None, p\<lparr>pc_world := (pc_world p)\<lparr>w_ms := run_pending (sv_mgr (pc_service p)) now i (w_ms (pc_world p))\<rparr>\<rparr>)"

section \<open>An entry that is a JSON string\<close>

lemma string_entry_refused:
  assumes "redis_server R view live dbl" "l1_cache F contents" "cm_rdb m = Some R" "cm_F m = F" "live (ms_redis s)"
    and "readable s (entry family key ttl level)" "ascii b"
    and "cached_at contents view m (buildKey family key) (json_print (JStr b)) s" and "t = TSlice t' \<or> t = TMap t'"
  shows "\<exists>s'. GetOrLoadT m (go_type t) family key ttl level inflight latency loader (s, d) = (Inl ErrUnmarshalT, s', d)"
proof -
  obtain s' where g: "mgr_GetOrLoad m (go_type t) (entry family key ttl level) inflight latency loader (s, d) =
      (jsonUnmarshalAny m (json_print (JStr b)), s', d)"
    using mgr_GetOrLoad_cached [OF assms(1-6)] assms(8) by fastforce
  have p: "json_parse (json_print (JStr b)) = Some (JStr b)"
    by (rule json_parse_print) (use assms(7) in \<open>simp_all add: valid_utf8_ascii max_depth_def\<close>)
  have "json_print (JStr b) \<noteq> []" by (simp add: json_quote_def)
  then have "jsonUnmarshalAny m (json_print (JStr b)) = Inr (Decoded (JStr b) :: json anyval)" using p by (simp add: jsonUnmarshalAny_def del: json_print.simps)
  moreover have "unmarshal_T (go_type t) (json_print (JStr b)) = None" using p assms(9) by (auto simp: unmarshal_T_def go_type_def simp del: json_print.simps)
  ultimately show ?thesis using g by (simp add: GetOrLoadT_def go_type_def)
qed

section \<open>What a refresh writes\<close>

lemma trim_right_take: "\<exists>n. trim_right_space s = take n s"
proof (induction s rule: trim_right_space.induct)
  case (1 s)
  show ?case
  proof (cases "find (has_suffix s) space_seqs")
    case None
    then show ?thesis by (intro exI [of _ "length s"]) (simp add: trim_right_space.simps)
  next
    case (Some p)
    then show ?thesis using 1 [OF Some] by (auto simp: trim_right_space.simps [of s])
  qed
qed

lemma date_key: "buildKey ''match'' (''date:'' @ x) \<noteq> buildKey ''match'' ''catalog''"
proof -
  have "trim_left_space (''date:'' @ x) = ''date:'' @ x" by (rule trim_left_id) (simp add: never_space_def)
  then obtain n where "TrimSpace (''date:'' @ x) = take n (''date:'' @ x)" using trim_right_take by (auto simp: TrimSpace_def)
  moreover have "TrimSpace ''catalog'' = ''catalog''" by (rule TrimSpace_id) (simp add: never_space_def)
  ultimately show ?thesis by (cases n) (simp_all add: buildKey_def)
qed

lemma fixed_keys:
  "buildKey ''match'' ''recommend'' \<noteq> buildKey ''match'' ''catalog''" "buildKey ''live'' ''types'' \<noteq> buildKey ''live'' ''all''"
  by (simp_all add: buildKey_def TrimSpace_id never_space_def)

context redis_server
begin

lemma cache_Refresh_view:
  assumes "live (fst w)" "0 < secs ttl"
  shows "live (fst (snd (cache_Refresh (Some R) T family key ttl loader w))) \<and>
    view (fst (snd (cache_Refresh (Some R) T family key ttl loader w))) k =
      (case fst (loader (snd w)) of
         Inl _ \<Rightarrow> view (fst w) k
       | Inr x \<Rightarrow> if k = buildKey family key then Some (RStr (marshal_T T x), Some (secs ttl)) else view (fst w) k)"
proof -
  obtain r d where w: "w = (r, d)" by fastforce
  obtain res d' where l: "loader d = (res, d')" by fastforce
  show ?thesis
  proof (cases res)
    case (Inr x)
    obtain r' where "r_setex R (buildKey family key) (marshal_T T x) (secs ttl) r = (Inr (), r')" "live r'"
      "view r' = (view r)(buildKey family key \<mapsto> (RStr (marshal_T T x), Some (secs ttl)))"
      using setex_law [of r "secs ttl" "buildKey family key" "marshal_T T x"] assms w by (metis fst_conv prod.collapse)
    then show ?thesis using w l Inr by (simp add: cache_Refresh_def)
  qed (use assms w l in \<open>simp add: cache_Refresh_def\<close>)
qed

lemma cache_Refresh_other:
  assumes "live (fst w)" "0 < secs ttl" "k \<noteq> buildKey family key"
  shows "live (fst (snd (cache_Refresh (Some R) T family key ttl loader w)))"
    "view (fst (snd (cache_Refresh (Some R) T family key ttl loader w))) k = view (fst w) k"
  using cache_Refresh_view [OF assms(1,2), of T family key loader k] assms(3) by (simp_all split: sum.splits)

text \<open>An entry that is a JSON string of base64.\<close>

definition encoded_at :: "'r \<Rightarrow> string \<Rightarrow> bool" where
  "encoded_at r k \<longleftrightarrow> (\<exists>b t. view r k = Some (RStr (json_print (JStr (base64_EncodeToString b))), t))"

lemma bytes_refresh_encodes:
  assumes "live (fst w)" "0 < secs ttl" "fst (loader (snd w)) = Inr j"
  shows "encoded_at (fst (snd (cache_Refresh (Some R) go_bytes family key ttl (as_bytes loader) w))) (buildKey family key)"
proof -
  have "fst (as_bytes loader (snd w)) = Inr (json_print j)" using assms(3) by (cases "loader (snd w)") (simp add: as_bytes_def)
  then show ?thesis using cache_Refresh_view [OF assms(1,2), of go_bytes family key "as_bytes loader" "buildKey family key"]
    unfolding encoded_at_def marshal_T_def go_bytes_def by auto
qed

lemma total_loader_ok: "\<exists>j. fst (total_loader f enc d) = Inr j"
  by (simp add: total_loader_def case_prod_beta Let_def)

lemma live_job_encodes:
  assumes "live (fst w)" "0 < secs (dur (CacheLiveTtl c) 15)"
  shows "live (fst (live_job (Some R) D sc c w)) \<and> encoded_at (fst (live_job (Some R) D sc c w)) (buildKey ''live'' ''all'')"
proof -
  let ?ttl = "dur (CacheLiveTtl c) 15"
  let ?w1 = "snd (warmLiveRooms (Some R) D sc ?ttl w)"
  obtain j where "fst (rooms_loader D sc (snd w)) = Inr j" using total_loader_ok by (metis rooms_loader_def)
  then have e: "encoded_at (fst ?w1) (buildKey ''live'' ''all'')" unfolding warmLiveRooms_def by (rule bytes_refresh_encodes [OF assms])
  have l: "live (fst ?w1)" unfolding warmLiveRooms_def using cache_Refresh_view [OF assms] by blast
  have "live_job (Some R) D sc c w = snd (warmLiveTypes (Some R) D sc ?ttl ?w1)" by (simp add: live_job_def Let_def case_prod_beta)
  then show ?thesis
    using e cache_Refresh_other [OF l assms(2) fixed_keys(2) [symmetric], of go_bytes "as_bytes (load_types D sc)"]
    unfolding warmLiveTypes_def encoded_at_def by auto
qed

lemma refresh_dates_view:
  assumes "0 < secs ttl"
  shows "live (fst w) \<Longrightarrow> encoded_at (fst w) (buildKey ''match'' ''catalog'') \<Longrightarrow>
    live (fst (fold (\<lambda>d w. snd (warmMatchByDate (Some R) P D sc (f d) ttl w)) ds w)) \<and>
    encoded_at (fst (fold (\<lambda>d w. snd (warmMatchByDate (Some R) P D sc (f d) ttl w)) ds w)) (buildKey ''match'' ''catalog'')"
proof (induction ds arbitrary: w)
  case (Cons d ds)
  let ?w = "snd (warmMatchByDate (Some R) P D sc (f d) ttl w)"
  have "live (fst ?w)" "encoded_at (fst ?w) (buildKey ''match'' ''catalog'')"
    using cache_Refresh_other [OF Cons.prems(1) assms date_key [symmetric], of go_encoded "f d" "date_loader P D sc (f d)"] Cons.prems(2)
    unfolding warmMatchByDate_def encoded_at_def by auto
  then show ?case using Cons.IH by simp
qed simp

lemma match_job_encodes:
  assumes "live (fst w)" "0 < secs (dur (CacheMatchListTtl c) 60)"
  shows "live (fst (match_job (Some R) P D sc c wc w)) \<and> encoded_at (fst (match_job (Some R) P D sc c wc w)) (buildKey ''match'' ''catalog'')"
proof -
  let ?ttl = "dur (CacheMatchListTtl c) 60"
  let ?w1 = "snd (warmMatchCatalog (Some R) P D sc ?ttl w)"
  let ?w2 = "snd (warmRecommend (Some R) P D sc ?ttl ?w1)"
  obtain j where "fst (catalog_loader P D sc (snd w)) = Inr j" using total_loader_ok by (metis catalog_loader_def)
  then have e: "encoded_at (fst ?w1) (buildKey ''match'' ''catalog'')" unfolding warmMatchCatalog_def by (rule bytes_refresh_encodes [OF assms])
  have l: "live (fst ?w1)" unfolding warmMatchCatalog_def using cache_Refresh_view [OF assms] by blast
  have "live (fst ?w2)" "encoded_at (fst ?w2) (buildKey ''match'' ''catalog'')"
    using e cache_Refresh_other [OF l assms(2) fixed_keys(1) [symmetric], of go_encoded "recommend_loader P D sc"]
    unfolding warmRecommend_def encoded_at_def by auto
  note w2 = this
  have eq: "match_job (Some R) P D sc c wc w =
      fold (\<lambda>d w. snd (warmMatchByDate (Some R) P D sc (format_date (wc d + 86400 * int d)) ?ttl w)) [0..<7] ?w2"
    by (simp add: match_job_def Let_def case_prod_beta)
  show ?thesis unfolding eq by (rule refresh_dates_view [OF assms(2) w2])
qed

end

section \<open>Refreshing against serving\<close>

definition positive_ttls :: "rpc_ttls \<Rightarrow> bool" where
  "positive_ttls c \<longleftrightarrow> 0 < dur (RefreshMatchListTtl c) 60 \<and> 0 < dur (RefreshLiveTtl c) 15 \<and>
     0 < secs (dur (CacheMatchListTtl c) 60) \<and> 0 < secs (dur (CacheLiveTtl c) 15)"

lemma refresh_jobs_nth:
  assumes "positive_ttls c"
  shows "0 < length (refresh_jobs rdb P D sc c wc)" "1 < length (refresh_jobs rdb P D sc c wc)" "rj_Run (refresh_jobs rdb P D sc c wc ! 0) = match_job rdb P D sc c wc"
    "rj_Run (refresh_jobs rdb P D sc c wc ! 1) = live_job rdb D sc c"
  using assms by (auto simp: refresh_jobs_def sched_Add_def NewScheduler_def positive_ttls_def)

text \<open>The two refreshed display methods: the index of the job, the cache entry and the static type.\<close>

definition refreshed :: "(string \<times> nat \<times> string \<times> string) list" where
  "refreshed = [(''matches_jsonp'', 0, ''match'', ''catalog''), (''live_all_rooms'', 1, ''live'', ''all'')]"

lemma catalog_plan:
  "display_plan ''matches_jsonp'' E v inp = Some \<lparr>pl_ty = TMap (TSlice ty_MatchCatalogItem), pl_family = ''match'', pl_key = ''catalog'', pl_seconds = 60,
     pl_loader = catalog_loader (ev_P E) (sv_D v) (sv_sc v), pl_answer = plain_answer\<rparr>"
  by (simp add: display_plan_def display_table_def Let_def read_when_def)

lemma all_rooms_plan:
  "display_plan ''live_all_rooms'' E v inp = Some \<lparr>pl_ty = TMap TAny, pl_family = ''live'', pl_key = ''all'', pl_seconds = 15,
     pl_loader = rooms_loader (sv_D v) (sv_sc v), pl_answer = plain_answer\<rparr>"
  by (simp add: display_plan_def display_table_def Let_def read_when_def)

lemma refreshed_cases:
  assumes "(m, i, family, key) \<in> set refreshed"
  obtains (catalog) "m = ''matches_jsonp''" "i = 0" "family = ''match''" "key = ''catalog''"
    | (rooms) "m = ''live_all_rooms''" "i = 1" "family = ''live''" "key = ''all''"
  using assms unfolding refreshed_def by (simp only: list.set insert_iff empty_iff prod.inject) blast

lemma refreshed_plan:
  assumes "(m, i, family, key) \<in> set refreshed"
  obtains p t where "display_plan m E v inp = Some p" "pl_family p = family" "pl_key p = key" "pl_ty p = TMap t" "family \<noteq> []"
  using assms
proof (cases rule: refreshed_cases)
  case catalog
  then show ?thesis using that [OF catalog_plan [of E v inp, folded catalog(1)]] by simp
next
  case rooms
  then show ?thesis using that [OF all_rooms_plan [of E v inp, folded rooms(1)]] by simp
qed

context redis_server
begin

lemma refreshed_job_encodes:
  assumes "(m, i, family, key) \<in> set refreshed" "positive_ttls c" "live (fst w)"
  shows "i < length (refresh_jobs (Some R) P D sc c wc) \<and> live (fst (rj_Run (refresh_jobs (Some R) P D sc c wc ! i) w)) \<and>
    encoded_at (fst (rj_Run (refresh_jobs (Some R) P D sc c wc ! i) w)) (buildKey family key)"
  using assms(1)
proof (cases rule: refreshed_cases)
  case catalog
  then show ?thesis using match_job_encodes [OF assms(3), of c P D sc wc] refresh_jobs_nth [OF assms(2), of "Some R" P D sc wc] assms(2)
    by (simp add: positive_ttls_def)
next
  case rooms
  then show ?thesis using live_job_encodes [OF assms(3), of c D sc] refresh_jobs_nth [OF assms(2), of "Some R" P D sc wc] assms(2)
    by (simp add: positive_ttls_def)
qed

end

text \<open>C39: the refresh jobs break what they refresh.  They write the catalogue and the list of rooms as base64 strings, which the handlers cannot decode: from each
  run of its job until the entry expires, \<open>matches_jsonp\<close> and \<open>live_all_rooms\<close> are answered 400, whatever the database holds, unless
  the in-process cache still has an older value.\<close>

theorem refresh_job_breaks_display:
  assumes "display_caches R view live dbl F contents (sv_mgr (pc_service p))"
    and "sv_sched (pc_service p) = refresh_jobs (Some R) P D sc c wc" and "positive_ttls c" and "(m, i, family, key) \<in> set refreshed"
    and "ev = RunFirst i \<and> pc_phase p i = JStart \<or> ev = Tick i \<and> pc_phase p i = JWaiting"
    and "live (w_redis (pc_world p))" and "CanServeLevel (w_dgr (pc_world p)) LevelDisplay"
    and "\<forall>h. cm_l1 (sv_mgr (pc_service p)) = Some h \<longrightarrow> contents (ms_l1s (w_ms (pc_world p)) h) (buildKey family key) = None"
    and "TrimSpace (cr_Method inp) = m"
  shows "\<exists>p1. process_step (Job ev) p = Some (None, p1) \<and>
    (\<exists>p2. process_step (Serve E inp) p1 =
      Some (Some \<lparr>cp_Code = 400, cp_Meg = ''cache: unmarshal to T: '' @ ev_json E, cp_Seq = cr_Seq inp, cp_NewSessionId = cr_SessionId inp, cp_Result = None\<rparr>, p2))"
proof -
  let ?v = "pc_service p" and ?w = "pc_world p"
  have rs: "redis_server R view live dbl" and l1: "l1_cache F contents" and rdb: "cm_rdb (sv_mgr ?v) = Some R" "cm_F (sv_mgr ?v) = F"
    using assms(1) by (simp_all add: display_caches_def display_caches_axioms_def)
  have lv: "live (fst (job_world ?w))" using assms(6) by (simp add: job_world_def)
  note j = redis_server.refreshed_job_encodes [OF rs assms(4,3) lv, of P D sc wc]
  define rd where "rd = rj_Run (refresh_jobs (Some R) P D sc c wc ! i) (job_world ?w)"
  obtain p1 where p1: "process_step (Job ev) p = Some (None, p1)" "pc_service p1 = ?v" "pc_world p1 = with_job_world rd ?w"
    using assms(2,5) j by (auto simp: rd_def)
  obtain b t where e: "view (fst rd) (buildKey family key) = Some (RStr (json_print (JStr (base64_EncodeToString b))), t)" and l: "live (fst rd)"
    using j by (auto simp: rd_def redis_server.encoded_at_def [OF rs] simp del: json_print.simps)
  obtain q tq where q: "display_plan m E ?v inp = Some q" "pl_family q = family" "pl_key q = key" "pl_ty q = TMap tq" "family \<noteq> []"
    by (rule refreshed_plan [OF assms(4), of E ?v inp])
  let ?s = "w_ms (pc_world p1)"
  have st: "ms_redis ?s = fst rd" "ms_dgr ?s = w_dgr ?w" "ms_l1s ?s = ms_l1s (w_ms ?w)"
    by (simp_all add: p1(3) with_job_world_def put_redis_def)
  have ne: "json_print (JStr (base64_EncodeToString b)) \<noteq> []" by (simp add: json_quote_def)
  have ca: "cached_at contents view (sv_mgr ?v) (buildKey family key) (json_print (JStr (base64_EncodeToString b))) ?s"
    using e ne assms(8) by (simp add: cached_at_def st del: json_print.simps)
  have "readable ?s (entry family key (pl_seconds q * 1000000000) LevelDisplay)"
    using assms(7) q(5) by (simp add: readable_def st LevelDisplay_def LevelWrite_def)
  from string_entry_refused [where t = "TMap tq" and loader = "pl_loader q" and inflight = "ev_flight E" and latency = "ev_lat E" and d = "w_db (pc_world p1)", OF rs l1 rdb _ this base64_ascii ca] l
  obtain s' where "GetOrLoadT (sv_mgr ?v) (go_type (pl_ty q)) (pl_family q) (pl_key q) (pl_seconds q * 1000000000) LevelDisplay (ev_flight E) (ev_lat E) (pl_loader q)
      (?s, w_db (pc_world p1)) = (Inl ErrUnmarshalT, s', w_db (pc_world p1))" by (auto simp: st q)
  then show ?thesis using p1(1,2) assms(9) dispatch_plan [OF q(1)]
    by (simp add: ApiproServer_Call_def Call_def cached_answer_def handleCacheError_def CodeBusinessError_def wrap32_def)
qed

text \<open>The process \<open>main\<close> starts is of this kind.\<close>

lemma rpc_main_schedule:
  assumes "rpc_main F B fl http low sql_open ping D sqliteSchema R P wc now c r b st t = Some p"
  shows "sv_sched (pc_service p) = refresh_jobs (Some R) P D (sv_sc (pc_service p)) (c_ttls c) wc" "pc_phase p = (\<lambda>_. JStart)" "\<not> pc_stop p"
    "sv_rdb (pc_service p) = R"
  using assms by (auto simp: rpc_main_def NewApiproServer_def NewServiceContext_def Let_def split: option.splits prod.splits)

definition demo_ttls :: rpc_ttls where
  "demo_ttls = \<lparr>RefreshMatchListTtl = 60, CacheMatchListTtl = 60, RefreshLiveTtl = 15, CacheLiveTtl = 15, RefreshCommentatorTtl = 120,
     CacheCommentatorTtl = 120\<rparr>"

definition demo_process :: "(mem, (string \<times> string) list, unit, nat) process" where
  "demo_process = \<lparr>pc_server = NewApiproServer (display_service\<lparr>sv_sched := refresh_jobs (Some mem_redis) (ev_P demo_env) types_db initial_schema demo_ttls (\<lambda>_. 0)\<rparr>),
     pc_world = display_world, pc_phase = (\<lambda>_. JStart), pc_stop = False\<rparr>"

definition rooms_call :: CallReq where "rooms_call = \<lparr>cr_Method = ''live_all_rooms'', cr_ParamJson = [], cr_SessionId = [], cr_Seq = 1\<rparr>"

theorem refresh_job_breaks_display_witness:
  "\<exists>p1 p2. process_step (Job (RunFirst 1)) demo_process = Some (None, p1) \<and>
    process_step (Serve demo_env rooms_call) p1 =
      Some (Some \<lparr>cp_Code = 400, cp_Meg = ''cache: unmarshal to T: json'', cp_Seq = 1, cp_NewSessionId = [], cp_Result = None\<rparr>, p2)"
proof -
  have n: "TrimSpace (cr_Method rooms_call) = ''live_all_rooms''" unfolding rooms_call_def by code_simp
  have d: "display_caches mem_redis mem_view mem_up id mem_l1 map_of (sv_mgr (pc_service demo_process))"
    using memdisplay.display_caches_axioms by (simp add: demo_process_def NewApiproServer_def)
  have t: "positive_ttls demo_ttls" by (simp add: positive_ttls_def demo_ttls_def dur_def wrap64_def secs_def)
  have m: "(''live_all_rooms'', 1, ''live'', ''all'') \<in> set refreshed" by (simp add: refreshed_def)
  have w: "mem_up (w_redis (pc_world demo_process))" "CanServeLevel (w_dgr (pc_world demo_process)) LevelDisplay"
    "map_of (ms_l1s (w_ms (pc_world demo_process)) h) k = None" "pc_phase demo_process 1 = JStart"
    "sv_sched (pc_service demo_process) = refresh_jobs (Some mem_redis) (ev_P demo_env) types_db initial_schema demo_ttls (\<lambda>_. 0)" for k h
    by (simp_all add: demo_process_def NewApiproServer_def demo_manager_simps mem_empty_simps CanServeLevel_def New_def ModeNormal_def)
  have e: "ev_json demo_env = ''json''" "cr_Seq rooms_call = 1" "cr_SessionId rooms_call = []" by (simp_all add: demo_env_def rooms_call_def)
  show ?thesis
    using refresh_job_breaks_display [OF d w(5) t m, of "RunFirst 1", OF _ w(1,2) _ n, of demo_env] w(3,4) e by auto
qed

end
