(* ===== verification/Observability.thy ===== *)
theory Observability
  imports GoText
begin

text \<open>
  Metrics, request ids and the observing middlewares (\<open>common/observability\<close>).  The Prometheus client is a parameter: \<open>pm_register\<close>
  is the registration behind the \<open>promauto\<close> constructors, where \<open>None\<close> stands for their panic, and \<open>pm_set\<close>, \<open>pm_inc\<close> and
  \<open>pm_observe\<close> act on a registered metric.  The package-level maps and \<open>sync.Once\<close> values are the record \<open>globals\<close>; the mutexes make
  each constructor one step.
\<close>

section \<open>The metrics registry\<close>

datatype metric_kind = KCounter | KGauge | KHistogram | KCounterVec | KHistogramVec

record metric =
  m_kind :: metric_kind
  m_name :: string
  m_constLabels :: "(string \<times> string) list"
  m_labels :: "string list"

type_synonym handle = nat

record 'p prom =
  pm_register :: "metric \<Rightarrow> 'p \<Rightarrow> (handle \<times> 'p) option"
  pm_set :: "handle \<Rightarrow> int \<Rightarrow> 'p \<Rightarrow> 'p"
  pm_inc :: "handle \<Rightarrow> string list \<Rightarrow> 'p \<Rightarrow> 'p"
  pm_observe :: "handle \<Rightarrow> string list \<Rightarrow> int \<Rightarrow> 'p \<Rightarrow> 'p"

record CacheMetrics =
  Hits :: handle
  Misses :: handle
  Errors :: handle
  Latency :: handle

record DBMetrics =
  db_Queries :: handle
  db_Errors :: handle
  db_Latency :: handle
  SemWaiting :: handle
  SemAcquired :: handle

record FallbackMetrics =
  fb_Hits :: handle
  fb_Misses :: handle

record globals =
  cacheMetricsCache :: "string \<Rightarrow> CacheMetrics option"
  degradeMetricsInst :: "handle option"
  rateLimitMetricsCache :: "string \<Rightarrow> handle option"
  dbMetricsCache :: "string \<Rightarrow> DBMetrics option"
  fallbackMetricsInst :: "FallbackMetrics option"
  httpMetrics :: "(handle \<times> handle) option"

definition no_metrics :: globals where
  "no_metrics = \<lparr>cacheMetricsCache = Map.empty, degradeMetricsInst = None, rateLimitMetricsCache = Map.empty, dbMetricsCache = Map.empty,
     fallbackMetricsInst = None, httpMetrics = None\<rparr>"

definition plain_metric :: "metric_kind \<Rightarrow> string \<Rightarrow> (string \<times> string) list \<Rightarrow> metric" where
  "plain_metric k n ls = \<lparr>m_kind = k, m_name = n, m_constLabels = ls, m_labels = []\<rparr>"

fun register_all :: "'p prom \<Rightarrow> metric list \<Rightarrow> 'p \<Rightarrow> (handle list \<times> 'p) option" where
  "register_all P [] p = Some ([], p)"
| "register_all P (m # ms) p =
     (case pm_register P m p of
        None \<Rightarrow> None
      | Some (h, p1) \<Rightarrow> (case register_all P ms p1 of None \<Rightarrow> None | Some (hs, p2) \<Rightarrow> Some (h # hs, p2)))"

definition cache_metrics :: "string \<Rightarrow> metric list" where
  "cache_metrics family =
    [plain_metric KCounter ''apipro_cache_hits_total'' [(''family'', family)],
     plain_metric KCounter ''apipro_cache_misses_total'' [(''family'', family)],
     plain_metric KCounter ''apipro_cache_errors_total'' [(''family'', family)],
     plain_metric KHistogram ''apipro_cache_latency_seconds'' [(''family'', family)]]"

definition NewCacheMetrics :: "'p prom \<Rightarrow> string \<Rightarrow> globals \<times> 'p \<Rightarrow> (CacheMetrics \<times> globals \<times> 'p) option" where
  "NewCacheMetrics P family gp =
     (case gp of (g, p) \<Rightarrow>
        (case cacheMetricsCache g family of
           Some m \<Rightarrow> Some (m, g, p)
         | None \<Rightarrow>
             (case register_all P (cache_metrics family) p of
                Some ([hits, misses, errs, latency], p') \<Rightarrow>
                  (let m = \<lparr>Hits = hits, Misses = misses, Errors = errs, Latency = latency\<rparr>
                   in Some (m, g\<lparr>cacheMetricsCache := (cacheMetricsCache g)(family \<mapsto> m)\<rparr>, p'))
              | _ \<Rightarrow> None)))"

definition DegradeModeNormal :: int where "DegradeModeNormal = 0"
definition DegradeModeDegraded :: int where "DegradeModeDegraded = 1"
definition DegradeModeProtected :: int where "DegradeModeProtected = 2"
definition DegradeModeEmergency :: int where "DegradeModeEmergency = 3"

definition degrade_metric :: metric where "degrade_metric = plain_metric KGauge ''apipro_degrade_mode'' []"

definition NewDegradeMetrics :: "'p prom \<Rightarrow> globals \<times> 'p \<Rightarrow> (handle \<times> globals \<times> 'p) option" where
  "NewDegradeMetrics P gp =
     (case gp of (g, p) \<Rightarrow>
        (case degradeMetricsInst g of
           Some h \<Rightarrow> Some (h, g, p)
         | None \<Rightarrow>
             (case pm_register P degrade_metric p of
                None \<Rightarrow> None
              | Some (h, p1) \<Rightarrow> Some (h, g\<lparr>degradeMetricsInst := Some h\<rparr>, pm_set P h DegradeModeNormal p1))))"

definition ratelimit_metric :: "string \<Rightarrow> metric" where
  "ratelimit_metric dim = plain_metric KCounter ''apipro_ratelimit_denied_total'' [(''dim'', dim)]"

definition NewRateLimitMetrics :: "'p prom \<Rightarrow> string \<Rightarrow> globals \<times> 'p \<Rightarrow> (handle \<times> globals \<times> 'p) option" where
  "NewRateLimitMetrics P dim gp =
     (case gp of (g, p) \<Rightarrow>
        (case rateLimitMetricsCache g dim of
           Some h \<Rightarrow> Some (h, g, p)
         | None \<Rightarrow>
             (case pm_register P (ratelimit_metric dim) p of
                None \<Rightarrow> None
              | Some (h, p1) \<Rightarrow> Some (h, g\<lparr>rateLimitMetricsCache := (rateLimitMetricsCache g)(dim \<mapsto> h)\<rparr>, p1))))"

definition db_metrics :: "string \<Rightarrow> metric list" where
  "db_metrics name =
    [plain_metric KCounter ''apipro_db_queries_total'' [(''name'', name)],
     plain_metric KCounter ''apipro_db_errors_total'' [(''name'', name)],
     plain_metric KHistogram ''apipro_db_latency_seconds'' [(''name'', name)],
     plain_metric KGauge ''apipro_db_sem_waiting'' [(''name'', name)],
     plain_metric KGauge ''apipro_db_sem_acquired'' [(''name'', name)]]"

definition NewDBMetrics :: "'p prom \<Rightarrow> string \<Rightarrow> globals \<times> 'p \<Rightarrow> (DBMetrics \<times> globals \<times> 'p) option" where
  "NewDBMetrics P name gp =
     (case gp of (g, p) \<Rightarrow>
        (case dbMetricsCache g name of
           Some m \<Rightarrow> Some (m, g, p)
         | None \<Rightarrow>
             (case register_all P (db_metrics name) p of
                Some ([queries, errs, latency, waiting, acquired], p') \<Rightarrow>
                  (let m = \<lparr>db_Queries = queries, db_Errors = errs, db_Latency = latency, SemWaiting = waiting, SemAcquired = acquired\<rparr>
                   in Some (m, g\<lparr>dbMetricsCache := (dbMetricsCache g)(name \<mapsto> m)\<rparr>, p'))
              | _ \<Rightarrow> None)))"

definition fallback_metrics :: "metric list" where
  "fallback_metrics =
    [\<lparr>m_kind = KCounterVec, m_name = ''apipro_fallback_hits_total'', m_constLabels = [], m_labels = [''source'']\<rparr>,
     plain_metric KCounter ''apipro_fallback_misses_total'' []]"

definition NewFallbackMetrics :: "'p prom \<Rightarrow> globals \<times> 'p \<Rightarrow> (FallbackMetrics \<times> globals \<times> 'p) option" where
  "NewFallbackMetrics P gp =
     (case gp of (g, p) \<Rightarrow>
        (case fallbackMetricsInst g of
           Some m \<Rightarrow> Some (m, g, p)
         | None \<Rightarrow>
             (case register_all P fallback_metrics p of
                Some ([hits, misses], p') \<Rightarrow>
                  (let m = \<lparr>fb_Hits = hits, fb_Misses = misses\<rparr> in Some (m, g\<lparr>fallbackMetricsInst := Some m\<rparr>, p'))
              | _ \<Rightarrow> None)))"

definition http_metrics :: "metric list" where
  "http_metrics =
    [\<lparr>m_kind = KCounterVec, m_name = ''apipro_http_requests_total'', m_constLabels = [], m_labels = [''method'', ''path'', ''status'']\<rparr>,
     \<lparr>m_kind = KHistogramVec, m_name = ''apipro_http_request_duration_seconds'', m_constLabels = [], m_labels = [''method'', ''path'']\<rparr>]"

definition initHTTPMetrics :: "'p prom \<Rightarrow> globals \<times> 'p \<Rightarrow> ((handle \<times> handle) \<times> globals \<times> 'p) option" where
  "initHTTPMetrics P gp =
     (case gp of (g, p) \<Rightarrow>
        (case httpMetrics g of
           Some m \<Rightarrow> Some (m, g, p)
         | None \<Rightarrow>
             (case register_all P http_metrics p of
                Some ([requests, duration], p') \<Rightarrow> Some ((requests, duration), g\<lparr>httpMetrics := Some (requests, duration)\<rparr>, p')
              | _ \<Rightarrow> None)))"

section \<open>Request ids\<close>

definition RequestIDHeader :: string where "RequestIDHeader = ''X-Request-ID''"

definition NewRequestID :: "rng \<Rightarrow> string \<times> rng" where
  "NewRequestID t =
     (case rand_read 8 t of
        (None, t') \<Rightarrow> (''0000000000000000'', t')
      | (Some b, t') \<Rightarrow> (hex_EncodeToString b, t'))"

text \<open>A context is the request id it carries, if any; \<open>nil\<close> and a context without one read alike.\<close>

definition WithRequestID :: "string option \<Rightarrow> string \<Rightarrow> string option" where "WithRequestID ctx ident = Some ident"

definition RequestIDFromContext :: "string option \<Rightarrow> string" where
  "RequestIDFromContext ctx = (case ctx of Some v \<Rightarrow> v | None \<Rightarrow> [])"

record oreq =
  o_method :: string
  o_path :: string
  o_header :: "string \<Rightarrow> string"
  o_ctx :: "string option"
  o_remote :: string

definition RequestIDFromRequest :: "oreq option \<Rightarrow> string" where
  "RequestIDFromRequest ro =
     (case ro of
        None \<Rightarrow> []
      | Some r \<Rightarrow> if RequestIDFromContext (o_ctx r) \<noteq> [] then RequestIDFromContext (o_ctx r) else o_header r RequestIDHeader)"

section \<open>Middlewares\<close>

text \<open>What a handler does to its \<open>http.ResponseWriter\<close>.\<close>

datatype wcall = SetHeader string string | WriteHeader int | Write bytes

record statusRecorder =
  rec_status :: int
  rec_wroteHeader :: bool
  rec_out :: "wcall list"

definition newStatusRecorder :: statusRecorder where
  "newStatusRecorder = \<lparr>rec_status = 200, rec_wroteHeader = False, rec_out = []\<rparr>"

fun rec_call :: "wcall \<Rightarrow> statusRecorder \<Rightarrow> statusRecorder" where
  "rec_call (WriteHeader code) r =
     (if rec_wroteHeader r then r else r\<lparr>rec_status := code, rec_wroteHeader := True, rec_out := rec_out r @ [WriteHeader code]\<rparr>)"
| "rec_call (Write b) r =
     (let r1 = (if \<not> rec_wroteHeader r then r\<lparr>rec_wroteHeader := True\<rparr> else r) in r1\<lparr>rec_out := rec_out r1 @ [Write b]\<rparr>)"
| "rec_call (SetHeader k v) r = r\<lparr>rec_out := rec_out r @ [SetHeader k v]\<rparr>"

type_synonym 's ohandler = "oreq \<Rightarrow> 's \<Rightarrow> wcall list \<times> 's"

text \<open>The random tape is part of the state \<open>'s\<close>, reached through \<open>rnd\<close>.\<close>

definition RequestIDMiddleware :: "('s \<Rightarrow> string \<times> 's) \<Rightarrow> 's ohandler \<Rightarrow> 's ohandler" where
  "RequestIDMiddleware rnd next r s =
     (let (ident, s1) = (if o_header r RequestIDHeader = [] then rnd s else (o_header r RequestIDHeader, s));
          (out, s2) = next (r\<lparr>o_ctx := WithRequestID (o_ctx r) ident\<rparr>) s1
      in (SetHeader RequestIDHeader ident # out, s2))"

text \<open>\<open>clk\<close> reads the clock; \<open>lg\<close> is \<open>logx.Infof\<close> on the fields of the line.\<close>

definition LoggingMiddleware ::
  "('s \<Rightarrow> int \<times> 's) \<Rightarrow> (string \<times> string \<times> int \<times> int \<times> string \<times> string \<Rightarrow> 's \<Rightarrow> 's) \<Rightarrow> 's ohandler \<Rightarrow> 's ohandler" where
  "LoggingMiddleware clk lg next r s =
     (let (start, s1) = clk s;
          (calls, s2) = next r s1;
          rc = fold rec_call calls newStatusRecorder;
          (stop, s3) = clk s2
      in (rec_out rc, lg (o_method r, o_path r, rec_status rc, stop - start, RequestIDFromContext (o_ctx r), o_remote r) s3))"

definition HTTPMetricsMiddleware ::
  "('s \<Rightarrow> int \<times> 's) \<Rightarrow> (string list \<Rightarrow> 's \<Rightarrow> 's) \<Rightarrow> (string list \<Rightarrow> int \<Rightarrow> 's \<Rightarrow> 's) \<Rightarrow> 's ohandler \<Rightarrow> 's ohandler" where
  "HTTPMetricsMiddleware clk inc observe next r s =
     (let (start, s1) = clk s;
          (calls, s2) = next r s1;
          rc = fold rec_call calls newStatusRecorder;
          (stop, s3) = clk s2;
          s4 = inc [o_method r, o_path r, itoa (rec_status rc)] s3
      in (rec_out rc, observe [o_method r, o_path r] (stop - start) s4))"

section \<open>Registration never panics\<close>

text \<open>The documented behaviour of a registry, for an observation of the registered metrics: a metric whose name and constant labels are
  not taken is registered.  (A taken one makes \<open>promauto\<close> panic.)\<close>

definition same_metric :: "metric \<Rightarrow> metric \<Rightarrow> bool" where
  "same_metric a b \<longleftrightarrow> m_name a = m_name b \<and> m_constLabels a = m_constLabels b"

definition prom_laws :: "'p prom \<Rightarrow> ('p \<Rightarrow> metric set) \<Rightarrow> bool" where
  "prom_laws P reg \<longleftrightarrow>
     (\<forall>m p. (\<forall>x \<in> reg p. \<not> same_metric x m) \<longrightarrow> (\<exists>h p'. pm_register P m p = Some (h, p') \<and> reg p' = insert m (reg p))) \<and>
     (\<forall>h n p. reg (pm_set P h n p) = reg p)"

datatype mcall = CCache string | CDegrade | CRate string | CDB string | CFallback | CHTTP

definition mstep :: "'p prom \<Rightarrow> mcall \<Rightarrow> globals \<times> 'p \<Rightarrow> (globals \<times> 'p) option" where
  "mstep P c gp =
     (case c of
        CCache f \<Rightarrow> map_option snd (NewCacheMetrics P f gp)
      | CDegrade \<Rightarrow> map_option snd (NewDegradeMetrics P gp)
      | CRate d \<Rightarrow> map_option snd (NewRateLimitMetrics P d gp)
      | CDB n \<Rightarrow> map_option snd (NewDBMetrics P n gp)
      | CFallback \<Rightarrow> map_option snd (NewFallbackMetrics P gp)
      | CHTTP \<Rightarrow> map_option snd (initHTTPMetrics P gp))"

fun msteps :: "'p prom \<Rightarrow> mcall list \<Rightarrow> globals \<times> 'p \<Rightarrow> (globals \<times> 'p) option" where
  "msteps P [] gp = Some gp"
| "msteps P (c # cs) gp = (case mstep P c gp of None \<Rightarrow> None | Some gp' \<Rightarrow> msteps P cs gp')"

text \<open>The metrics a call registers, and whether the globals say it has.\<close>

fun metrics_of :: "mcall \<Rightarrow> metric list" where
  "metrics_of (CCache f) = cache_metrics f"
| "metrics_of CDegrade = [degrade_metric]"
| "metrics_of (CRate d) = [ratelimit_metric d]"
| "metrics_of (CDB n) = db_metrics n"
| "metrics_of CFallback = fallback_metrics"
| "metrics_of CHTTP = http_metrics"

fun made :: "globals \<Rightarrow> mcall \<Rightarrow> bool" where
  "made g (CCache f) = (cacheMetricsCache g f \<noteq> None)"
| "made g CDegrade = (degradeMetricsInst g \<noteq> None)"
| "made g (CRate d) = (rateLimitMetricsCache g d \<noteq> None)"
| "made g (CDB n) = (dbMetricsCache g n \<noteq> None)"
| "made g CFallback = (fallbackMetricsInst g \<noteq> None)"
| "made g CHTTP = (httpMetrics g \<noteq> None)"

lemmas metric_defs = cache_metrics_def degrade_metric_def ratelimit_metric_def db_metrics_def fallback_metrics_def http_metrics_def
  plain_metric_def

lemma metrics_apart: "c \<noteq> d \<Longrightarrow> x \<in> set (metrics_of c) \<Longrightarrow> y \<in> set (metrics_of d) \<Longrightarrow> \<not> same_metric x y"
  by (cases c; cases d) (auto simp: metric_defs same_metric_def)

lemma metrics_distinct: "pairwise (\<lambda>x y. \<not> same_metric x y) (set (metrics_of c)) \<and> distinct (metrics_of c)"
  by (cases c) (auto simp: metric_defs same_metric_def pairwise_def)

lemma register_all_fresh:
  "prom_laws P reg \<Longrightarrow> distinct ms \<Longrightarrow> pairwise (\<lambda>x y. \<not> same_metric x y) (set ms) \<Longrightarrow> (\<forall>x \<in> reg p. \<forall>m \<in> set ms. \<not> same_metric x m) \<Longrightarrow>
   \<exists>hs p'. register_all P ms p = Some (hs, p') \<and> length hs = length ms \<and> reg p' = reg p \<union> set ms"
proof (induction ms arbitrary: p)
  case (Cons m ms)
  obtain h p1 where h: "pm_register P m p = Some (h, p1)" "reg p1 = insert m (reg p)"
    using Cons.prems(1,4) unfolding prom_laws_def by (metis list.set_intros(1))
  have "\<forall>x \<in> reg p1. \<forall>y \<in> set ms. \<not> same_metric x y"
    using h(2) Cons.prems(2-4) by (auto simp: pairwise_insert)
  then obtain hs p' where "register_all P ms p1 = Some (hs, p')" "length hs = length ms" "reg p' = reg p1 \<union> set ms"
    using Cons.IH [of p1] Cons.prems(1-3) by (auto simp: pairwise_insert)
  then show ?case using h by auto
qed simp

definition registered_inv :: "('p \<Rightarrow> metric set) \<Rightarrow> metric set \<Rightarrow> globals \<times> 'p \<Rightarrow> bool" where
  "registered_inv reg base gp \<longleftrightarrow> reg (snd gp) = base \<union> (\<Union>c \<in> {c. made (fst gp) c}. set (metrics_of c))"

text \<open>No instance is ever replaced.\<close>

definition keeps :: "globals \<Rightarrow> globals \<Rightarrow> bool" where
  "keeps g h \<longleftrightarrow> cacheMetricsCache g \<subseteq>\<^sub>m cacheMetricsCache h \<and> rateLimitMetricsCache g \<subseteq>\<^sub>m rateLimitMetricsCache h \<and>
     dbMetricsCache g \<subseteq>\<^sub>m dbMetricsCache h \<and> (degradeMetricsInst g \<noteq> None \<longrightarrow> degradeMetricsInst h = degradeMetricsInst g) \<and>
     (fallbackMetricsInst g \<noteq> None \<longrightarrow> fallbackMetricsInst h = fallbackMetricsInst g) \<and> (httpMetrics g \<noteq> None \<longrightarrow> httpMetrics h = httpMetrics g)"

lemma keeps_refl [simp]: "keeps g g" by (simp add: keeps_def)

lemma keeps_trans: "keeps g h \<Longrightarrow> keeps h k \<Longrightarrow> keeps g k"
  unfolding keeps_def by (auto intro: map_le_trans)

lemma mstep_made: "made g c \<Longrightarrow> mstep P c (g, p) = Some (g, p)"
  by (cases c) (auto simp: mstep_def NewCacheMetrics_def NewDegradeMetrics_def NewRateLimitMetrics_def NewDBMetrics_def NewFallbackMetrics_def
      initHTTPMetrics_def)

lemma list_of_length: "length hs = Suc n \<longleftrightarrow> (\<exists>h t. hs = h # t \<and> length t = n)"
  by (cases hs) auto

lemma mstep_new:
  assumes "prom_laws P reg" "\<not> made g c" "register_all P (metrics_of c) p = Some (hs, p')" "length hs = length (metrics_of c)"
  shows "\<exists>g' p2. mstep P c (g, p) = Some (g', p2) \<and> reg p2 = reg p' \<and> keeps g g' \<and> (\<forall>d. made g' d \<longleftrightarrow> made g d \<or> d = c)"
proof -
  have set_law: "reg (pm_set P h n q) = reg q" for h n q using assms(1) by (simp add: prom_laws_def)
  show ?thesis
  proof (cases c)
    case (CCache f)
    obtain a b x y where "hs = [a, b, x, y]" using assms(4) CCache by (auto simp: cache_metrics_def list_of_length)
    then show ?thesis using assms(2,3) CCache
      by (auto simp: mstep_def NewCacheMetrics_def Let_def keeps_def map_le_def elim!: made.elims)
  next
    case CDegrade
    then show ?thesis using assms(2,3) set_law
      by (auto simp: mstep_def NewDegradeMetrics_def keeps_def split: option.splits prod.splits elim!: made.elims)
  next
    case (CRate d)
    then show ?thesis using assms(2,3)
      by (auto simp: mstep_def NewRateLimitMetrics_def keeps_def map_le_def split: option.splits prod.splits elim!: made.elims)
  next
    case (CDB n)
    obtain a b x y z where "hs = [a, b, x, y, z]" using assms(4) CDB by (auto simp: db_metrics_def list_of_length)
    then show ?thesis using assms(2,3) CDB
      by (auto simp: mstep_def NewDBMetrics_def Let_def keeps_def map_le_def elim!: made.elims)
  next
    case CFallback
    obtain a b where "hs = [a, b]" using assms(4) CFallback by (auto simp: fallback_metrics_def list_of_length)
    then show ?thesis using assms(2,3) CFallback
      by (auto simp: mstep_def NewFallbackMetrics_def Let_def keeps_def elim!: made.elims)
  next
    case CHTTP
    obtain a b where "hs = [a, b]" using assms(4) CHTTP by (auto simp: http_metrics_def list_of_length)
    moreover have "httpMetrics g = None" using assms(2) CHTTP by (cases "httpMetrics g") auto
    ultimately show ?thesis using assms(3) CHTTP
      by (auto simp: mstep_def initHTTPMetrics_def keeps_def elim!: made.elims)
  qed
qed

definition foreign :: "metric set \<Rightarrow> bool" where
  "foreign base \<longleftrightarrow> (\<forall>x \<in> base. \<forall>c. \<forall>m \<in> set (metrics_of c). \<not> same_metric x m)"

lemma mstep_ok:
  assumes "prom_laws P reg" "foreign base" "registered_inv reg base (g, p)"
  shows "\<exists>g' p'. mstep P c (g, p) = Some (g', p') \<and> registered_inv reg base (g', p') \<and> keeps g g' \<and> (\<forall>d. made g' d \<longleftrightarrow> made g d \<or> d = c)"
proof (cases "made g c")
  case True
  then show ?thesis using mstep_made [OF True, of P p] assms(3) by (intro exI [of _ g] exI [of _ p]) auto
next
  case False
  have "\<not> same_metric x m" if "x \<in> reg p" "m \<in> set (metrics_of c)" for x m
  proof -
    have "x \<in> base \<union> (\<Union>d \<in> {d. made g d}. set (metrics_of d))" using that(1) assms(3) unfolding registered_inv_def by simp
    then consider "x \<in> base" | d where "made g d" "x \<in> set (metrics_of d)" by blast
    then show ?thesis
    proof cases
      case 1
      then show ?thesis using that(2) assms(2) by (simp add: foreign_def)
    next
      case 2
      then have "d \<noteq> c" using False by auto
      then show ?thesis using metrics_apart [OF _ 2(2) that(2)] by simp
    qed
  qed
  then have "\<forall>x \<in> reg p. \<forall>m \<in> set (metrics_of c). \<not> same_metric x m" by blast
  then obtain hs p1 where h: "register_all P (metrics_of c) p = Some (hs, p1)" "length hs = length (metrics_of c)" "reg p1 = reg p \<union> set (metrics_of c)"
    using register_all_fresh [OF assms(1), of "metrics_of c" p] metrics_distinct by blast
  obtain g' p2 where g: "mstep P c (g, p) = Some (g', p2)" "reg p2 = reg p1" "keeps g g'" "\<forall>d. made g' d \<longleftrightarrow> made g d \<or> d = c"
    using mstep_new [OF assms(1) False h(1,2)] by blast
  have "reg p2 = base \<union> (\<Union>d \<in> {d. made g' d}. set (metrics_of d))"
    using g(2,4) h(3) assms(3) by (auto simp: registered_inv_def)
  then show ?thesis using g by (intro exI [of _ g'] exI [of _ p2]) (simp add: registered_inv_def)
qed

lemma msteps_ok:
  "prom_laws P reg \<Longrightarrow> foreign base \<Longrightarrow> registered_inv reg base (g, p) \<Longrightarrow>
   \<exists>g' p'. msteps P cs (g, p) = Some (g', p') \<and> registered_inv reg base (g', p') \<and> keeps g g' \<and> (\<forall>d. made g' d \<longleftrightarrow> made g d \<or> d \<in> set cs)"
proof (induction cs arbitrary: g p)
  case (Cons c cs)
  obtain g1 p1 where s: "mstep P c (g, p) = Some (g1, p1)" "registered_inv reg base (g1, p1)" "keeps g g1"
    "\<forall>d. made g1 d \<longleftrightarrow> made g d \<or> d = c"
    using mstep_ok [OF Cons.prems, of c] by blast
  obtain g' p' where "msteps P cs (g1, p1) = Some (g', p')" "registered_inv reg base (g', p')" "keeps g1 g'"
    "\<forall>d. made g' d \<longleftrightarrow> made g1 d \<or> d \<in> set cs"
    using Cons.IH [OF Cons.prems(1,2) s(2)] by blast
  then show ?case using s keeps_trans [of g g1 g'] by simp
qed simp

text \<open>The metrics constructors never panic and give one instance per name.  In a process where nothing else uses their metric
  names, any sequence of calls of the six constructors succeeds; the registry then holds exactly the metrics of the calls made,
  and a later call with the same argument returns the instance of the first and leaves everything as it is.\<close>

theorem metrics_idempotent:
  assumes "prom_laws P reg" and "foreign (reg p)"
  shows "\<exists>g p'. msteps P cs (no_metrics, p) = Some (g, p') \<and> reg p' = reg p \<union> (\<Union>c \<in> set cs. set (metrics_of c)) \<and>
    (\<forall>family m. cacheMetricsCache g family = Some m \<longrightarrow>
       (\<forall>ds g2 p2. msteps P ds (g, p') = Some (g2, p2) \<longrightarrow> NewCacheMetrics P family (g2, p2) = Some (m, g2, p2)))"
proof -
  have n: "\<not> made no_metrics c" for c by (cases c) (simp_all add: no_metrics_def)
  then have "registered_inv reg (reg p) (no_metrics, p)" by (simp add: registered_inv_def)
  then obtain g p' where g: "msteps P cs (no_metrics, p) = Some (g, p')" "registered_inv reg (reg p) (g, p')"
    "\<forall>d. made g d \<longleftrightarrow> made no_metrics d \<or> d \<in> set cs"
    using msteps_ok [OF assms] by blast
  have "NewCacheMetrics P family (g2, p2) = Some (m, g2, p2)"
    if "cacheMetricsCache g family = Some m" "msteps P ds (g, p') = Some (g2, p2)" for family m ds g2 p2
  proof -
    have "keeps g g2" using msteps_ok [OF assms g(2), of ds] that(2) by auto
    then have "cacheMetricsCache g2 family = Some m" using that(1) unfolding keeps_def map_le_def by (metis domI)
    then show ?thesis by (simp add: NewCacheMetrics_def)
  qed
  moreover have "reg p' = reg p \<union> (\<Union>c \<in> set cs. set (metrics_of c))" using g(2,3) n by (simp add: registered_inv_def)
  ultimately show ?thesis using g(1) by blast
qed

section \<open>The recorded status\<close>

text \<open>What \<open>net/http\<close> sends for a sequence of calls: the status of the first \<open>WriteHeader\<close> that no \<open>Write\<close> precedes, and 200 otherwise.  (An
  informational status 1xx, which is no final status, is left out.)\<close>

fun sent_status :: "wcall list \<Rightarrow> int" where
  "sent_status [] = 200"
| "sent_status (WriteHeader c # cs) = c"
| "sent_status (Write b # cs) = 200"
| "sent_status (SetHeader k v # cs) = sent_status cs"

fun is_write_header :: "wcall \<Rightarrow> bool" where
  "is_write_header (WriteHeader c) = True"
| "is_write_header _ = False"

fun final_calls :: "wcall list \<Rightarrow> wcall list" where
  "final_calls [] = []"
| "final_calls (WriteHeader c # cs) = WriteHeader c # filter (\<lambda>x. \<not> is_write_header x) cs"
| "final_calls (Write b # cs) = Write b # filter (\<lambda>x. \<not> is_write_header x) cs"
| "final_calls (SetHeader k v # cs) = SetHeader k v # final_calls cs"

lemma rec_after: "rec_wroteHeader r \<Longrightarrow>
  fold rec_call cs r = r\<lparr>rec_out := rec_out r @ filter (\<lambda>x. \<not> is_write_header x) cs\<rparr>"
proof (induction cs arbitrary: r)
  case (Cons c cs)
  then show ?case by (cases c) (simp_all add: Let_def)
qed simp

lemma rec_run: "\<not> rec_wroteHeader r \<Longrightarrow> rec_status r = 200 \<Longrightarrow>
  rec_status (fold rec_call cs r) = sent_status cs \<and> rec_out (fold rec_call cs r) = rec_out r @ final_calls cs"
proof (induction cs arbitrary: r)
  case (Cons c cs)
  then show ?case by (cases c) (simp_all add: rec_after Let_def)
qed simp

text \<open>The observing middlewares see what is sent and change nothing of it.  For every handler the metrics middleware passes its writes
  on in order, without the superfluous \<open>WriteHeader\<close> calls, and counts the request exactly once, under the method, the path and the
  status that \<open>net/http\<close> sends for them.\<close>

theorem observed_status_sent:
  assumes "clk s = (t0, s1)" and "handler r s1 = (calls, s2)" and "clk s2 = (t1, s3)"
  shows "HTTPMetricsMiddleware clk inc observe handler r s =
    (final_calls calls, observe [o_method r, o_path r] (t1 - t0) (inc [o_method r, o_path r, itoa (sent_status calls)] s3)) \<and>
    sent_status (final_calls calls) = sent_status calls"
proof -
  have "sent_status (final_calls cs) = sent_status cs" for cs by (induction cs rule: final_calls.induct) auto
  then show ?thesis using assms rec_run [of newStatusRecorder calls] by (simp add: HTTPMetricsMiddleware_def newStatusRecorder_def Let_def)
qed

section \<open>Request ids\<close>

text \<open>Every request has an id.  Behind the request-id middleware the handler reads a request id that is not empty, the client's own
  when it sent one and 16 hex digits otherwise, and the same id is set on the response.\<close>

theorem request_id_propagates:
  "\<exists>ident t1 r'. r' = r\<lparr>o_ctx := Some ident\<rparr> \<and> RequestIDFromRequest (Some r') = ident \<and> ident \<noteq> [] \<and>
     (if o_header r RequestIDHeader = [] then length ident = 16 else ident = o_header r RequestIDHeader \<and> t1 = t) \<and>
     RequestIDMiddleware NewRequestID handler r t = (SetHeader RequestIDHeader ident # fst (handler r' t1), snd (handler r' t1))"
proof (cases "o_header r RequestIDHeader = []")
  case True
  obtain ident t1 where n: "NewRequestID t = (ident, t1)" by fastforce
  have "length ident = 16"
    using n by (auto simp: NewRequestID_def rand_read_def split: prod.splits option.splits if_splits)
  then show ?thesis using n True
    by (intro exI [of _ ident] exI [of _ t1] exI [of _ "r\<lparr>o_ctx := Some ident\<rparr>"])
      (auto simp: RequestIDMiddleware_def WithRequestID_def RequestIDFromRequest_def RequestIDFromContext_def split: prod.splits)
next
  case False
  then show ?thesis
    by (intro exI [of _ "o_header r RequestIDHeader"] exI [of _ t] exI [of _ "r\<lparr>o_ctx := Some (o_header r RequestIDHeader)\<rparr>"])
      (auto simp: RequestIDMiddleware_def WithRequestID_def RequestIDFromRequest_def RequestIDFromContext_def split: prod.splits)
qed

section \<open>Witnesses\<close>

definition list_prom :: "metric list prom" where
  "list_prom = \<lparr>pm_register = (\<lambda>m p. if list_ex (\<lambda>x. same_metric x m) p then None else Some (length p, m # p)),
     pm_set = (\<lambda>h n p. p), pm_inc = (\<lambda>h ls p. p), pm_observe = (\<lambda>h ls v p. p)\<rparr>"

lemma list_prom_laws: "prom_laws list_prom set"
  by (auto simp: prom_laws_def list_prom_def list_ex_iff)

theorem metrics_idempotent_witness:
  "\<exists>g p'. msteps list_prom [CCache ''match'', CDegrade, CCache ''match'', CHTTP] (no_metrics, []) = Some (g, p') \<and>
    set p' = (\<Union>c \<in> {CCache ''match'', CDegrade, CHTTP}. set (metrics_of c))"
proof -
  have "foreign (set [])" by (simp add: foreign_def)
  from metrics_idempotent [OF list_prom_laws this, of "[CCache ''match'', CDegrade, CCache ''match'', CHTTP]"]
  obtain g p' where "msteps list_prom [CCache ''match'', CDegrade, CCache ''match'', CHTTP] (no_metrics, []) = Some (g, p')"
    "set p' = set [] \<union> (\<Union>c \<in> set [CCache ''match'', CDegrade, CCache ''match'', CHTTP]. set (metrics_of c))" by (elim exE conjE) (rule that)
  then show ?thesis by (intro exI [of _ g] exI [of _ p'] conjI) simp_all
qed

definition demo_oreq :: oreq where
  "demo_oreq = \<lparr>o_method = ''GET'', o_path = ''/x'', o_header = (\<lambda>_. []), o_ctx = None, o_remote = []\<rparr>"

definition demo_ohandler :: "string list list ohandler" where
  "demo_ohandler r s = ([WriteHeader 404, Write [1], WriteHeader 200], s)"

theorem observed_status_sent_witness:
  "HTTPMetricsMiddleware (\<lambda>s. (5, s)) (\<lambda>ls s. s @ [ls]) (\<lambda>ls v s. s) demo_ohandler demo_oreq [] =
     ([WriteHeader 404, Write [1]], [[''GET'', ''/x'', itoa 404]])"
proof -
  have "final_calls [WriteHeader 404, Write [1], WriteHeader 200] = [WriteHeader 404, Write [1]]" "sent_status [WriteHeader 404, Write [1], WriteHeader 200] = 404"
    by simp_all
  then show ?thesis
    using observed_status_sent [of "\<lambda>s. (5, s)" "[]" 5 "[]" demo_ohandler demo_oreq "[WriteHeader 404, Write [1], WriteHeader 200]" "[]" 5 "[]"
      "\<lambda>ls s. s @ [ls]" "\<lambda>ls v s. s", OF refl demo_ohandler_def refl]
    by (simp add: demo_oreq_def)
qed

end
