(* ===== verification/ModeGaugeSync.thy ===== *)
theory ModeGaugeSync
  imports Degrade Observability
begin

text \<open>
  The goroutine of \<open>NewServiceContext\<close> that copies the degradation mode into the Prometheus gauge: it subscribes, sets the gauge to the current
  mode and then to each mode it receives.  Its channel is the one \<open>Watch\<close> gave it; the gauge is the value last set.
\<close>

definition gauge_start :: "Manager \<Rightarrow> nat \<times> Manager \<times> int" where
  "gauge_start g = (case Watch g of (i, g1) \<Rightarrow> (i, g1, sint (mgr_Mode g1)))"

definition gauge_recv :: "nat \<Rightarrow> Manager \<times> int \<Rightarrow> Manager \<times> int" where
  "gauge_recv i gx =
     (case gx of (g, x) \<Rightarrow>
        (case mgr_watchers g ! i of
           [] \<Rightarrow> (g, x)
         | m # q \<Rightarrow> (g\<lparr>mgr_watchers := (mgr_watchers g)[i := q]\<rparr>, sint m)))"

text \<open>The goroutine interleaved with operations of the manager (\<open>None\<close> is one receive of the goroutine).  No other consumer reads its
  channel.\<close>

fun gauge_run :: "nat \<Rightarrow> mgr_op option list \<Rightarrow> Manager \<times> int \<Rightarrow> Manager \<times> int" where
  "gauge_run i [] gx = gx"
| "gauge_run i (None # es) gx = gauge_run i es (gauge_recv i gx)"
| "gauge_run i (Some opn # es) gx = gauge_run i es (mgr_run_op opn (fst gx), snd gx)"

definition gauge_inv :: "nat \<Rightarrow> Manager \<times> int \<Rightarrow> bool" where
  "gauge_inv i gx \<longleftrightarrow> mgr_inv (fst gx) \<and> i < length (mgr_watchers (fst gx)) \<and>
     (if mgr_watchers (fst gx) ! i = [] then snd gx = ModeGauge (fst gx) else last (mgr_watchers (fst gx) ! i) = mgr_mode (fst gx))"

lemma gauge_inv_recv: "gauge_inv i gx \<Longrightarrow> gauge_inv i (gauge_recv i gx)"
proof -
  assume inv: "gauge_inv i gx"
  obtain g x where gx: "gx = (g, x)" by force
  show ?thesis
  proof (cases "mgr_watchers g ! i")
    case Nil
    then show ?thesis using inv gx by (simp add: gauge_recv_def)
  next
    case (Cons m q)
    have "mgr_inv (g\<lparr>mgr_watchers := (mgr_watchers g)[i := q]\<rparr>)"
      using mgr_inv_op [of g "OpRecv i"] inv gx Cons by (simp add: gauge_inv_def try_recv_def)
    then show ?thesis using inv gx Cons by (auto simp: gauge_inv_def gauge_recv_def ModeGauge_def split: if_splits)
  qed
qed

lemma gauge_inv_notify:
  assumes "gauge_inv i (g, x)"
  shows "gauge_inv i (g\<lparr>mgr_mode := m, mgr_watchers := notify (mgr_watchers g) m\<rparr>, x)"
proof -
  have i: "i < length (mgr_watchers g)" "length (mgr_watchers g ! i) \<le> watch_cap"
    using assms by (auto simp: gauge_inv_def mgr_inv_def)
  have "mgr_inv (g\<lparr>mgr_mode := m, mgr_watchers := notify (mgr_watchers g) m\<rparr>)"
    using assms mgr_inv_notify [of "mgr_watchers g" m] by (simp add: gauge_inv_def mgr_inv_def)
  then show ?thesis using i last_notify_one [OF i(2), of m] by (simp add: gauge_inv_def notify_def)
qed

lemma gauge_inv_op:
  assumes "gauge_inv i (g, x)" "opn \<noteq> OpRecv i"
  shows "gauge_inv i (mgr_run_op opn g, x)"
proof (cases opn)
  case (OpSet m)
  then show ?thesis using gauge_inv_notify [OF assms(1), of m] assms(1) by (auto simp: mgr_Set_def Let_def)
next
  case (OpPromote m)
  then show ?thesis using gauge_inv_notify [OF assms(1), of m] assms(1) by (simp add: PromoteIfWorse_def)
next
  case (OpDemote m)
  then show ?thesis using gauge_inv_notify [OF assms(1), of m] assms(1) by (simp add: DemoteIfBetter_def)
next
  case OpWatch
  then show ?thesis using assms(1) mgr_inv_op [of g OpWatch]
    by (auto simp: gauge_inv_def Watch_def nth_append ModeGauge_def)
next
  case (OpRecv j)
  then show ?thesis using assms mgr_inv_op [of g "OpRecv j"] by (auto simp: gauge_inv_def ModeGauge_def)
qed

lemma gauge_inv_run: "gauge_inv i gx \<Longrightarrow> Some (OpRecv i) \<notin> set es \<Longrightarrow> gauge_inv i (gauge_run i es gx)"
proof (induction i es gx rule: gauge_run.induct)
  case (3 i opn es gx)
  then show ?case using gauge_inv_op [of i "fst gx" "snd gx" opn] by auto
qed (simp_all add: gauge_inv_recv)

lemma gauge_drains:
  "gauge_inv i gx \<Longrightarrow> length (mgr_watchers (fst gx) ! i) \<le> n \<Longrightarrow>
   snd (gauge_run i (replicate n None) gx) = ModeGauge (fst gx)"
proof (induction n arbitrary: gx)
  case 0
  then show ?case by (auto simp: gauge_inv_def)
next
  case (Suc n)
  have l: "i < length (mgr_watchers (fst gx))" using Suc.prems(1) by (simp add: gauge_inv_def)
  have "length (mgr_watchers (fst (gauge_recv i gx)) ! i) \<le> n"
    using Suc.prems(2) l by (auto simp: gauge_recv_def split: prod.splits list.splits)
  from Suc.IH [OF gauge_inv_recv [OF Suc.prems(1)] this] show ?case
    by (auto simp: gauge_recv_def ModeGauge_def split: prod.splits list.splits)
qed



end
