(* ===== verification/Spec2Isabelle.thy ===== *)
theory Spec2Isabelle
  imports CodecVector HubDemo SessionSpec RpcProcess ModeGaugeSync
begin

text \<open>
  A verification library for apipro, the backend of a live-streaming site: an HTTP and WebSocket gateway
  (\<open>cmd/api\<close>) in front of an RPC service (\<open>cmd/rpc\<close>), with shared packages under \<open>common\<close> and \<open>pkg\<close>.

  \<^bold>\<open>How the program works.\<close>  A client seals a JSON request with AES and posts it to the gateway.  The transport
  middleware opens it, the handler passes method and parameter to the RPC method \<open>Call\<close>, and the answer goes back
  sealed.  Display data is also served in the clear as JSONP, with snapshot files on disk.  \<open>Call\<close> dispatches to twenty
  handlers: eight for accounts, over sessions and SMS codes in Redis and the user table, and twelve for display data, over
  a cache manager (in-process cache, Redis, singleflight, breaker, fallback chain) in front of SQL queries and JSON
  builders.  A degradation manager decides which levels of requests are served, a semaphore bounds the database work, limiters
  bound the requests.  The gateway also runs the chat: a hub of WebSocket clients in rooms, with history in Redis.

  \<^bold>\<open>How it is modelled.\<close>  A Go string is a list of bytes (\<open>char list\<close>), a \<open>[]byte\<close> a list of \<open>8 word\<close>; integers keep their
  width where they can wrap; a nil pointer is \<open>None\<close>; an error result is a sum or option.  Stateful code passes its state
  explicitly.  The language's standard library is modelled where the sources rely on it: UTF-8, \<open>strings\<close>, \<open>strconv\<close>,
  \<open>encoding/json\<close> down to the bytes, \<open>encoding/hex\<close>, base64, MD5, AES, calendar dates, \<open>path/filepath\<close>.  What is not in the repository is
  a parameter: Redis, freecache, breaker and singleflight, the SQL engine, the gRPC connection, the disk, the Prometheus registry.
  Their documented behaviour is a locale (\<open>redis_server\<close> and others) or a predicate on the parameter, and each is
  interpreted by a concrete in-memory instance, on which the witnesses run.  Every reading of the clock is an argument; random bytes
  come from a tape; goroutines that only write later are pending steps; goroutines that interact are step relations.

  \<^bold>\<open>Theories and sources.\<close>

  \<^item> \<open>Prelude\<close>, \<open>GoText\<close>, \<open>GoTime\<close>, \<open>Json\<close>: what the components share of the language and its library.  \<open>Json\<close> proves that parsing
    what was printed gives the value back, and that the recursion bound of the parser is never reached.
  \<^item> \<open>AES\<close>, \<open>Codec\<close>, \<open>CodecVector\<close>: \<open>pkg/codec/codec.go\<close>.  AES from FIPS-197 with its inverse, PKCS7, ECB, the frame; decoding
    accepts exactly the encoder's frames and never panics.
  \<^item> \<open>Transport\<close>: \<open>pkg/codec/middleware.go\<close>.  \<open>Gateway\<close>: \<open>cmd/api\<close> (handlers, snapshots, captcha, routes, middlewares, service
    context).  \<open>GatewayProps\<close>, \<open>GatewayDemo\<close>: a sealed call end to end, what reaches the disk, the captcha, with
    witnesses.  \<open>RpcWire\<close>: \<open>cmd/rpc/apiproClient\<close> and \<open>cmd/rpc/internal/server\<close>, and the gateway joined to the service by the law of
    the channel between them.
  \<^item> \<open>Degrade\<close>: \<open>common/degrade\<close>, with the interleaving of notifiers.  \<open>Semaphore\<close>: \<open>common/db/semaphore.go\<close>, with the
    interleaving of callers.  \<open>RateLimit\<close>: \<open>common/ratelimit\<close>.  \<open>Observability\<close>: \<open>common/observability\<close>.  \<open>ModeGaugeSync\<close>: the goroutine that
    copies the mode into the gauge.
  \<^item> \<open>Redis\<close>: the commands the sources use, their laws and the in-memory server.
  \<^item> \<open>Md5\<close>, \<open>Password\<close>, \<open>Session\<close>: \<open>common/auth\<close>.  \<open>SessionSpec\<close>: the session store refines a list of sessions, whatever the
    sequence of calls and whenever Redis drops expired keys.  \<open>Sms\<close>: \<open>cmd/rpc/internal/svc/sms_store.go\<close>.
  \<^item> \<open>Schema\<close>, \<open>Sql\<close>, \<open>Db\<close>, \<open>Models\<close>: \<open>common/db/db.go\<close> and \<open>common/model\<close>, at the boundary of \<open>database/sql\<close>; \<open>UserTable\<close> gives the
    meaning of the queries on the user table.
  \<^item> \<open>Builders\<close>: \<open>cmd/rpc/internal/svc/builders.go\<close>.  \<open>Cache\<close>, \<open>CacheManager\<close>: \<open>common/cache\<close>.  \<open>GoType\<close>: decoding driven by a static
    type, and which values survive the cache.  \<open>ServiceCtx\<close>: \<open>cmd/rpc/internal/svc/serviceContext.go\<close>.
  \<^item> \<open>CallBase\<close>, \<open>CallAuth\<close>, \<open>CallLogic\<close>: \<open>cmd/rpc/internal/logic/call.go\<close>.  \<open>CallProps\<close>: every call is answered and its answer is well
    formed.  \<open>Accounts\<close>, \<open>Lockout\<close>, \<open>AccountsDemo\<close>: registration and login over sessions, codes, passwords and the user
    table, with witnesses.
  \<^item> \<open>DisplayReads\<close>: the display methods as a table of cached reads; while the database does not change, the caches never show in an answer,
    whatever the interleaving of calls, background writes, evictions and expiries; and how two requests can meet under one key.
    \<open>RpcProcess\<close>: \<open>cmd/rpc/apipro.go\<close>, the process in which refresh jobs and requests share Redis, and what the jobs do to the
    answers.
  \<^item> \<open>Hub\<close>: \<open>pkg/wschat\<close>.  \<open>HubProps\<close>, \<open>HubDemo\<close>: the invariant of the rooms in every interleaving, who receives a comment, and the
    history as a refinement of a bounded log, with witnesses.

  \<^bold>\<open>Bounds.\<close>  The only bounded recursion is that of the JSON parser, whose bound is computed from the length of the text; \<open>fuel_enough\<close>
    in \<open>Json\<close> shows that a larger bound gives the same result.  The nesting limit 10000 is that of \<open>encoding/json\<close>.  Loops of the source
    are structural recursion or have a measure.  A call that waits for a database token that never comes free is the value \<open>None\<close>;
    \<open>Call_answers\<close> shows that a call returns while a token is free.

  \<^bold>\<open>Not modelled.\<close>  The generated protobuf and gRPC code, which is a parameter; flags and configuration files, and the entry point of the gateway beyond its
    middlewares and routes; log lines; the HTTP router and server and the WebSocket library; the read
    and write deadlines of a chat connection, which appear as the end of its pumps; request cancellation other than while waiting for
    a token.  Conversions between integers and doubles inside \<open>encoding/json\<close> and Redis, case folding beyond ASCII and the
    order of map iteration and of \<open>sort.Slice\<close> on equal keys are parameters.
\<close>

end
